(* ===== verification/Mav_Prelude.thy ===== *)
theory Mav_Prelude
  imports Main "HOL-Library.Word" "HOL-Library.Sublist" "HOL-Library.Multiset"
begin

text \<open>
  Shared vocabulary of the development: machine integers, the outcome of a Rust
  computation, byte strings with big-endian readers and writers, checked and saturating
  arithmetic.

  A fallible Rust function returns an \<^emph>\<open>outcome\<close>: \<open>Ok\<close> and \<open>Err\<close> are the two
  constructors of Rust's \<open>Result\<close>, and \<open>Panic\<close> is an aborted computation (an index out of
  range, a buffer read past its end, a failed \<open>expect\<close>). \<open>and_then\<close> is the \<open>?\<close> operator:
  it hands on an error or a panic unchanged.

  \<open>Bytes\<close>, \<open>BytesMut\<close>, \<open>Vec<u8>\<close> and \<open>&[u8]\<close> are byte lists; a cursor over a buffer is the
  list of bytes that remain. A Rust \<open>String\<close> is the list of its UTF-8 bytes. \<open>usize\<close> is a
  64-bit quantity, kept as a natural number with the overflow checks of the source
  written out.
\<close>

named_theorems outcome_simps "equations that evaluate and_then chains"
named_theorems be_simps "facts about the big-endian encodings"

type_synonym u8 = "8 word"
type_synonym u16 = "16 word"
type_synonym u32 = "32 word"
type_synonym u64 = "64 word"
type_synonym i64 = "64 word"
type_synonym bytes = "u8 list"

subsection \<open>Outcomes\<close>

datatype ('a, 'e) outcome = Ok 'a | Err 'e | Panic

fun and_then :: "('a, 'e) outcome \<Rightarrow> ('a \<Rightarrow> ('b, 'e) outcome) \<Rightarrow> ('b, 'e) outcome" where
  "and_then (Ok x) f = f x"
| "and_then (Err e) f = Err e"
| "and_then Panic f = Panic"

fun map_ok :: "('a \<Rightarrow> 'b) \<Rightarrow> ('a, 'e) outcome \<Rightarrow> ('b, 'e) outcome" where
  "map_ok f (Ok x) = Ok (f x)"
| "map_ok f (Err e) = Err e"
| "map_ok f Panic = Panic"

fun map_err :: "('e \<Rightarrow> 'f) \<Rightarrow> ('a, 'e) outcome \<Rightarrow> ('a, 'f) outcome" where
  "map_err f (Ok x) = Ok x"
| "map_err f (Err e) = Err (f e)"
| "map_err f Panic = Panic"

fun ok_or :: "'e \<Rightarrow> 'a option \<Rightarrow> ('a, 'e) outcome" where
  "ok_or e (Some x) = Ok x"
| "ok_or e None = Err e"

text \<open>\<open>Option::unwrap\<close> panics on \<open>None\<close>.\<close>

fun unwrap :: "'a option \<Rightarrow> ('a, 'e) outcome" where
  "unwrap (Some x) = Ok x"
| "unwrap None = Panic"

fun is_ok :: "('a, 'e) outcome \<Rightarrow> bool" where
  "is_ok (Ok x) = True"
| "is_ok (Err e) = False"
| "is_ok Panic = False"

fun to_option :: "('a, 'e) outcome \<Rightarrow> 'a option" where
  "to_option (Ok x) = Some x"
| "to_option (Err e) = None"
| "to_option Panic = None"

text \<open>\<open>fail_if c e k\<close> is an early return \<open>if c { return Err(e) }\<close> followed by \<open>k\<close>.\<close>

definition fail_if :: "bool \<Rightarrow> 'e \<Rightarrow> ('a, 'e) outcome \<Rightarrow> ('a, 'e) outcome" where
  "fail_if c e k = (if c then Err e else k)"

lemma fail_if_simps [simp, outcome_simps]:
  "fail_if True e k = Err e"
  "fail_if False e k = k"
  by (simp_all add: fail_if_def)

lemma fail_if_Ok [simp]: "fail_if c e k = Ok x \<longleftrightarrow> \<not> c \<and> k = Ok x"
  by (simp add: fail_if_def)

lemma fail_if_Panic [simp]: "fail_if c e k = Panic \<longleftrightarrow> \<not> c \<and> k = Panic"
  by (simp add: fail_if_def)

lemma fail_if_Err [simp]: "fail_if c e k = Err e' \<longleftrightarrow> (c \<and> e' = e) \<or> (\<not> c \<and> k = Err e')"
  by (auto simp: fail_if_def)

lemma and_then_Ok_iff: "and_then m f = Ok y \<longleftrightarrow> (\<exists>x. m = Ok x \<and> f x = Ok y)"
  by (cases m) auto

lemma and_then_Err_iff: "and_then m f = Err e \<longleftrightarrow> m = Err e \<or> (\<exists>x. m = Ok x \<and> f x = Err e)"
  by (cases m) auto

lemma and_then_Panic_iff: "and_then m f = Panic \<longleftrightarrow> m = Panic \<or> (\<exists>x. m = Ok x \<and> f x = Panic)"
  by (cases m) auto

lemma map_ok_Ok_iff [simp]: "map_ok f m = Ok y \<longleftrightarrow> (\<exists>x. m = Ok x \<and> y = f x)"
  by (cases m) auto

lemma map_ok_Panic_iff [simp]: "map_ok f m = Panic \<longleftrightarrow> m = Panic"
  by (cases m) auto

lemma map_ok_Err_iff [simp]: "map_ok f m = Err e \<longleftrightarrow> m = Err e"
  by (cases m) auto

lemma to_option_Some_iff [simp]: "to_option m = Some x \<longleftrightarrow> m = Ok x"
  by (cases m) auto

lemma ok_or_iff [simp]:
  "ok_or e m = Ok x \<longleftrightarrow> m = Some x"
  "ok_or e m \<noteq> Panic"
  "ok_or e m = Err e' \<longleftrightarrow> m = None \<and> e' = e"
  by (cases m; auto)+

lemma is_ok_iff: "is_ok m \<longleftrightarrow> (\<exists>x. m = Ok x)"
  by (cases m) auto

subsection \<open>Machine arithmetic\<close>

definition USIZE_MAX :: nat where
  "USIZE_MAX = 18446744073709551615"

definition checked_add_usize :: "nat \<Rightarrow> nat \<Rightarrow> nat option" where
  "checked_add_usize a b = (if a + b \<le> USIZE_MAX then Some (a + b) else None)"

text \<open>A plain addition of two \<open>usize\<close> values panics when it overflows (with overflow checks on; without them it wraps).\<close>

definition add_usize :: "nat \<Rightarrow> nat \<Rightarrow> (nat, 'e) outcome" where
  "add_usize a b = (if a + b \<le> USIZE_MAX then Ok (a + b) else Panic)"

definition saturating_sub :: "nat \<Rightarrow> nat \<Rightarrow> nat" where
  "saturating_sub a b = a - b"

definition div_ceil :: "nat \<Rightarrow> nat \<Rightarrow> nat" where
  "div_ceil a b = (if a mod b = 0 then a div b else a div b + 1)"

text \<open>Signed 64-bit values are words read by \<open>sint\<close>.\<close>

definition I64_MIN :: int where "I64_MIN = - 9223372036854775808"
definition I64_MAX :: int where "I64_MAX = 9223372036854775807"

definition i64_lt :: "i64 \<Rightarrow> i64 \<Rightarrow> bool" where
  "i64_lt a b = (sint a < sint b)"

definition i64_le :: "i64 \<Rightarrow> i64 \<Rightarrow> bool" where
  "i64_le a b = (sint a \<le> sint b)"

definition checked_sub_i64 :: "i64 \<Rightarrow> i64 \<Rightarrow> i64 option" where
  "checked_sub_i64 a b =
     (let d = sint a - sint b in if I64_MIN \<le> d \<and> d \<le> I64_MAX then Some (a - b) else None)"

definition checked_add_i64 :: "i64 \<Rightarrow> i64 \<Rightarrow> i64 option" where
  "checked_add_i64 a b =
     (let d = sint a + sint b in if I64_MIN \<le> d \<and> d \<le> I64_MAX then Some (a + b) else None)"

definition saturating_sub_i64 :: "i64 \<Rightarrow> i64 \<Rightarrow> i64" where
  "saturating_sub_i64 a b =
     (let d = sint a - sint b in
      if d < I64_MIN then word_of_int I64_MIN
      else if I64_MAX < d then word_of_int I64_MAX else a - b)"

lemma sint_i64_range: "I64_MIN \<le> sint (a :: i64)" "sint (a :: i64) \<le> I64_MAX"
  using sint_range_size [of a] by (simp_all add: I64_MIN_def I64_MAX_def word_size)

lemma sint_of_int_i64: "I64_MIN \<le> d \<Longrightarrow> d \<le> I64_MAX \<Longrightarrow> sint (word_of_int d :: i64) = d"
  by (simp add: signed_of_int signed_take_bit_int_eq_self I64_MIN_def I64_MAX_def)

lemma sint_sub_i64:
  assumes "I64_MIN \<le> sint a - sint b" "sint a - sint b \<le> I64_MAX"
  shows "sint ((a :: i64) - b) = sint a - sint b"
proof -
  have "a - b = word_of_int (sint a - sint b)" by simp
  with assms show ?thesis by (simp only: sint_of_int_i64)
qed

lemma sint_add_i64:
  assumes "I64_MIN \<le> sint a + sint b" "sint a + sint b \<le> I64_MAX"
  shows "sint ((a :: i64) + b) = sint a + sint b"
proof -
  have "a + b = word_of_int (sint a + sint b)" by simp
  with assms show ?thesis by (simp only: sint_of_int_i64)
qed

lemma checked_sub_i64_Some:
  "checked_sub_i64 a b = Some c \<Longrightarrow> sint c = sint a - sint b"
  by (auto simp: checked_sub_i64_def Let_def sint_sub_i64 split: if_splits)

lemma checked_add_i64_Some:
  "checked_add_i64 a b = Some c \<Longrightarrow> sint c = sint a + sint b"
  by (auto simp: checked_add_i64_def Let_def sint_add_i64 split: if_splits)

lemma checked_sub_saturating_i64:
  "checked_sub_i64 a b = Some c \<Longrightarrow> saturating_sub_i64 a b = c"
  by (auto simp: checked_sub_i64_def saturating_sub_i64_def Let_def split: if_splits)

lemma sint_saturating_sub_i64:
  "sint (saturating_sub_i64 a b) = max I64_MIN (min I64_MAX (sint a - sint b))"
  by (auto simp: saturating_sub_i64_def Let_def sint_sub_i64 sint_of_int_i64 I64_MIN_def I64_MAX_def)

lemma div_ceil_mult_ge:
  assumes "0 < b"
  shows "a \<le> div_ceil a b * b"
proof (cases "a mod b = 0")
  case True
  then show ?thesis using div_mult_mod_eq [of a b] by (simp add: div_ceil_def)
next
  case False
  have "a = a div b * b + a mod b" by simp
  also have "\<dots> \<le> a div b * b + b" using mod_le_divisor [OF assms] by (rule add_left_mono)
  finally show ?thesis using False by (simp add: div_ceil_def)
qed

lemma div_ceil_pos: "0 < a \<Longrightarrow> 0 < b \<Longrightarrow> 0 < div_ceil a b"
  by (auto simp: div_ceil_def)

subsection \<open>Big-endian integers\<close>

fun be :: "nat \<Rightarrow> nat \<Rightarrow> bytes" where
  "be 0 v = []"
| "be (Suc n) v = be n (v div 256) @ [of_nat (v mod 256)]"

definition be_nat :: "bytes \<Rightarrow> nat" where
  "be_nat bs = foldl (\<lambda>a b. a * 256 + unat b) 0 bs"

lemma length_be [simp, be_simps]: "length (be n v) = n"
  by (induction n v rule: be.induct) simp_all

lemma be_nat_Nil [simp]: "be_nat [] = 0"
  by (simp add: be_nat_def)

lemma be_nat_snoc [simp]: "be_nat (bs @ [b]) = be_nat bs * 256 + unat b"
  by (simp add: be_nat_def)

lemma unat_less_pow: "unat (w :: 'a::len word) < 2 ^ LENGTH('a)"
  by (rule unsigned_less)

lemma unat_u8_less: "unat (b :: u8) < 256"
  using unat_less_pow [of b] by simp

lemma be_nat_be [simp, be_simps]: "be_nat (be n v) = v mod 256 ^ n"
proof (induction n v rule: be.induct)
  case (2 n v)
  have "be_nat (be (Suc n) v) = (v div 256 mod 256 ^ n) * 256 + v mod 256"
    using 2 by (simp add: unat_of_nat)
  also have "\<dots> = v mod (256 * 256 ^ n)"
    by (simp add: mod_mult2_eq)
  finally show ?case by (simp add: mult.commute)
qed simp

lemma be_nat_less: "be_nat bs < 256 ^ length bs"
proof (induction bs rule: rev_induct)
  case (snoc b bs)
  then have "Suc (be_nat bs) \<le> 256 ^ length bs" by simp
  then have "Suc (be_nat bs) * 256 \<le> 256 ^ length bs * 256" by (rule mult_le_mono1)
  with unat_u8_less [of b] show ?case by (simp add: mult.commute)
qed simp

lemma be_be_nat [simp, be_simps]: "be (length bs) (be_nat bs) = bs"
proof (induction bs rule: rev_induct)
  case (snoc b bs)
  have "(be_nat bs * 256 + unat b) div 256 = be_nat bs"
    and "(be_nat bs * 256 + unat b) mod 256 = unat b"
    using unat_u8_less [of b] by simp_all
  with snoc show ?case by simp
qed simp

lemma be_be_nat': "length bs = n \<Longrightarrow> be n (be_nat bs) = bs"
  by auto

lemma be_inject: "a < 256 ^ n \<Longrightarrow> b < 256 ^ n \<Longrightarrow> be n a = be n b \<longleftrightarrow> a = b"
  by (metis be_nat_be mod_less)

text \<open>\<open>to_be_bytes\<close> of the unsigned types, and \<open>from_be_bytes\<close>.\<close>

definition put_u8 :: "u8 \<Rightarrow> bytes" where "put_u8 w = [w]"
definition put_u16 :: "u16 \<Rightarrow> bytes" where "put_u16 w = be 2 (unat w)"
definition put_u32 :: "u32 \<Rightarrow> bytes" where "put_u32 w = be 4 (unat w)"
definition put_u64 :: "u64 \<Rightarrow> bytes" where "put_u64 w = be 8 (unat w)"

definition u16_from_be :: "bytes \<Rightarrow> u16" where "u16_from_be bs = of_nat (be_nat bs)"
definition u32_from_be :: "bytes \<Rightarrow> u32" where "u32_from_be bs = of_nat (be_nat bs)"
definition u64_from_be :: "bytes \<Rightarrow> u64" where "u64_from_be bs = of_nat (be_nat bs)"

lemmas put_defs = put_u8_def put_u16_def put_u32_def put_u64_def
lemmas from_be_defs = u16_from_be_def u32_from_be_def u64_from_be_def

lemma length_put [simp]:
  "length (put_u8 a) = 1" "length (put_u16 b) = 2" "length (put_u32 c) = 4" "length (put_u64 d) = 8"
  by (simp_all add: put_defs)

lemma unat_bounds:
  "unat (b :: u16) < 65536" "unat (c :: u32) < 4294967296" "unat (d :: u64) < 18446744073709551616"
  using unat_less_pow [of b] unat_less_pow [of c] unat_less_pow [of d] by simp_all

lemma unat_u16_le [simp]: "unat (b :: u16) \<le> 65535" "\<not> 65535 < unat (b :: u16)"
  using unat_bounds(1) [of b] by simp_all

lemma from_be_put [simp, be_simps]:
  "u16_from_be (put_u16 b) = b" "u32_from_be (put_u32 c) = c" "u64_from_be (put_u64 d) = d"
  using unat_bounds(1) [of b] unat_bounds(2) [of c] unat_bounds(3) [of d] by (simp_all add: put_defs from_be_defs)

lemma put_from_be [be_simps]:
  "length bs = 2 \<Longrightarrow> put_u16 (u16_from_be bs) = bs"
  "length bs = 4 \<Longrightarrow> put_u32 (u32_from_be bs) = bs"
  "length bs = 8 \<Longrightarrow> put_u64 (u64_from_be bs) = bs"
  using be_nat_less [of bs] by (auto simp: put_defs from_be_defs unat_of_nat be_be_nat')

lemma put_inject [simp]:
  "put_u8 a = put_u8 a' \<longleftrightarrow> a = a'" "put_u16 b = put_u16 b' \<longleftrightarrow> b = b'"
  "put_u32 c = put_u32 c' \<longleftrightarrow> c = c'" "put_u64 d = put_u64 d' \<longleftrightarrow> d = d'"
  by (simp add: put_defs, (metis from_be_put)+)

lemma unat_from_be:
  "length bs = 2 \<Longrightarrow> unat (u16_from_be bs) = be_nat bs"
  "length bs = 4 \<Longrightarrow> unat (u32_from_be bs) = be_nat bs"
  "length bs = 8 \<Longrightarrow> unat (u64_from_be bs) = be_nat bs"
  using be_nat_less [of bs] by (auto simp: from_be_defs unat_of_nat)

lemma unat_of_nat_le:
  "n < 65536 \<Longrightarrow> unat (of_nat n :: u16) = n"
  "n < 4294967296 \<Longrightarrow> unat (of_nat n :: u32) = n"
  "n < 256 \<Longrightarrow> unat (of_nat n :: u8) = n"
  by (simp_all add: unat_of_nat)

lemma of_nat_u16_inject:
  assumes "a \<le> 65535" "b \<le> 65535"
  shows "(of_nat a :: u16) = of_nat b \<longleftrightarrow> a = b"
proof -
  have "a < 65536" "b < 65536" using assms by simp_all
  then show ?thesis by (metis unat_of_nat_le(1))
qed

lemma of_nat_u8_inject:
  assumes "a \<le> 32" "b \<le> 32"
  shows "(of_nat a :: u8) = of_nat b \<longleftrightarrow> a = b"
proof -
  have "a < 256" "b < 256" using assms by simp_all
  then show ?thesis by (metis unat_of_nat_le(3))
qed

subsection \<open>Cursors over a buffer\<close>

text \<open>
  Reading past the end of a buffer panics, as \<open>Buf::get_u8\<close>, \<open>Buf::copy_to_bytes\<close> and slice
  indexing do.
\<close>

definition copy_to_bytes :: "nat \<Rightarrow> bytes \<Rightarrow> (bytes \<times> bytes, 'e) outcome" where
  "copy_to_bytes n b = (if n \<le> length b then Ok (take n b, drop n b) else Panic)"

definition get_u8 :: "bytes \<Rightarrow> (u8 \<times> bytes, 'e) outcome" where
  "get_u8 b = (case b of [] \<Rightarrow> Panic | x # r \<Rightarrow> Ok (x, r))"

definition get_u16 :: "bytes \<Rightarrow> (u16 \<times> bytes, 'e) outcome" where
  "get_u16 b = map_ok (\<lambda>(h, r). (u16_from_be h, r)) (copy_to_bytes 2 b)"

definition get_u32 :: "bytes \<Rightarrow> (u32 \<times> bytes, 'e) outcome" where
  "get_u32 b = map_ok (\<lambda>(h, r). (u32_from_be h, r)) (copy_to_bytes 4 b)"

definition get_u64 :: "bytes \<Rightarrow> (u64 \<times> bytes, 'e) outcome" where
  "get_u64 b = map_ok (\<lambda>(h, r). (u64_from_be h, r)) (copy_to_bytes 8 b)"

text \<open>The sub-slice \<open>b[i .. i + n]\<close> and the element \<open>b[i]\<close>.\<close>

definition byte_slice :: "nat \<Rightarrow> nat \<Rightarrow> bytes \<Rightarrow> (bytes, 'e) outcome" where
  "byte_slice i n b = (if i + n \<le> length b then Ok (take n (drop i b)) else Panic)"

definition byte_at :: "bytes \<Rightarrow> nat \<Rightarrow> (u8, 'e) outcome" where
  "byte_at b i = (if i < length b then Ok (b ! i) else Panic)"

lemma copy_to_bytes_append [simp, outcome_simps]:
  "length xs = n \<Longrightarrow> copy_to_bytes n (xs @ r) = Ok (xs, r)"
  by (simp add: copy_to_bytes_def)

lemma copy_to_bytes_exact [simp, outcome_simps]:
  "length xs = n \<Longrightarrow> copy_to_bytes n xs = Ok (xs, [])"
  by (simp add: copy_to_bytes_def)

lemma get_u8_put [simp, outcome_simps]: "get_u8 (put_u8 w @ r) = Ok (w, r)" "get_u8 (w # r) = Ok (w, r)"
  by (simp_all add: get_u8_def put_u8_def)

lemma get_put [simp, outcome_simps]:
  "get_u16 (put_u16 b @ r) = Ok (b, r)"
  "get_u32 (put_u32 c @ r) = Ok (c, r)"
  "get_u64 (put_u64 d @ r) = Ok (d, r)"
  by (simp_all add: get_u16_def get_u32_def get_u64_def)

lemma get_put_exact [simp, outcome_simps]:
  "get_u16 (put_u16 b) = Ok (b, [])"
  "get_u32 (put_u32 c) = Ok (c, [])"
  "get_u64 (put_u64 d) = Ok (d, [])"
  by (simp_all add: get_u16_def get_u32_def get_u64_def)

lemma copy_to_bytes_OkD:
  "copy_to_bytes n b = Ok (x, r) \<Longrightarrow> b = x @ r \<and> length x = n"
  by (auto simp: copy_to_bytes_def split: if_splits)

lemma get_u8_OkD: "get_u8 b = Ok (x, r) \<Longrightarrow> b = put_u8 x @ r"
  by (auto simp: get_u8_def put_u8_def split: list.splits)

lemma get_OkD:
  "get_u16 b = Ok (x, r) \<Longrightarrow> b = put_u16 x @ r"
  "get_u32 b = Ok (y, r) \<Longrightarrow> b = put_u32 y @ r"
  "get_u64 b = Ok (z, r) \<Longrightarrow> b = put_u64 z @ r"
  by (auto simp: get_u16_def get_u32_def get_u64_def put_from_be dest!: copy_to_bytes_OkD)

lemmas cursor_OkD = copy_to_bytes_OkD get_u8_OkD get_OkD

lemma cursor_not_Panic [simp]:
  "copy_to_bytes n b = Panic \<longleftrightarrow> length b < n"
  "get_u8 b = Panic \<longleftrightarrow> length b < 1"
  "get_u16 b = Panic \<longleftrightarrow> length b < 2"
  "get_u32 b = Panic \<longleftrightarrow> length b < 4"
  "get_u64 b = Panic \<longleftrightarrow> length b < 8"
  by (auto simp: copy_to_bytes_def get_u8_def get_u16_def get_u32_def get_u64_def
      split: list.splits)

lemma cursor_not_Err [simp]:
  "copy_to_bytes n b \<noteq> Err e" "get_u8 b \<noteq> Err e" "get_u16 b \<noteq> Err e"
  "get_u32 b \<noteq> Err e" "get_u64 b \<noteq> Err e"
  by (auto simp: copy_to_bytes_def get_u8_def get_u16_def get_u32_def get_u64_def
      split: list.splits)

lemma byte_slice_simps [simp, outcome_simps]:
  "i + n \<le> length b \<Longrightarrow> byte_slice i n b = Ok (take n (drop i b))"
  by (simp add: byte_slice_def)

lemma byte_at_simps [simp, outcome_simps]: "i < length b \<Longrightarrow> byte_at b i = Ok (b ! i)"
  by (simp add: byte_at_def)

end
