(* ===== verification/Mav_Text.thy ===== *)
theory Mav_Text
  imports Mav_Prelude
begin

text \<open>
  Text as the program sees it. A Rust \<open>String\<close> or \<open>&str\<close> is the list of its UTF-8 bytes;
  \<open>utf8_valid\<close> is the check made by \<open>String::from_utf8\<close> and \<open>str::from_utf8\<close> (Unicode
  well-formedness, Table 3-7). \<open>ascii\<close> turns a literal into bytes and \<open>dec\<close> is the decimal
  rendering \<open>to_string\<close> and \<open>format!\<close> give an unsigned integer.
\<close>

definition ascii :: "string \<Rightarrow> bytes" where
  "ascii s = map of_char s"

definition cont_byte :: "u8 \<Rightarrow> bool" where
  "cont_byte b = (0x80 \<le> b \<and> b \<le> 0xBF)"

definition second_of_three :: "u8 \<Rightarrow> u8 \<Rightarrow> bool" where
  "second_of_three b0 b1 =
     (if b0 = 0xE0 then 0xA0 \<le> b1 \<and> b1 \<le> 0xBF
      else if b0 = 0xED then 0x80 \<le> b1 \<and> b1 \<le> 0x9F
      else cont_byte b1)"

definition second_of_four :: "u8 \<Rightarrow> u8 \<Rightarrow> bool" where
  "second_of_four b0 b1 =
     (if b0 = 0xF0 then 0x90 \<le> b1 \<and> b1 \<le> 0xBF
      else if b0 = 0xF4 then 0x80 \<le> b1 \<and> b1 \<le> 0x8F
      else cont_byte b1)"

text \<open>The length of the character a byte string starts with; 0 if it is ill-formed.\<close>

definition utf8_char_len :: "bytes \<Rightarrow> nat" where
  "utf8_char_len b =
     (case b of [] \<Rightarrow> 0
      | b0 # r \<Rightarrow>
        if b0 < 0x80 then 1
        else if 0xC2 \<le> b0 \<and> b0 \<le> 0xDF then
          (case r of b1 # _ \<Rightarrow> if cont_byte b1 then 2 else 0 | _ \<Rightarrow> 0)
        else if 0xE0 \<le> b0 \<and> b0 \<le> 0xEF then
          (case r of b1 # b2 # _ \<Rightarrow> if second_of_three b0 b1 \<and> cont_byte b2 then 3 else 0 | _ \<Rightarrow> 0)
        else if 0xF0 \<le> b0 \<and> b0 \<le> 0xF4 then
          (case r of b1 # b2 # b3 # _ \<Rightarrow>
             if second_of_four b0 b1 \<and> cont_byte b2 \<and> cont_byte b3 then 4 else 0 | _ \<Rightarrow> 0)
        else 0)"

function utf8_valid :: "bytes \<Rightarrow> bool" where
  "utf8_valid b =
     (if b = [] then True
      else if utf8_char_len b = 0 then False
      else utf8_valid (drop (utf8_char_len b) b))"
  by pat_completeness auto
termination
  by (relation "measure length") auto

declare utf8_valid.simps [simp del]

definition from_utf8 :: "bytes \<Rightarrow> bytes option" where
  "from_utf8 b = (if utf8_valid b then Some b else None)"

fun dec :: "nat \<Rightarrow> bytes" where
  "dec n = (if n < 10 then [of_nat (48 + n)] else dec (n div 10) @ [of_nat (48 + n mod 10)])"

declare dec.simps [simp del]

fun undec :: "bytes \<Rightarrow> nat" where
  "undec bs = foldl (\<lambda>a b. a * 10 + (unat b - 48)) 0 bs"

declare undec.simps [simp del]

lemma length_ascii [simp]: "length (ascii s) = length s"
  by (simp add: ascii_def)

lemma unat_of_char: "unat (of_char c :: u8) = of_char c"
  using unat_of_nat_le(3) [OF nat_of_char_less_256, of c] by (simp only: of_nat_of_char)

lemma of_char_u8_inject: "(of_char c :: u8) = of_char d \<longleftrightarrow> c = d"
  by (metis unat_of_char of_char_eq_iff)

lemma ascii_inject [simp]: "ascii s = ascii t \<longleftrightarrow> s = t"
  unfolding ascii_def by (rule inj_map_eq_map) (simp add: inj_def of_char_u8_inject)

lemma from_utf8_Some [simp]: "from_utf8 b = Some s \<longleftrightarrow> utf8_valid b \<and> s = b"
  by (auto simp: from_utf8_def)

lemma from_utf8_None [simp]: "from_utf8 b = None \<longleftrightarrow> \<not> utf8_valid b"
  by (auto simp: from_utf8_def)

lemma utf8_char_len_append:
  assumes "0 < utf8_char_len b"
  shows "utf8_char_len (b @ c) = utf8_char_len b \<and> utf8_char_len b \<le> length b"
proof -
  obtain b0 r where b: "b = b0 # r" using assms by (cases b) (simp_all add: utf8_char_len_def)
  show ?thesis
  proof (cases r)
    case Nil
    with assms show ?thesis by (simp add: b utf8_char_len_def split: if_split_asm)
  next
    case r1: (Cons b1 r1)
    show ?thesis
    proof (cases r1)
      case Nil
      with assms show ?thesis by (simp add: b r1 utf8_char_len_def split: if_split_asm)
    next
      case r2: (Cons b2 r2)
      show ?thesis using assms by (cases r2) (simp_all add: b r1 r2 utf8_char_len_def split: if_split_asm)
    qed
  qed
qed

lemma utf8_valid_Nil [simp]: "utf8_valid []"
  by (subst utf8_valid.simps) simp

lemma utf8_valid_ascii: "\<forall>b \<in> set bs. b < 0x80 \<Longrightarrow> utf8_valid bs"
proof (induction bs)
  case (Cons b bs)
  then have "utf8_char_len (b # bs) = 1" by (simp add: utf8_char_len_def)
  with Cons show ?case by (subst utf8_valid.simps) simp
qed simp

lemma utf8_valid_append: "utf8_valid xs \<Longrightarrow> utf8_valid (xs @ ys) = utf8_valid ys"
proof (induction xs rule: utf8_valid.induct)
  case (1 b)
  show ?case
  proof (cases "b = []")
    case False
    from "1.prems" False have p: "0 < utf8_char_len b" and v: "utf8_valid (drop (utf8_char_len b) b)"
      by (simp_all add: utf8_valid.simps [of b] split: if_splits)
    from utf8_char_len_append [OF p, of ys]
    have l: "utf8_char_len (b @ ys) = utf8_char_len b" "utf8_char_len b \<le> length b" by auto
    have "utf8_valid (b @ ys) = utf8_valid (drop (utf8_char_len b) b @ ys)"
      using p l False by (simp add: utf8_valid.simps [of "b @ ys"])
    also have "\<dots> = utf8_valid ys" using False p v by (intro "1.IH") auto
    finally show ?thesis .
  qed simp
qed

lemma dec_nonempty [simp]: "dec n \<noteq> []"
  by (subst dec.simps) simp

lemma undec_dec [simp]: "undec (dec n) = n"
proof (induction n rule: dec.induct)
  case (1 n)
  have d: "unat (of_nat (48 + m) :: u8) = 48 + m" if "m < 10" for m
    using that by (intro unat_of_nat_le) simp
  show ?case
  proof (cases "n < 10")
    case True
    with d [of n] show ?thesis
      by (simp only: dec.simps [of n] undec.simps) simp
  next
    case False
    with 1 have "undec (dec (n div 10)) = n div 10" by simp
    moreover have "undec (dec n) = undec (dec (n div 10)) * 10 + n mod 10"
      using False d [of "n mod 10"] by (simp only: dec.simps [of n] undec.simps) simp
    ultimately show ?thesis by simp
  qed
qed

lemma dec_inject [simp]: "dec m = dec n \<longleftrightarrow> m = n"
  by (metis undec_dec)

lemma dec_digits: "b \<in> set (dec n) \<Longrightarrow> 48 \<le> b \<and> b \<le> 57"
proof (induction n rule: dec.induct)
  case (1 n)
  have r: "48 \<le> (of_nat (48 + m) :: u8) \<and> (of_nat (48 + m) :: u8) \<le> 57" if "m < 10" for m
    using that by (simp only: word_le_nat_alt unat_of_nat_le) simp
  show ?case
  proof (cases "n < 10")
    case True
    with 1 r [of n] show ?thesis by (simp only: dec.simps [of n]) simp
  next
    case False
    with "1.prems" have "b \<in> set (dec (n div 10)) \<or> b = of_nat (48 + n mod 10)"
      by (simp only: dec.simps [of n]) auto
    with "1.IH" False r [of "n mod 10"] show ?thesis by auto
  qed
qed

end
