(* ===== verification/Mav_Error.thy ===== *)
theory Mav_Error
  imports Mav_Text
begin

text \<open>
  The error type shared by the protocol and parser code (\<open>maverick-core/src/error.rs\<close>).
  The payloads of \<open>Yaml\<close> and \<open>Io\<close> are values of other libraries and are left out.
\<close>

datatype error =
    Config string
  | InvalidSecret
  | FrameTooLarge nat nat
  | UnknownFrameType u8
  | MalformedFrame string
  | Auth
  | Noise string
  | Replay string
  | Random string
  | Yaml
  | Io

type_synonym 'a result = "('a, error) outcome"

end
