(* ===== verification/Mode_Secret.thy ===== *)
theory Mode_Secret
  imports Mav_Text Mav_Error
begin

text \<open>
  The product mode and the credential secret, the first types of
  \<open>maverick-core/src/config.rs\<close>. A secret is the UTF-8 bytes of its string. The base64url
  codec is library code: \<open>b64enc\<close> and \<open>b64dec\<close> stand for \<open>URL_SAFE_NO_PAD\<close>. The operating
  system's random generator is a state \<open>'r\<close> with one call \<open>os\<close> that fills a buffer or fails.
\<close>

type_synonym 'r os_rng = "'r \<Rightarrow> nat \<Rightarrow> bytes option \<times> 'r"

definition rng_ok :: "'r os_rng \<Rightarrow> bool" where
  "rng_ok os = (\<forall>r n b. fst (os r n) = Some b \<longrightarrow> length b = n)"

datatype Mode = Auto | Stable | Private

fun Mode_wire_id :: "Mode \<Rightarrow> u8" where
  "Mode_wire_id Auto = 0"
| "Mode_wire_id Stable = 1"
| "Mode_wire_id Private = 2"

definition Mode_from_wire_id :: "u8 \<Rightarrow> Mode result" where
  "Mode_from_wire_id v =
     (if v = 0 then Ok Auto
      else if v = 1 then Ok Stable
      else if v = 2 then Ok Private
      else Err (MalformedFrame ''unknown mode''))"

lemma Mode_from_wire_id_wire_id [simp]: "Mode_from_wire_id (Mode_wire_id m) = Ok m"
  by (cases m) (simp_all add: Mode_from_wire_id_def)

lemma Mode_from_wire_id_OkD: "Mode_from_wire_id v = Ok m \<Longrightarrow> Mode_wire_id m = v"
  by (auto simp: Mode_from_wire_id_def split: if_splits)

lemma Mode_from_wire_id_not_Panic [simp]: "Mode_from_wire_id v \<noteq> Panic"
  by (simp add: Mode_from_wire_id_def)

lemma Mode_wire_id_inject [simp]: "Mode_wire_id m = Mode_wire_id m' \<longleftrightarrow> m = m'"
  by (cases m; cases m') simp_all

subsection \<open>Secrets\<close>

type_synonym SecretString = bytes

definition PREFIX :: bytes where "PREFIX = ascii ''mv1_''"
definition MIN_SECRET_BYTES :: nat where "MIN_SECRET_BYTES = 32"

definition strip_prefix :: "bytes \<Rightarrow> bytes \<Rightarrow> bytes option" where
  "strip_prefix p s = (if take (length p) s = p then Some (drop (length p) s) else None)"

definition expose_secret :: "SecretString \<Rightarrow> bytes" where
  "expose_secret s = s"

definition SecretString_validate :: "(bytes \<Rightarrow> bytes option) \<Rightarrow> SecretString \<Rightarrow> unit result" where
  "SecretString_validate b64dec s =
     and_then (ok_or InvalidSecret (strip_prefix PREFIX s)) (\<lambda>encoded.
     and_then (ok_or InvalidSecret (b64dec encoded)) (\<lambda>decoded.
     fail_if (length decoded < MIN_SECRET_BYTES) InvalidSecret (Ok ())))"

definition SecretString_new :: "(bytes \<Rightarrow> bytes option) \<Rightarrow> bytes \<Rightarrow> SecretString result" where
  "SecretString_new b64dec value =
     and_then (SecretString_validate b64dec value) (\<lambda>_. Ok value)"

definition SecretString_generate ::
  "(bytes \<Rightarrow> bytes) \<Rightarrow> 'r os_rng \<Rightarrow> 'r \<Rightarrow> SecretString result \<times> 'r" where
  "SecretString_generate b64enc os r =
     (case os r MIN_SECRET_BYTES of
        (None, r') \<Rightarrow> (Panic, r')
      | (Some b, r') \<Rightarrow> (Ok (PREFIX @ b64enc b), r'))"

lemma strip_prefix_append [simp]: "strip_prefix p (p @ s) = Some s"
  by (simp add: strip_prefix_def)

lemma strip_prefix_Some_iff [simp]: "strip_prefix p s = Some t \<longleftrightarrow> s = p @ t"
  by (auto simp: strip_prefix_def) (metis append_take_drop_id)

lemma SecretString_validate_iff:
  "SecretString_validate b64dec s = Ok () \<longleftrightarrow>
     (\<exists>e d. s = PREFIX @ e \<and> b64dec e = Some d \<and> 32 \<le> length d)"
  by (auto simp: SecretString_validate_def and_then_Ok_iff MIN_SECRET_BYTES_def)

text \<open>A generated secret passes validation, whatever the random bytes are.\<close>

lemma SecretString_generate_valid:
  assumes "rng_ok os" "\<And>b. b64dec (b64enc b) = Some b"
    and "SecretString_generate b64enc os r = (Ok s, r')"
  shows "SecretString_validate b64dec s = Ok ()"
proof -
  from assms(3) obtain b where b: "os r MIN_SECRET_BYTES = (Some b, r')" "s = PREFIX @ b64enc b"
    by (auto simp: SecretString_generate_def split: prod.splits option.splits)
  have "length b = MIN_SECRET_BYTES" using assms(1) b(1) unfolding rng_ok_def by (metis fst_conv)
  with b(2) assms(2) show ?thesis by (auto simp: SecretString_validate_iff MIN_SECRET_BYTES_def)
qed

end
