(* ===== verification/Auth_Hello.thy ===== *)
theory Auth_Hello
  imports Mode_Secret
begin

text \<open>
  The authenticated hellos of protocol versions 1 and 2, \<open>maverick-core/src/auth.rs\<close>: their
  wire formats, the transcripts under their authentication tags, and the constructors and
  verifiers. The cryptographic library is the record \<open>Crypto\<close> of its three operations: HMAC
  over the concatenation of all \<open>update\<close> calls, the 32-byte HKDF expansion for a salt, a key
  and an info string, and the constant-time comparison. The random generator is threaded as a
  state and the clock is the argument \<open>now\<close>. 32-byte arrays are byte lists; the predicates
  \<open>..._ok\<close> state their length.
\<close>

unbundle bit_operations_syntax

record Crypto =
  hmac_sha256 :: "bytes \<Rightarrow> bytes \<Rightarrow> bytes"
  hkdf_sha256_32 :: "bytes \<Rightarrow> bytes \<Rightarrow> bytes \<Rightarrow> bytes"
  ct_eq :: "bytes \<Rightarrow> bytes \<Rightarrow> bool"

definition crypto_ok :: "Crypto \<Rightarrow> bool" where
  "crypto_ok K = ((\<forall>k m. length (hmac_sha256 K k m) = 32) \<and> (\<forall>a b. ct_eq K a b \<longleftrightarrow> a = b))"

text \<open>Two different inputs of the MAC with the same value: what an attacker would have to find.\<close>

definition mac_collision :: "Crypto \<Rightarrow> bytes \<Rightarrow> bytes \<Rightarrow> bytes \<Rightarrow> bytes \<Rightarrow> bool" where
  "mac_collision K k m k' m' = ((k, m) \<noteq> (k', m') \<and> hmac_sha256 K k m = hmac_sha256 K k' m')"

type_synonym TlsChannelBinding = bytes

definition PROTOCOL_VERSION :: u16 where "PROTOCOL_VERSION = 1"
definition AUTH_V2_PROTOCOL_VERSION :: u16 where "AUTH_V2_PROTOCOL_VERSION = 2"
definition CLIENT_HELLO_AUTH_LABEL :: bytes where
  "CLIENT_HELLO_AUTH_LABEL = ascii ''Maverick v1 client hello''"
definition SERVER_HELLO_AUTH_LABEL :: bytes where
  "SERVER_HELLO_AUTH_LABEL = ascii ''Maverick v1 server hello''"
definition CLIENT_HELLO_V2_AUTH_LABEL :: bytes where
  "CLIENT_HELLO_V2_AUTH_LABEL = ascii ''Maverick v2 client hello''"
definition SERVER_HELLO_V2_AUTH_LABEL :: bytes where
  "SERVER_HELLO_V2_AUTH_LABEL = ascii ''Maverick v2 server hello''"
definition AUTH_V1_MAX_CREDENTIAL_ID_LEN :: nat where "AUTH_V1_MAX_CREDENTIAL_ID_LEN = 512"
definition AUTH_V2_MAX_CREDENTIAL_HINT_LEN :: nat where "AUTH_V2_MAX_CREDENTIAL_HINT_LEN = 512"
definition FEATURE_TLS_CHANNEL_BINDING :: u64 where "FEATURE_TLS_CHANNEL_BINDING = 2 ^ 63"
definition TLS_CHANNEL_BINDING_EXPORTER_LABEL :: bytes where
  "TLS_CHANNEL_BINDING_EXPORTER_LABEL = ascii ''maverick tls channel binding v1''"
definition AUTH_V2_EPOCH_SALT_LABEL :: bytes where
  "AUTH_V2_EPOCH_SALT_LABEL = ascii ''Maverick auth v2 epoch''"
definition AUTH_V2_CLIENT_INFO :: bytes where
  "AUTH_V2_CLIENT_INFO = ascii ''Maverick auth v2 client mac''"
definition AUTH_V2_SERVER_INFO :: bytes where
  "AUTH_V2_SERVER_INFO = ascii ''Maverick auth v2 server mac''"

subsection \<open>Helpers\<close>

definition fill_random :: "'r os_rng \<Rightarrow> 'r \<Rightarrow> nat \<Rightarrow> bytes result \<times> 'r" where
  "fill_random os r n =
     (case os r n of
        (Some b, r') \<Rightarrow> (Ok b, r')
      | (None, r') \<Rightarrow> (Err (Random ''OS random generator failed''), r'))"

definition wants_binding :: "u64 \<Rightarrow> bool" where
  "wants_binding feature_flags = (feature_flags AND FEATURE_TLS_CHANNEL_BINDING \<noteq> 0)"

definition selected_channel_binding ::
  "u64 \<Rightarrow> TlsChannelBinding option \<Rightarrow> TlsChannelBinding option option" where
  "selected_channel_binding feature_flags channel_binding =
     (if \<not> wants_binding feature_flags then Some None
      else map_option Some channel_binding)"

definition update_channel_binding :: "TlsChannelBinding option \<Rightarrow> bytes" where
  "update_channel_binding channel_binding =
     (case channel_binding of
        Some b \<Rightarrow> TLS_CHANNEL_BINDING_EXPORTER_LABEL @ b
      | None \<Rightarrow> [])"

definition auth_v2_epoch_key :: "Crypto \<Rightarrow> SecretString \<Rightarrow> u64 \<Rightarrow> bytes \<Rightarrow> bytes" where
  "auth_v2_epoch_key K secret auth_epoch info =
     hkdf_sha256_32 K (AUTH_V2_EPOCH_SALT_LABEL @ put_u64 auth_epoch) (expose_secret secret) info"

definition verify_tag :: "Crypto \<Rightarrow> bytes \<Rightarrow> bytes \<Rightarrow> bool" where
  "verify_tag K expected actual = ct_eq K expected actual"

definition validate_credential_hint :: "bytes \<Rightarrow> unit result" where
  "validate_credential_hint value =
     fail_if (value = []) (MalformedFrame ''empty credential hint'')
     (fail_if (length value > AUTH_V2_MAX_CREDENTIAL_HINT_LEN) (MalformedFrame ''credential hint too long'')
     (Ok ()))"

definition put_string :: "bytes \<Rightarrow> bytes" where
  "put_string value = put_u16 (of_nat (length value)) @ value"

definition put_bytes_u16 :: "bytes \<Rightarrow> bytes result" where
  "put_bytes_u16 value =
     fail_if (length value > 65535) (MalformedFrame ''byte string too long'')
     (Ok (put_u16 (of_nat (length value)) @ value))"

definition get_bounded_string :: "bytes \<Rightarrow> nat \<Rightarrow> string \<Rightarrow> (bytes \<times> bytes) result" where
  "get_bounded_string buf max_len too_long_error =
     fail_if (length buf < 2) (MalformedFrame ''missing string length'')
     (and_then (get_u16 buf) (\<lambda>(len16, buf).
        let len = unat len16 in
        fail_if (len > max_len) (MalformedFrame too_long_error)
        (fail_if (length buf < len) (MalformedFrame ''truncated string'')
        (and_then (copy_to_bytes len buf) (\<lambda>(bs, buf).
         and_then (ok_or (MalformedFrame ''invalid utf-8 string'') (from_utf8 bs)) (\<lambda>s.
           Ok (s, buf)))))))"

definition get_bounded_bytes :: "bytes \<Rightarrow> nat \<Rightarrow> string \<Rightarrow> string \<Rightarrow> (bytes \<times> bytes) result" where
  "get_bounded_bytes buf max_len empty_error too_long_error =
     fail_if (length buf < 2) (MalformedFrame ''missing byte string length'')
     (and_then (get_u16 buf) (\<lambda>(len16, buf).
        let len = unat len16 in
        fail_if (len = 0) (MalformedFrame empty_error)
        (fail_if (len > max_len) (MalformedFrame too_long_error)
        (fail_if (length buf < len) (MalformedFrame ''truncated byte string'')
        (copy_to_bytes len buf)))))"

subsection \<open>Client hello, version 1\<close>

record ClientHello =
  ch_protocol_version :: u16
  ch_client_nonce :: bytes
  ch_timestamp_unix :: i64
  ch_credential_id :: bytes
  ch_mode :: Mode
  ch_feature_flags :: u64
  ch_auth_tag :: bytes

record ClientAuthTranscript =
  ca_version :: u16
  ca_nonce :: bytes
  ca_timestamp :: i64
  ca_credential_id :: bytes
  ca_tunnel_path :: bytes
  ca_mode :: Mode
  ca_feature_flags :: u64
  ca_channel_binding :: "TlsChannelBinding option"

definition client_auth_input :: "ClientAuthTranscript \<Rightarrow> bytes" where
  "client_auth_input t =
     CLIENT_HELLO_AUTH_LABEL @ put_u16 (ca_version t) @ ca_nonce t @ put_u64 (ca_timestamp t)
     @ put_u16 (of_nat (length (ca_credential_id t))) @ ca_credential_id t
     @ put_u16 (of_nat (length (ca_tunnel_path t))) @ ca_tunnel_path t
     @ put_u8 (Mode_wire_id (ca_mode t)) @ put_u64 (ca_feature_flags t)
     @ update_channel_binding (ca_channel_binding t)"

definition client_auth_tag :: "Crypto \<Rightarrow> SecretString \<Rightarrow> ClientAuthTranscript \<Rightarrow> bytes" where
  "client_auth_tag K secret t = hmac_sha256 K (expose_secret secret) (client_auth_input t)"

definition binding_missing :: error where
  "binding_missing = Config ''tls channel binding feature flag requires channel binding material''"

definition ClientHello_try_new_with_channel_binding ::
  "Crypto \<Rightarrow> 'r os_rng \<Rightarrow> 'r \<Rightarrow> i64 \<Rightarrow> bytes \<Rightarrow> SecretString \<Rightarrow> bytes \<Rightarrow> Mode \<Rightarrow> u64
   \<Rightarrow> TlsChannelBinding option \<Rightarrow> ClientHello result \<times> 'r" where
  "ClientHello_try_new_with_channel_binding K os r now cid secret tunnel_path mode flags binding =
     (if wants_binding flags \<and> binding = None then (Err binding_missing, r)
      else case fill_random os r 32 of
        (Ok client_nonce, r') \<Rightarrow>
          (Ok \<lparr>ch_protocol_version = PROTOCOL_VERSION, ch_client_nonce = client_nonce,
               ch_timestamp_unix = now, ch_credential_id = cid, ch_mode = mode,
               ch_feature_flags = flags,
               ch_auth_tag = client_auth_tag K secret
                 \<lparr>ca_version = PROTOCOL_VERSION, ca_nonce = client_nonce, ca_timestamp = now,
                  ca_credential_id = cid, ca_tunnel_path = tunnel_path, ca_mode = mode,
                  ca_feature_flags = flags, ca_channel_binding = binding\<rparr>\<rparr>, r')
      | (Err e, r') \<Rightarrow> (Err e, r')
      | (Panic, r') \<Rightarrow> (Panic, r'))"

definition ClientHello_try_new ::
  "Crypto \<Rightarrow> 'r os_rng \<Rightarrow> 'r \<Rightarrow> i64 \<Rightarrow> bytes \<Rightarrow> SecretString \<Rightarrow> bytes \<Rightarrow> Mode \<Rightarrow> u64
   \<Rightarrow> ClientHello result \<times> 'r" where
  "ClientHello_try_new K os r now cid secret tunnel_path mode flags =
     ClientHello_try_new_with_channel_binding K os r now cid secret tunnel_path mode flags None"

definition ClientHello_transcript ::
  "ClientHello \<Rightarrow> bytes \<Rightarrow> TlsChannelBinding option \<Rightarrow> ClientAuthTranscript" where
  "ClientHello_transcript h tunnel_path binding =
     \<lparr>ca_version = ch_protocol_version h, ca_nonce = ch_client_nonce h,
      ca_timestamp = ch_timestamp_unix h, ca_credential_id = ch_credential_id h,
      ca_tunnel_path = tunnel_path, ca_mode = ch_mode h,
      ca_feature_flags = ch_feature_flags h, ca_channel_binding = binding\<rparr>"

definition ClientHello_verify_with_channel_binding ::
  "Crypto \<Rightarrow> ClientHello \<Rightarrow> SecretString \<Rightarrow> bytes \<Rightarrow> TlsChannelBinding option \<Rightarrow> bool" where
  "ClientHello_verify_with_channel_binding K h secret tunnel_path channel_binding =
     (case selected_channel_binding (ch_feature_flags h) channel_binding of
        None \<Rightarrow> False
      | Some binding \<Rightarrow>
          verify_tag K (client_auth_tag K secret (ClientHello_transcript h tunnel_path binding))
            (ch_auth_tag h))"

definition ClientHello_verify :: "Crypto \<Rightarrow> ClientHello \<Rightarrow> SecretString \<Rightarrow> bytes \<Rightarrow> bool" where
  "ClientHello_verify K h secret tunnel_path =
     ClientHello_verify_with_channel_binding K h secret tunnel_path None"

definition ClientHello_encode :: "ClientHello \<Rightarrow> bytes" where
  "ClientHello_encode h =
     put_u16 (ch_protocol_version h) @ ch_client_nonce h @ put_u64 (ch_timestamp_unix h)
     @ put_string (ch_credential_id h) @ put_u8 (Mode_wire_id (ch_mode h))
     @ put_u64 (ch_feature_flags h) @ ch_auth_tag h"

definition ClientHello_decode :: "bytes \<Rightarrow> ClientHello result" where
  "ClientHello_decode input =
     fail_if (length input < 2 + 32 + 8 + 2 + 1 + 8 + 32) (MalformedFrame ''client hello too short'')
     (and_then (get_u16 input) (\<lambda>(version, buf).
      and_then (copy_to_bytes 32 buf) (\<lambda>(client_nonce, buf).
      and_then (get_u64 buf) (\<lambda>(timestamp_unix, buf).
      and_then (get_bounded_string buf AUTH_V1_MAX_CREDENTIAL_ID_LEN ''credential id too long'')
        (\<lambda>(credential_id, buf).
      fail_if (length buf < 1 + 8 + 32) (MalformedFrame ''client hello truncated'')
      (and_then (get_u8 buf) (\<lambda>(mode_id, buf).
       and_then (Mode_from_wire_id mode_id) (\<lambda>mode.
       and_then (get_u64 buf) (\<lambda>(feature_flags, buf).
       and_then (copy_to_bytes 32 buf) (\<lambda>(auth_tag, buf).
       fail_if (buf \<noteq> []) (MalformedFrame ''client hello trailing bytes'')
       (Ok \<lparr>ch_protocol_version = version, ch_client_nonce = client_nonce,
            ch_timestamp_unix = timestamp_unix, ch_credential_id = credential_id, ch_mode = mode,
            ch_feature_flags = feature_flags, ch_auth_tag = auth_tag\<rparr>)))))))))))"

subsection \<open>Server hello, version 1\<close>

record ServerHello =
  sh_protocol_version_selected :: u16
  sh_server_nonce :: bytes
  sh_session_id :: bytes
  sh_max_frame_size :: u32
  sh_max_concurrent_flows :: u32
  sh_feature_flags_selected :: u64
  sh_server_auth_tag :: bytes

record ServerAuthTranscript =
  sa_client_nonce :: bytes
  sa_server_nonce :: bytes
  sa_session_id :: bytes
  sa_protocol_version_selected :: u16
  sa_max_frame_size :: u32
  sa_max_concurrent_flows :: u32
  sa_feature_flags_selected :: u64
  sa_channel_binding :: "TlsChannelBinding option"

definition server_auth_input :: "ServerAuthTranscript \<Rightarrow> bytes" where
  "server_auth_input t =
     SERVER_HELLO_AUTH_LABEL @ sa_client_nonce t @ sa_server_nonce t
     @ put_u8 (of_nat (length (sa_session_id t))) @ sa_session_id t
     @ put_u16 (sa_protocol_version_selected t) @ put_u32 (sa_max_frame_size t)
     @ put_u32 (sa_max_concurrent_flows t) @ put_u64 (sa_feature_flags_selected t)
     @ update_channel_binding (sa_channel_binding t)"

definition server_auth_tag :: "Crypto \<Rightarrow> SecretString \<Rightarrow> ServerAuthTranscript \<Rightarrow> bytes" where
  "server_auth_tag K secret t = hmac_sha256 K (expose_secret secret) (server_auth_input t)"

definition ServerHello_try_new_with_channel_binding ::
  "Crypto \<Rightarrow> 'r os_rng \<Rightarrow> 'r \<Rightarrow> SecretString \<Rightarrow> bytes \<Rightarrow> u32 \<Rightarrow> u32 \<Rightarrow> u64
   \<Rightarrow> TlsChannelBinding option \<Rightarrow> ServerHello result \<times> 'r" where
  "ServerHello_try_new_with_channel_binding K os r secret client_nonce mfs mcf flags binding =
     (if wants_binding flags \<and> binding = None then (Err binding_missing, r)
      else case fill_random os r 32 of
        (Ok server_nonce, r1) \<Rightarrow>
          (case fill_random os r1 16 of
             (Ok session_id, r2) \<Rightarrow>
               (Ok \<lparr>sh_protocol_version_selected = PROTOCOL_VERSION, sh_server_nonce = server_nonce,
                    sh_session_id = session_id, sh_max_frame_size = mfs,
                    sh_max_concurrent_flows = mcf, sh_feature_flags_selected = flags,
                    sh_server_auth_tag = server_auth_tag K secret
                      \<lparr>sa_client_nonce = client_nonce, sa_server_nonce = server_nonce,
                       sa_session_id = session_id, sa_protocol_version_selected = PROTOCOL_VERSION,
                       sa_max_frame_size = mfs, sa_max_concurrent_flows = mcf,
                       sa_feature_flags_selected = flags, sa_channel_binding = binding\<rparr>\<rparr>, r2)
           | (Err e, r2) \<Rightarrow> (Err e, r2)
           | (Panic, r2) \<Rightarrow> (Panic, r2))
      | (Err e, r1) \<Rightarrow> (Err e, r1)
      | (Panic, r1) \<Rightarrow> (Panic, r1))"

definition ServerHello_try_new ::
  "Crypto \<Rightarrow> 'r os_rng \<Rightarrow> 'r \<Rightarrow> SecretString \<Rightarrow> bytes \<Rightarrow> u32 \<Rightarrow> u32 \<Rightarrow> u64 \<Rightarrow> ServerHello result \<times> 'r" where
  "ServerHello_try_new K os r secret client_nonce mfs mcf flags =
     ServerHello_try_new_with_channel_binding K os r secret client_nonce mfs mcf flags None"

definition ServerHello_transcript ::
  "ServerHello \<Rightarrow> bytes \<Rightarrow> TlsChannelBinding option \<Rightarrow> ServerAuthTranscript" where
  "ServerHello_transcript h client_nonce binding =
     \<lparr>sa_client_nonce = client_nonce, sa_server_nonce = sh_server_nonce h,
      sa_session_id = sh_session_id h,
      sa_protocol_version_selected = sh_protocol_version_selected h,
      sa_max_frame_size = sh_max_frame_size h, sa_max_concurrent_flows = sh_max_concurrent_flows h,
      sa_feature_flags_selected = sh_feature_flags_selected h, sa_channel_binding = binding\<rparr>"

definition ServerHello_verify_with_channel_binding ::
  "Crypto \<Rightarrow> ServerHello \<Rightarrow> SecretString \<Rightarrow> bytes \<Rightarrow> TlsChannelBinding option \<Rightarrow> bool" where
  "ServerHello_verify_with_channel_binding K h secret client_nonce channel_binding =
     (case selected_channel_binding (sh_feature_flags_selected h) channel_binding of
        None \<Rightarrow> False
      | Some binding \<Rightarrow>
          verify_tag K (server_auth_tag K secret (ServerHello_transcript h client_nonce binding))
            (sh_server_auth_tag h))"

definition ServerHello_verify :: "Crypto \<Rightarrow> ServerHello \<Rightarrow> SecretString \<Rightarrow> bytes \<Rightarrow> bool" where
  "ServerHello_verify K h secret client_nonce =
     ServerHello_verify_with_channel_binding K h secret client_nonce None"

definition ServerHello_encode :: "ServerHello \<Rightarrow> bytes" where
  "ServerHello_encode h =
     put_u16 (sh_protocol_version_selected h) @ sh_server_nonce h
     @ put_u8 (of_nat (length (sh_session_id h))) @ sh_session_id h
     @ put_u32 (sh_max_frame_size h) @ put_u32 (sh_max_concurrent_flows h)
     @ put_u64 (sh_feature_flags_selected h) @ sh_server_auth_tag h"

definition ServerHello_decode :: "bytes \<Rightarrow> ServerHello result" where
  "ServerHello_decode input =
     fail_if (length input < 2 + 32 + 1 + 4 + 4 + 8 + 32) (MalformedFrame ''server hello too short'')
     (and_then (get_u16 input) (\<lambda>(version, buf).
      and_then (copy_to_bytes 32 buf) (\<lambda>(server_nonce, buf).
      and_then (get_u8 buf) (\<lambda>(len8, buf).
      let session_len = unat len8 in
      fail_if (session_len = 0 \<or> session_len > 32 \<or> length buf < session_len + 4 + 4 + 8 + 32)
        (MalformedFrame ''bad session id length'')
      (and_then (copy_to_bytes session_len buf) (\<lambda>(session_id, buf).
       and_then (get_u32 buf) (\<lambda>(max_frame_size, buf).
       and_then (get_u32 buf) (\<lambda>(max_concurrent_flows, buf).
       and_then (get_u64 buf) (\<lambda>(feature_flags_selected, buf).
       and_then (copy_to_bytes 32 buf) (\<lambda>(tag, buf).
       fail_if (buf \<noteq> []) (MalformedFrame ''server hello trailing bytes'')
       (Ok \<lparr>sh_protocol_version_selected = version, sh_server_nonce = server_nonce,
            sh_session_id = session_id, sh_max_frame_size = max_frame_size,
            sh_max_concurrent_flows = max_concurrent_flows,
            sh_feature_flags_selected = feature_flags_selected,
            sh_server_auth_tag = tag\<rparr>)))))))))))"

subsection \<open>Bounded strings\<close>

lemma get_bounded_string_put [simp]:
  assumes "utf8_valid s" "length s \<le> m" "length s \<le> 65535"
  shows "get_bounded_string (put_string s @ r) m e = Ok (s, r)"
  using assms by (simp add: get_bounded_string_def put_string_def Let_def unat_of_nat_le from_utf8_def)

lemma get_bounded_string_OkD:
  "get_bounded_string b m e = Ok (s, r) \<Longrightarrow>
     b = put_string s @ r \<and> utf8_valid s \<and> length s \<le> m \<and> length s \<le> 65535"
  by (auto simp: get_bounded_string_def Let_def and_then_Ok_iff from_utf8_def put_string_def
      dest!: cursor_OkD split: if_splits)

lemma get_bounded_string_not_Panic [simp]: "get_bounded_string b m e \<noteq> Panic"
  by (auto simp: get_bounded_string_def Let_def and_then_Panic_iff)

lemma get_bounded_bytes_put [simp]:
  assumes "s \<noteq> []" "length s \<le> m" "length s \<le> 65535"
  shows "get_bounded_bytes (put_u16 (of_nat (length s)) @ s @ r) m e e' = Ok (s, r)"
  using assms by (simp add: get_bounded_bytes_def Let_def unat_of_nat_le)

lemma get_bounded_bytes_OkD:
  "get_bounded_bytes b m e e' = Ok (s, r) \<Longrightarrow>
     b = put_u16 (of_nat (length s)) @ s @ r \<and> s \<noteq> [] \<and> length s \<le> m \<and> length s \<le> 65535"
  by (auto simp: get_bounded_bytes_def Let_def and_then_Ok_iff dest!: cursor_OkD)

lemma get_bounded_bytes_not_Panic [simp]: "get_bounded_bytes b m e e' \<noteq> Panic"
  by (auto simp: get_bounded_bytes_def Let_def and_then_Panic_iff)

subsection \<open>Wire round trips\<close>

definition client_hello_ok :: "ClientHello \<Rightarrow> bool" where
  "client_hello_ok h = (length (ch_client_nonce h) = 32 \<and> length (ch_auth_tag h) = 32
     \<and> utf8_valid (ch_credential_id h) \<and> length (ch_credential_id h) \<le> 512)"

definition server_hello_ok :: "ServerHello \<Rightarrow> bool" where
  "server_hello_ok h = (length (sh_server_nonce h) = 32 \<and> length (sh_server_auth_tag h) = 32
     \<and> sh_session_id h \<noteq> [] \<and> length (sh_session_id h) \<le> 32)"

lemma ClientHello_decode_encode:
  assumes "client_hello_ok h"
  shows "ClientHello_decode (ClientHello_encode h) = Ok h"
proof -
  have g: "get_bounded_string (put_string (ch_credential_id h) @ r) AUTH_V1_MAX_CREDENTIAL_ID_LEN e
      = Ok (ch_credential_id h, r)" for r e
    using assms by (simp add: client_hello_ok_def AUTH_V1_MAX_CREDENTIAL_ID_LEN_def)
  have l: "\<not> length (ClientHello_encode h) < 2 + 32 + 8 + 2 + 1 + 8 + 32"
    using assms by (simp add: ClientHello_encode_def client_hello_ok_def put_string_def)
  show ?thesis
    using assms l unfolding ClientHello_decode_def
    by (simp add: ClientHello_encode_def client_hello_ok_def g)
qed

lemma ClientHello_decode_OkD:
  assumes "ClientHello_decode b = Ok h"
  shows "client_hello_ok h \<and> b = ClientHello_encode h"
  using assms
  by (auto simp: ClientHello_decode_def and_then_Ok_iff client_hello_ok_def ClientHello_encode_def
        AUTH_V1_MAX_CREDENTIAL_ID_LEN_def
      dest!: cursor_OkD get_bounded_string_OkD Mode_from_wire_id_OkD)

lemma ClientHello_decode_not_Panic: "ClientHello_decode b \<noteq> Panic"
  by (auto simp: ClientHello_decode_def and_then_Panic_iff dest!: cursor_OkD)

lemma ServerHello_decode_encode:
  assumes "server_hello_ok h"
  shows "ServerHello_decode (ServerHello_encode h) = Ok h"
proof -
  have u: "unat (of_nat (length (sh_session_id h)) :: u8) = length (sh_session_id h)"
    using assms by (simp add: server_hello_ok_def unat_of_nat_le)
  have l: "\<not> length (ServerHello_encode h) < 2 + 32 + 1 + 4 + 4 + 8 + 32"
    using assms by (simp add: ServerHello_encode_def server_hello_ok_def)
  show ?thesis
    using assms l unfolding ServerHello_decode_def
    by (simp add: ServerHello_encode_def server_hello_ok_def u Let_def)
qed

lemma ServerHello_decode_OkD:
  assumes "ServerHello_decode b = Ok h"
  shows "server_hello_ok h \<and> b = ServerHello_encode h"
  using assms
  by (auto simp: ServerHello_decode_def and_then_Ok_iff server_hello_ok_def ServerHello_encode_def Let_def
      dest!: cursor_OkD)

lemma ClientHello_decode_iff: "ClientHello_decode b = Ok h \<longleftrightarrow> client_hello_ok h \<and> b = ClientHello_encode h"
proof
  assume "ClientHello_decode b = Ok h"
  then show "client_hello_ok h \<and> b = ClientHello_encode h" by (rule ClientHello_decode_OkD)
next
  assume "client_hello_ok h \<and> b = ClientHello_encode h"
  then show "ClientHello_decode b = Ok h" by (simp only: ClientHello_decode_encode)
qed

lemma ServerHello_decode_iff: "ServerHello_decode b = Ok h \<longleftrightarrow> server_hello_ok h \<and> b = ServerHello_encode h"
proof
  assume "ServerHello_decode b = Ok h"
  then show "server_hello_ok h \<and> b = ServerHello_encode h" by (rule ServerHello_decode_OkD)
next
  assume "server_hello_ok h \<and> b = ServerHello_encode h"
  then show "ServerHello_decode b = Ok h" by (simp only: ServerHello_decode_encode)
qed

lemma ServerHello_decode_not_Panic: "ServerHello_decode b \<noteq> Panic"
  by (auto simp: ServerHello_decode_def and_then_Panic_iff Let_def dest!: cursor_OkD)

subsection \<open>Transcripts are injective\<close>

definition binding_ok :: "TlsChannelBinding option \<Rightarrow> bool" where
  "binding_ok binding = (case binding of None \<Rightarrow> True | Some b \<Rightarrow> length b = 32)"

definition client_transcript_ok :: "ClientAuthTranscript \<Rightarrow> bool" where
  "client_transcript_ok t = (length (ca_nonce t) = 32 \<and> length (ca_credential_id t) \<le> 65535
     \<and> length (ca_tunnel_path t) \<le> 65535 \<and> binding_ok (ca_channel_binding t))"

definition server_transcript_ok :: "ServerAuthTranscript \<Rightarrow> bool" where
  "server_transcript_ok t = (length (sa_client_nonce t) = 32 \<and> length (sa_server_nonce t) = 32
     \<and> length (sa_session_id t) \<le> 32 \<and> binding_ok (sa_channel_binding t))"

lemma exporter_label_nonempty [simp]: "TLS_CHANNEL_BINDING_EXPORTER_LABEL \<noteq> []"
  by (simp add: TLS_CHANNEL_BINDING_EXPORTER_LABEL_def ascii_def)

lemma update_channel_binding_inject [simp]:
  "update_channel_binding b = update_channel_binding b' \<longleftrightarrow> b = b'"
  by (cases b; cases b') (simp_all add: update_channel_binding_def)

lemma client_auth_input_inject:
  assumes "client_transcript_ok t" "client_transcript_ok t'" "client_auth_input t = client_auth_input t'"
  shows "t = t'"
  using assms
  by (auto simp: client_auth_input_def client_transcript_ok_def of_nat_u16_inject
      intro!: ClientAuthTranscript.equality)

lemma server_auth_input_inject:
  assumes "server_transcript_ok t" "server_transcript_ok t'" "server_auth_input t = server_auth_input t'"
  shows "t = t'"
  using assms
  by (auto simp: server_auth_input_def server_transcript_ok_def of_nat_u8_inject
      intro!: ServerAuthTranscript.equality)

lemma fill_random_OkD:
  "rng_ok os \<Longrightarrow> fill_random os r n = (Ok b, r') \<Longrightarrow> length b = n"
  by (auto simp: fill_random_def rng_ok_def split: prod.splits option.splits) (metis fst_conv)

text \<open>The binding a verifier selects is the one the creator used.\<close>

definition binding_consistent :: "u64 \<Rightarrow> TlsChannelBinding option \<Rightarrow> bool" where
  "binding_consistent flags binding = (wants_binding flags = (binding \<noteq> None))"

lemma selected_channel_binding_consistent:
  "binding_consistent flags binding \<Longrightarrow> selected_channel_binding flags binding = Some binding"
  by (cases binding) (auto simp: binding_consistent_def selected_channel_binding_def)

lemma ClientHello_try_new_OkD:
  assumes "ClientHello_try_new_with_channel_binding K os r now cid secret path mode flags binding = (Ok h, r')"
  shows "ch_auth_tag h = client_auth_tag K secret (ClientHello_transcript h path binding)"
    "ch_credential_id h = cid" "ch_protocol_version h = PROTOCOL_VERSION" "ch_mode h = mode"
    "ch_feature_flags h = flags" "ch_timestamp_unix h = now"
    "\<exists>r1. fill_random os r 32 = (Ok (ch_client_nonce h), r1)"
  using assms
  by (auto simp: ClientHello_try_new_with_channel_binding_def ClientHello_transcript_def
      split: prod.splits outcome.splits if_splits)

lemma ServerHello_try_new_OkD:
  assumes "ServerHello_try_new_with_channel_binding K os r secret cn mfs mcf flags binding = (Ok h, r')"
  shows "sh_server_auth_tag h = server_auth_tag K secret (ServerHello_transcript h cn binding)"
    "sh_protocol_version_selected h = PROTOCOL_VERSION" "sh_max_frame_size h = mfs"
    "sh_max_concurrent_flows h = mcf" "sh_feature_flags_selected h = flags"
    "\<exists>r1. fill_random os r 32 = (Ok (sh_server_nonce h), r1)
       \<and> (\<exists>r2. fill_random os r1 16 = (Ok (sh_session_id h), r2))"
  using assms
  by (auto simp: ServerHello_try_new_with_channel_binding_def ServerHello_transcript_def
      split: prod.splits outcome.splits if_splits)

lemma ClientHello_created_ok:
  assumes "crypto_ok K" "rng_ok os" "utf8_valid cid" "length cid \<le> 512"
    and "ClientHello_try_new_with_channel_binding K os r now cid secret path mode flags binding = (Ok h, r')"
  shows "client_hello_ok h"
  using ClientHello_try_new_OkD [OF assms(5)] assms(1-4) fill_random_OkD [of os r 32]
  by (auto simp: client_hello_ok_def client_auth_tag_def crypto_ok_def)

lemma ServerHello_created_ok:
  assumes "crypto_ok K" "rng_ok os"
    and "ServerHello_try_new_with_channel_binding K os r secret cn mfs mcf flags binding = (Ok h, r')"
  shows "server_hello_ok h"
proof -
  obtain r1 r2 where "fill_random os r 32 = (Ok (sh_server_nonce h), r1)"
      "fill_random os r1 16 = (Ok (sh_session_id h), r2)"
    using ServerHello_try_new_OkD(6) [OF assms(3)] by blast
  then have "length (sh_server_nonce h) = 32" "length (sh_session_id h) = 16"
    using fill_random_OkD [OF assms(2)] by blast+
  with ServerHello_try_new_OkD(1) [OF assms(3)] assms(1) show ?thesis
    by (auto simp: server_hello_ok_def server_auth_tag_def crypto_ok_def)
qed

subsection \<open>A concrete library\<close>

text \<open>
  An instance of the library parameters, for evaluating examples: the MAC is the end of the
  keyed message and the random generator counts.
\<close>

definition example_crypto :: Crypto where
  "example_crypto =
     \<lparr>hmac_sha256 = (\<lambda>k m. take 32 (rev (k @ m) @ replicate 32 0)),
      hkdf_sha256_32 = (\<lambda>salt ikm info. take 32 (info @ ikm @ salt @ replicate 32 0)),
      ct_eq = (=)\<rparr>"

definition example_rng :: "nat os_rng" where
  "example_rng r n = (Some (replicate n (of_nat r)), Suc r)"

lemma example_crypto_ok: "crypto_ok example_crypto"
  by (auto simp: crypto_ok_def example_crypto_def min_def)

lemma example_rng_ok: "rng_ok example_rng"
  by (simp add: rng_ok_def example_rng_def)

lemma example_fill_random [simp]:
  "fill_random example_rng r n = (Ok (replicate n (of_nat r)), Suc r)"
  by (simp add: fill_random_def example_rng_def)

lemma utf8_valid_example: "utf8_valid (ascii ''user'')"
  by (rule utf8_valid_ascii) (simp add: ascii_def)

subsection \<open>Properties of the version 1 hellos\<close>

text \<open>
  C36. The wire formats of the version 1 hellos are canonical: a byte string decodes to a hello
  exactly when it is the encoding of that hello and the hello is well formed (32-byte arrays, a
  UTF-8 credential of at most 512 bytes, a session id of 1 to 32 bytes). The decoders never
  panic on network input.
\<close>

theorem hello_v1_decode_iff_encode:
  "(ClientHello_decode b = Ok h \<longleftrightarrow> client_hello_ok h \<and> b = ClientHello_encode h)
   \<and> (ServerHello_decode b = Ok s \<longleftrightarrow> server_hello_ok s \<and> b = ServerHello_encode s)
   \<and> ClientHello_decode b \<noteq> Panic \<and> ServerHello_decode b \<noteq> Panic"
  by (simp add: ClientHello_decode_iff ServerHello_decode_iff ClientHello_decode_not_Panic
      ServerHello_decode_not_Panic)

text \<open>
  Honest version 1 peers understand each other: a client hello made for a credential that
  the wire format can carry, with channel binding material exactly when the flag is set, is
  read back by the decoder and verified by a server with the same secret, tunnel path and
  binding; and the server hello made for its nonce is read back and verified by the client.
\<close>

theorem hello_v1_complete:
  assumes "crypto_ok K" "rng_ok os" "utf8_valid cid" "length cid \<le> 512"
    and "binding_consistent flags binding"
    and "ClientHello_try_new_with_channel_binding K os r now cid secret path mode flags binding = (Ok h, r')"
    and "ServerHello_try_new_with_channel_binding K os r' secret (ch_client_nonce h) mfs mcf flags binding
         = (Ok s, r'')"
  shows "\<exists>h' s'. ClientHello_decode (ClientHello_encode h) = Ok h'
     \<and> ClientHello_verify_with_channel_binding K h' secret path binding
     \<and> ch_credential_id h' = cid \<and> ch_timestamp_unix h' = now
     \<and> ServerHello_decode (ServerHello_encode s) = Ok s'
     \<and> ServerHello_verify_with_channel_binding K s' secret (ch_client_nonce h') binding
     \<and> sh_max_frame_size s' = mfs \<and> sh_max_concurrent_flows s' = mcf"
  using ClientHello_decode_encode [OF ClientHello_created_ok [OF assms(1-4,6)]]
    ServerHello_decode_encode [OF ServerHello_created_ok [OF assms(1,2,7)]]
    ClientHello_try_new_OkD [OF assms(6)] ServerHello_try_new_OkD [OF assms(7)]
    selected_channel_binding_consistent [OF assms(5)] assms(1)
  by (simp add: ClientHello_verify_with_channel_binding_def ServerHello_verify_with_channel_binding_def
      verify_tag_def crypto_ok_def)

theorem hello_v1_complete_witness:
  "\<exists>h r' s r''.
     ClientHello_try_new_with_channel_binding example_crypto example_rng 1 100 (ascii ''user'') (ascii ''key'')
       (ascii ''/tunnel'') Stable FEATURE_TLS_CHANNEL_BINDING (Some (replicate 32 7)) = (Ok h, r')
     \<and> ServerHello_try_new_with_channel_binding example_crypto example_rng r' (ascii ''key'') (ch_client_nonce h)
       65536 8 FEATURE_TLS_CHANNEL_BINDING (Some (replicate 32 7)) = (Ok s, r'')
     \<and> (\<exists>h' s'. ClientHello_decode (ClientHello_encode h) = Ok h'
          \<and> ClientHello_verify_with_channel_binding example_crypto h' (ascii ''key'') (ascii ''/tunnel'')
              (Some (replicate 32 7))
          \<and> ServerHello_decode (ServerHello_encode s) = Ok s'
          \<and> ServerHello_verify_with_channel_binding example_crypto s' (ascii ''key'') (ch_client_nonce h')
              (Some (replicate 32 7)))"
proof -
  let ?b = "Some (replicate 32 7) :: TlsChannelBinding option"
  have c: "binding_consistent FEATURE_TLS_CHANNEL_BINDING ?b"
    by (simp add: binding_consistent_def wants_binding_def FEATURE_TLS_CHANNEL_BINDING_def)
  obtain h r' where h: "ClientHello_try_new_with_channel_binding example_crypto example_rng 1 100
      (ascii ''user'') (ascii ''key'') (ascii ''/tunnel'') Stable FEATURE_TLS_CHANNEL_BINDING ?b = (Ok h, r')"
    by (simp add: ClientHello_try_new_with_channel_binding_def)
  obtain s r'' where s: "ServerHello_try_new_with_channel_binding example_crypto example_rng r' (ascii ''key'')
      (ch_client_nonce h) 65536 8 FEATURE_TLS_CHANNEL_BINDING ?b = (Ok s, r'')"
    by (simp add: ServerHello_try_new_with_channel_binding_def)
  have l: "length (ascii ''user'') \<le> 512" by (simp add: ascii_def)
  show ?thesis
    using hello_v1_complete [OF example_crypto_ok example_rng_ok utf8_valid_example l c h s] h s by blast
qed

text \<open>
  C19. A version 1 client tag binds everything the server acts on: if two hellos with the same
  tag verify under one secret, then they are the same hello, for the same tunnel path and the
  same selected channel binding, or the bytes authenticated for the one and for the other are an
  HMAC collision under that secret.
\<close>

theorem client_tag_binds_hello:
  assumes "crypto_ok K" "client_hello_ok h" "client_hello_ok h'" "ch_auth_tag h = ch_auth_tag h'"
    and "length path \<le> 65535" "length path' \<le> 65535" "binding_ok b" "binding_ok b'"
    and "ClientHello_verify_with_channel_binding K h secret path b"
    and "ClientHello_verify_with_channel_binding K h' secret path' b'"
    and "selected_channel_binding (ch_feature_flags h) b = Some s"
    and "selected_channel_binding (ch_feature_flags h') b' = Some s'"
  shows "(h = h' \<and> path = path' \<and> s = s')
     \<or> mac_collision K (expose_secret secret) (client_auth_input (ClientHello_transcript h path s))
          (expose_secret secret) (client_auth_input (ClientHello_transcript h' path' s'))"
proof -
  let ?t = "ClientHello_transcript h path s" and ?t' = "ClientHello_transcript h' path' s'"
  have tag: "hmac_sha256 K (expose_secret secret) (client_auth_input ?t)
      = hmac_sha256 K (expose_secret secret) (client_auth_input ?t')"
    using assms(1,4,9-12)
    by (simp add: ClientHello_verify_with_channel_binding_def verify_tag_def crypto_ok_def client_auth_tag_def)
  show ?thesis
  proof (cases "client_auth_input ?t = client_auth_input ?t'")
    case True
    have "binding_ok s" "binding_ok s'"
      using assms(7,8,11,12)
      by (auto simp: selected_channel_binding_def binding_ok_def split: if_splits option.splits)
    then have "client_transcript_ok ?t" "client_transcript_ok ?t'"
      using assms(2,3,5,6) by (simp_all add: client_transcript_ok_def client_hello_ok_def ClientHello_transcript_def)
    with True have "?t = ?t'" using client_auth_input_inject by blast
    then show ?thesis
      using assms(4) by (auto simp: ClientHello_transcript_def intro!: ClientHello.equality)
  next
    case False
    with tag show ?thesis by (simp add: mac_collision_def)
  qed
qed

theorem client_tag_binds_hello_witness:
  "\<exists>h. ClientHello_verify_with_channel_binding example_crypto h (ascii ''key'') (ascii ''/tunnel'') None
     \<and> selected_channel_binding (ch_feature_flags h) None = Some None
     \<and> \<not> mac_collision example_crypto (ascii ''key'') (client_auth_input (ClientHello_transcript h (ascii ''/tunnel'') None))
          (ascii ''key'') (client_auth_input (ClientHello_transcript h (ascii ''/tunnel'') None))"
proof -
  obtain h r' where h: "ClientHello_try_new_with_channel_binding example_crypto example_rng 1 100
      (ascii ''user'') (ascii ''key'') (ascii ''/tunnel'') Stable 0 None = (Ok h, r')"
    by (simp add: ClientHello_try_new_with_channel_binding_def wants_binding_def)
  have l: "length (ascii ''user'') \<le> 512" "length (ascii ''/tunnel'') \<le> 65535" by (simp_all add: ascii_def)
  have ok: "client_hello_ok h"
    by (rule ClientHello_created_ok [OF example_crypto_ok example_rng_ok utf8_valid_example l(1) h])
  have sel: "selected_channel_binding (ch_feature_flags h) None = Some None"
    using ClientHello_try_new_OkD(5) [OF h] by (simp add: selected_channel_binding_def wants_binding_def)
  have v: "ClientHello_verify_with_channel_binding example_crypto h (ascii ''key'') (ascii ''/tunnel'') None"
    using ClientHello_try_new_OkD(1) [OF h] example_crypto_ok sel
    by (simp add: ClientHello_verify_with_channel_binding_def verify_tag_def crypto_ok_def)
  have b: "binding_ok None" by (simp add: binding_ok_def)
  show ?thesis
    using v sel client_tag_binds_hello [OF example_crypto_ok ok ok refl l(2) l(2) b b v v sel sel]
    by (auto simp: mac_collision_def)
qed

end
