(* ===== verification/Auth_Hello_V2.thy ===== *)
theory Auth_Hello_V2
  imports Auth_Hello
begin

text \<open>
  The version 2 hellos of \<open>maverick-core/src/auth.rs\<close>: a credential epoch, an opaque credential
  hint, rotation flags, and tags under a key derived from the secret for the epoch and the
  direction. The last section separates the four kinds of transcripts from each other.
\<close>

subsection \<open>Client hello, version 2\<close>

record ClientHelloV2 =
  c2_protocol_version :: u16
  c2_auth_epoch :: u64
  c2_client_nonce :: bytes
  c2_timestamp_unix :: i64
  c2_credential_hint :: bytes
  c2_mode :: Mode
  c2_feature_flags :: u64
  c2_rotation_flags :: u32
  c2_auth_tag :: bytes

record ClientHelloV2Params =
  cp_credential_hint :: bytes
  cp_secret :: SecretString
  cp_auth_epoch :: u64
  cp_tunnel_path :: bytes
  cp_mode :: Mode
  cp_feature_flags :: u64
  cp_rotation_flags :: u32
  cp_channel_binding :: "TlsChannelBinding option"

record ClientAuthV2Transcript =
  ca2_version :: u16
  ca2_auth_epoch :: u64
  ca2_nonce :: bytes
  ca2_timestamp :: i64
  ca2_credential_hint :: bytes
  ca2_tunnel_path :: bytes
  ca2_mode :: Mode
  ca2_feature_flags :: u64
  ca2_rotation_flags :: u32
  ca2_channel_binding :: "TlsChannelBinding option"

definition client_auth_v2_input :: "ClientAuthV2Transcript \<Rightarrow> bytes" where
  "client_auth_v2_input t =
     CLIENT_HELLO_V2_AUTH_LABEL @ put_u16 (ca2_version t) @ put_u64 (ca2_auth_epoch t) @ ca2_nonce t
     @ put_u64 (ca2_timestamp t)
     @ put_u16 (of_nat (length (ca2_credential_hint t))) @ ca2_credential_hint t
     @ put_u16 (of_nat (length (ca2_tunnel_path t))) @ ca2_tunnel_path t
     @ put_u8 (Mode_wire_id (ca2_mode t)) @ put_u64 (ca2_feature_flags t)
     @ put_u32 (ca2_rotation_flags t) @ update_channel_binding (ca2_channel_binding t)"

definition client_auth_v2_tag :: "Crypto \<Rightarrow> SecretString \<Rightarrow> ClientAuthV2Transcript \<Rightarrow> bytes result" where
  "client_auth_v2_tag K secret t =
     and_then (validate_credential_hint (ca2_credential_hint t)) (\<lambda>_.
       let key = auth_v2_epoch_key K secret (ca2_auth_epoch t) AUTH_V2_CLIENT_INFO in
       Ok (hmac_sha256 K key (client_auth_v2_input t)))"

definition ClientHelloV2_new_with_channel_binding ::
  "Crypto \<Rightarrow> 'r os_rng \<Rightarrow> 'r \<Rightarrow> i64 \<Rightarrow> ClientHelloV2Params \<Rightarrow> ClientHelloV2 result \<times> 'r" where
  "ClientHelloV2_new_with_channel_binding K os r now p =
     (if wants_binding (cp_feature_flags p) \<and> cp_channel_binding p = None then (Err binding_missing, r)
      else case validate_credential_hint (cp_credential_hint p) of
        Err e \<Rightarrow> (Err e, r)
      | Panic \<Rightarrow> (Panic, r)
      | Ok _ \<Rightarrow>
        (case fill_random os r 32 of
           (Ok client_nonce, r') \<Rightarrow>
             (and_then (client_auth_v2_tag K (cp_secret p)
                \<lparr>ca2_version = AUTH_V2_PROTOCOL_VERSION, ca2_auth_epoch = cp_auth_epoch p,
                 ca2_nonce = client_nonce, ca2_timestamp = now,
                 ca2_credential_hint = cp_credential_hint p, ca2_tunnel_path = cp_tunnel_path p,
                 ca2_mode = cp_mode p, ca2_feature_flags = cp_feature_flags p,
                 ca2_rotation_flags = cp_rotation_flags p,
                 ca2_channel_binding = cp_channel_binding p\<rparr>) (\<lambda>auth_tag.
              Ok \<lparr>c2_protocol_version = AUTH_V2_PROTOCOL_VERSION, c2_auth_epoch = cp_auth_epoch p,
                  c2_client_nonce = client_nonce, c2_timestamp_unix = now,
                  c2_credential_hint = cp_credential_hint p, c2_mode = cp_mode p,
                  c2_feature_flags = cp_feature_flags p, c2_rotation_flags = cp_rotation_flags p,
                  c2_auth_tag = auth_tag\<rparr>), r')
         | (Err e, r') \<Rightarrow> (Err e, r')
         | (Panic, r') \<Rightarrow> (Panic, r')))"

definition ClientHelloV2_transcript ::
  "ClientHelloV2 \<Rightarrow> bytes \<Rightarrow> TlsChannelBinding option \<Rightarrow> ClientAuthV2Transcript" where
  "ClientHelloV2_transcript h tunnel_path binding =
     \<lparr>ca2_version = c2_protocol_version h, ca2_auth_epoch = c2_auth_epoch h,
      ca2_nonce = c2_client_nonce h, ca2_timestamp = c2_timestamp_unix h,
      ca2_credential_hint = c2_credential_hint h, ca2_tunnel_path = tunnel_path,
      ca2_mode = c2_mode h, ca2_feature_flags = c2_feature_flags h,
      ca2_rotation_flags = c2_rotation_flags h, ca2_channel_binding = binding\<rparr>"

definition ClientHelloV2_verify_with_channel_binding ::
  "Crypto \<Rightarrow> ClientHelloV2 \<Rightarrow> SecretString \<Rightarrow> bytes \<Rightarrow> TlsChannelBinding option \<Rightarrow> bool" where
  "ClientHelloV2_verify_with_channel_binding K h secret tunnel_path channel_binding =
     (case selected_channel_binding (c2_feature_flags h) channel_binding of
        None \<Rightarrow> False
      | Some binding \<Rightarrow>
          (case client_auth_v2_tag K secret (ClientHelloV2_transcript h tunnel_path binding) of
             Ok expected \<Rightarrow> verify_tag K expected (c2_auth_tag h)
           | _ \<Rightarrow> False))"

definition ClientHelloV2_verify :: "Crypto \<Rightarrow> ClientHelloV2 \<Rightarrow> SecretString \<Rightarrow> bytes \<Rightarrow> bool" where
  "ClientHelloV2_verify K h secret tunnel_path =
     ClientHelloV2_verify_with_channel_binding K h secret tunnel_path None"

definition ClientHelloV2_encode :: "ClientHelloV2 \<Rightarrow> bytes result" where
  "ClientHelloV2_encode h =
     and_then (validate_credential_hint (c2_credential_hint h)) (\<lambda>_.
     and_then (put_bytes_u16 (c2_credential_hint h)) (\<lambda>hint.
       Ok (put_u16 (c2_protocol_version h) @ put_u64 (c2_auth_epoch h) @ c2_client_nonce h
           @ put_u64 (c2_timestamp_unix h) @ hint @ put_u8 (Mode_wire_id (c2_mode h))
           @ put_u64 (c2_feature_flags h) @ put_u32 (c2_rotation_flags h) @ c2_auth_tag h)))"

definition ClientHelloV2_decode :: "bytes \<Rightarrow> ClientHelloV2 result" where
  "ClientHelloV2_decode input =
     fail_if (length input < 2 + 8 + 32 + 8 + 2 + 1 + 8 + 4 + 32) (MalformedFrame ''client hello v2 too short'')
     (and_then (get_u16 input) (\<lambda>(version, buf).
      and_then (get_u64 buf) (\<lambda>(auth_epoch, buf).
      and_then (copy_to_bytes 32 buf) (\<lambda>(client_nonce, buf).
      and_then (get_u64 buf) (\<lambda>(timestamp_unix, buf).
      and_then (get_bounded_bytes buf AUTH_V2_MAX_CREDENTIAL_HINT_LEN ''empty credential hint''
                  ''credential hint too long'') (\<lambda>(credential_hint, buf).
      fail_if (length buf < 1 + 8 + 4 + 32) (MalformedFrame ''client hello v2 truncated'')
      (and_then (get_u8 buf) (\<lambda>(mode_id, buf).
       and_then (Mode_from_wire_id mode_id) (\<lambda>mode.
       and_then (get_u64 buf) (\<lambda>(feature_flags, buf).
       and_then (get_u32 buf) (\<lambda>(rotation_flags, buf).
       and_then (copy_to_bytes 32 buf) (\<lambda>(auth_tag, buf).
       fail_if (buf \<noteq> []) (MalformedFrame ''client hello v2 trailing bytes'')
       (Ok \<lparr>c2_protocol_version = version, c2_auth_epoch = auth_epoch, c2_client_nonce = client_nonce,
            c2_timestamp_unix = timestamp_unix, c2_credential_hint = credential_hint, c2_mode = mode,
            c2_feature_flags = feature_flags, c2_rotation_flags = rotation_flags,
            c2_auth_tag = auth_tag\<rparr>)))))))))))))"

subsection \<open>Server hello, version 2\<close>

record ServerHelloV2 =
  s2_protocol_version_selected :: u16
  s2_selected_epoch :: u64
  s2_server_nonce :: bytes
  s2_session_id :: bytes
  s2_max_frame_size :: u32
  s2_max_concurrent_flows :: u32
  s2_feature_flags_selected :: u64
  s2_rotation_window_secs :: u32
  s2_server_auth_tag :: bytes

record ServerHelloV2Params =
  sp_secret :: SecretString
  sp_selected_epoch :: u64
  sp_client_nonce :: bytes
  sp_max_frame_size :: u32
  sp_max_concurrent_flows :: u32
  sp_feature_flags_selected :: u64
  sp_rotation_window_secs :: u32
  sp_channel_binding :: "TlsChannelBinding option"

record ServerAuthV2Transcript =
  sa2_client_nonce :: bytes
  sa2_server_nonce :: bytes
  sa2_session_id :: bytes
  sa2_protocol_version_selected :: u16
  sa2_selected_epoch :: u64
  sa2_max_frame_size :: u32
  sa2_max_concurrent_flows :: u32
  sa2_feature_flags_selected :: u64
  sa2_rotation_window_secs :: u32
  sa2_channel_binding :: "TlsChannelBinding option"

definition server_auth_v2_input :: "ServerAuthV2Transcript \<Rightarrow> bytes" where
  "server_auth_v2_input t =
     SERVER_HELLO_V2_AUTH_LABEL @ sa2_client_nonce t @ sa2_server_nonce t
     @ put_u8 (of_nat (length (sa2_session_id t))) @ sa2_session_id t
     @ put_u16 (sa2_protocol_version_selected t) @ put_u64 (sa2_selected_epoch t)
     @ put_u32 (sa2_max_frame_size t) @ put_u32 (sa2_max_concurrent_flows t)
     @ put_u64 (sa2_feature_flags_selected t) @ put_u32 (sa2_rotation_window_secs t)
     @ update_channel_binding (sa2_channel_binding t)"

definition server_auth_v2_tag_checked ::
  "Crypto \<Rightarrow> SecretString \<Rightarrow> ServerAuthV2Transcript \<Rightarrow> bytes result" where
  "server_auth_v2_tag_checked K secret t =
     fail_if (sa2_session_id t = [] \<or> length (sa2_session_id t) > 32) (MalformedFrame ''bad session id length'')
     (let key = auth_v2_epoch_key K secret (sa2_selected_epoch t) AUTH_V2_SERVER_INFO in
      Ok (hmac_sha256 K key (server_auth_v2_input t)))"

text \<open>\<open>server_auth_v2_tag\<close> panics where the checked computation fails.\<close>

definition server_auth_v2_tag :: "Crypto \<Rightarrow> SecretString \<Rightarrow> ServerAuthV2Transcript \<Rightarrow> bytes result" where
  "server_auth_v2_tag K secret t =
     (case server_auth_v2_tag_checked K secret t of Ok tag \<Rightarrow> Ok tag | _ \<Rightarrow> Panic)"

definition ServerHelloV2_try_new_with_channel_binding ::
  "Crypto \<Rightarrow> 'r os_rng \<Rightarrow> 'r \<Rightarrow> ServerHelloV2Params \<Rightarrow> ServerHelloV2 result \<times> 'r" where
  "ServerHelloV2_try_new_with_channel_binding K os r p =
     (if wants_binding (sp_feature_flags_selected p) \<and> sp_channel_binding p = None
      then (Err binding_missing, r)
      else case fill_random os r 32 of
        (Ok server_nonce, r1) \<Rightarrow>
          (case fill_random os r1 16 of
             (Ok session_id, r2) \<Rightarrow>
               (and_then (server_auth_v2_tag K (sp_secret p)
                  \<lparr>sa2_client_nonce = sp_client_nonce p, sa2_server_nonce = server_nonce,
                   sa2_session_id = session_id,
                   sa2_protocol_version_selected = AUTH_V2_PROTOCOL_VERSION,
                   sa2_selected_epoch = sp_selected_epoch p, sa2_max_frame_size = sp_max_frame_size p,
                   sa2_max_concurrent_flows = sp_max_concurrent_flows p,
                   sa2_feature_flags_selected = sp_feature_flags_selected p,
                   sa2_rotation_window_secs = sp_rotation_window_secs p,
                   sa2_channel_binding = sp_channel_binding p\<rparr>) (\<lambda>tag.
                Ok \<lparr>s2_protocol_version_selected = AUTH_V2_PROTOCOL_VERSION,
                    s2_selected_epoch = sp_selected_epoch p, s2_server_nonce = server_nonce,
                    s2_session_id = session_id, s2_max_frame_size = sp_max_frame_size p,
                    s2_max_concurrent_flows = sp_max_concurrent_flows p,
                    s2_feature_flags_selected = sp_feature_flags_selected p,
                    s2_rotation_window_secs = sp_rotation_window_secs p,
                    s2_server_auth_tag = tag\<rparr>), r2)
           | (Err e, r2) \<Rightarrow> (Err e, r2)
           | (Panic, r2) \<Rightarrow> (Panic, r2))
      | (Err e, r1) \<Rightarrow> (Err e, r1)
      | (Panic, r1) \<Rightarrow> (Panic, r1))"

definition ServerHelloV2_transcript ::
  "ServerHelloV2 \<Rightarrow> bytes \<Rightarrow> TlsChannelBinding option \<Rightarrow> ServerAuthV2Transcript" where
  "ServerHelloV2_transcript h client_nonce binding =
     \<lparr>sa2_client_nonce = client_nonce, sa2_server_nonce = s2_server_nonce h,
      sa2_session_id = s2_session_id h,
      sa2_protocol_version_selected = s2_protocol_version_selected h,
      sa2_selected_epoch = s2_selected_epoch h, sa2_max_frame_size = s2_max_frame_size h,
      sa2_max_concurrent_flows = s2_max_concurrent_flows h,
      sa2_feature_flags_selected = s2_feature_flags_selected h,
      sa2_rotation_window_secs = s2_rotation_window_secs h, sa2_channel_binding = binding\<rparr>"

definition ServerHelloV2_verify_with_channel_binding ::
  "Crypto \<Rightarrow> ServerHelloV2 \<Rightarrow> SecretString \<Rightarrow> bytes \<Rightarrow> TlsChannelBinding option \<Rightarrow> bool" where
  "ServerHelloV2_verify_with_channel_binding K h secret client_nonce channel_binding =
     (case selected_channel_binding (s2_feature_flags_selected h) channel_binding of
        None \<Rightarrow> False
      | Some binding \<Rightarrow>
          (case server_auth_v2_tag_checked K secret (ServerHelloV2_transcript h client_nonce binding) of
             Ok expected \<Rightarrow> verify_tag K expected (s2_server_auth_tag h)
           | _ \<Rightarrow> False))"

definition ServerHelloV2_verify :: "Crypto \<Rightarrow> ServerHelloV2 \<Rightarrow> SecretString \<Rightarrow> bytes \<Rightarrow> bool" where
  "ServerHelloV2_verify K h secret client_nonce =
     ServerHelloV2_verify_with_channel_binding K h secret client_nonce None"

definition ServerHelloV2_encode :: "ServerHelloV2 \<Rightarrow> bytes result" where
  "ServerHelloV2_encode h =
     fail_if (s2_session_id h = [] \<or> length (s2_session_id h) > 32) (MalformedFrame ''bad session id length'')
     (Ok (put_u16 (s2_protocol_version_selected h) @ put_u64 (s2_selected_epoch h) @ s2_server_nonce h
          @ put_u8 (of_nat (length (s2_session_id h))) @ s2_session_id h
          @ put_u32 (s2_max_frame_size h) @ put_u32 (s2_max_concurrent_flows h)
          @ put_u64 (s2_feature_flags_selected h) @ put_u32 (s2_rotation_window_secs h)
          @ s2_server_auth_tag h))"

definition ServerHelloV2_decode :: "bytes \<Rightarrow> ServerHelloV2 result" where
  "ServerHelloV2_decode input =
     fail_if (length input < 2 + 8 + 32 + 1 + 4 + 4 + 8 + 4 + 32) (MalformedFrame ''server hello v2 too short'')
     (and_then (get_u16 input) (\<lambda>(version, buf).
      and_then (get_u64 buf) (\<lambda>(selected_epoch, buf).
      and_then (copy_to_bytes 32 buf) (\<lambda>(server_nonce, buf).
      and_then (get_u8 buf) (\<lambda>(len8, buf).
      let session_len = unat len8 in
      fail_if (session_len = 0 \<or> session_len > 32 \<or> length buf < session_len + 4 + 4 + 8 + 4 + 32)
        (MalformedFrame ''bad session id length'')
      (and_then (copy_to_bytes session_len buf) (\<lambda>(session_id, buf).
       and_then (get_u32 buf) (\<lambda>(max_frame_size, buf).
       and_then (get_u32 buf) (\<lambda>(max_concurrent_flows, buf).
       and_then (get_u64 buf) (\<lambda>(feature_flags_selected, buf).
       and_then (get_u32 buf) (\<lambda>(rotation_window_secs, buf).
       and_then (copy_to_bytes 32 buf) (\<lambda>(tag, buf).
       fail_if (buf \<noteq> []) (MalformedFrame ''server hello v2 trailing bytes'')
       (Ok \<lparr>s2_protocol_version_selected = version, s2_selected_epoch = selected_epoch,
            s2_server_nonce = server_nonce, s2_session_id = session_id,
            s2_max_frame_size = max_frame_size, s2_max_concurrent_flows = max_concurrent_flows,
            s2_feature_flags_selected = feature_flags_selected,
            s2_rotation_window_secs = rotation_window_secs,
            s2_server_auth_tag = tag\<rparr>)))))))))))))"

subsection \<open>Wire round trips\<close>

definition client_hello_v2_ok :: "ClientHelloV2 \<Rightarrow> bool" where
  "client_hello_v2_ok h = (length (c2_client_nonce h) = 32 \<and> length (c2_auth_tag h) = 32
     \<and> c2_credential_hint h \<noteq> [] \<and> length (c2_credential_hint h) \<le> 512)"

definition server_hello_v2_ok :: "ServerHelloV2 \<Rightarrow> bool" where
  "server_hello_v2_ok h = (length (s2_server_nonce h) = 32 \<and> length (s2_server_auth_tag h) = 32
     \<and> s2_session_id h \<noteq> [] \<and> length (s2_session_id h) \<le> 32)"

definition client_hello_v2_bytes :: "ClientHelloV2 \<Rightarrow> bytes" where
  "client_hello_v2_bytes h =
     put_u16 (c2_protocol_version h) @ put_u64 (c2_auth_epoch h) @ c2_client_nonce h
     @ put_u64 (c2_timestamp_unix h) @ put_u16 (of_nat (length (c2_credential_hint h)))
     @ c2_credential_hint h @ put_u8 (Mode_wire_id (c2_mode h))
     @ put_u64 (c2_feature_flags h) @ put_u32 (c2_rotation_flags h) @ c2_auth_tag h"

definition server_hello_v2_bytes :: "ServerHelloV2 \<Rightarrow> bytes" where
  "server_hello_v2_bytes h =
     put_u16 (s2_protocol_version_selected h) @ put_u64 (s2_selected_epoch h) @ s2_server_nonce h
     @ put_u8 (of_nat (length (s2_session_id h))) @ s2_session_id h
     @ put_u32 (s2_max_frame_size h) @ put_u32 (s2_max_concurrent_flows h)
     @ put_u64 (s2_feature_flags_selected h) @ put_u32 (s2_rotation_window_secs h)
     @ s2_server_auth_tag h"

lemma validate_credential_hint_iff [simp]:
  "validate_credential_hint v = Ok u \<longleftrightarrow> v \<noteq> [] \<and> length v \<le> 512"
  "validate_credential_hint v \<noteq> Panic"
  by (auto simp: validate_credential_hint_def AUTH_V2_MAX_CREDENTIAL_HINT_LEN_def)

lemma ClientHelloV2_encode_Ok_iff:
  "ClientHelloV2_encode h = Ok b \<longleftrightarrow>
     c2_credential_hint h \<noteq> [] \<and> length (c2_credential_hint h) \<le> 512 \<and> b = client_hello_v2_bytes h"
  by (auto simp: ClientHelloV2_encode_def and_then_Ok_iff put_bytes_u16_def client_hello_v2_bytes_def)

lemma ServerHelloV2_encode_Ok_iff:
  "ServerHelloV2_encode h = Ok b \<longleftrightarrow>
     s2_session_id h \<noteq> [] \<and> length (s2_session_id h) \<le> 32 \<and> b = server_hello_v2_bytes h"
  by (auto simp: ServerHelloV2_encode_def server_hello_v2_bytes_def)

lemma ClientHelloV2_decode_bytes:
  assumes "client_hello_v2_ok h"
  shows "ClientHelloV2_decode (client_hello_v2_bytes h) = Ok h"
proof -
  have g: "get_bounded_bytes (put_u16 (of_nat (length (c2_credential_hint h))) @ c2_credential_hint h @ r)
      AUTH_V2_MAX_CREDENTIAL_HINT_LEN e e' = Ok (c2_credential_hint h, r)" for r e e'
    using assms by (simp add: client_hello_v2_ok_def AUTH_V2_MAX_CREDENTIAL_HINT_LEN_def)
  have l: "\<not> length (client_hello_v2_bytes h) < 2 + 8 + 32 + 8 + 2 + 1 + 8 + 4 + 32"
    using assms by (simp add: client_hello_v2_bytes_def client_hello_v2_ok_def)
  show ?thesis
    using assms l unfolding ClientHelloV2_decode_def
    by (simp add: client_hello_v2_bytes_def client_hello_v2_ok_def g)
qed

lemma ClientHelloV2_decode_OkD:
  assumes "ClientHelloV2_decode b = Ok h"
  shows "client_hello_v2_ok h \<and> b = client_hello_v2_bytes h"
  using assms
  by (auto simp: ClientHelloV2_decode_def and_then_Ok_iff client_hello_v2_ok_def client_hello_v2_bytes_def
        AUTH_V2_MAX_CREDENTIAL_HINT_LEN_def
      dest!: cursor_OkD get_bounded_bytes_OkD Mode_from_wire_id_OkD)

lemma ClientHelloV2_decode_not_Panic: "ClientHelloV2_decode b \<noteq> Panic"
  by (auto simp: ClientHelloV2_decode_def and_then_Panic_iff dest!: cursor_OkD)

lemma ServerHelloV2_decode_bytes:
  assumes "server_hello_v2_ok h"
  shows "ServerHelloV2_decode (server_hello_v2_bytes h) = Ok h"
proof -
  have u: "unat (of_nat (length (s2_session_id h)) :: u8) = length (s2_session_id h)"
    using assms by (simp add: server_hello_v2_ok_def unat_of_nat_le)
  have l: "\<not> length (server_hello_v2_bytes h) < 2 + 8 + 32 + 1 + 4 + 4 + 8 + 4 + 32"
    using assms by (simp add: server_hello_v2_bytes_def server_hello_v2_ok_def)
  show ?thesis
    using assms l unfolding ServerHelloV2_decode_def
    by (simp add: server_hello_v2_bytes_def server_hello_v2_ok_def u Let_def)
qed

lemma ServerHelloV2_decode_OkD:
  assumes "ServerHelloV2_decode b = Ok h"
  shows "server_hello_v2_ok h \<and> b = server_hello_v2_bytes h"
  using assms
  by (auto simp: ServerHelloV2_decode_def and_then_Ok_iff server_hello_v2_ok_def server_hello_v2_bytes_def
        Let_def
      dest!: cursor_OkD)

lemma ServerHelloV2_decode_not_Panic: "ServerHelloV2_decode b \<noteq> Panic"
  by (auto simp: ServerHelloV2_decode_def and_then_Panic_iff Let_def dest!: cursor_OkD)

subsection \<open>Transcripts\<close>

definition client_v2_transcript_ok :: "ClientAuthV2Transcript \<Rightarrow> bool" where
  "client_v2_transcript_ok t = (length (ca2_nonce t) = 32 \<and> length (ca2_credential_hint t) \<le> 65535
     \<and> length (ca2_tunnel_path t) \<le> 65535 \<and> binding_ok (ca2_channel_binding t))"

lemma client_auth_v2_input_inject:
  assumes "client_v2_transcript_ok t" "client_v2_transcript_ok t'"
    and "client_auth_v2_input t = client_auth_v2_input t'"
  shows "t = t'"
  using assms
  by (auto simp: client_auth_v2_input_def client_v2_transcript_ok_def of_nat_u16_inject
      intro!: ClientAuthV2Transcript.equality)

lemma client_auth_v2_tag_Ok_iff:
  "client_auth_v2_tag K secret t = Ok tag \<longleftrightarrow>
     ca2_credential_hint t \<noteq> [] \<and> length (ca2_credential_hint t) \<le> 512
     \<and> tag = hmac_sha256 K (auth_v2_epoch_key K secret (ca2_auth_epoch t) AUTH_V2_CLIENT_INFO)
               (client_auth_v2_input t)"
  by (auto simp: client_auth_v2_tag_def and_then_Ok_iff Let_def)

lemma ClientHelloV2_verify_iff:
  assumes "crypto_ok K"
  shows "ClientHelloV2_verify_with_channel_binding K h secret path binding \<longleftrightarrow>
     c2_credential_hint h \<noteq> [] \<and> length (c2_credential_hint h) \<le> 512
     \<and> (\<exists>b. selected_channel_binding (c2_feature_flags h) binding = Some b
           \<and> c2_auth_tag h = hmac_sha256 K
               (auth_v2_epoch_key K secret (c2_auth_epoch h) AUTH_V2_CLIENT_INFO)
               (client_auth_v2_input (ClientHelloV2_transcript h path b)))"
proof (cases "selected_channel_binding (c2_feature_flags h) binding")
  case None
  then show ?thesis by (simp add: ClientHelloV2_verify_with_channel_binding_def)
next
  case (Some b)
  then show ?thesis
    using assms client_auth_v2_tag_Ok_iff [of K secret "ClientHelloV2_transcript h path b"]
    by (auto simp: ClientHelloV2_verify_with_channel_binding_def verify_tag_def crypto_ok_def
        ClientHelloV2_transcript_def split: outcome.splits)
qed

lemma ClientHelloV2_new_OkD:
  assumes "ClientHelloV2_new_with_channel_binding K os r now p = (Ok h, r')"
  shows "client_auth_v2_tag K (cp_secret p)
           (ClientHelloV2_transcript h (cp_tunnel_path p) (cp_channel_binding p)) = Ok (c2_auth_tag h)"
    "c2_credential_hint h = cp_credential_hint p" "c2_auth_epoch h = cp_auth_epoch p"
    "c2_feature_flags h = cp_feature_flags p" "c2_timestamp_unix h = now"
    "\<exists>r1. fill_random os r 32 = (Ok (c2_client_nonce h), r1)"
  using assms
  by (auto simp: ClientHelloV2_new_with_channel_binding_def ClientHelloV2_transcript_def and_then_Ok_iff
      split: prod.splits outcome.splits if_splits)

lemma ServerHelloV2_try_new_OkD:
  assumes "ServerHelloV2_try_new_with_channel_binding K os r p = (Ok h, r')"
  shows "server_auth_v2_tag_checked K (sp_secret p)
           (ServerHelloV2_transcript h (sp_client_nonce p) (sp_channel_binding p)) = Ok (s2_server_auth_tag h)"
    "s2_selected_epoch h = sp_selected_epoch p" "s2_feature_flags_selected h = sp_feature_flags_selected p"
    "\<exists>r1. fill_random os r 32 = (Ok (s2_server_nonce h), r1)
       \<and> (\<exists>r2. fill_random os r1 16 = (Ok (s2_session_id h), r2))"
  using assms
  by (auto simp: ServerHelloV2_try_new_with_channel_binding_def ServerHelloV2_transcript_def and_then_Ok_iff
        server_auth_v2_tag_def
      split: prod.splits outcome.splits if_splits)

lemma ServerHelloV2_verify_created:
  assumes "crypto_ok K" "binding_consistent (sp_feature_flags_selected p) (sp_channel_binding p)"
    and "ServerHelloV2_try_new_with_channel_binding K os r p = (Ok h, r')"
  shows "ServerHelloV2_verify_with_channel_binding K h (sp_secret p) (sp_client_nonce p) (sp_channel_binding p)"
  using ServerHelloV2_try_new_OkD [OF assms(3)] selected_channel_binding_consistent [OF assms(2)] assms(1)
  by (simp add: ServerHelloV2_verify_with_channel_binding_def verify_tag_def crypto_ok_def)

lemma ServerHelloV2_created_ok:
  assumes "crypto_ok K" "rng_ok os" "ServerHelloV2_try_new_with_channel_binding K os r p = (Ok h, r')"
  shows "server_hello_v2_ok h"
proof -
  obtain r1 r2 where "fill_random os r 32 = (Ok (s2_server_nonce h), r1)"
      "fill_random os r1 16 = (Ok (s2_session_id h), r2)"
    using ServerHelloV2_try_new_OkD(4) [OF assms(3)] by blast
  then have "length (s2_server_nonce h) = 32" "length (s2_session_id h) = 16"
    using fill_random_OkD [OF assms(2)] by blast+
  with ServerHelloV2_try_new_OkD(1) [OF assms(3)] assms(1) show ?thesis
    by (auto simp: server_hello_v2_ok_def server_auth_v2_tag_checked_def Let_def crypto_ok_def
        dest!: arg_cong [of _ _ length])
qed

lemma ClientHelloV2_created_ok:
  assumes "crypto_ok K" "rng_ok os" "ClientHelloV2_new_with_channel_binding K os r now p = (Ok h, r')"
  shows "client_hello_v2_ok h"
  using ClientHelloV2_new_OkD [OF assms(3)] assms(1) fill_random_OkD [OF assms(2), of r 32]
  by (auto simp: client_hello_v2_ok_def client_auth_v2_tag_Ok_iff crypto_ok_def ClientHelloV2_transcript_def)

subsection \<open>The four transcripts are separate\<close>

lemma auth_label_lengths:
  "length CLIENT_HELLO_AUTH_LABEL = 24" "length SERVER_HELLO_AUTH_LABEL = 24"
  "length CLIENT_HELLO_V2_AUTH_LABEL = 24" "length SERVER_HELLO_V2_AUTH_LABEL = 24"
  by (simp_all add: CLIENT_HELLO_AUTH_LABEL_def SERVER_HELLO_AUTH_LABEL_def
      CLIENT_HELLO_V2_AUTH_LABEL_def SERVER_HELLO_V2_AUTH_LABEL_def ascii_def)

lemma auth_labels_distinct:
  "distinct [CLIENT_HELLO_AUTH_LABEL, SERVER_HELLO_AUTH_LABEL, CLIENT_HELLO_V2_AUTH_LABEL,
     SERVER_HELLO_V2_AUTH_LABEL]"
  by (simp add: CLIENT_HELLO_AUTH_LABEL_def SERVER_HELLO_AUTH_LABEL_def
      CLIENT_HELLO_V2_AUTH_LABEL_def SERVER_HELLO_V2_AUTH_LABEL_def ascii_def)

lemma auth_input_label:
  "take 24 (client_auth_input t) = CLIENT_HELLO_AUTH_LABEL"
  "take 24 (server_auth_input u) = SERVER_HELLO_AUTH_LABEL"
  "take 24 (client_auth_v2_input v) = CLIENT_HELLO_V2_AUTH_LABEL"
  "take 24 (server_auth_v2_input w) = SERVER_HELLO_V2_AUTH_LABEL"
  by (simp_all add: client_auth_input_def server_auth_input_def client_auth_v2_input_def
      server_auth_v2_input_def auth_label_lengths)

subsection \<open>Properties of the version 2 hellos\<close>

text \<open>
  C37. The wire formats of the version 2 hellos are canonical: a byte string decodes to a hello
  exactly when the encoder of that hello, with 32-byte nonce and tag, yields this byte string.
  The decoders never panic.
\<close>

theorem hello_v2_decode_iff_encode:
  "(ClientHelloV2_decode b = Ok h \<longleftrightarrow>
      length (c2_client_nonce h) = 32 \<and> length (c2_auth_tag h) = 32 \<and> ClientHelloV2_encode h = Ok b)
   \<and> (ServerHelloV2_decode b = Ok s \<longleftrightarrow>
      length (s2_server_nonce s) = 32 \<and> length (s2_server_auth_tag s) = 32 \<and> ServerHelloV2_encode s = Ok b)
   \<and> ClientHelloV2_decode b \<noteq> Panic \<and> ServerHelloV2_decode b \<noteq> Panic"
proof -
  have "ClientHelloV2_decode b = Ok h \<longleftrightarrow> client_hello_v2_ok h \<and> b = client_hello_v2_bytes h"
    using ClientHelloV2_decode_OkD [of b h] ClientHelloV2_decode_bytes [of h] by argo
  moreover have "ServerHelloV2_decode b = Ok s \<longleftrightarrow> server_hello_v2_ok s \<and> b = server_hello_v2_bytes s"
    using ServerHelloV2_decode_OkD [of b s] ServerHelloV2_decode_bytes [of s] by argo
  ultimately show ?thesis
    by (simp add: ClientHelloV2_encode_Ok_iff ServerHelloV2_encode_Ok_iff client_hello_v2_ok_def
        server_hello_v2_ok_def ClientHelloV2_decode_not_Panic ServerHelloV2_decode_not_Panic)
qed

text \<open>
  Honest version 2 peers understand each other: a client hello made with channel binding
  material exactly when the flag is set is encoded, read back and verified by a server with
  the same secret, path and binding, with its epoch and hint; and so is the server hello.
\<close>

theorem hello_v2_complete:
  assumes "crypto_ok K" "rng_ok os"
    and "binding_consistent (cp_feature_flags p) (cp_channel_binding p)"
    and "ClientHelloV2_new_with_channel_binding K os r now p = (Ok h, r')"
    and "binding_consistent (sp_feature_flags_selected q) (sp_channel_binding q)"
    and "ServerHelloV2_try_new_with_channel_binding K os r' q = (Ok s, r'')"
  shows "\<exists>b c. ClientHelloV2_encode h = Ok b \<and> ClientHelloV2_decode b = Ok h
     \<and> ClientHelloV2_verify_with_channel_binding K h (cp_secret p) (cp_tunnel_path p) (cp_channel_binding p)
     \<and> c2_auth_epoch h = cp_auth_epoch p \<and> c2_credential_hint h = cp_credential_hint p
     \<and> ServerHelloV2_encode s = Ok c \<and> ServerHelloV2_decode c = Ok s
     \<and> ServerHelloV2_verify_with_channel_binding K s (sp_secret q) (sp_client_nonce q) (sp_channel_binding q)"
proof -
  have ok: "client_hello_v2_ok h" "server_hello_v2_ok s"
    using ClientHelloV2_created_ok [OF assms(1,2,4)] ServerHelloV2_created_ok [OF assms(1,2,6)] by simp_all
  have "ClientHelloV2_verify_with_channel_binding K h (cp_secret p) (cp_tunnel_path p) (cp_channel_binding p)"
    using ClientHelloV2_new_OkD [OF assms(4)] selected_channel_binding_consistent [OF assms(3)] assms(1)
    by (simp add: ClientHelloV2_verify_with_channel_binding_def verify_tag_def crypto_ok_def)
  with ok ServerHelloV2_verify_created [OF assms(1,5,6)] ClientHelloV2_new_OkD(2,3) [OF assms(4)]
  show ?thesis
    by (simp add: ClientHelloV2_encode_Ok_iff ServerHelloV2_encode_Ok_iff ClientHelloV2_decode_bytes
        ServerHelloV2_decode_bytes)
       (simp add: client_hello_v2_ok_def server_hello_v2_ok_def)
qed

definition example_client_params :: ClientHelloV2Params where
  "example_client_params =
     \<lparr>cp_credential_hint = [1, 2, 3], cp_secret = ascii ''key'', cp_auth_epoch = 7,
      cp_tunnel_path = ascii ''/tunnel'', cp_mode = Auto, cp_feature_flags = 0,
      cp_rotation_flags = 1, cp_channel_binding = None\<rparr>"

definition example_server_params :: ServerHelloV2Params where
  "example_server_params =
     \<lparr>sp_secret = ascii ''key'', sp_selected_epoch = 7, sp_client_nonce = replicate 32 1,
      sp_max_frame_size = 65536, sp_max_concurrent_flows = 8, sp_feature_flags_selected = 0,
      sp_rotation_window_secs = 86400, sp_channel_binding = None\<rparr>"

lemma example_v2_hellos:
  obtains h r' s r'' where
    "ClientHelloV2_new_with_channel_binding example_crypto example_rng 1 100 example_client_params = (Ok h, r')"
    "ServerHelloV2_try_new_with_channel_binding example_crypto example_rng r' example_server_params = (Ok s, r'')"
proof -
  have hint: "validate_credential_hint [1, 2, 3] = Ok ()" by simp
  have "\<exists>h r'. ClientHelloV2_new_with_channel_binding example_crypto example_rng 1 100 example_client_params = (Ok h, r')"
    by (simp add: ClientHelloV2_new_with_channel_binding_def example_client_params_def wants_binding_def
        client_auth_v2_tag_def hint)
  moreover have "\<exists>s r''. ServerHelloV2_try_new_with_channel_binding example_crypto example_rng r' example_server_params
      = (Ok s, r'')" for r'
    by (simp add: ServerHelloV2_try_new_with_channel_binding_def example_server_params_def wants_binding_def
        server_auth_v2_tag_def server_auth_v2_tag_checked_def Let_def)
  ultimately show ?thesis using that by blast
qed

theorem hello_v2_complete_witness:
  "\<exists>h b. ClientHelloV2_encode h = Ok b \<and> ClientHelloV2_decode b = Ok h
     \<and> ClientHelloV2_verify_with_channel_binding example_crypto h (ascii ''key'') (ascii ''/tunnel'') None
     \<and> c2_auth_epoch h = 7"
proof -
  obtain h r' s r'' where h:
    "ClientHelloV2_new_with_channel_binding example_crypto example_rng 1 100 example_client_params = (Ok h, r')"
    "ServerHelloV2_try_new_with_channel_binding example_crypto example_rng r' example_server_params = (Ok s, r'')"
    by (rule example_v2_hellos)
  have c: "binding_consistent (cp_feature_flags example_client_params) (cp_channel_binding example_client_params)"
    "binding_consistent (sp_feature_flags_selected example_server_params) (sp_channel_binding example_server_params)"
    by (simp_all add: example_client_params_def example_server_params_def binding_consistent_def wants_binding_def)
  show ?thesis
    using hello_v2_complete [OF example_crypto_ok example_rng_ok c(1) h(1) c(2) h(2)]
    by (auto simp: example_client_params_def)
qed

text \<open>
  C18. A version 2 client tag binds the whole decoded hello: if two hellos that were read from
  the wire with the same tag verify under one secret, then they are the same hello, for the same
  tunnel path and selected channel binding, or the keys and bytes authenticated for the one and
  for the other are an HMAC collision.
\<close>

theorem client_v2_tag_binds_hello:
  assumes "crypto_ok K" "ClientHelloV2_decode w = Ok h" "ClientHelloV2_decode w' = Ok h'"
    and "c2_auth_tag h = c2_auth_tag h'"
    and "length path \<le> 65535" "length path' \<le> 65535" "binding_ok b" "binding_ok b'"
    and "ClientHelloV2_verify_with_channel_binding K h secret path b"
    and "ClientHelloV2_verify_with_channel_binding K h' secret path' b'"
    and "selected_channel_binding (c2_feature_flags h) b = Some s"
    and "selected_channel_binding (c2_feature_flags h') b' = Some s'"
  shows "(h = h' \<and> path = path' \<and> s = s')
     \<or> mac_collision K
          (auth_v2_epoch_key K secret (c2_auth_epoch h) AUTH_V2_CLIENT_INFO)
          (client_auth_v2_input (ClientHelloV2_transcript h path s))
          (auth_v2_epoch_key K secret (c2_auth_epoch h') AUTH_V2_CLIENT_INFO)
          (client_auth_v2_input (ClientHelloV2_transcript h' path' s'))"
proof -
  let ?key = "\<lambda>h. auth_v2_epoch_key K secret (c2_auth_epoch h) AUTH_V2_CLIENT_INFO"
  let ?t = "ClientHelloV2_transcript h path s" and ?t' = "ClientHelloV2_transcript h' path' s'"
  have tags: "hmac_sha256 K (?key h) (client_auth_v2_input ?t) = hmac_sha256 K (?key h') (client_auth_v2_input ?t')"
    using assms(4,9-12) unfolding ClientHelloV2_verify_iff [OF assms(1)] by auto
  show ?thesis
  proof (cases "client_auth_v2_input ?t = client_auth_v2_input ?t'")
    case True
    have "binding_ok s" "binding_ok s'"
      using assms(7,8,11,12)
      by (auto simp: selected_channel_binding_def binding_ok_def split: if_splits option.splits)
    then have "client_v2_transcript_ok ?t" "client_v2_transcript_ok ?t'"
      using ClientHelloV2_decode_OkD [OF assms(2)] ClientHelloV2_decode_OkD [OF assms(3)] assms(5,6)
      by (simp_all add: client_v2_transcript_ok_def client_hello_v2_ok_def ClientHelloV2_transcript_def)
    with True have "?t = ?t'" using client_auth_v2_input_inject by blast
    then show ?thesis
      using assms(4) by (auto simp: ClientHelloV2_transcript_def intro!: ClientHelloV2.equality)
  next
    case False
    with tags show ?thesis by (simp add: mac_collision_def)
  qed
qed

theorem client_v2_tag_binds_hello_witness:
  "\<exists>h :: ClientHelloV2. ClientHelloV2_decode (client_hello_v2_bytes h) = Ok h
     \<and> ClientHelloV2_verify_with_channel_binding example_crypto h (ascii ''key'') (ascii ''/tunnel'') None
     \<and> \<not> mac_collision example_crypto
          (auth_v2_epoch_key example_crypto (ascii ''key'') 7 AUTH_V2_CLIENT_INFO)
          (client_auth_v2_input (ClientHelloV2_transcript h (ascii ''/tunnel'') None))
          (auth_v2_epoch_key example_crypto (ascii ''key'') 7 AUTH_V2_CLIENT_INFO)
          (client_auth_v2_input (ClientHelloV2_transcript h (ascii ''/tunnel'') None))"
proof -
  obtain h r' s r'' where h:
    "ClientHelloV2_new_with_channel_binding example_crypto example_rng 1 100 example_client_params = (Ok h, r')"
    "ServerHelloV2_try_new_with_channel_binding example_crypto example_rng r' example_server_params = (Ok s, r'')"
    by (rule example_v2_hellos)
  have d: "ClientHelloV2_decode (client_hello_v2_bytes h) = Ok h"
    by (rule ClientHelloV2_decode_bytes [OF ClientHelloV2_created_ok [OF example_crypto_ok example_rng_ok h(1)]])
  have sel: "selected_channel_binding (c2_feature_flags h) None = Some None"
    using ClientHelloV2_new_OkD(4) [OF h(1)]
    by (simp add: example_client_params_def selected_channel_binding_def wants_binding_def)
  have v: "ClientHelloV2_verify_with_channel_binding example_crypto h (ascii ''key'') (ascii ''/tunnel'') None"
    using ClientHelloV2_new_OkD(1) [OF h(1)] example_crypto_ok sel
    by (simp add: ClientHelloV2_verify_with_channel_binding_def verify_tag_def crypto_ok_def
        example_client_params_def)
  have l: "length (ascii ''/tunnel'') \<le> 65535" by (simp add: ascii_def)
  have b: "binding_ok None" by (simp add: binding_ok_def)
  show ?thesis
    using client_v2_tag_binds_hello [OF example_crypto_ok d d refl l l b b v v sel sel] v d
    by (auto simp: mac_collision_def)
qed

text \<open>
  C20. The four kinds of authenticated transcripts are separate: no client transcript is a
  server transcript and no version 1 transcript is a version 2 transcript, so no two roles or
  versions ever compute a tag over the same bytes.
\<close>

theorem auth_transcripts_separate:
  "client_auth_input t \<noteq> server_auth_input u \<and> client_auth_input t \<noteq> client_auth_v2_input v
   \<and> client_auth_input t \<noteq> server_auth_v2_input w \<and> server_auth_input u \<noteq> client_auth_v2_input v
   \<and> server_auth_input u \<noteq> server_auth_v2_input w \<and> client_auth_v2_input v \<noteq> server_auth_v2_input w"
  using auth_labels_distinct auth_input_label(1) [of t] auth_input_label(2) [of u]
    auth_input_label(3) [of v] auth_input_label(4) [of w]
  by auto

end
