(* ===== verification/Replay_Cache.thy ===== *)
theory Replay_Cache
  imports Mav_Error
begin

text \<open>
  The replay cache of authenticated hellos, \<open>maverick-core/src/replay.rs\<close>. The hash map of
  credentials is an association list with distinct keys, the hash set of nonces a set, and
  every method returns its result with the cache it leaves behind. The contract a server
  relies on is the locale \<open>replay_guard\<close>: what was accepted stays known while its timestamp
  is in the window, and what is known is rejected. \<open>run_checks\<close> is a sequence of calls.
\<close>

record ReplayEntry =
  re_nonce :: bytes
  re_timestamp :: i64

record CredentialReplayState =
  cs_keys :: "bytes set"
  cs_entries :: "ReplayEntry list"

record ReplayCache =
  rc_window_secs :: i64
  rc_max_entries :: nat
  rc_max_credentials :: nat
  rc_credentials :: "(bytes \<times> CredentialReplayState) list"

definition ReplayCache_new :: "i64 \<Rightarrow> nat \<Rightarrow> nat \<Rightarrow> ReplayCache" where
  "ReplayCache_new w e m =
     \<lparr>rc_window_secs = w, rc_max_entries = e, rc_max_credentials = m, rc_credentials = []\<rparr>"

definition default_state :: CredentialReplayState where
  "default_state = \<lparr>cs_keys = {}, cs_entries = []\<rparr>"

definition retain_state :: "i64 \<Rightarrow> CredentialReplayState \<Rightarrow> CredentialReplayState" where
  "retain_state cutoff s =
     \<lparr>cs_keys = fold (\<lambda>e keys. if i64_le cutoff (re_timestamp e) then keys else keys - {re_nonce e})
                  (cs_entries s) (cs_keys s),
      cs_entries = filter (\<lambda>e. i64_le cutoff (re_timestamp e)) (cs_entries s)\<rparr>"

definition cleanup :: "ReplayCache \<Rightarrow> i64 \<Rightarrow> ReplayCache" where
  "cleanup c now_unix =
     (let cutoff = saturating_sub_i64 now_unix (rc_window_secs c) in
      c\<lparr>rc_credentials := filter (\<lambda>(_, s). cs_entries s \<noteq> [])
           (map (\<lambda>(cid, s). (cid, retain_state cutoff s)) (rc_credentials c))\<rparr>)"

text \<open>\<open>put_state\<close> writes back through the reference that \<open>entry(cid).or_default()\<close> returns.\<close>

fun put_state :: "bytes \<Rightarrow> CredentialReplayState \<Rightarrow> (bytes \<times> CredentialReplayState) list
    \<Rightarrow> (bytes \<times> CredentialReplayState) list" where
  "put_state cid s [] = [(cid, s)]"
| "put_state cid s ((cid', s') # r) = (if cid = cid' then (cid, s) # r else (cid', s') # put_state cid s r)"

definition check_and_insert ::
  "ReplayCache \<Rightarrow> bytes \<Rightarrow> bytes \<Rightarrow> i64 \<Rightarrow> i64 \<Rightarrow> unit result \<times> ReplayCache" where
  "check_and_insert c0 credential_id nonce timestamp_unix now_unix =
     (case checked_sub_i64 now_unix (rc_window_secs c0) of
        None \<Rightarrow> (Err (Replay ''timestamp window underflow''), c0)
      | Some oldest_allowed \<Rightarrow>
     (case checked_add_i64 now_unix (rc_window_secs c0) of
        None \<Rightarrow> (Err (Replay ''timestamp window overflow''), c0)
      | Some newest_allowed \<Rightarrow>
      if i64_lt timestamp_unix oldest_allowed then (Err (Replay ''timestamp too old''), c0)
      else if i64_lt newest_allowed timestamp_unix then (Err (Replay ''timestamp too new''), c0)
      else
        let c = cleanup c0 now_unix in
        if map_of (rc_credentials c) credential_id = None
           \<and> length (rc_credentials c) \<ge> rc_max_credentials c
        then (Err (Replay ''replay cache credential limit reached''), c)
        else
          let state = (case map_of (rc_credentials c) credential_id of
                         Some s \<Rightarrow> s | None \<Rightarrow> default_state);
              c1 = c\<lparr>rc_credentials := put_state credential_id state (rc_credentials c)\<rparr> in
          if nonce \<in> cs_keys state then (Err (Replay ''duplicate nonce''), c1)
          else if length (cs_entries state) \<ge> rc_max_entries c
          then (Err (Replay ''replay cache full''), c1)
          else
            (Ok (), c\<lparr>rc_credentials := put_state credential_id
               \<lparr>cs_keys = insert nonce (cs_keys state),
                cs_entries = cs_entries state @ [\<lparr>re_nonce = nonce, re_timestamp = timestamp_unix\<rparr>]\<rparr>
               (rc_credentials c)\<rparr>)))"

definition ReplayCache_len :: "ReplayCache \<Rightarrow> nat" where
  "ReplayCache_len c = sum_list (map (\<lambda>(_, s). length (cs_entries s)) (rc_credentials c))"

definition ReplayCache_is_empty :: "ReplayCache \<Rightarrow> bool" where
  "ReplayCache_is_empty c = (rc_credentials c = [])"

subsection \<open>A sequence of calls\<close>

type_synonym replay_call = "bytes \<times> bytes \<times> i64 \<times> i64"

fun run_checks :: "('c \<Rightarrow> bytes \<Rightarrow> bytes \<Rightarrow> i64 \<Rightarrow> i64 \<Rightarrow> unit result \<times> 'c) \<Rightarrow> 'c \<Rightarrow> replay_call list
    \<Rightarrow> unit result list \<times> 'c" where
  "run_checks check c [] = ([], c)"
| "run_checks check c ((cid, n, ts, now) # calls) =
     (let (r, c') = check c cid n ts now; (rs, c'') = run_checks check c' calls in (r # rs, c''))"

definition clock_ok :: "replay_call list \<Rightarrow> bool" where
  "clock_ok calls = sorted (map (\<lambda>(_, _, _, now). sint now) calls)"

text \<open>The triples a sequence of calls accepts, in order.\<close>

definition accepted_calls :: "unit result list \<Rightarrow> replay_call list \<Rightarrow> (bytes \<times> bytes \<times> i64) list" where
  "accepted_calls rs calls = map (\<lambda>(_, cid, n, ts, _). (cid, n, ts)) (filter (\<lambda>(r, _). r = Ok ()) (zip rs calls))"

locale replay_guard =
  fixes check :: "'c \<Rightarrow> bytes \<Rightarrow> bytes \<Rightarrow> i64 \<Rightarrow> i64 \<Rightarrow> unit result \<times> 'c"
    and inv :: "'c \<Rightarrow> bool"
    and known :: "'c \<Rightarrow> (bytes \<times> bytes \<times> i64) set"
    and window :: "'c \<Rightarrow> int"
  assumes check_inv: "inv c \<Longrightarrow> check c cid n ts now = (r, c') \<Longrightarrow> inv c' \<and> window c' = window c"
    and accept_window: "inv c \<Longrightarrow> check c cid n ts now = (Ok (), c') \<Longrightarrow>
          sint now - window c \<le> sint ts \<and> sint ts \<le> sint now + window c"
    and accept_known: "inv c \<Longrightarrow> check c cid n ts now = (Ok (), c') \<Longrightarrow> (cid, n, ts) \<in> known c'"
    and known_rejected: "inv c \<Longrightarrow> (cid, n, ts) \<in> known c \<Longrightarrow> sint now - window c \<le> sint ts \<Longrightarrow>
          fst (check c cid n ts' now) \<noteq> Ok ()"
    and known_kept: "inv c \<Longrightarrow> check c cid n ts now = (r, c') \<Longrightarrow> (cid', n', ts') \<in> known c \<Longrightarrow>
          sint now - window c \<le> sint ts' \<Longrightarrow> (cid', n', ts') \<in> known c'"
begin

lemma late_never_accepted:
  assumes "inv c" "run_checks check c calls = (rs, c')" "sint ts < sint now - window c"
    and "\<forall>(_, _, _, now') \<in> set calls. sint now \<le> sint now'"
  shows "(cid, n, ts) \<notin> set (accepted_calls rs calls)"
  using assms
proof (induction calls arbitrary: c rs)
  case Nil
  then show ?case by (simp add: accepted_calls_def)
next
  case (Cons call calls)
  obtain i2 n2 t2 now2 where c2: "call = (i2, n2, t2, now2)" by (cases call)
  obtain r d where d: "check c i2 n2 t2 now2 = (r, d)" by fastforce
  obtain rs' d' where rs': "run_checks check d calls = (rs', d')" by fastforce
  have rs: "rs = r # rs'" "d' = c'" using Cons.prems(2) by (simp_all add: c2 d rs')
  have "(cid, n, ts) \<notin> set (accepted_calls rs' calls)"
    using Cons.IH [of d rs'] check_inv [OF Cons.prems(1) d] Cons.prems(3,4) rs' rs(2) by simp
  moreover have "t2 \<noteq> ts" if "r = Ok ()"
    using accept_window [of c i2 n2 t2 now2 d] d that Cons.prems by (auto simp: c2)
  ultimately show ?case by (auto simp: accepted_calls_def c2 rs)
qed

text \<open>Once known, a triple is not accepted again while the clock does not run backwards.\<close>

lemma known_never_accepted:
  assumes "inv c" "(cid, n, ts) \<in> known c" "clock_ok calls"
  shows "(cid, n, ts) \<notin> set (accepted_calls (fst (run_checks check c calls)) calls)"
  using assms
proof (induction calls arbitrary: c)
  case Nil
  then show ?case by (simp add: accepted_calls_def)
next
  case (Cons call calls)
  obtain cid' n' ts' now where call: "call = (cid', n', ts', now)" by (cases call)
  obtain r c' where step: "check c cid' n' ts' now = (r, c')" by fastforce
  obtain rs c'' where rest: "run_checks check c' calls = (rs, c'')" by fastforce
  note inv' = check_inv [OF Cons.prems(1) step]
  show ?case
  proof (cases "sint now - window c \<le> sint ts")
    case True
    then have "(cid, n, ts) \<in> known c'" using known_kept [OF Cons.prems(1) step Cons.prems(2)] by simp
    then have "(cid, n, ts) \<notin> set (accepted_calls rs calls)"
      using Cons.IH [of c'] inv' Cons.prems(3) rest by (simp add: clock_ok_def)
    moreover have "r \<noteq> Ok ()" if "cid' = cid" "n' = n"
      using known_rejected [OF Cons.prems(1,2) True, of ts'] step that by auto
    ultimately show ?thesis
      by (auto simp: call step rest accepted_calls_def)
  next
    case False
    have "(cid, n, ts) \<notin> set (accepted_calls rs calls)"
      using inv' rest Cons.prems(3) False 
      by (intro late_never_accepted [of c' calls rs c'' ts now]) (auto simp: clock_ok_def call)
    moreover have "ts' \<noteq> ts" if "r = Ok ()"
      using accept_window [OF Cons.prems(1), of cid' n' ts' now c'] step that False by auto
    ultimately show ?thesis by (auto simp: call step rest accepted_calls_def)
  qed
qed

lemma accepted_distinct:
  assumes "inv c" "clock_ok calls"
  shows "distinct (accepted_calls (fst (run_checks check c calls)) calls)"
  using assms
proof (induction calls arbitrary: c)
  case Nil
  then show ?case by (simp add: accepted_calls_def)
next
  case (Cons call calls)
  obtain cid n ts now where call: "call = (cid, n, ts, now)" by (cases call)
  obtain r c' where step: "check c cid n ts now = (r, c')" by fastforce
  obtain rs c'' where rest: "run_checks check c' calls = (rs, c'')" by fastforce
  have ok: "inv c'" "clock_ok calls"
    using check_inv [OF Cons.prems(1) step] Cons.prems(2) by (simp_all add: clock_ok_def)
  then have "distinct (accepted_calls rs calls)" using Cons.IH [of c'] rest by simp
  moreover have "(cid, n, ts) \<notin> set (accepted_calls rs calls)" if "r = Ok ()"
    using known_never_accepted [OF ok(1) _ ok(2)] accept_known [OF Cons.prems(1)] step that rest
    by fastforce
  ultimately show ?case by (auto simp: call step rest accepted_calls_def)
qed

end

subsection \<open>The invariant of the cache\<close>

definition state_inv :: "nat \<Rightarrow> CredentialReplayState \<Rightarrow> bool" where
  "state_inv m s = (cs_keys s = re_nonce ` set (cs_entries s) \<and> distinct (map re_nonce (cs_entries s))
     \<and> length (cs_entries s) \<le> m)"

definition cache_inv :: "ReplayCache \<Rightarrow> bool" where
  "cache_inv c = (distinct (map fst (rc_credentials c))
     \<and> length (rc_credentials c) \<le> rc_max_credentials c
     \<and> (\<forall>(_, s) \<in> set (rc_credentials c). state_inv (rc_max_entries c) s))"

definition known :: "ReplayCache \<Rightarrow> (bytes \<times> bytes \<times> i64) set" where
  "known c = {(cid, n, ts). \<exists>s. map_of (rc_credentials c) cid = Some s
     \<and> \<lparr>re_nonce = n, re_timestamp = ts\<rparr> \<in> set (cs_entries s)}"

lemma map_of_put_state [simp]: "map_of (put_state cid s cs) = (map_of cs)(cid \<mapsto> s)"
  by (induction cid s cs rule: put_state.induct) (auto simp: fun_eq_iff)

lemma fst_put_state:
  "map fst (put_state cid s cs) = (if cid \<in> fst ` set cs then map fst cs else map fst cs @ [cid])"
  by (induction cid s cs rule: put_state.induct) auto

lemma length_put_state:
  "length (put_state cid s cs) = (if cid \<in> fst ` set cs then length cs else Suc (length cs))"
  by (induction cid s cs rule: put_state.induct) auto

lemma set_put_state: "(cid', s') \<in> set (put_state cid s cs) \<Longrightarrow> (cid', s') \<in> set cs \<or> (cid', s') = (cid, s)"
  by (induction cid s cs rule: put_state.induct) (auto split: if_splits)

lemma fold_remove_keys:
  "fold (\<lambda>e keys. if P e then keys else keys - {re_nonce e}) es K = K - re_nonce ` {e \<in> set es. \<not> P e}"
  by (induction es arbitrary: K) auto

lemma retain_state_inv:
  assumes "state_inv m s"
  shows "state_inv m (retain_state cutoff s)"
proof -
  let ?P = "\<lambda>e. i64_le cutoff (re_timestamp e)"
  have inj: "inj_on re_nonce (set (cs_entries s))"
    using assms by (simp add: state_inv_def distinct_map)
  have "re_nonce ` set (cs_entries s) - re_nonce ` {e \<in> set (cs_entries s). \<not> ?P e}
      = re_nonce ` (set (cs_entries s) - {e \<in> set (cs_entries s). \<not> ?P e})"
    by (rule inj_on_image_set_diff [OF inj, symmetric]) auto
  also have "set (cs_entries s) - {e \<in> set (cs_entries s). \<not> ?P e} = set (filter ?P (cs_entries s))"
    by auto
  finally show ?thesis
    using assms
    by (auto simp: state_inv_def retain_state_def fold_remove_keys distinct_map_filter
        intro: order_trans [OF length_filter_le])
qed

lemma cleanup_fields [simp]:
  "rc_window_secs (cleanup c now) = rc_window_secs c"
  "rc_max_entries (cleanup c now) = rc_max_entries c"
  "rc_max_credentials (cleanup c now) = rc_max_credentials c"
  by (simp_all add: cleanup_def Let_def)

lemma cleanup_inv:
  assumes "cache_inv c"
  shows "cache_inv (cleanup c now)"
proof -
  let ?f = "map (\<lambda>(cid, s). (cid, retain_state (saturating_sub_i64 now (rc_window_secs c)) s)) (rc_credentials c)"
  have f: "map fst ?f = map fst (rc_credentials c)" by (simp add: case_prod_beta)
  have "distinct (map fst ?f)" unfolding f using assms by (simp add: cache_inv_def)
  then have "distinct (map fst (filter (\<lambda>(_, s). cs_entries s \<noteq> []) ?f))" by (rule distinct_map_filter)
  moreover have "length (filter (\<lambda>(_, s). cs_entries s \<noteq> []) ?f) \<le> rc_max_credentials c"
    using assms by (intro order_trans [OF length_filter_le]) (simp add: cache_inv_def)
  ultimately show ?thesis
    using assms by (auto simp: cache_inv_def cleanup_def Let_def intro!: retain_state_inv)
qed

lemma map_of_retain:
  "distinct (map fst cs) \<Longrightarrow>
   map_of (filter (\<lambda>(_, s). P s) (map (\<lambda>(cid, s). (cid, f s)) cs)) cid =
     (case map_of cs cid of None \<Rightarrow> None | Some s \<Rightarrow> if P (f s) then Some (f s) else None)"
  by (induction cs) (auto split: option.splits dest: map_of_SomeD simp: image_iff)

lemma known_cleanup:
  assumes "cache_inv c"
  shows "known (cleanup c now) =
    {(cid, n, ts) \<in> known c. sint (saturating_sub_i64 now (rc_window_secs c)) \<le> sint ts}"
proof -
  have "map_of (rc_credentials (cleanup c now)) cid =
      (case map_of (rc_credentials c) cid of None \<Rightarrow> None
       | Some s \<Rightarrow> let s' = retain_state (saturating_sub_i64 now (rc_window_secs c)) s in
                    if cs_entries s' \<noteq> [] then Some s' else None)" for cid
    using assms by (simp add: cleanup_def Let_def cache_inv_def map_of_retain cong: option.case_cong)
  then show ?thesis
    by (auto simp: known_def Let_def retain_state_def i64_le_def filter_empty_conv
        split: option.splits if_splits) force
qed

text \<open>What a call does, in terms of the known triples.\<close>

definition in_window :: "ReplayCache \<Rightarrow> i64 \<Rightarrow> i64 \<Rightarrow> bool" where
  "in_window c ts now = (let w = sint (rc_window_secs c) in
     I64_MIN \<le> sint now - w \<and> sint now - w \<le> I64_MAX
     \<and> I64_MIN \<le> sint now + w \<and> sint now + w \<le> I64_MAX
     \<and> sint now - w \<le> sint ts \<and> sint ts \<le> sint now + w)"

definition live :: "ReplayCache \<Rightarrow> i64 \<Rightarrow> (bytes \<times> bytes \<times> i64) set" where
  "live c now = {(cid, n, ts) \<in> known c. sint now - sint (rc_window_secs c) \<le> sint ts}"

lemma live_cleanup:
  assumes "cache_inv c" "in_window c ts now"
  shows "known (cleanup c now) = live c now"
proof -
  have "sint (saturating_sub_i64 now (rc_window_secs c)) = sint now - sint (rc_window_secs c)"
    using assms(2) by (simp add: in_window_def Let_def sint_saturating_sub_i64)
  with known_cleanup [OF assms(1)] show ?thesis by (simp add: live_def)
qed

lemma checked_window:
  "in_window c ts now \<longleftrightarrow> (\<exists>lo hi. checked_sub_i64 now (rc_window_secs c) = Some lo
     \<and> checked_add_i64 now (rc_window_secs c) = Some hi \<and> \<not> i64_lt ts lo \<and> \<not> i64_lt hi ts)"
  by (auto simp: in_window_def Let_def checked_sub_i64_def checked_add_i64_def i64_lt_def
      sint_sub_i64 sint_add_i64 split: if_splits)

lemma check_outside_window:
  assumes "\<not> in_window c ts now"
  shows "\<exists>msg. check_and_insert c cid n ts now = (Err (Replay msg), c)"
  using assms
  by (auto simp: checked_window check_and_insert_def split: option.splits)

definition lookup_state :: "ReplayCache \<Rightarrow> bytes \<Rightarrow> CredentialReplayState" where
  "lookup_state c cid = (case map_of (rc_credentials c) cid of Some s \<Rightarrow> s | None \<Rightarrow> default_state)"

lemma lookup_state_inv:
  assumes "cache_inv c"
  shows "state_inv (rc_max_entries c) (lookup_state c cid)"
  using assms
  by (auto simp: lookup_state_def cache_inv_def state_inv_def default_state_def
      split: option.splits dest!: map_of_SomeD)

lemma known_lookup_state:
  "(cid, n, ts) \<in> known c \<longleftrightarrow> \<lparr>re_nonce = n, re_timestamp = ts\<rparr> \<in> set (cs_entries (lookup_state c cid))"
  by (auto simp: known_def lookup_state_def default_state_def split: option.splits)

lemma nonce_known:
  assumes "cache_inv c"
  shows "n \<in> cs_keys (lookup_state c cid) \<longleftrightarrow> (\<exists>ts. (cid, n, ts) \<in> known c)"
proof -
  have "n \<in> cs_keys (lookup_state c cid) \<longleftrightarrow> (\<exists>e \<in> set (cs_entries (lookup_state c cid)). re_nonce e = n)"
    using lookup_state_inv [OF assms, of cid] by (auto simp: state_inv_def)
  also have "\<dots> \<longleftrightarrow> (\<exists>ts. \<lparr>re_nonce = n, re_timestamp = ts\<rparr> \<in> set (cs_entries (lookup_state c cid)))"
    by (metis ReplayEntry.select_convs(1) ReplayEntry.surjective old.unit.exhaust)
  finally show ?thesis by (simp add: known_lookup_state)
qed

text \<open>The branches of a call inside the window, over the cleaned cache.\<close>

lemma check_in_window:
  assumes "in_window c0 ts now"
  defines "c \<equiv> cleanup c0 now"
  shows "check_and_insert c0 cid n ts now =
    (if map_of (rc_credentials c) cid = None \<and> rc_max_credentials c \<le> length (rc_credentials c)
     then (Err (Replay ''replay cache credential limit reached''), c)
     else if n \<in> cs_keys (lookup_state c cid)
     then (Err (Replay ''duplicate nonce''),
           c\<lparr>rc_credentials := put_state cid (lookup_state c cid) (rc_credentials c)\<rparr>)
     else if rc_max_entries c \<le> length (cs_entries (lookup_state c cid))
     then (Err (Replay ''replay cache full''),
           c\<lparr>rc_credentials := put_state cid (lookup_state c cid) (rc_credentials c)\<rparr>)
     else (Ok (), c\<lparr>rc_credentials := put_state cid
               \<lparr>cs_keys = insert n (cs_keys (lookup_state c cid)),
                cs_entries = cs_entries (lookup_state c cid) @ [\<lparr>re_nonce = n, re_timestamp = ts\<rparr>]\<rparr>
               (rc_credentials c)\<rparr>))"
proof -
  from assms(1) obtain lo hi where "checked_sub_i64 now (rc_window_secs c0) = Some lo"
    "checked_add_i64 now (rc_window_secs c0) = Some hi" "\<not> i64_lt ts lo" "\<not> i64_lt hi ts"
    by (auto simp: checked_window)
  then show ?thesis
    by (simp add: check_and_insert_def c_def [symmetric] Let_def lookup_state_def [symmetric])
qed

lemma put_state_inv:
  assumes "cache_inv c" "state_inv (rc_max_entries c) s"
    and "map_of (rc_credentials c) cid = None \<longrightarrow> length (rc_credentials c) < rc_max_credentials c"
  shows "cache_inv (c\<lparr>rc_credentials := put_state cid s (rc_credentials c)\<rparr>)"
  using assms
  by (auto simp: cache_inv_def fst_put_state length_put_state map_of_eq_None_iff dest!: set_put_state)

lemma known_put_state:
  "known (c\<lparr>rc_credentials := put_state cid s (rc_credentials c)\<rparr>) =
     {(i, n, ts) \<in> known c. i \<noteq> cid}
     \<union> {(cid, n, ts) | n ts. \<lparr>re_nonce = n, re_timestamp = ts\<rparr> \<in> set (cs_entries s)}"
  by (auto simp: known_def split: if_splits)

lemma lookup_state_None: "map_of (rc_credentials c) cid = None \<Longrightarrow> lookup_state c cid = default_state"
  by (simp add: lookup_state_def)

lemma check_fields:
  assumes "check_and_insert c cid n ts now = (r, c')"
  shows "rc_window_secs c' = rc_window_secs c" "rc_max_entries c' = rc_max_entries c"
    "rc_max_credentials c' = rc_max_credentials c"
  using assms by (auto simp: check_and_insert_def Let_def split: option.splits if_splits)

lemma check_keeps_inv:
  assumes "cache_inv c" "check_and_insert c cid n ts now = (r, c')"
  shows "cache_inv c'"
proof (cases "in_window c ts now")
  case False
  then show ?thesis using check_outside_window [of c ts now cid n] assms by auto
next
  case True
  note inv = cleanup_inv [OF assms(1), of now]
  note st = lookup_state_inv [OF inv, of cid]
  have "state_inv (rc_max_entries c) \<lparr>cs_keys = insert n (cs_keys (lookup_state (cleanup c now) cid)),
      cs_entries = cs_entries (lookup_state (cleanup c now) cid) @ [\<lparr>re_nonce = n, re_timestamp = ts\<rparr>]\<rparr>"
    if "n \<notin> cs_keys (lookup_state (cleanup c now) cid)"
      "\<not> rc_max_entries c \<le> length (cs_entries (lookup_state (cleanup c now) cid))"
    using st that by (auto simp: state_inv_def)
  with st inv assms(2) show ?thesis
    by (auto simp: check_in_window [OF True] not_le split: if_splits intro!: put_state_inv)
qed

text \<open>
  The abstract cache is the set of known triples. A call inside the window forgets the
  expired ones; it accepts when no known triple has its credential and nonce and there is
  room for one more credential and one more entry.
\<close>

definition replay_spec :: "ReplayCache \<Rightarrow> (bytes \<times> bytes \<times> i64) set \<Rightarrow> bytes \<Rightarrow> bytes \<Rightarrow> i64 \<Rightarrow> i64
    \<Rightarrow> bool \<times> (bytes \<times> bytes \<times> i64) set" where
  "replay_spec c K cid n ts now =
     (if \<not> in_window c ts now then (False, K)
      else let L = {(i, m, t) \<in> K. sint now - sint (rc_window_secs c) \<le> sint t} in
        if (\<forall>t. (cid, n, t) \<notin> L)
           \<and> card (insert cid (fst ` L)) \<le> rc_max_credentials c
           \<and> card {(m, t). (cid, m, t) \<in> L} < rc_max_entries c
        then (True, insert (cid, n, ts) L) else (False, L))"

lemma entry_eta [simp]: "\<lparr>re_nonce = re_nonce e, re_timestamp = re_timestamp e\<rparr> = (e :: ReplayEntry)"
  by (cases e) simp

lemma card_entries:
  assumes "cache_inv c"
  shows "card {(m, t). (cid, m, t) \<in> known c} = length (cs_entries (lookup_state c cid))"
proof -
  let ?es = "cs_entries (lookup_state c cid)"
  have "{(m, t). (cid, m, t) \<in> known c} = (\<lambda>e. (re_nonce e, re_timestamp e)) ` set ?es"
    by (force simp: known_lookup_state image_iff)
  moreover have "inj_on (\<lambda>e. (re_nonce e, re_timestamp e)) (set ?es)"
    by (auto simp: inj_on_def intro: ReplayEntry.equality)
  moreover have "distinct ?es"
    using lookup_state_inv [OF assms, of cid] by (simp add: state_inv_def distinct_map)
  ultimately show ?thesis by (simp add: card_image distinct_card)
qed

lemma card_credentials:
  assumes "cache_inv c" "\<forall>(_, s) \<in> set (rc_credentials c). cs_entries s \<noteq> []"
  shows "fst ` known c = fst ` set (rc_credentials c)" "card (fst ` known c) = length (rc_credentials c)"
proof -
  have d: "distinct (map fst (rc_credentials c))" using assms(1) by (simp add: cache_inv_def)
  show e: "fst ` known c = fst ` set (rc_credentials c)"
  proof
    show "fst ` known c \<subseteq> fst ` set (rc_credentials c)"
      by (force simp: known_def dest!: map_of_SomeD)
    show "fst ` set (rc_credentials c) \<subseteq> fst ` known c"
    proof
      fix cid assume "cid \<in> fst ` set (rc_credentials c)"
      then obtain s where s: "map_of (rc_credentials c) cid = Some s" "cs_entries s \<noteq> []"
        using assms(2) d by force
      then have "(cid, re_nonce (hd (cs_entries s)), re_timestamp (hd (cs_entries s))) \<in> known c"
        by (simp add: known_def)
      then show "cid \<in> fst ` known c" by force
    qed
  qed
  show "card (fst ` known c) = length (rc_credentials c)"
    unfolding e using distinct_card [OF d] by simp
qed

lemma cleanup_nonempty: "\<forall>(_, s) \<in> set (rc_credentials (cleanup c now)). cs_entries s \<noteq> []"
  by (auto simp: cleanup_def Let_def)

lemma check_refines_spec:
  assumes inv: "cache_inv c" and step: "check_and_insert c cid n ts now = (r, c')"
  shows "replay_spec c (known c) cid n ts now = (r = Ok (), known c')"
proof (cases "in_window c ts now")
  case False
  then show ?thesis using check_outside_window [of c ts now cid n] step by (auto simp: replay_spec_def)
next
  case True
  define d where "d = cleanup c now"
  define st where "st = lookup_state d cid"
  have invd: "cache_inv d" and kd: "known d = live c now"
    by (simp_all add: d_def cleanup_inv [OF inv] live_cleanup [OF inv True])
  have params: "rc_max_credentials d = rc_max_credentials c" "rc_max_entries d = rc_max_entries c"
    by (simp_all add: d_def)
  note creds = card_credentials [OF invd cleanup_nonempty [of c now, folded d_def]]
  have room: "(map_of (rc_credentials d) cid = None \<and> rc_max_credentials d \<le> length (rc_credentials d))
      \<longleftrightarrow> \<not> card (insert cid (fst ` known d)) \<le> rc_max_credentials c"
    using invd unfolding creds(1)
    by (auto simp: card_insert_if map_of_eq_None_iff params cache_inv_def distinct_card
        creds(2) [unfolded creds(1)])
  note nonce = nonce_known [OF invd, of n cid, folded st_def]
  note entries = card_entries [OF invd, of cid, folded st_def]
  have same: "known (d\<lparr>rc_credentials := put_state cid st (rc_credentials d)\<rparr>) = known d"
    by (auto simp: known_put_state st_def known_lookup_state)
  have new: "known (d\<lparr>rc_credentials := put_state cid \<lparr>cs_keys = insert n (cs_keys st),
       cs_entries = cs_entries st @ [\<lparr>re_nonce = n, re_timestamp = ts\<rparr>]\<rparr> (rc_credentials d)\<rparr>)
      = insert (cid, n, ts) (known d)"
    by (auto simp: known_put_state st_def known_lookup_state)
  have spec: "replay_spec c (known c) cid n ts now =
      (if (\<forall>t. (cid, n, t) \<notin> known d) \<and> card (insert cid (fst ` known d)) \<le> rc_max_credentials c
          \<and> length (cs_entries st) < rc_max_entries c
       then (True, insert (cid, n, ts) (known d)) else (False, known d))"
    using True by (simp only: replay_spec_def Let_def live_def [symmetric] kd [symmetric] entries) simp
  show ?thesis
    using step check_in_window [OF True, of cid n, folded d_def, folded st_def]
    unfolding spec room nonce
    by (auto simp: params same new split: if_splits)
qed

lemma check_accept:
  assumes "cache_inv c" "check_and_insert c cid n ts now = (Ok (), c')"
  shows "in_window c ts now" "\<And>t. (cid, n, t) \<notin> live c now"
    "known c' = insert (cid, n, ts) (live c now)"
  using check_refines_spec [OF assms]
  by (auto simp: replay_spec_def Let_def live_def split: if_splits)

lemma live_known:
  assumes "cache_inv c" "check_and_insert c cid n ts now = (r, c')"
  shows "live c now \<subseteq> known c'"
  using check_refines_spec [OF assms]
  by (auto simp: replay_spec_def Let_def live_def split: if_splits)

interpretation cache: replay_guard check_and_insert cache_inv known "\<lambda>c. sint (rc_window_secs c)"
proof unfold_locales
  fix c cid n ts now r c'
  assume "cache_inv c" "check_and_insert c cid n ts now = (r, c')"
  then show "cache_inv c' \<and> sint (rc_window_secs c') = sint (rc_window_secs c)"
    by (simp add: check_keeps_inv check_fields)
next
  fix c cid n ts now c'
  assume a: "cache_inv c" "check_and_insert c cid n ts now = (Ok (), c')"
  then show "sint now - sint (rc_window_secs c) \<le> sint ts \<and> sint ts \<le> sint now + sint (rc_window_secs c)"
    using check_accept(1) [OF a] by (simp add: in_window_def Let_def)
  from a show "(cid, n, ts) \<in> known c'" using check_accept(3) [OF a] by simp
next
  fix c cid n ts ts' and now :: i64
  assume "cache_inv c" "(cid, n, ts) \<in> known c" "sint now - sint (rc_window_secs c) \<le> sint ts"
  then show "fst (check_and_insert c cid n ts' now) \<noteq> Ok ()"
    using check_accept(2) [of c cid n ts' now _ ts]
    by (cases "check_and_insert c cid n ts' now") (auto simp: live_def)
next
  fix c cid n ts now r c' cid' n' and ts' :: i64
  assume "cache_inv c" "check_and_insert c cid n ts now = (r, c')" "(cid', n', ts') \<in> known c"
    "sint now - sint (rc_window_secs c) \<le> sint ts'"
  then show "(cid', n', ts') \<in> known c'" using live_known [of c cid n ts now r c'] by (auto simp: live_def)
qed

lemma new_inv: "cache_inv (ReplayCache_new w e m)"
  by (simp add: cache_inv_def ReplayCache_new_def)

lemma run_checks_inv:
  assumes "cache_inv c"
  shows "cache_inv (snd (run_checks check_and_insert c calls))
    \<and> rc_max_entries (snd (run_checks check_and_insert c calls)) = rc_max_entries c
    \<and> rc_max_credentials (snd (run_checks check_and_insert c calls)) = rc_max_credentials c"
  using assms
proof (induction calls arbitrary: c)
  case (Cons call calls)
  obtain cid n ts now where call: "call = (cid, n, ts, now)" by (cases call)
  obtain r c' where step: "check_and_insert c cid n ts now = (r, c')" by fastforce
  have "cache_inv c'" by (rule check_keeps_inv [OF Cons.prems step])
  with Cons.IH [of c'] check_fields [OF step] show ?case
    by (simp add: call step case_prod_beta)
qed simp

subsection \<open>Properties of the replay cache\<close>

text \<open>
  C13. In every cache that calls of \<open>check_and_insert\<close> can build, a further call behaves as the
  abstract cache on the set of known triples: it accepts exactly when the timestamp is inside
  the window (with no overflow of the window bounds), no unexpired triple has the same
  credential and nonce, and there is room for the credential and the entry; it then knows the
  unexpired triples and, if it accepted, the new one. It never panics.
\<close>

theorem check_and_insert_refines:
  "let c = snd (run_checks check_and_insert (ReplayCache_new w e m) calls);
       (r, c') = check_and_insert c cid n ts now
   in replay_spec c (known c) cid n ts now = (r = Ok (), known c') \<and> r \<noteq> Panic"
proof -
  define c where "c = snd (run_checks check_and_insert (ReplayCache_new w e m) calls)"
  obtain r c' where step: "check_and_insert c cid n ts now = (r, c')" by fastforce
  have "cache_inv c" using run_checks_inv [OF new_inv] by (simp add: c_def)
  then have "replay_spec c (known c) cid n ts now = (r = Ok (), known c')"
    using step by (rule check_refines_spec)
  moreover have "r \<noteq> Panic"
    using step by (auto simp: check_and_insert_def Let_def split: option.splits if_splits)
  ultimately show ?thesis by (simp add: Let_def step flip: c_def)
qed

text \<open>
  A replay cache accepts no hello twice: while the clock does not run backwards, the
  triples of credential, nonce and timestamp accepted by any sequence of calls are pairwise
  distinct.
\<close>

theorem replay_accepts_once:
  assumes "clock_ok calls"
  shows "distinct (accepted_calls (fst (run_checks check_and_insert (ReplayCache_new w e m) calls)) calls)"
  using new_inv assms by (rule cache.accepted_distinct)

definition replay_example :: "replay_call list" where
  "replay_example = [([1], [7], 100, 100), ([1], [7], 100, 101), ([1], [8], 95, 105), ([2], [7], 100, 105)]"

theorem replay_accepts_once_witness:
  "clock_ok replay_example
   \<and> accepted_calls (fst (run_checks check_and_insert (ReplayCache_new 10 4 4) replay_example)) replay_example
     = [([1], [7], 100), ([1], [8], 95), ([2], [7], 100)]
   \<and> distinct (accepted_calls (fst (run_checks check_and_insert (ReplayCache_new 10 4 4) replay_example)) replay_example)"
proof (intro conjI)
  show c: "clock_ok replay_example" by code_simp
  show "accepted_calls (fst (run_checks check_and_insert (ReplayCache_new 10 4 4) replay_example)) replay_example
     = [([1], [7], 100), ([1], [8], 95), ([2], [7], 100)]" by code_simp
  show "distinct (accepted_calls (fst (run_checks check_and_insert (ReplayCache_new 10 4 4) replay_example)) replay_example)"
    by (rule replay_accepts_once [OF c])
qed

text \<open>
  C35. The memory of the cache is bounded: after any sequence of calls it holds at most
  \<open>max_credentials\<close> credentials and \<open>max_entries * max_credentials\<close> entries, and the nonce set
  of every credential is the set of nonces of its entries, each of them once.
\<close>

theorem replay_cache_bounded:
  "let c = snd (run_checks check_and_insert (ReplayCache_new w e m) calls)
   in length (rc_credentials c) \<le> m \<and> ReplayCache_len c \<le> e * m
      \<and> (\<forall>(_, s) \<in> set (rc_credentials c).
           cs_keys s = set (map re_nonce (cs_entries s)) \<and> distinct (map re_nonce (cs_entries s)))"
proof -
  define c where "c = snd (run_checks check_and_insert (ReplayCache_new w e m) calls)"
  have inv: "cache_inv c" and par: "rc_max_entries c = e" "rc_max_credentials c = m"
    using run_checks_inv [OF new_inv, of w e m calls] by (simp_all add: c_def ReplayCache_new_def)
  have "ReplayCache_len c \<le> sum_list (map (\<lambda>_. e) (rc_credentials c))"
    unfolding ReplayCache_len_def
    using inv par by (intro sum_list_mono) (auto simp: cache_inv_def state_inv_def)
  also have "\<dots> = e * length (rc_credentials c)" by (simp add: sum_list_triv)
  also have "\<dots> \<le> e * m" using inv par by (simp add: cache_inv_def)
  finally show ?thesis
    using inv par by (auto simp: Let_def cache_inv_def state_inv_def simp flip: c_def)
qed

theorem replay_cache_bounded_witness:
  "let c = snd (run_checks check_and_insert (ReplayCache_new 10 2 1) replay_example)
   in ReplayCache_len c = 2 \<and> length (rc_credentials c) \<le> 1"
proof -
  have "ReplayCache_len (snd (run_checks check_and_insert (ReplayCache_new 10 2 1) replay_example)) = 2"
    by code_simp
  then show ?thesis using replay_cache_bounded [of 10 2 1 replay_example] by (simp add: Let_def)
qed

end
