(* ===== verification/Sharded_Replay.thy ===== *)
theory Sharded_Replay
  imports Replay_Cache
begin

text \<open>
  The replay caches of the server, \<open>replay_caches\<close> and \<open>replay_shard\<close> of
  \<open>maverick-server/src/server.rs\<close>: a fixed number of caches, each behind its lock, and a hash
  of the replay key that selects one. The hasher is library code, the argument \<open>hash\<close>. Taking
  a shard of an empty vector divides by zero and panics. A guard made of shards is again a
  guard, for every kind of guard.
\<close>

definition REPLAY_CACHE_SHARDS :: nat where "REPLAY_CACHE_SHARDS = 16"

definition replay_caches :: "i64 \<Rightarrow> nat \<Rightarrow> nat \<Rightarrow> ReplayCache list" where
  "replay_caches window entries credentials =
     map (\<lambda>_. ReplayCache_new window entries credentials) [0..<REPLAY_CACHE_SHARDS]"

definition replay_shard :: "(bytes \<Rightarrow> nat) \<Rightarrow> 'c list \<Rightarrow> bytes \<Rightarrow> (nat, error) outcome" where
  "replay_shard hash shards key =
     (if shards = [] then Panic else Ok (hash key mod length shards))"

definition sharded_check ::
  "('c \<Rightarrow> bytes \<Rightarrow> bytes \<Rightarrow> i64 \<Rightarrow> i64 \<Rightarrow> unit result \<times> 'c) \<Rightarrow> (bytes \<Rightarrow> nat)
   \<Rightarrow> 'c list \<Rightarrow> bytes \<Rightarrow> bytes \<Rightarrow> i64 \<Rightarrow> i64 \<Rightarrow> unit result \<times> 'c list" where
  "sharded_check check hash shards key nonce ts now =
     (case replay_shard hash shards key of
        Ok i \<Rightarrow> (let (r, c) = check (shards ! i) key nonce ts now in (r, shards[i := c]))
      | Err e \<Rightarrow> (Err e, shards)
      | Panic \<Rightarrow> (Panic, shards))"

definition sharded_inv :: "('c \<Rightarrow> bool) \<Rightarrow> ('c \<Rightarrow> int) \<Rightarrow> 'c list \<Rightarrow> bool" where
  "sharded_inv cinv window shards =
     (shards \<noteq> [] \<and> (\<forall>c \<in> set shards. cinv c \<and> window c = window (hd shards)))"

definition sharded_known :: "('c \<Rightarrow> (bytes \<times> bytes \<times> i64) set) \<Rightarrow> (bytes \<Rightarrow> nat) \<Rightarrow> 'c list
    \<Rightarrow> (bytes \<times> bytes \<times> i64) set" where
  "sharded_known K hash shards =
     {(key, n, ts). shards \<noteq> [] \<and> (key, n, ts) \<in> K (shards ! (hash key mod length shards))}"

lemma sharded_check_nonempty:
  "shards \<noteq> [] \<Longrightarrow> sharded_check check hash shards key n ts now =
     (let i = hash key mod length shards; (r, c) = check (shards ! i) key n ts now in (r, shards[i := c]))"
  by (simp add: sharded_check_def replay_shard_def Let_def)

context replay_guard
begin

lemma sharded_step:
  assumes "sharded_inv inv window shards" "sharded_check check hash shards key n ts now = (r, shards')"
  obtains i c where "i = hash key mod length shards" "i < length shards" "inv (shards ! i)"
    "window (shards ! i) = window (hd shards)" "check (shards ! i) key n ts now = (r, c)"
    "shards' = shards[i := c]"
proof -
  have ne: "shards \<noteq> []" using assms(1) by (simp add: sharded_inv_def)
  define i where "i = hash key mod length shards"
  have i: "i < length shards" using ne by (simp add: i_def)
  obtain r' c where c: "check (shards ! i) key n ts now = (r', c)" by fastforce
  with assms(2) ne have "r' = r" "shards' = shards[i := c]"
    by (simp_all add: sharded_check_nonempty i_def Let_def)
  moreover have "inv (shards ! i)" "window (shards ! i) = window (hd shards)"
    using assms(1) nth_mem [OF i] unfolding sharded_inv_def by blast+
  ultimately show ?thesis using that [OF i_def i] c by simp
qed

lemma sharded_guard:
  "replay_guard (sharded_check check hash) (sharded_inv inv window) (sharded_known known hash)
     (\<lambda>shards. window (hd shards))"
proof unfold_locales
  fix shards key n ts now r shards'
  assume a: "sharded_inv inv window shards" "sharded_check check hash shards key n ts now = (r, shards')"
  from a obtain i c where ix: "i = hash key mod length shards"
    and s: "i < length shards" "inv (shards ! i)"
    "window (shards ! i) = window (hd shards)" "check (shards ! i) key n ts now = (r, c)"
    "shards' = shards[i := c]"
    by (rule sharded_step)
  have c: "inv c" "window c = window (hd shards)" using check_inv [OF s(2,4)] s(3) by simp_all
  have "set shards' \<subseteq> insert c (set shards)" unfolding s(5) by (rule set_update_subset_insert)
  then have all: "\<forall>d \<in> set shards'. inv d \<and> window d = window (hd shards)"
    using a(1) c unfolding sharded_inv_def by blast
  have "length shards' = length shards" using s(5) by simp
  then have ne: "shards' \<noteq> []" using s(1) by (cases shards') simp_all
  then have hd: "window (hd shards') = window (hd shards)" using all hd_in_set by blast
  with all ne show "sharded_inv inv window shards' \<and> window (hd shards') = window (hd shards)"
    unfolding sharded_inv_def hd by blast
next
  fix shards key n ts now shards'
  assume a: "sharded_inv inv window shards" "sharded_check check hash shards key n ts now = (Ok (), shards')"
  from a obtain i c where s: "i = hash key mod length shards" "i < length shards" "inv (shards ! i)"
    "window (shards ! i) = window (hd shards)" "check (shards ! i) key n ts now = (Ok (), c)"
    "shards' = shards[i := c]"
    by (rule sharded_step)
  from accept_window [OF s(3,5)] s(4)
  show "sint now - window (hd shards) \<le> sint ts \<and> sint ts \<le> sint now + window (hd shards)" by simp
  from accept_known [OF s(3,5)] s(1,2,6) show "(key, n, ts) \<in> sharded_known known hash shards'"
    by (auto simp: sharded_known_def)
next
  fix shards key n ts ts' and now :: i64
  assume a: "sharded_inv inv window shards" "(key, n, ts) \<in> sharded_known known hash shards"
    "sint now - window (hd shards) \<le> sint ts"
  obtain r shards' where st: "sharded_check check hash shards key n ts' now = (r, shards')" by fastforce
  from a(1) st obtain i c where s: "i = hash key mod length shards" "i < length shards" "inv (shards ! i)"
    "window (shards ! i) = window (hd shards)" "check (shards ! i) key n ts' now = (r, c)"
    and "shards' = shards[i := c]"
    by (rule sharded_step)
  have "(key, n, ts) \<in> known (shards ! i)" using a(2) s(1) by (simp add: sharded_known_def)
  from known_rejected [OF s(3) this, of now ts'] a(3) s(4,5) st
  show "fst (sharded_check check hash shards key n ts' now) \<noteq> Ok ()" by simp
next
  fix shards key n ts now r shards' key' n' and ts' :: i64
  assume a: "sharded_inv inv window shards" "sharded_check check hash shards key n ts now = (r, shards')"
    "(key', n', ts') \<in> sharded_known known hash shards" "sint now - window (hd shards) \<le> sint ts'"
  from a(1,2) obtain i c where ix: "i = hash key mod length shards"
    and s: "i < length shards" "inv (shards ! i)"
    "window (shards ! i) = window (hd shards)" "check (shards ! i) key n ts now = (r, c)"
    "shards' = shards[i := c]"
    by (rule sharded_step)
  show "(key', n', ts') \<in> sharded_known known hash shards'"
    using a(3,4) s known_kept [OF s(2,4), of key' n' ts']
    by (auto simp: sharded_known_def nth_list_update)
qed

end

interpretation shards: replay_guard "sharded_check check_and_insert hash"
    "sharded_inv cache_inv (\<lambda>c. sint (rc_window_secs c))" "sharded_known known hash"
    "\<lambda>shards. sint (rc_window_secs (hd shards))"
  for hash :: "bytes \<Rightarrow> nat"
  by (rule cache.sharded_guard)

lemma replay_caches_inv:
  "sharded_inv cache_inv (\<lambda>c. sint (rc_window_secs c)) (replay_caches w e m)"
proof -
  have all: "\<forall>c \<in> set (replay_caches w e m). c = ReplayCache_new w e m"
    by (auto simp: replay_caches_def)
  have ne: "replay_caches w e m \<noteq> []" by (simp add: replay_caches_def REPLAY_CACHE_SHARDS_def)
  then have "hd (replay_caches w e m) = ReplayCache_new w e m" using all hd_in_set by blast
  then show ?thesis using all ne new_inv unfolding sharded_inv_def by metis
qed

end
