(* ===== verification/Mav_Net.thy ===== *)
theory Mav_Net
  imports Mav_Error
begin

text \<open>
  Network addresses of the Rust standard library, as the program uses them. An IPv4 or
  IPv6 address is a 32- or 128-bit word in network order, so every value of the type is an
  address; \<open>octets\<close>, \<open>segments\<close>, the classification predicates and the textual form follow
  \<open>std::net\<close>.
\<close>

unbundle bit_operations_syntax

type_synonym Ipv4Addr = "32 word"
type_synonym Ipv6Addr = "128 word"

datatype IpAddr = V4 Ipv4Addr | V6 Ipv6Addr

record SocketAddr =
  sa_ip :: IpAddr
  sa_port :: u16

definition ipv4_octets :: "Ipv4Addr \<Rightarrow> bytes" where
  "ipv4_octets a = be 4 (unat a)"

definition ipv4_from :: "bytes \<Rightarrow> Ipv4Addr" where
  "ipv4_from bs = of_nat (be_nat bs)"

definition ipv6_octets :: "Ipv6Addr \<Rightarrow> bytes" where
  "ipv6_octets a = be 16 (unat a)"

definition ipv6_from :: "bytes \<Rightarrow> Ipv6Addr" where
  "ipv6_from bs = of_nat (be_nat bs)"

definition ipv6_segment :: "Ipv6Addr \<Rightarrow> nat \<Rightarrow> u16" where
  "ipv6_segment a i = u16_from_be (take 2 (drop (2 * i) (ipv6_octets a)))"

definition ipv6_segments :: "Ipv6Addr \<Rightarrow> u16 list" where
  "ipv6_segments a = map (ipv6_segment a) [0..<8]"

subsection \<open>Classification\<close>

definition ipv4_is_loopback :: "Ipv4Addr \<Rightarrow> bool" where
  "ipv4_is_loopback a = (ipv4_octets a ! 0 = 127)"

definition ipv4_is_unspecified :: "Ipv4Addr \<Rightarrow> bool" where
  "ipv4_is_unspecified a = (a = 0)"

definition ipv4_is_multicast :: "Ipv4Addr \<Rightarrow> bool" where
  "ipv4_is_multicast a = (224 \<le> ipv4_octets a ! 0 \<and> ipv4_octets a ! 0 \<le> 239)"

definition ipv4_is_link_local :: "Ipv4Addr \<Rightarrow> bool" where
  "ipv4_is_link_local a = (ipv4_octets a ! 0 = 169 \<and> ipv4_octets a ! 1 = 254)"

definition ipv4_is_private :: "Ipv4Addr \<Rightarrow> bool" where
  "ipv4_is_private a =
     (let o0 = ipv4_octets a ! 0; o1 = ipv4_octets a ! 1 in
      o0 = 10 \<or> (o0 = 172 \<and> 16 \<le> o1 \<and> o1 \<le> 31) \<or> (o0 = 192 \<and> o1 = 168))"

fun ip_is_loopback :: "IpAddr \<Rightarrow> bool" where
  "ip_is_loopback (V4 a) = ipv4_is_loopback a"
| "ip_is_loopback (V6 a) = (a = 1)"

fun ip_is_unspecified :: "IpAddr \<Rightarrow> bool" where
  "ip_is_unspecified (V4 a) = ipv4_is_unspecified a"
| "ip_is_unspecified (V6 a) = (a = 0)"

fun ip_is_multicast :: "IpAddr \<Rightarrow> bool" where
  "ip_is_multicast (V4 a) = ipv4_is_multicast a"
| "ip_is_multicast (V6 a) = (ipv6_octets a ! 0 = 255)"

subsection \<open>Textual form\<close>

definition hex_digit :: "nat \<Rightarrow> u8" where
  "hex_digit d = (if d < 10 then of_nat (48 + d) else of_nat (87 + d))"

fun hex :: "nat \<Rightarrow> bytes" where
  "hex n = (if n < 16 then [hex_digit n] else hex (n div 16) @ [hex_digit (n mod 16)])"

declare hex.simps [simp del]

fun join :: "bytes \<Rightarrow> bytes list \<Rightarrow> bytes" where
  "join sep [] = []"
| "join sep [x] = x"
| "join sep (x # y # zs) = x @ sep @ join sep (y # zs)"

definition display_ipv4 :: "Ipv4Addr \<Rightarrow> bytes" where
  "display_ipv4 a = join (ascii ''.'') (map (\<lambda>b. dec (unat b)) (ipv4_octets a))"

text \<open>
  The longest run of zero segments, leftmost on a tie, as a pair of its start and length:
  \<open>i\<close> is the index of the next segment, \<open>cur\<close> the run that ends there.
\<close>

fun longest_zero_run :: "u16 list \<Rightarrow> nat \<Rightarrow> nat \<times> nat \<Rightarrow> nat \<times> nat \<Rightarrow> nat \<times> nat" where
  "longest_zero_run [] i cur best = best"
| "longest_zero_run (s # ss) i cur best =
     (if s = 0 then
        (let cur' = (if snd cur = 0 then i else fst cur, snd cur + 1);
             best' = (if snd cur' > snd best then cur' else best)
         in longest_zero_run ss (i + 1) cur' best')
      else longest_zero_run ss (i + 1) (0, 0) best)"

definition display_ipv6 :: "Ipv6Addr \<Rightarrow> bytes" where
  "display_ipv6 a =
     (let segs = ipv6_segments a;
          part = (\<lambda>ss. join (ascii '':'') (map (\<lambda>s. hex (unat s)) ss));
          zeroes = longest_zero_run segs 0 (0, 0) (0, 0)
      in if take 10 (ipv6_octets a) = replicate 10 0 \<and> ipv6_segment a 5 = 0xFFFF
         then ascii ''::ffff:'' @ display_ipv4 (ipv4_from (drop 12 (ipv6_octets a)))
         else if snd zeroes > 1
         then part (take (fst zeroes) segs) @ ascii ''::'' @ part (drop (fst zeroes + snd zeroes) segs)
         else part segs)"

fun display_ip :: "IpAddr \<Rightarrow> bytes" where
  "display_ip (V4 a) = display_ipv4 a"
| "display_ip (V6 a) = display_ipv6 a"

subsection \<open>Octets determine the address\<close>

lemma length_octets [simp]: "length (ipv4_octets a) = 4" "length (ipv6_octets b) = 16"
  by (simp_all add: ipv4_octets_def ipv6_octets_def)

lemma from_octets [simp]: "ipv4_from (ipv4_octets a) = a" "ipv6_from (ipv6_octets b) = b"
  using unat_less_pow [of a] unat_less_pow [of b]
  by (simp_all add: ipv4_octets_def ipv6_octets_def ipv4_from_def ipv6_from_def)

lemma octets_from [simp]:
  "length bs = 4 \<Longrightarrow> ipv4_octets (ipv4_from bs) = bs"
  "length bs = 16 \<Longrightarrow> ipv6_octets (ipv6_from bs) = bs"
  using be_nat_less [of bs]
  by (auto simp: ipv4_octets_def ipv6_octets_def ipv4_from_def ipv6_from_def unat_of_nat be_be_nat')

lemma octets_inject [simp]:
  "ipv4_octets a = ipv4_octets a' \<longleftrightarrow> a = a'"
  "ipv6_octets b = ipv6_octets b' \<longleftrightarrow> b = b'"
  by (metis from_octets)+

end
