(* ===== verification/Auth_Config.thy ===== *)
theory Auth_Config
  imports Auth_Hello Mav_Net
begin

text \<open>
  The credential part of \<open>maverick-core/src/config.rs\<close>: channel binding and version 2
  policies, the client's credential rotation and selection, and the users of a server. The
  timestamp parser is library code: \<open>rfc\<close> stands for \<open>OffsetDateTime::parse\<close> with the RFC 3339
  format and yields an instant in nanoseconds since the epoch. \<open>b64dec\<close> is the base64url
  decoder. A loop over a list with early returns is a recursive function.
\<close>

type_synonym OffsetDateTime = int
type_synonym rfc3339 = "bytes \<Rightarrow> OffsetDateTime option"

definition unix_timestamp :: "OffsetDateTime \<Rightarrow> i64" where
  "unix_timestamp t = word_of_int (t div 1000000000)"

definition parse_rfc3339 :: "rfc3339 \<Rightarrow> string \<Rightarrow> bytes \<Rightarrow> OffsetDateTime result" where
  "parse_rfc3339 rfc field value =
     ok_or (Config (field @ '' must be RFC3339 timestamp'')) (rfc value)"

definition AUTH_V1_MAX_STRING_LEN :: nat where "AUTH_V1_MAX_STRING_LEN = 65535"

definition validate_auth_v1_string_len :: "string \<Rightarrow> bytes \<Rightarrow> unit result" where
  "validate_auth_v1_string_len field value =
     fail_if (length value > AUTH_V1_MAX_STRING_LEN)
       (Config (field @ '' must be at most 65535 bytes for Auth v1 wire encoding''))
     (Ok ())"

definition validate_auth_v2_credential_hint_len :: "string \<Rightarrow> bytes \<Rightarrow> unit result" where
  "validate_auth_v2_credential_hint_len field value =
     fail_if (length value > AUTH_V2_MAX_CREDENTIAL_HINT_LEN)
       (Config (field @ '' must be at most 512 bytes when auth.v2.enabled is true''))
     (Ok ())"

text \<open>\<open>str::parse::<u64>\<close>: an optional plus sign, then digits whose value fits 64 bits.\<close>

definition all_digits :: "bytes \<Rightarrow> bool" where
  "all_digits b = list_all (\<lambda>c. 48 \<le> c \<and> c \<le> 57) b"

definition parse_u64 :: "bytes \<Rightarrow> u64 option" where
  "parse_u64 value =
     (let digits = (case value of c # r \<Rightarrow> if c = 43 then r else value | [] \<Rightarrow> []) in
      if digits \<noteq> [] \<and> all_digits digits \<and> undec digits < 2 ^ 64
      then Some (of_nat (undec digits)) else None)"

definition parse_auth_epoch :: "bytes \<Rightarrow> u64 result" where
  "parse_auth_epoch value =
     ok_or (Config ''auth.rotation.active_epoch must be an unsigned integer'') (parse_u64 value)"

subsection \<open>Policies\<close>

record AuthChannelBindingConfig =
  cb_enabled :: bool
  cb_require :: bool

definition AuthChannelBindingConfig_default :: AuthChannelBindingConfig where
  "AuthChannelBindingConfig_default = \<lparr>cb_enabled = True, cb_require = False\<rparr>"

definition AuthChannelBindingConfig_validate :: "AuthChannelBindingConfig \<Rightarrow> unit result" where
  "AuthChannelBindingConfig_validate c =
     fail_if (cb_require c \<and> \<not> cb_enabled c)
       (Config ''auth.channel_binding.require requires auth.channel_binding.enabled to be true'')
     (Ok ())"

definition validate_transport_support :: "AuthChannelBindingConfig \<Rightarrow> bool \<Rightarrow> bool \<Rightarrow> unit result" where
  "validate_transport_support c tls_terminating_fronting_enabled experimental_h3 =
     fail_if (cb_require c \<and> tls_terminating_fronting_enabled)
       (Config ''auth.channel_binding.require is not supported with TLS-terminating CDN fronting'')
     (fail_if (cb_require c \<and> experimental_h3)
       (Config ''auth.channel_binding.require is not supported with experimental H3'')
     (Ok ()))"

record AuthV2Config =
  v2_enabled :: bool
  v2_require :: bool
  v2_accepted_epochs :: "u64 list"

record ClientNextCredentialConfig =
  nc_id :: bytes
  nc_secret :: SecretString
  nc_not_before :: bytes

definition ClientNextCredentialConfig_validate ::
  "rfc3339 \<Rightarrow> (bytes \<Rightarrow> bytes option) \<Rightarrow> ClientNextCredentialConfig \<Rightarrow> unit result" where
  "ClientNextCredentialConfig_validate rfc b64dec c =
     fail_if (nc_id c = []) (Config ''auth.rotation.next.id must not be empty'')
     (and_then (validate_auth_v1_string_len ''auth.rotation.next.id'' (nc_id c)) (\<lambda>_.
      and_then (SecretString_validate b64dec (nc_secret c)) (\<lambda>_.
      and_then (parse_rfc3339 rfc ''auth.rotation.next.not_before'' (nc_not_before c)) (\<lambda>_. Ok ()))))"

record ClientCredentialRotationConfig =
  cr_active_epoch :: "bytes option"
  cr_next_credential_id :: "bytes option"
  cr_auto_switch :: bool
  cr_next :: "ClientNextCredentialConfig option"

definition ClientCredentialRotationConfig_validate ::
  "rfc3339 \<Rightarrow> (bytes \<Rightarrow> bytes option) \<Rightarrow> ClientCredentialRotationConfig \<Rightarrow> bytes \<Rightarrow> unit result" where
  "ClientCredentialRotationConfig_validate rfc b64dec c active_credential_id =
     fail_if (cr_active_epoch c = Some []) (Config ''auth.rotation.active_epoch must not be empty'')
     (fail_if (cr_next_credential_id c = Some [])
        (Config ''auth.rotation.next_credential_id must not be empty'')
     (and_then (case cr_next_credential_id c of
                  Some i \<Rightarrow> validate_auth_v1_string_len ''auth.rotation.next_credential_id'' i
                | None \<Rightarrow> Ok ()) (\<lambda>_.
      and_then (case cr_next c of
          Some next \<Rightarrow>
            and_then (ClientNextCredentialConfig_validate rfc b64dec next) (\<lambda>_.
            fail_if (nc_id next = active_credential_id)
              (Config ''auth.rotation.next.id must differ from server.credential_id'')
            (case cr_next_credential_id c of
               Some i \<Rightarrow> fail_if (i \<noteq> nc_id next)
                 (Config ''auth.rotation.next_credential_id must match auth.rotation.next.id'') (Ok ())
             | None \<Rightarrow> Ok ()))
        | None \<Rightarrow> Ok ()) (\<lambda>_.
      fail_if (cr_auto_switch c \<and> cr_next c = None)
        (Config ''auth.rotation.next is required when auth.rotation.auto_switch is true'')
      (Ok ())))))"

definition AuthV2Config_validate_client ::
  "AuthV2Config \<Rightarrow> bytes \<Rightarrow> ClientCredentialRotationConfig \<Rightarrow> unit result" where
  "AuthV2Config_validate_client c active_credential_id rotation =
     fail_if (v2_require c \<and> \<not> v2_enabled c)
       (Config ''auth.v2.require requires auth.v2.enabled to be true'')
     (if v2_enabled c then
        and_then (validate_auth_v2_credential_hint_len ''server.credential_id'' active_credential_id) (\<lambda>_.
        and_then (case cr_next_credential_id rotation of
                    Some i \<Rightarrow> validate_auth_v2_credential_hint_len ''auth.rotation.next_credential_id'' i
                  | None \<Rightarrow> Ok ()) (\<lambda>_.
        and_then (case cr_next rotation of
                    Some next \<Rightarrow> validate_auth_v2_credential_hint_len ''auth.rotation.next.id'' (nc_id next)
                  | None \<Rightarrow> Ok ()) (\<lambda>_.
        and_then (ok_or (Config ''auth.rotation.active_epoch is required when auth.v2.enabled is true'')
                    (cr_active_epoch rotation)) (\<lambda>active_epoch.
        and_then (parse_auth_epoch active_epoch) (\<lambda>_. Ok ())))))
      else Ok ())"

fun epochs_distinct :: "u64 list \<Rightarrow> u64 list \<Rightarrow> unit result" where
  "epochs_distinct seen [] = Ok ()"
| "epochs_distinct seen (e # es) =
     fail_if (e \<in> set seen) (Config ''auth.v2.accepted_epochs must not contain duplicates'')
     (epochs_distinct (seen @ [e]) es)"

definition AuthV2Config_validate_server :: "AuthV2Config \<Rightarrow> unit result" where
  "AuthV2Config_validate_server c =
     fail_if (v2_require c \<and> \<not> v2_enabled c)
       (Config ''auth.v2.require requires auth.v2.enabled to be true'')
     (if \<not> v2_enabled c then Ok ()
      else fail_if (v2_accepted_epochs c = [])
        (Config ''auth.v2.accepted_epochs must not be empty when auth.v2.enabled is true'')
      (fail_if (\<not> v2_require c)
        (Config ''auth.v2.require must be true when server auth.v2.enabled is true'')
      (fail_if (length (v2_accepted_epochs c) > 8)
        (Config ''auth.v2.accepted_epochs must contain at most 8 epochs'')
      (epochs_distinct [] (v2_accepted_epochs c)))))"

record ClientAuthConfig =
  cac_channel_binding :: AuthChannelBindingConfig
  cac_v2 :: AuthV2Config
  cac_rotation :: ClientCredentialRotationConfig

definition ClientAuthConfig_validate ::
  "rfc3339 \<Rightarrow> (bytes \<Rightarrow> bytes option) \<Rightarrow> ClientAuthConfig \<Rightarrow> bytes \<Rightarrow> unit result" where
  "ClientAuthConfig_validate rfc b64dec c active_credential_id =
     and_then (AuthChannelBindingConfig_validate (cac_channel_binding c)) (\<lambda>_.
     and_then (ClientCredentialRotationConfig_validate rfc b64dec (cac_rotation c) active_credential_id) (\<lambda>_.
     AuthV2Config_validate_client (cac_v2 c) active_credential_id (cac_rotation c)))"

record ServerAuthConfig =
  sac_channel_binding :: AuthChannelBindingConfig
  sac_v2 :: AuthV2Config

definition ServerAuthConfig_validate :: "ServerAuthConfig \<Rightarrow> unit result" where
  "ServerAuthConfig_validate c =
     and_then (AuthChannelBindingConfig_validate (sac_channel_binding c)) (\<lambda>_.
     AuthV2Config_validate_server (sac_v2 c))"

subsection \<open>Selection of the client credential\<close>

record ClientServerConfig =
  csc_address :: bytes
  csc_server_name :: bytes
  csc_tunnel_path :: bytes
  csc_credential_id :: bytes
  csc_secret :: SecretString
  csc_ca_cert :: "bytes option"
  csc_cert_pin :: "bytes option"

datatype ClientCredentialSelection = SelectActive | SelectNext

record SelectedClientCredential =
  sel_id :: bytes
  sel_secret :: SecretString
  sel_selection :: ClientCredentialSelection

definition select_client_credential_at_unix ::
  "rfc3339 \<Rightarrow> ClientServerConfig \<Rightarrow> ClientCredentialRotationConfig \<Rightarrow> i64
   \<Rightarrow> SelectedClientCredential result" where
  "select_client_credential_at_unix rfc server rotation now_unix =
     (let active = Ok \<lparr>sel_id = csc_credential_id server, sel_secret = csc_secret server,
                       sel_selection = SelectActive\<rparr> in
      if cr_auto_switch rotation then
        (case cr_next rotation of
           Some next \<Rightarrow>
             and_then (parse_rfc3339 rfc ''auth.rotation.next.not_before'' (nc_not_before next)) (\<lambda>not_before.
               if i64_le (unix_timestamp not_before) now_unix
               then Ok \<lparr>sel_id = nc_id next, sel_secret = nc_secret next, sel_selection = SelectNext\<rparr>
               else active)
         | None \<Rightarrow> active)
      else active)"

definition select_client_credential ::
  "rfc3339 \<Rightarrow> ClientServerConfig \<Rightarrow> ClientCredentialRotationConfig \<Rightarrow> OffsetDateTime
   \<Rightarrow> SelectedClientCredential result" where
  "select_client_credential rfc server rotation now =
     select_client_credential_at_unix rfc server rotation (unix_timestamp now)"

subsection \<open>Users\<close>

record PreviousCredentialConfig =
  pc_id :: bytes
  pc_secret :: SecretString
  pc_not_before :: bytes
  pc_not_after :: bytes

definition PreviousCredentialConfig_validate ::
  "rfc3339 \<Rightarrow> (bytes \<Rightarrow> bytes option) \<Rightarrow> PreviousCredentialConfig \<Rightarrow> unit result" where
  "PreviousCredentialConfig_validate rfc b64dec c =
     fail_if (pc_id c = []) (Config ''user.rotation.previous.id must not be empty'')
     (and_then (validate_auth_v1_string_len ''user.rotation.previous.id'' (pc_id c)) (\<lambda>_.
      and_then (SecretString_validate b64dec (pc_secret c)) (\<lambda>_.
      and_then (parse_rfc3339 rfc ''user.rotation.previous.not_before'' (pc_not_before c)) (\<lambda>not_before.
      and_then (parse_rfc3339 rfc ''user.rotation.previous.not_after'' (pc_not_after c)) (\<lambda>not_after.
      fail_if (not_after \<le> not_before)
        (Config ''user.rotation.previous.not_after must be after not_before'')
      (Ok ()))))))"

record NextCredentialConfig =
  nx_id :: bytes
  nx_not_before :: bytes

definition NextCredentialConfig_validate :: "rfc3339 \<Rightarrow> NextCredentialConfig \<Rightarrow> unit result" where
  "NextCredentialConfig_validate rfc c =
     fail_if (nx_id c = []) (Config ''user.rotation.next.id must not be empty'')
     (and_then (validate_auth_v1_string_len ''user.rotation.next.id'' (nx_id c)) (\<lambda>_.
      and_then (parse_rfc3339 rfc ''user.rotation.next.not_before'' (nx_not_before c)) (\<lambda>_. Ok ())))"

record UserCredentialRotationConfig =
  ur_previous :: "PreviousCredentialConfig list"
  ur_next :: "NextCredentialConfig option"

fun validate_previous ::
  "rfc3339 \<Rightarrow> (bytes \<Rightarrow> bytes option) \<Rightarrow> bytes list \<Rightarrow> PreviousCredentialConfig list \<Rightarrow> bytes list result" where
  "validate_previous rfc b64dec seen [] = Ok seen"
| "validate_previous rfc b64dec seen (p # ps) =
     and_then (PreviousCredentialConfig_validate rfc b64dec p) (\<lambda>_.
     fail_if (pc_id p \<in> set seen) (Config ''user.rotation credential ids must be unique'')
     (validate_previous rfc b64dec (seen @ [pc_id p]) ps))"

definition validate_for_user ::
  "rfc3339 \<Rightarrow> (bytes \<Rightarrow> bytes option) \<Rightarrow> UserCredentialRotationConfig \<Rightarrow> bytes \<Rightarrow> unit result" where
  "validate_for_user rfc b64dec c active_id =
     fail_if (length (ur_previous c) > 4)
       (Config ''user.rotation.previous must contain at most 4 credentials'')
     (and_then (validate_previous rfc b64dec [active_id] (ur_previous c)) (\<lambda>seen.
      case ur_next c of
        Some next \<Rightarrow>
          and_then (NextCredentialConfig_validate rfc next) (\<lambda>_.
          fail_if (nx_id next \<in> set seen) (Config ''user.rotation credential ids must be unique'')
          (Ok ()))
      | None \<Rightarrow> Ok ()))"

record RateLimitConfig =
  bytes_per_second :: u64

record UserConfig =
  uc_id :: bytes
  uc_name :: "bytes option"
  uc_secret :: SecretString
  uc_enabled :: bool
  uc_rate_limit :: "RateLimitConfig option"
  uc_max_concurrent_flows :: "u32 option"
  uc_rotation :: "UserCredentialRotationConfig option"

subsection \<open>Lemmas\<close>

lemma validate_len_iff [simp]:
  "validate_auth_v1_string_len f v = Ok u \<longleftrightarrow> length v \<le> 65535"
  "validate_auth_v2_credential_hint_len f v = Ok u \<longleftrightarrow> length v \<le> 512"
  "validate_auth_v1_string_len f v \<noteq> Panic" "validate_auth_v2_credential_hint_len f v \<noteq> Panic"
  by (auto simp: validate_auth_v1_string_len_def validate_auth_v2_credential_hint_len_def
      AUTH_V1_MAX_STRING_LEN_def AUTH_V2_MAX_CREDENTIAL_HINT_LEN_def)

lemma parse_rfc3339_iff [simp]:
  "parse_rfc3339 rfc f v = Ok t \<longleftrightarrow> rfc v = Some t" "parse_rfc3339 rfc f v \<noteq> Panic"
  by (simp_all add: parse_rfc3339_def)

lemma parse_u64_dec:
  assumes "n < 2 ^ 64"
  shows "parse_u64 (dec n) = Some (of_nat n)"
proof -
  have d: "48 \<le> c \<and> c \<le> 57" if "c \<in> set (dec n)" for c using dec_digits that by blast
  have "all_digits (dec n)" using d by (auto simp: all_digits_def list_all_iff)
  moreover have "hd (dec n) \<noteq> 43" using d [of "hd (dec n)"] by auto
  then have "(case dec n of c # r \<Rightarrow> if c = 43 then r else dec n | [] \<Rightarrow> []) = dec n"
    by (cases "dec n") simp_all
  ultimately show ?thesis using assms by (simp add: parse_u64_def Let_def)
qed

lemma epochs_distinct_Ok_iff [simp]:
  "epochs_distinct seen es = Ok u \<longleftrightarrow> distinct es \<and> set es \<inter> set seen = {}"
  by (induction es arbitrary: seen) auto

lemma AuthV2Config_validate_server_iff:
  "AuthV2Config_validate_server c = Ok u \<longleftrightarrow>
     v2_enabled c = v2_require c
     \<and> (v2_enabled c \<longrightarrow> v2_accepted_epochs c \<noteq> [] \<and> length (v2_accepted_epochs c) \<le> 8
         \<and> distinct (v2_accepted_epochs c))"
  by (auto simp: AuthV2Config_validate_server_def split: if_splits)

lemma validate_previous_Ok_iff:
  "validate_previous rfc b64dec seen ps = Ok seen' \<longleftrightarrow>
     (\<forall>p \<in> set ps. PreviousCredentialConfig_validate rfc b64dec p = Ok ())
     \<and> distinct (map pc_id ps) \<and> pc_id ` set ps \<inter> set seen = {} \<and> seen' = seen @ map pc_id ps"
proof (induction ps arbitrary: seen)
  case (Cons p ps)
  show ?case
    by (auto simp: and_then_Ok_iff Cons)
qed auto

lemma validate_for_user_iff:
  "validate_for_user rfc b64dec c active = Ok u \<longleftrightarrow>
     length (ur_previous c) \<le> 4
     \<and> (\<forall>p \<in> set (ur_previous c). PreviousCredentialConfig_validate rfc b64dec p = Ok ())
     \<and> distinct (active # map pc_id (ur_previous c))
     \<and> (\<forall>n. ur_next c = Some n \<longrightarrow> NextCredentialConfig_validate rfc n = Ok ()
          \<and> nx_id n \<notin> set (active # map pc_id (ur_previous c)))"
  by (auto simp: validate_for_user_def and_then_Ok_iff validate_previous_Ok_iff split: option.splits)

lemma PreviousCredentialConfig_validate_OkD:
  assumes "PreviousCredentialConfig_validate rfc b64dec p = Ok ()"
  obtains nb na where "rfc (pc_not_before p) = Some nb" "rfc (pc_not_after p) = Some na" "nb < na"
    "pc_id p \<noteq> []" "length (pc_id p) \<le> 65535" "SecretString_validate b64dec (pc_secret p) = Ok ()"
  using assms by (auto simp: PreviousCredentialConfig_validate_def and_then_Ok_iff not_le)

lemma ClientCredentialRotationConfig_validate_OkD:
  assumes "ClientCredentialRotationConfig_validate rfc b64dec c active = Ok ()" "cr_next c = Some next"
  shows "nc_id next \<noteq> []" "nc_id next \<noteq> active" "\<exists>nb. rfc (nc_not_before next) = Some nb"
    "SecretString_validate b64dec (nc_secret next) = Ok ()"
  using assms
  by (auto simp: ClientCredentialRotationConfig_validate_def ClientNextCredentialConfig_validate_def
      and_then_Ok_iff split: option.splits)

subsection \<open>Properties of the credential configuration\<close>

text \<open>
  C38. For a validated rotation the selection of the client credential always succeeds: it is
  the next credential exactly when automatic switching is on and the start time of the next
  credential has come, and the active one otherwise; automatic switching always has a next
  credential, whose id differs from the active one.
\<close>

theorem select_client_credential_total:
  assumes "ClientCredentialRotationConfig_validate rfc b64dec rotation (csc_credential_id server) = Ok ()"
  shows "if cr_auto_switch rotation
     then (case cr_next rotation of
        None \<Rightarrow> False
      | Some next \<Rightarrow> nc_id next \<noteq> csc_credential_id server
          \<and> (case rfc (nc_not_before next) of
               None \<Rightarrow> False
             | Some start \<Rightarrow>
                 select_client_credential_at_unix rfc server rotation now =
                   (if sint (unix_timestamp start) \<le> sint now
                    then Ok \<lparr>sel_id = nc_id next, sel_secret = nc_secret next, sel_selection = SelectNext\<rparr>
                    else Ok \<lparr>sel_id = csc_credential_id server, sel_secret = csc_secret server,
                             sel_selection = SelectActive\<rparr>)))
     else select_client_credential_at_unix rfc server rotation now =
            Ok \<lparr>sel_id = csc_credential_id server, sel_secret = csc_secret server,
                sel_selection = SelectActive\<rparr>"
proof (cases "cr_auto_switch rotation")
  case True
  with assms obtain next' where n: "cr_next rotation = Some next'"
    by (auto simp: ClientCredentialRotationConfig_validate_def and_then_Ok_iff)
  note d = ClientCredentialRotationConfig_validate_OkD [OF assms n]
  from d(3) obtain nb where "rfc (nc_not_before next') = Some nb" by blast
  with True n d(2) show ?thesis
    by (simp add: select_client_credential_at_unix_def parse_rfc3339_def Let_def i64_le_def)
next
  case False
  then show ?thesis by (simp add: select_client_credential_at_unix_def Let_def)
qed

definition example_rotation :: ClientCredentialRotationConfig where
  "example_rotation =
     \<lparr>cr_active_epoch = None, cr_next_credential_id = None, cr_auto_switch = True,
      cr_next = Some \<lparr>nc_id = ascii ''new'', nc_secret = ascii ''mv1_s'', nc_not_before = ascii ''t''\<rparr>\<rparr>"

definition example_server :: ClientServerConfig where
  "example_server =
     \<lparr>csc_address = [], csc_server_name = [], csc_tunnel_path = ascii ''/t'', csc_credential_id = ascii ''old'',
      csc_secret = ascii ''mv1_o'', csc_ca_cert = None, csc_cert_pin = None\<rparr>"

theorem select_client_credential_total_witness:
  "ClientCredentialRotationConfig_validate (\<lambda>_. Some 50000000000) (\<lambda>_. Some (replicate 32 0)) example_rotation
     (csc_credential_id example_server) = Ok ()
   \<and> select_client_credential_at_unix (\<lambda>_. Some 50000000000) example_server example_rotation 49 =
       Ok \<lparr>sel_id = ascii ''old'', sel_secret = ascii ''mv1_o'', sel_selection = SelectActive\<rparr>
   \<and> select_client_credential_at_unix (\<lambda>_. Some 50000000000) example_server example_rotation 50 =
       Ok \<lparr>sel_id = ascii ''new'', sel_secret = ascii ''mv1_s'', sel_selection = SelectNext\<rparr>"
proof -
  have v: "ClientCredentialRotationConfig_validate (\<lambda>_. Some 50000000000) (\<lambda>_. Some (replicate 32 0)) example_rotation
     (csc_credential_id example_server) = Ok ()"
    by (simp add: ClientCredentialRotationConfig_validate_def ClientNextCredentialConfig_validate_def
        validate_auth_v1_string_len_def AUTH_V1_MAX_STRING_LEN_def SecretString_validate_def PREFIX_def
        strip_prefix_def MIN_SECRET_BYTES_def parse_rfc3339_def example_rotation_def example_server_def
        ascii_def)
  have "\<not> sint (unix_timestamp 50000000000) \<le> sint (49 :: i64)" "sint (unix_timestamp 50000000000) \<le> sint (50 :: i64)"
    by (simp_all add: unix_timestamp_def)
  then show ?thesis
    using v select_client_credential_total [OF v, of 49] select_client_credential_total [OF v, of 50]
    by (simp add: example_rotation_def example_server_def)
qed

end
