(* ===== verification/User_Store.thy ===== *)
theory User_Store
  imports Auth_Config
begin

text \<open>
  The credential store of the server, \<open>maverick-server/src/users.rs\<close>: the active credentials by
  user id, and the previous ones of rotated users with their validity window. The hash maps are
  partial functions; the errors of this crate are their messages.
\<close>

record PreviousCredential =
  pv_user :: UserConfig
  pv_secret :: SecretString
  pv_not_before_unix :: i64
  pv_not_after_unix :: i64

record UserStore =
  us_active :: "bytes \<rightharpoonup> UserConfig"
  us_previous :: "bytes \<rightharpoonup> PreviousCredential"

datatype CredentialState = CredActive | CredPrevious

record CredentialMatch =
  cm_user :: UserConfig
  cm_secret :: SecretString
  cm_state :: CredentialState

record CredentialSecretMatch =
  cs_secret :: SecretString
  cs_state :: CredentialState

fun CredentialState_as_str :: "CredentialState \<Rightarrow> string" where
  "CredentialState_as_str CredActive = ''active''"
| "CredentialState_as_str CredPrevious = ''previous''"

definition parse_window_timestamp :: "rfc3339 \<Rightarrow> bytes \<Rightarrow> (OffsetDateTime, string) outcome" where
  "parse_window_timestamp rfc value = ok_or ''parse RFC3339 timestamp'' (rfc value)"

definition PreviousCredential_from_config ::
  "rfc3339 \<Rightarrow> UserConfig \<Rightarrow> PreviousCredentialConfig \<Rightarrow> (PreviousCredential, string) outcome" where
  "PreviousCredential_from_config rfc user credential =
     and_then (map_err (\<lambda>_. ''invalid not_before for rotated credential'')
                 (parse_window_timestamp rfc (pc_not_before credential))) (\<lambda>not_before.
     and_then (map_err (\<lambda>_. ''invalid not_after for rotated credential'')
                 (parse_window_timestamp rfc (pc_not_after credential))) (\<lambda>not_after.
       Ok \<lparr>pv_user = user, pv_secret = pc_secret credential,
           pv_not_before_unix = unix_timestamp not_before,
           pv_not_after_unix = unix_timestamp not_after\<rparr>))"

definition is_valid_at :: "PreviousCredential \<Rightarrow> i64 \<Rightarrow> bool" where
  "is_valid_at p now_unix =
     (i64_le (pv_not_before_unix p) now_unix \<and> i64_lt now_unix (pv_not_after_unix p))"

fun insert_active ::
  "(bytes \<rightharpoonup> UserConfig) \<Rightarrow> UserConfig list \<Rightarrow> (bytes \<rightharpoonup> UserConfig, string) outcome" where
  "insert_active active [] = Ok active"
| "insert_active active (user # users) =
     fail_if (active (uc_id user) \<noteq> None) ''duplicate active user credential id''
     (insert_active (active(uc_id user \<mapsto> user)) users)"

fun insert_previous ::
  "rfc3339 \<Rightarrow> (bytes \<rightharpoonup> UserConfig) \<Rightarrow> UserConfig \<Rightarrow> (bytes \<rightharpoonup> PreviousCredential)
   \<Rightarrow> PreviousCredentialConfig list \<Rightarrow> (bytes \<rightharpoonup> PreviousCredential, string) outcome" where
  "insert_previous rfc active user previous [] = Ok previous"
| "insert_previous rfc active user previous (credential # cs) =
     fail_if (active (pc_id credential) \<noteq> None \<or> previous (pc_id credential) \<noteq> None)
       ''duplicate rotated credential id''
     (and_then (PreviousCredential_from_config rfc user credential) (\<lambda>p.
        insert_previous rfc active user (previous(pc_id credential \<mapsto> p)) cs))"

fun insert_rotations ::
  "rfc3339 \<Rightarrow> (bytes \<rightharpoonup> UserConfig) \<Rightarrow> (bytes \<rightharpoonup> PreviousCredential) \<Rightarrow> UserConfig list
   \<Rightarrow> (bytes \<rightharpoonup> PreviousCredential, string) outcome" where
  "insert_rotations rfc active previous [] = Ok previous"
| "insert_rotations rfc active previous (user # users) =
     and_then (case uc_rotation user of
                 Some rotation \<Rightarrow> insert_previous rfc active user previous (ur_previous rotation)
               | None \<Rightarrow> Ok previous) (\<lambda>previous'.
       insert_rotations rfc active previous' users)"

definition UserStore_new :: "rfc3339 \<Rightarrow> UserConfig list \<Rightarrow> (UserStore, string) outcome" where
  "UserStore_new rfc users =
     and_then (insert_active Map.empty users) (\<lambda>active.
     and_then (insert_rotations rfc active Map.empty users) (\<lambda>previous.
       Ok \<lparr>us_active = active, us_previous = previous\<rparr>))"

definition lookup_credential :: "UserStore \<Rightarrow> bytes \<Rightarrow> i64 \<Rightarrow> CredentialMatch option" where
  "lookup_credential s credential_id now_unix =
     (case us_active s credential_id of
        Some user \<Rightarrow>
          if uc_enabled user
          then Some \<lparr>cm_user = user, cm_secret = uc_secret user, cm_state = CredActive\<rparr>
          else None
      | None \<Rightarrow>
        (case us_previous s credential_id of
           None \<Rightarrow> None
         | Some previous \<Rightarrow>
             if uc_enabled (pv_user previous) \<and> is_valid_at previous now_unix
             then Some \<lparr>cm_user = pv_user previous, cm_secret = pv_secret previous, cm_state = CredPrevious\<rparr>
             else None))"

definition lookup_secret :: "UserStore \<Rightarrow> bytes \<Rightarrow> i64 \<Rightarrow> CredentialSecretMatch option" where
  "lookup_secret s credential_id now_unix =
     (case us_active s credential_id of
        Some user \<Rightarrow>
          if uc_enabled user then Some \<lparr>cs_secret = uc_secret user, cs_state = CredActive\<rparr> else None
      | None \<Rightarrow>
        (case us_previous s credential_id of
           None \<Rightarrow> None
         | Some previous \<Rightarrow>
             if uc_enabled (pv_user previous) \<and> is_valid_at previous now_unix
             then Some \<lparr>cs_secret = pv_secret previous, cs_state = CredPrevious\<rparr>
             else None))"

definition UserStore_get :: "UserStore \<Rightarrow> bytes \<Rightarrow> UserConfig option" where
  "UserStore_get s uid = us_active s uid"

subsection \<open>What a store holds\<close>

definition previous_of :: "UserConfig \<Rightarrow> PreviousCredentialConfig list" where
  "previous_of u = (case uc_rotation u of Some r \<Rightarrow> ur_previous r | None \<Rightarrow> [])"

definition all_previous :: "UserConfig list \<Rightarrow> (UserConfig \<times> PreviousCredentialConfig) list" where
  "all_previous users = concat (map (\<lambda>u. map (\<lambda>p. (u, p)) (previous_of u)) users)"

definition previous_ids :: "UserConfig list \<Rightarrow> bytes list" where
  "previous_ids users = concat (map (\<lambda>u. map pc_id (previous_of u)) users)"

definition all_ids :: "UserConfig list \<Rightarrow> bytes list" where
  "all_ids users = map uc_id users @ previous_ids users"

lemma all_previous_simps [simp]:
  "all_previous [] = []"
  "all_previous (u # users) = map (Pair u) (previous_of u) @ all_previous users"
  by (simp_all add: all_previous_def)

lemma previous_ids_simps [simp]:
  "previous_ids [] = []"
  "previous_ids (u # users) = map pc_id (previous_of u) @ previous_ids users"
  by (simp_all add: previous_ids_def)

lemma lookup_secret_credential:
  "lookup_secret s i now = map_option (\<lambda>m. \<lparr>cs_secret = cm_secret m, cs_state = cm_state m\<rparr>) (lookup_credential s i now)"
  by (simp add: lookup_secret_def lookup_credential_def split: option.splits)

lemma insert_active_OkD:
  assumes "insert_active active users = Ok active'"
  shows "distinct (map uc_id users) \<and> uc_id ` set users \<inter> dom active = {}
    \<and> (\<forall>i u. active' i = Some u \<longleftrightarrow> active i = Some u \<or> (u \<in> set users \<and> uc_id u = i))"
  using assms
proof (induction users arbitrary: active)
  case (Cons v users)
  then have n: "active (uc_id v) = None" and r: "insert_active (active(uc_id v \<mapsto> v)) users = Ok active'"
    by simp_all
  note ih = Cons.IH [OF r]
  from ih have d: "uc_id v \<notin> uc_id ` set users" "uc_id ` set users \<inter> dom active = {}" by auto
  have "active' i = Some u \<longleftrightarrow> active i = Some u \<or> (u \<in> set (v # users) \<and> uc_id u = i)" for i u
    using ih d n by (auto split: if_splits)
  with ih d n show ?case by auto
qed simp

lemma insert_active_total:
  assumes "distinct (map uc_id users)" "uc_id ` set users \<inter> dom active = {}"
  shows "\<exists>active'. insert_active active users = Ok active'"
  using assms
proof (induction users arbitrary: active)
  case (Cons v users)
  then have "uc_id ` set users \<inter> dom (active(uc_id v \<mapsto> v)) = {}" "active (uc_id v) = None" by auto
  with Cons show ?case by simp
qed simp

lemma PreviousCredential_from_config_Ok_iff:
  "PreviousCredential_from_config rfc u c = Ok p \<longleftrightarrow>
     (\<exists>nb na. rfc (pc_not_before c) = Some nb \<and> rfc (pc_not_after c) = Some na
        \<and> p = \<lparr>pv_user = u, pv_secret = pc_secret c, pv_not_before_unix = unix_timestamp nb,
               pv_not_after_unix = unix_timestamp na\<rparr>)"
  by (cases "rfc (pc_not_before c)"; cases "rfc (pc_not_after c)")
     (auto simp: PreviousCredential_from_config_def parse_window_timestamp_def)

definition holds_previous :: "rfc3339 \<Rightarrow> UserConfig \<Rightarrow> PreviousCredentialConfig \<Rightarrow> PreviousCredential \<Rightarrow> bool" where
  "holds_previous rfc u c p = (PreviousCredential_from_config rfc u c = Ok p)"

lemma insert_previous_OkD:
  assumes "insert_previous rfc active u previous cs = Ok previous'"
  shows "distinct (map pc_id cs) \<and> pc_id ` set cs \<inter> (dom active \<union> dom previous) = {}
    \<and> dom previous' = dom previous \<union> pc_id ` set cs
    \<and> (\<forall>i p. previous' i = Some p \<longleftrightarrow>
         previous i = Some p \<or> (\<exists>c \<in> set cs. pc_id c = i \<and> holds_previous rfc u c p))"
  using assms
proof (induction cs arbitrary: previous)
  case (Cons c cs)
  then obtain q where q: "PreviousCredential_from_config rfc u c = Ok q"
    and n: "active (pc_id c) = None" "previous (pc_id c) = None"
    and r: "insert_previous rfc active u (previous(pc_id c \<mapsto> q)) cs = Ok previous'"
    by (auto simp: and_then_Ok_iff)
  have "dom (previous(pc_id c \<mapsto> q)) = insert (pc_id c) (dom previous)" by simp
  note ih = Cons.IH [OF r, unfolded this]
  from ih have d: "pc_id c \<notin> pc_id ` set cs" "pc_id ` set cs \<inter> (dom active \<union> dom previous) = {}" by auto
  have "previous' i = Some p \<longleftrightarrow>
      previous i = Some p \<or> (\<exists>c' \<in> set (c # cs). pc_id c' = i \<and> holds_previous rfc u c' p)" for i p
    using ih d n q by (auto simp: holds_previous_def split: if_splits)
  with ih d n show ?case by auto
qed auto

lemma insert_previous_total:
  assumes "distinct (map pc_id cs)" "pc_id ` set cs \<inter> (dom active \<union> dom previous) = {}"
    and "\<forall>c \<in> set cs. \<exists>p. holds_previous rfc u c p"
  shows "\<exists>previous'. insert_previous rfc active u previous cs = Ok previous'"
  using assms
proof (induction cs arbitrary: previous)
  case (Cons c cs)
  then obtain q where q: "PreviousCredential_from_config rfc u c = Ok q" by (auto simp: holds_previous_def)
  have "pc_id ` set cs \<inter> (dom active \<union> dom (previous(pc_id c \<mapsto> q))) = {}" using Cons.prems by auto
  then have "\<exists>previous'. insert_previous rfc active u (previous(pc_id c \<mapsto> q)) cs = Ok previous'"
    using Cons.prems by (intro Cons.IH) (simp_all del: fun_upd_apply)
  moreover have "active (pc_id c) = None" "previous (pc_id c) = None" using Cons.prems by auto
  ultimately show ?case using q by simp
qed simp

lemma insert_rotations_OkD:
  assumes "insert_rotations rfc active previous users = Ok previous'"
  shows "distinct (previous_ids users)
    \<and> set (previous_ids users) \<inter> (dom active \<union> dom previous) = {}
    \<and> (\<forall>i p. previous' i = Some p \<longleftrightarrow> previous i = Some p
         \<or> (\<exists>(u, c) \<in> set (all_previous users). pc_id c = i \<and> holds_previous rfc u c p))"
  using assms
proof (induction users arbitrary: previous)
  case (Cons u users)
  then obtain q where q: "insert_previous rfc active u previous (previous_of u) = Ok q"
    and r: "insert_rotations rfc active q users = Ok previous'"
    by (auto simp: and_then_Ok_iff previous_of_def split: option.splits)
  note a = insert_previous_OkD [OF q] and b = Cons.IH [OF r]
  from a b show ?case by auto
qed simp

lemma insert_previous_holds:
  assumes "insert_previous rfc active u previous cs = Ok previous'" "c \<in> set cs"
  shows "\<exists>p. holds_previous rfc u c p"
  using assms by (induction cs arbitrary: previous) (auto simp: and_then_Ok_iff holds_previous_def)

lemma insert_rotations_holds:
  assumes "insert_rotations rfc active previous users = Ok previous'" "(u, c) \<in> set (all_previous users)"
  shows "\<exists>p. holds_previous rfc u c p"
  using assms
proof (induction users arbitrary: previous)
  case (Cons v users)
  then obtain q where q: "insert_previous rfc active v previous (previous_of v) = Ok q"
    and r: "insert_rotations rfc active q users = Ok previous'"
    by (auto simp: and_then_Ok_iff previous_of_def split: option.splits)
  with Cons.IH [OF r] Cons.prems insert_previous_holds [OF q] show ?case by auto
qed simp

lemma insert_rotations_total:
  assumes "distinct (previous_ids users)"
    and "set (previous_ids users) \<inter> (dom active \<union> dom previous) = {}"
    and "\<forall>(u, c) \<in> set (all_previous users). \<exists>p. holds_previous rfc u c p"
  shows "\<exists>previous'. insert_rotations rfc active previous users = Ok previous'"
  using assms
proof (induction users arbitrary: previous)
  case (Cons u users)
  have "\<forall>c \<in> set (previous_of u). \<exists>p. holds_previous rfc u c p"
    using Cons.prems(3) by (simp add: ball_Un)
  then have "\<exists>q. insert_previous rfc active u previous (previous_of u) = Ok q"
    using Cons.prems(1,2) by (intro insert_previous_total) auto
  then obtain q where q: "insert_previous rfc active u previous (previous_of u) = Ok q" ..
  then have "dom q = dom previous \<union> pc_id ` set (previous_of u)" using insert_previous_OkD by blast
  then have "set (previous_ids users) \<inter> (dom active \<union> dom q) = {}"
    using Cons.prems(1,2) by auto
  with Cons.IH [of q] Cons.prems obtain previous' where "insert_rotations rfc active q users = Ok previous'"
    by auto
  with q show ?case by (auto simp: previous_of_def split: option.splits)
qed simp

lemma UserStore_new_OkD:
  assumes "UserStore_new rfc users = Ok s"
  shows "distinct (all_ids users)"
    and "us_active s i = Some u \<longleftrightarrow> u \<in> set users \<and> uc_id u = i"
    and "us_previous s i = Some p \<longleftrightarrow>
           (\<exists>(u, c) \<in> set (all_previous users). pc_id c = i \<and> holds_previous rfc u c p)"
proof -
  obtain active previous where a: "insert_active Map.empty users = Ok active"
    and b: "insert_rotations rfc active Map.empty users = Ok previous"
    and s: "s = \<lparr>us_active = active, us_previous = previous\<rparr>"
    using assms by (auto simp: UserStore_new_def and_then_Ok_iff)
  note a' = insert_active_OkD [OF a] and b' = insert_rotations_OkD [OF b]
  have "uc_id ` set users \<subseteq> dom active" using a' by auto
  moreover have "set (previous_ids users) \<inter> dom active = {}" using b' by simp
  ultimately have "uc_id ` set users \<inter> set (previous_ids users) = {}" by blast
  with a' b' show "distinct (all_ids users)" by (simp add: all_ids_def)
  show "us_active s i = Some u \<longleftrightarrow> u \<in> set users \<and> uc_id u = i" using a' s by simp
  show "us_previous s i = Some p \<longleftrightarrow>
      (\<exists>(u, c) \<in> set (all_previous users). pc_id c = i \<and> holds_previous rfc u c p)"
    using b' s by simp
qed

lemma UserStore_new_Ok_iff:
  "is_ok (UserStore_new rfc users) \<longleftrightarrow> distinct (all_ids users)
     \<and> (\<forall>(u, c) \<in> set (all_previous users). rfc (pc_not_before c) \<noteq> None \<and> rfc (pc_not_after c) \<noteq> None)"
proof
  assume "is_ok (UserStore_new rfc users)"
  then obtain s where s: "UserStore_new rfc users = Ok s" by (auto simp: is_ok_iff)
  then obtain active where b: "insert_rotations rfc active Map.empty users = Ok (us_previous s)"
    by (auto simp: UserStore_new_def and_then_Ok_iff)
  have "\<exists>p. holds_previous rfc u c p" if "(u, c) \<in> set (all_previous users)" for u c
    using b that by (rule insert_rotations_holds)
  then show "distinct (all_ids users)
      \<and> (\<forall>(u, c) \<in> set (all_previous users). rfc (pc_not_before c) \<noteq> None \<and> rfc (pc_not_after c) \<noteq> None)"
    using UserStore_new_OkD(1) [OF s]
    by (fastforce simp: holds_previous_def PreviousCredential_from_config_Ok_iff)
next
  assume a: "distinct (all_ids users)
      \<and> (\<forall>(u, c) \<in> set (all_previous users). rfc (pc_not_before c) \<noteq> None \<and> rfc (pc_not_after c) \<noteq> None)"
  then obtain active where ac: "insert_active Map.empty users = Ok active"
    using insert_active_total [of users Map.empty] by (auto simp: all_ids_def)
  have "dom active = uc_id ` set users" using insert_active_OkD [OF ac] by (auto simp: dom_def)
  then have "\<exists>previous. insert_rotations rfc active Map.empty users = Ok previous"
    using a by (intro insert_rotations_total)
      (auto simp: all_ids_def holds_previous_def PreviousCredential_from_config_Ok_iff)
  with ac show "is_ok (UserStore_new rfc users)" by (auto simp: UserStore_new_def is_ok_iff)
qed

text \<open>The credential of a user, as the configuration states it.\<close>

definition credential_of :: "rfc3339 \<Rightarrow> UserConfig \<Rightarrow> bytes \<Rightarrow> i64 \<Rightarrow> CredentialMatch \<Rightarrow> bool" where
  "credential_of rfc u i now m = (uc_enabled u \<and> cm_user m = u \<and>
     (i = uc_id u \<and> cm_secret m = uc_secret u \<and> cm_state m = CredActive
      \<or> cm_state m = CredPrevious \<and> (\<exists>c \<in> set (previous_of u). i = pc_id c \<and> cm_secret m = pc_secret c
          \<and> (\<exists>nb na. rfc (pc_not_before c) = Some nb \<and> rfc (pc_not_after c) = Some na
               \<and> sint (unix_timestamp nb) \<le> sint now \<and> sint now < sint (unix_timestamp na)))))"

lemma set_all_previous: "(u, c) \<in> set (all_previous users) \<longleftrightarrow> u \<in> set users \<and> c \<in> set (previous_of u)"
  by (auto simp: all_previous_def)

lemma active_not_previous:
  assumes "distinct (all_ids users)" "u \<in> set users" "v \<in> set users" "c \<in> set (previous_of v)"
  shows "uc_id u \<noteq> pc_id c"
proof -
  have "pc_id c \<in> set (previous_ids users)" using assms(3,4) by (auto simp: previous_ids_def)
  with assms(1,2) show ?thesis by (auto simp: all_ids_def)
qed

lemma lookup_active_iff:
  assumes "UserStore_new rfc users = Ok s" "us_active s i = Some u"
  shows "lookup_credential s i now = Some m \<longleftrightarrow> (\<exists>v \<in> set users. credential_of rfc v i now m)"
proof -
  have u: "u \<in> set users" "uc_id u = i" using UserStore_new_OkD(2) [OF assms(1)] assms(2) by blast+
  have lhs: "lookup_credential s i now = Some m \<longleftrightarrow>
      uc_enabled u \<and> m = \<lparr>cm_user = u, cm_secret = uc_secret u, cm_state = CredActive\<rparr>"
    using assms(2) by (auto simp: lookup_credential_def)
  show ?thesis
  proof
    assume "lookup_credential s i now = Some m"
    then have "credential_of rfc u i now m" using lhs u(2) by (simp add: credential_of_def)
    with u(1) show "\<exists>v \<in> set users. credential_of rfc v i now m" by blast
  next
    assume "\<exists>v \<in> set users. credential_of rfc v i now m"
    then obtain v where v: "v \<in> set users" "credential_of rfc v i now m" by blast
    have "pc_id c \<noteq> i" if "c \<in> set (previous_of v)" for c
      using active_not_previous [OF UserStore_new_OkD(1) [OF assms(1)] u(1) v(1) that] u(2) by simp
    with v(2) have c: "uc_enabled v" "cm_user m = v" "i = uc_id v" "cm_secret m = uc_secret v"
        "cm_state m = CredActive"
      unfolding credential_of_def by blast+
    moreover have "v = u" using UserStore_new_OkD(2) [OF assms(1), of i v] v(1) c(3) assms(2) by simp
    ultimately show "lookup_credential s i now = Some m" using lhs by (simp add: CredentialMatch.equality)
  qed
qed

lemma lookup_previous_iff:
  assumes "UserStore_new rfc users = Ok s" "us_active s i = None"
  shows "lookup_credential s i now = Some m \<longleftrightarrow> (\<exists>v \<in> set users. credential_of rfc v i now m)"
proof
  assume "lookup_credential s i now = Some m"
  then obtain p where p: "us_previous s i = Some p" "uc_enabled (pv_user p)" "is_valid_at p now"
    and m: "m = \<lparr>cm_user = pv_user p, cm_secret = pv_secret p, cm_state = CredPrevious\<rparr>"
    using assms(2) by (auto simp: lookup_credential_def split: option.splits if_splits)
  then obtain u c where "u \<in> set users" "c \<in> set (previous_of u)" "pc_id c = i" "holds_previous rfc u c p"
    using UserStore_new_OkD(3) [OF assms(1), of i p] by (auto simp: set_all_previous)
  with p m show "\<exists>v \<in> set users. credential_of rfc v i now m"
    unfolding credential_of_def holds_previous_def PreviousCredential_from_config_Ok_iff
      is_valid_at_def i64_le_def i64_lt_def
    by fastforce
next
  assume "\<exists>v \<in> set users. credential_of rfc v i now m"
  then obtain v where v: "v \<in> set users" "credential_of rfc v i now m" by blast
  have "uc_id v \<noteq> i" using UserStore_new_OkD(2) [OF assms(1), of i v] v(1) assms(2) by auto
  with v(2) obtain c nb na where c: "uc_enabled v" "cm_user m = v" "cm_state m = CredPrevious"
      "c \<in> set (previous_of v)" "i = pc_id c" "cm_secret m = pc_secret c" "rfc (pc_not_before c) = Some nb"
      "rfc (pc_not_after c) = Some na" "sint (unix_timestamp nb) \<le> sint now" "sint now < sint (unix_timestamp na)"
    unfolding credential_of_def by blast
  define p where "p = \<lparr>pv_user = v, pv_secret = pc_secret c, pv_not_before_unix = unix_timestamp nb,
               pv_not_after_unix = unix_timestamp na\<rparr>"
  have "holds_previous rfc v c p"
    using c by (simp add: holds_previous_def PreviousCredential_from_config_Ok_iff p_def)
  then have "us_previous s i = Some p"
    using UserStore_new_OkD(3) [OF assms(1), of i p] v(1) c(4,5) set_all_previous by blast
  with c assms(2) show "lookup_credential s i now = Some m"
    by (simp add: lookup_credential_def p_def is_valid_at_def i64_le_def i64_lt_def CredentialMatch.equality)
qed

lemma lookup_credential_iff:
  assumes "UserStore_new rfc users = Ok s"
  shows "lookup_credential s i now = Some m \<longleftrightarrow> (\<exists>u \<in> set users. credential_of rfc u i now m)"
  using lookup_active_iff [OF assms] lookup_previous_iff [OF assms] by (cases "us_active s i") blast+

subsection \<open>Properties of the credential store\<close>

text \<open>
  A store can be built exactly when all credential ids of the configuration, active and
  previous, are pairwise distinct and the windows of the previous ones parse.
\<close>

theorem user_store_new_iff:
  "is_ok (UserStore_new rfc users) \<longleftrightarrow> distinct (all_ids users)
     \<and> list_all (\<lambda>(u, c). rfc (pc_not_before c) \<noteq> None \<and> rfc (pc_not_after c) \<noteq> None) (all_previous users)"
  by (simp add: UserStore_new_Ok_iff list_all_iff)

text \<open>
  C25. The lookup finds exactly the credentials that the configuration grants at that time: the
  active credential of an enabled user, or a previous credential of an enabled user inside its
  half-open validity window; and the secret used for verification is the one of that match.
\<close>

theorem user_store_lookup_exact:
  assumes "UserStore_new rfc users = Ok s"
  shows "(lookup_credential s i now = Some m \<longleftrightarrow> (\<exists>u \<in> set users. credential_of rfc u i now m))
    \<and> lookup_secret s i now =
        map_option (\<lambda>m. \<lparr>cs_secret = cm_secret m, cs_state = cm_state m\<rparr>) (lookup_credential s i now)"
  using lookup_credential_iff [OF assms] lookup_secret_credential by blast

definition example_user :: UserConfig where
  "example_user =
     \<lparr>uc_id = [1], uc_name = None, uc_secret = [10], uc_enabled = True, uc_rate_limit = None,
      uc_max_concurrent_flows = None,
      uc_rotation = Some \<lparr>ur_previous = [\<lparr>pc_id = [2], pc_secret = [20], pc_not_before = [5], pc_not_after = [9]\<rparr>],
                          ur_next = None\<rparr>\<rparr>"

definition example_rfc :: rfc3339 where
  "example_rfc b = (case b of [x] \<Rightarrow> Some (uint x * 1000000000) | _ \<Rightarrow> None)"

theorem user_store_lookup_exact_witness:
  "\<exists>s. UserStore_new example_rfc [example_user] = Ok s
     \<and> (lookup_credential s [2] 8
          = Some \<lparr>cm_user = example_user, cm_secret = [20], cm_state = CredPrevious\<rparr>)
     \<and> (\<exists>u \<in> set [example_user]. credential_of example_rfc u [2] 8
          \<lparr>cm_user = example_user, cm_secret = [20], cm_state = CredPrevious\<rparr>)"
proof -
  have ids: "all_ids [example_user] = [[1], [2]]"
    by (simp add: all_ids_def previous_of_def example_user_def)
  have "is_ok (UserStore_new example_rfc [example_user])"
    unfolding UserStore_new_Ok_iff ids
    by (simp add: previous_of_def example_user_def example_rfc_def)
  then obtain s where s: "UserStore_new example_rfc [example_user] = Ok s" by (auto simp: is_ok_iff)
  have c: "\<exists>u \<in> set [example_user]. credential_of example_rfc u [2] 8
          \<lparr>cm_user = example_user, cm_secret = [20], cm_state = CredPrevious\<rparr>"
    by (simp add: credential_of_def previous_of_def example_user_def example_rfc_def unix_timestamp_def)
  then show ?thesis using s user_store_lookup_exact [OF s] by blast
qed

end
