(* ===== verification/F64.thy ===== *)
theory F64
  imports Mav_Prelude
begin

text \<open>
  The part of IEEE 754 binary64 arithmetic that the shaping code uses: conversion from
  \<open>usize\<close>, multiplication with rounding to nearest and ties to even, \<open>floor\<close>, the saturating
  conversion back, and the comparisons with 0 and 1. A finite number is a sign, a mantissa and
  a binary exponent and stands for \<open>(-1)^s * m * 2^e\<close>; every binary64 number has such a form
  with \<open>m < 2^53\<close> and \<open>-1074 \<le> e\<close> (\<open>f64_ok\<close>), and results do not depend on the form chosen.
\<close>

datatype f64 = NaN | Inf bool | Fin bool nat int

fun f64_ok :: "f64 \<Rightarrow> bool" where
  "f64_ok (Fin s m e) = (m < 2 ^ 53 \<and> - 1074 \<le> e)"
| "f64_ok _ = True"

fun bitlen :: "nat \<Rightarrow> nat" where
  "bitlen m = (if m = 0 then 0 else Suc (bitlen (m div 2)))"

declare bitlen.simps [simp del]

text \<open>\<open>m / 2^k\<close> rounded to the nearest integer, ties to even.\<close>

definition round_half_even :: "nat \<Rightarrow> nat \<Rightarrow> nat" where
  "round_half_even m k =
     (let q = m div 2 ^ k; r = m mod 2 ^ k in
      if 2 * r < 2 ^ k \<or> (2 * r = 2 ^ k \<and> even q) then q else q + 1)"

definition f64_round :: "bool \<Rightarrow> nat \<Rightarrow> int \<Rightarrow> f64" where
  "f64_round s m e =
     (let k = nat (max 0 (max (int (bitlen m) - 53) (- 1074 - e)));
          m' = (if k = 0 then m else round_half_even m k);
          e' = e + int k
      in if m' \<noteq> 0 \<and> int (bitlen m') + e' > 1024 then Inf s else Fin s m' e')"

definition f64_of_usize :: "nat \<Rightarrow> f64" where
  "f64_of_usize n = f64_round False n 0"

fun f64_mul :: "f64 \<Rightarrow> f64 \<Rightarrow> f64" where
  "f64_mul (Fin s m e) (Fin s' m' e') = f64_round (s \<noteq> s') (m * m') (e + e')"
| "f64_mul NaN y = NaN"
| "f64_mul x NaN = NaN"
| "f64_mul (Inf s) (Inf s') = Inf (s \<noteq> s')"
| "f64_mul (Inf s) (Fin s' m e) = (if m = 0 then NaN else Inf (s \<noteq> s'))"
| "f64_mul (Fin s' m e) (Inf s) = (if m = 0 then NaN else Inf (s \<noteq> s'))"

fun f64_floor :: "f64 \<Rightarrow> f64" where
  "f64_floor (Fin s m e) =
     (if 0 \<le> e then Fin s m e
      else if s then Fin s ((m + 2 ^ nat (- e) - 1) div 2 ^ nat (- e)) 0
      else Fin s (m div 2 ^ nat (- e)) 0)"
| "f64_floor x = x"

text \<open>\<open>as usize\<close> truncates and saturates; NaN becomes 0.\<close>

fun f64_to_usize :: "f64 \<Rightarrow> nat" where
  "f64_to_usize NaN = 0"
| "f64_to_usize (Inf s) = (if s then 0 else USIZE_MAX)"
| "f64_to_usize (Fin s m e) =
     (if s then 0
      else min USIZE_MAX (if 0 \<le> e then m * 2 ^ nat e else m div 2 ^ nat (- e)))"

fun f64_is_finite :: "f64 \<Rightarrow> bool" where
  "f64_is_finite (Fin s m e) = True"
| "f64_is_finite _ = False"

fun f64_le_zero :: "f64 \<Rightarrow> bool" where
  "f64_le_zero NaN = False"
| "f64_le_zero (Inf s) = s"
| "f64_le_zero (Fin s m e) = (s \<or> m = 0)"

fun f64_lt_zero :: "f64 \<Rightarrow> bool" where
  "f64_lt_zero NaN = False"
| "f64_lt_zero (Inf s) = s"
| "f64_lt_zero (Fin s m e) = (s \<and> m \<noteq> 0)"

fun f64_gt_one :: "f64 \<Rightarrow> bool" where
  "f64_gt_one NaN = False"
| "f64_gt_one (Inf s) = (\<not> s)"
| "f64_gt_one (Fin s m e) =
     (\<not> s \<and> (if 0 \<le> e then m * 2 ^ nat e > 1 else m > 2 ^ nat (- e)))"

text \<open>\<open>floor(n * r) as usize\<close>, the budget computed from a ratio.\<close>

definition f64_budget :: "nat \<Rightarrow> f64 \<Rightarrow> nat" where
  "f64_budget n ratio = f64_to_usize (f64_floor (f64_mul (f64_of_usize n) ratio))"

subsection \<open>Bit lengths and rounding\<close>

lemma bitlen_0 [simp]: "bitlen 0 = 0"
  by (simp add: bitlen.simps)

lemma bitlen_bounds: "0 < m \<Longrightarrow> 2 ^ (bitlen m - 1) \<le> m \<and> m < 2 ^ bitlen m"
proof (induction m rule: bitlen.induct)
  case (1 m)
  show ?case
  proof (cases "m div 2 = 0")
    case True
    with 1 have "m = 1" by simp
    then show ?thesis by (simp add: bitlen.simps)
  next
    case False
    with 1 have ih: "2 ^ (bitlen (m div 2) - 1) \<le> m div 2" "m div 2 < 2 ^ bitlen (m div 2)" by auto
    have b: "bitlen m = Suc (bitlen (m div 2))" using 1 by (subst bitlen.simps) simp
    have "0 < bitlen (m div 2)" using False by (subst bitlen.simps) simp
    then have "(2::nat) ^ bitlen (m div 2) = 2 * 2 ^ (bitlen (m div 2) - 1)"
      by (simp flip: power_Suc)
    with ih b show ?thesis by simp linarith
  qed
qed

lemma bitlen_le: "m < 2 ^ k \<Longrightarrow> bitlen m \<le> k"
proof (rule ccontr)
  assume "m < 2 ^ k" "\<not> bitlen m \<le> k"
  then have "0 < m" by (cases "m = 0") simp_all
  then have "2 ^ (bitlen m - 1) \<le> m" using bitlen_bounds by blast
  moreover have "(2::nat) ^ k \<le> 2 ^ (bitlen m - 1)" using \<open>\<not> bitlen m \<le> k\<close> by (intro power_increasing) simp_all
  ultimately show False using \<open>m < 2 ^ k\<close> by linarith
qed

lemma round_half_even_le:
  assumes "m \<le> i * 2 ^ k"
  shows "round_half_even m k \<le> i"
proof -
  have q: "m div 2 ^ k \<le> i" using div_le_mono [OF assms, of "2 ^ k"] by simp
  show ?thesis
  proof (cases "m div 2 ^ k = i")
    case True
    have "m div 2 ^ k * 2 ^ k + m mod 2 ^ k = m" by (rule div_mult_mod_eq)
    then have "m mod 2 ^ k = 0" using assms unfolding True by linarith
    with q show ?thesis by (simp add: round_half_even_def)
  next
    case False
    with q show ?thesis by (auto simp: round_half_even_def Let_def)
  qed
qed

lemma f64_of_usize_exact:
  assumes "n < 2 ^ 53"
  shows "f64_of_usize n = Fin False n 0"
  using bitlen_le [OF assms] by (simp add: f64_of_usize_def f64_round_def Let_def)

subsection \<open>A budget from a ratio of at most one\<close>

lemma ratio_le_one_mult:
  assumes "\<not> f64_gt_one (Fin False m e)" "e < 0"
  shows "n * m \<le> n * 2 ^ nat (- e)"
  using assms by (intro mult_left_mono) simp_all

lemma round_half_even_0 [simp]: "round_half_even 0 k = 0"
  by (simp add: round_half_even_def)

text \<open>A fraction \<open>m / 2^d\<close> of at most \<open>n\<close>, rounded to 53 bits and truncated, is at most \<open>n\<close>.\<close>

lemma f64_round_floor_le:
  assumes "n < 2 ^ 53" "m \<le> n * 2 ^ d" "0 < m"
  shows "f64_to_usize (f64_floor (f64_round False m (- int d))) \<le> n"
proof -
  define k where "k = nat (max 0 (max (int (bitlen m) - 53) (- 1074 + int d)))"
  define N where "N = (if k = 0 then m else round_half_even m k)"
  have kd: "k \<le> d"
  proof (rule ccontr)
    assume "\<not> k \<le> d"
    then have kb: "bitlen m = k + 53" "d < k" by (auto simp: k_def)
    have "2 ^ (52 + k) \<le> m" using bitlen_bounds [OF assms(3)] kb by simp
    also have "\<dots> < 2 ^ 53 * 2 ^ d"
      using assms(1,2) by (meson le_less_trans mult_less_mono1 zero_less_numeral zero_less_power)
    also have "\<dots> = (2::nat) ^ (53 + d)" by (simp add: power_add)
    finally have "52 + k < 53 + d" by (rule power_less_imp_less_exp [rotated]) simp
    with kb show False by simp
  qed
  have dk: "(2::nat) ^ d = 2 ^ (d - k) * 2 ^ k" using kd by (simp flip: power_add)
  have N: "N \<le> n * 2 ^ (d - k)"
  proof (cases "k = 0")
    case True
    then show ?thesis using assms(2) by (simp add: N_def)
  next
    case False
    have "m \<le> n * 2 ^ (d - k) * 2 ^ k" using assms(2) unfolding dk by (simp only: mult.assoc)
    with False round_half_even_le show ?thesis by (simp only: N_def if_False)
  qed
  then have "N < 2 ^ 53 * 2 ^ (d - k)"
    using assms(1) by (meson le_less_trans mult_less_mono1 zero_less_numeral zero_less_power)
  then have "bitlen N \<le> 53 + (d - k)" by (intro bitlen_le) (simp add: power_add)
  then have b: "\<not> 1024 < int (bitlen N) + - int (d - k)" by simp
  have e: "- int d + int k = - int (d - k)" using kd by simp
  have "nat (max 0 (max (int (bitlen m) - 53) (- 1074 - (- int d)))) = k" by (simp add: k_def)
  then have "f64_round False m (- int d) = Fin False N (- int (d - k))"
    unfolding f64_round_def Let_def by (simp only: N_def [symmetric] e b if_False simp_thms)
  moreover have "N div 2 ^ (d - k) \<le> n" using div_le_mono [OF N, of "2 ^ (d - k)"] by simp
  ultimately show ?thesis 
    by (cases "d - k = 0") (simp_all add: nat_diff_distrib' min.coboundedI2)
qed

lemma f64_budget_le:
  assumes "n < 2 ^ 53" "f64_is_finite ratio" "\<not> f64_gt_one ratio"
  shows "f64_budget n ratio \<le> n"
proof -
  from assms(2) obtain s m e where r: "ratio = Fin s m e" by (cases ratio) auto
  have b: "f64_budget n ratio = f64_to_usize (f64_floor (f64_round s (n * m) e))"
    by (simp add: f64_budget_def f64_of_usize_exact [OF assms(1)] r)
  consider "s" | "\<not> s" "n * m = 0" | "\<not> s" "0 < n * m" "0 \<le> e" | "\<not> s" "0 < n * m" "e < 0"
    by linarith
  then show ?thesis
  proof cases
    case 1
    then show ?thesis unfolding b by (simp add: f64_round_def Let_def)
  next
    case 2
    then show ?thesis unfolding b 2(2) by (simp add: f64_round_def Let_def)
  next
    case 3
    have le: "m * 2 ^ nat e \<le> 1" using assms(3) 3 by (simp add: r)
    have "0 < m * 2 ^ nat e" using 3 by simp
    with le have "m * 2 ^ nat e = 1" by linarith
    then have m: "m = 1" and "(2::nat) ^ nat e = 1" by (simp_all only: nat_mult_eq_1_iff)
    then have "nat e = 0" by simp
    with 3 m f64_of_usize_exact [OF assms(1)] show ?thesis
      unfolding b f64_of_usize_def by simp
  next
    case 4
    then have "n * m \<le> n * 2 ^ nat (- e)"
      using ratio_le_one_mult [of m e n] assms(3) by (simp add: r)
    from f64_round_floor_le [OF assms(1) this 4(2)] 4 show ?thesis unfolding b by simp
  qed
qed

text \<open>For a ratio \<open>1 / 2^d\<close> the budget is the exact quotient.\<close>

lemma f64_budget_power2:
  assumes "n < 2 ^ 53" "d \<le> 1074"
  shows "f64_budget n (Fin False 1 (- int d)) = n div 2 ^ d"
proof -
  have "f64_round False n (- int d) = Fin False n (- int d)"
    using bitlen_le [OF assms(1)] assms(2) by (simp add: f64_round_def Let_def)
  moreover have "n div 2 ^ d \<le> USIZE_MAX"
    using assms(1) by (intro order_trans [OF div_le_dividend]) (simp add: USIZE_MAX_def)
  ultimately show ?thesis
    by (cases "d = 0") (simp_all add: f64_budget_def f64_of_usize_exact [OF assms(1)])
qed

end
