(* ===== verification/Crypto_Policy.thy ===== *)
theory Crypto_Policy
  imports Mode_Secret
begin

text \<open>
  The cryptographic suite registry and policy, \<open>maverick-core/src/crypto.rs\<close>: the registry
  table, the Noise prologue, the readiness snapshot, the policy diagnostics and the policy
  validation. Static strings are HOL strings and become bytes where the source writes bytes.
  The build feature \<open>noise-experimental\<close> is an argument. The snapshot keeps the seven input
  flags as one field.
\<close>

datatype CryptoSuiteId = Tls13 | HpkeConfigV1 | NoiseXx25519ChaChaPolyV1 | MlKem768HybridV1

fun CryptoSuiteId_wire_id :: "CryptoSuiteId \<Rightarrow> u16" where
  "CryptoSuiteId_wire_id Tls13 = 0x0001"
| "CryptoSuiteId_wire_id HpkeConfigV1 = 0x0101"
| "CryptoSuiteId_wire_id NoiseXx25519ChaChaPolyV1 = 0x0201"
| "CryptoSuiteId_wire_id MlKem768HybridV1 = 0x0301"

fun CryptoSuiteId_as_str :: "CryptoSuiteId \<Rightarrow> string" where
  "CryptoSuiteId_as_str Tls13 = ''tls13''"
| "CryptoSuiteId_as_str HpkeConfigV1 = ''hpke_config_v1''"
| "CryptoSuiteId_as_str NoiseXx25519ChaChaPolyV1 = ''noise_xx25519_chacha_poly_v1''"
| "CryptoSuiteId_as_str MlKem768HybridV1 = ''ml_kem_768_hybrid_v1''"

datatype CryptoSuiteStatus =
  StatusStable | StatusExperimental | StatusDeprecated | StatusRemoved | StatusDisabled

record CryptoSuiteDescriptor =
  sd_suite :: CryptoSuiteId
  sd_status :: CryptoSuiteStatus
  sd_feature_gate :: "string option"
  sd_runtime_flag :: "string option"
  sd_transcript_label :: string
  sd_test_vector_file :: "string option"

definition CRYPTO_SUITE_REGISTRY :: "CryptoSuiteDescriptor list" where
  "CRYPTO_SUITE_REGISTRY =
     [\<lparr>sd_suite = Tls13, sd_status = StatusStable, sd_feature_gate = None, sd_runtime_flag = None,
       sd_transcript_label = ''Maverick TLS 1.3 transport v1'', sd_test_vector_file = None\<rparr>,
      \<lparr>sd_suite = HpkeConfigV1, sd_status = StatusDisabled, sd_feature_gate = Some ''hpke-experimental'',
       sd_runtime_flag = Some ''advanced.crypto.allow_experimental'',
       sd_transcript_label = ''Maverick HPKE config envelope v1'',
       sd_test_vector_file = Some ''test-vectors/hpke-config-v1.json''\<rparr>,
      \<lparr>sd_suite = NoiseXx25519ChaChaPolyV1, sd_status = StatusDisabled,
       sd_feature_gate = Some ''noise-experimental'',
       sd_runtime_flag = Some ''advanced.crypto.allow_experimental'',
       sd_transcript_label = ''Maverick Noise XX25519 ChaChaPoly SHA256 v1'',
       sd_test_vector_file = Some ''test-vectors/noise-xx25519-chachapoly-v1.json''\<rparr>,
      \<lparr>sd_suite = MlKem768HybridV1, sd_status = StatusDisabled, sd_feature_gate = Some ''ml-kem-hybrid'',
       sd_runtime_flag = Some ''advanced.crypto.allow_experimental'',
       sd_transcript_label = ''Maverick ML-KEM-768 hybrid v1'',
       sd_test_vector_file = Some ''test-vectors/ml-kem-768-hybrid-v1.json''\<rparr>]"

definition crypto_suite_descriptor :: "CryptoSuiteId \<Rightarrow> (CryptoSuiteDescriptor, error) outcome" where
  "crypto_suite_descriptor suite =
     (case find (\<lambda>d. sd_suite d = suite) CRYPTO_SUITE_REGISTRY of Some d \<Rightarrow> Ok d | None \<Rightarrow> Panic)"

subsection \<open>The Noise prologue\<close>

datatype NoiseTransportContext = CtxH2 | CtxH3 | CtxCloudflareWs | CtxNativeNoDomainResearch

fun NoiseTransportContext_as_str :: "NoiseTransportContext \<Rightarrow> string" where
  "NoiseTransportContext_as_str CtxH2 = ''h2''"
| "NoiseTransportContext_as_str CtxH3 = ''h3''"
| "NoiseTransportContext_as_str CtxCloudflareWs = ''cloudflare_ws''"
| "NoiseTransportContext_as_str CtxNativeNoDomainResearch = ''native_no_domain_research''"

record NoisePrologueContext =
  np_suite :: CryptoSuiteId
  np_noise_name :: string
  np_maverick_protocol :: string
  np_maverick_protocol_version :: u16
  np_initiator_role :: string
  np_responder_role :: string
  np_transport_context :: NoiseTransportContext
  np_purpose :: string

definition xx25519_chachapoly_v1 :: "NoiseTransportContext \<Rightarrow> NoisePrologueContext" where
  "xx25519_chachapoly_v1 transport_context =
     \<lparr>np_suite = NoiseXx25519ChaChaPolyV1, np_noise_name = ''Noise_XX_25519_ChaChaPoly_SHA256'',
      np_maverick_protocol = ''maverick-proxy'', np_maverick_protocol_version = 1,
      np_initiator_role = ''maverick-client'', np_responder_role = ''maverick-server'',
      np_transport_context = transport_context, np_purpose = ''experimental-research-runtime''\<rparr>"

definition encode_prologue_field :: "bytes \<Rightarrow> string \<Rightarrow> bytes \<Rightarrow> bytes result" where
  "encode_prologue_field out name value =
     (if length name > 65535 \<or> length value > 65535 then Panic
      else Ok (out @ put_u16 (of_nat (length name)) @ ascii name
               @ put_u16 (of_nat (length value)) @ value))"

definition canonical_prologue :: "NoisePrologueContext \<Rightarrow> bytes result" where
  "canonical_prologue c =
     and_then (encode_prologue_field (ascii ''MaverickNoisePrologue'') ''encoding''
                 (ascii ''length-prefixed-fields-v1'')) (\<lambda>out.
     and_then (encode_prologue_field out ''suite'' (ascii (CryptoSuiteId_as_str (np_suite c)))) (\<lambda>out.
     and_then (encode_prologue_field out ''noise_name'' (ascii (np_noise_name c))) (\<lambda>out.
     and_then (encode_prologue_field out ''maverick_protocol'' (ascii (np_maverick_protocol c))) (\<lambda>out.
     and_then (encode_prologue_field out ''maverick_protocol_version''
                 (dec (unat (np_maverick_protocol_version c)))) (\<lambda>out.
     and_then (encode_prologue_field out ''initiator_role'' (ascii (np_initiator_role c))) (\<lambda>out.
     and_then (encode_prologue_field out ''responder_role'' (ascii (np_responder_role c))) (\<lambda>out.
     and_then (encode_prologue_field out ''transport_context''
                 (ascii (NoiseTransportContext_as_str (np_transport_context c)))) (\<lambda>out.
       encode_prologue_field out ''purpose'' (ascii (np_purpose c))))))))))"

subsection \<open>Readiness and diagnostics\<close>

datatype NoiseReadinessBlocker =
    BuildFeatureDisabled | CandidateImplementationMissing | ImplementationVectorsMissing
  | TranscriptTestsMissing | DowngradeTestsMissing | RuntimeSessionHarnessMissing | RuntimeConfigRejected

record NoiseReadinessInputs =
  ni_build_feature_enabled :: bool
  ni_candidate_implementation_selected :: bool
  ni_implementation_vectors_present :: bool
  ni_transcript_tests_ready :: bool
  ni_downgrade_tests_ready :: bool
  ni_runtime_session_harness_ready :: bool
  ni_runtime_config_accepted :: bool

record NoiseReadinessSnapshot =
  ns_build_feature_enabled :: bool
  ns_candidate_implementation_selected :: bool
  ns_implementation_vectors_present :: bool
  ns_transcript_tests_ready :: bool
  ns_downgrade_tests_ready :: bool
  ns_runtime_session_harness_ready :: bool
  ns_runtime_config_accepted :: bool
  ns_runtime_ready :: bool
  ns_blockers :: "NoiseReadinessBlocker list"

definition push_if :: "bool \<Rightarrow> 'a \<Rightarrow> 'a list" where
  "push_if c x = (if c then [x] else [])"

definition NoiseReadinessSnapshot_from_inputs :: "NoiseReadinessInputs \<Rightarrow> NoiseReadinessSnapshot" where
  "NoiseReadinessSnapshot_from_inputs i =
     (let blockers =
        push_if (\<not> ni_build_feature_enabled i) BuildFeatureDisabled
        @ push_if (\<not> ni_candidate_implementation_selected i) CandidateImplementationMissing
        @ push_if (\<not> ni_implementation_vectors_present i) ImplementationVectorsMissing
        @ push_if (\<not> ni_transcript_tests_ready i) TranscriptTestsMissing
        @ push_if (\<not> ni_downgrade_tests_ready i) DowngradeTestsMissing
        @ push_if (\<not> ni_runtime_session_harness_ready i) RuntimeSessionHarnessMissing
        @ push_if (\<not> ni_runtime_config_accepted i) RuntimeConfigRejected
      in \<lparr>ns_build_feature_enabled = ni_build_feature_enabled i,
          ns_candidate_implementation_selected = ni_candidate_implementation_selected i,
          ns_implementation_vectors_present = ni_implementation_vectors_present i,
          ns_transcript_tests_ready = ni_transcript_tests_ready i,
          ns_downgrade_tests_ready = ni_downgrade_tests_ready i,
          ns_runtime_session_harness_ready = ni_runtime_session_harness_ready i,
          ns_runtime_config_accepted = ni_runtime_config_accepted i,
          ns_runtime_ready = (blockers = []), ns_blockers = blockers\<rparr>)"

definition NoiseReadinessInputs_current :: "bool \<Rightarrow> NoiseReadinessInputs" where
  "NoiseReadinessInputs_current noise_feature =
     \<lparr>ni_build_feature_enabled = noise_feature, ni_candidate_implementation_selected = True,
      ni_implementation_vectors_present = True, ni_transcript_tests_ready = True,
      ni_downgrade_tests_ready = True, ni_runtime_session_harness_ready = noise_feature,
      ni_runtime_config_accepted = False\<rparr>"

record CryptoPolicyConfig =
  cc_offered_suites :: "CryptoSuiteId list"
  cc_allow_experimental :: bool
  cc_require_experimental :: bool

definition default_crypto_suites :: "CryptoSuiteId list" where
  "default_crypto_suites = [Tls13]"

definition CryptoPolicyConfig_default :: CryptoPolicyConfig where
  "CryptoPolicyConfig_default =
     \<lparr>cc_offered_suites = default_crypto_suites, cc_allow_experimental = False,
      cc_require_experimental = False\<rparr>"

record CryptoSuiteDiagnostic =
  dg_suite :: CryptoSuiteId
  dg_status :: CryptoSuiteStatus
  dg_offered :: bool
  dg_default_enabled :: bool
  dg_feature_gate :: "string option"
  dg_runtime_gate :: "string option"
  dg_test_vector_file :: "string option"
  dg_excluded_from_default_security_claims :: bool

record CryptoPolicyDiagnostics =
  dp_mode :: Mode
  dp_default_foundation_present :: bool
  dp_stable_mode_experimental_blocked :: bool
  dp_require_experimental_without_enabled_suite :: bool
  dp_suites :: "CryptoSuiteDiagnostic list"

fun any_experimental :: "CryptoSuiteId list \<Rightarrow> bool result" where
  "any_experimental [] = Ok False"
| "any_experimental (s # ss) =
     and_then (crypto_suite_descriptor s) (\<lambda>d.
       if sd_status d = StatusExperimental then Ok True else any_experimental ss)"

definition crypto_policy_diagnostics ::
  "Mode \<Rightarrow> CryptoPolicyConfig \<Rightarrow> CryptoPolicyDiagnostics result" where
  "crypto_policy_diagnostics mode policy =
     (let offered = set (cc_offered_suites policy);
          suites = map (\<lambda>d.
            \<lparr>dg_suite = sd_suite d, dg_status = sd_status d, dg_offered = (sd_suite d \<in> offered),
             dg_default_enabled = (sd_suite d = Tls13 \<and> sd_status d = StatusStable),
             dg_feature_gate = sd_feature_gate d, dg_runtime_gate = sd_runtime_flag d,
             dg_test_vector_file = sd_test_vector_file d,
             dg_excluded_from_default_security_claims = (sd_status d \<noteq> StatusStable)\<rparr>)
            CRYPTO_SUITE_REGISTRY
      in and_then (any_experimental (cc_offered_suites policy)) (\<lambda>has_enabled_experimental.
        Ok \<lparr>dp_mode = mode, dp_default_foundation_present = (Tls13 \<in> offered),
            dp_stable_mode_experimental_blocked =
              (mode = Stable \<and> (cc_allow_experimental policy \<or> cc_require_experimental policy)),
            dp_require_experimental_without_enabled_suite =
              (cc_require_experimental policy \<and> \<not> has_enabled_experimental),
            dp_suites = suites\<rparr>))"

subsection \<open>Policy validation\<close>

fun check_duplicates :: "CryptoSuiteId set \<Rightarrow> CryptoSuiteId list \<Rightarrow> CryptoSuiteId set result" where
  "check_duplicates seen [] = Ok seen"
| "check_duplicates seen (s # ss) =
     fail_if (s \<in> seen)
       (Config (''advanced.crypto.offered_suites contains duplicate suite '' @ CryptoSuiteId_as_str s))
     (check_duplicates (insert s seen) ss)"

fun check_statuses :: "bool \<Rightarrow> bool \<Rightarrow> CryptoSuiteId list \<Rightarrow> bool result" where
  "check_statuses allow has [] = Ok has"
| "check_statuses allow has (s # ss) =
     and_then (crypto_suite_descriptor s) (\<lambda>d.
       case sd_status d of
         StatusStable \<Rightarrow> check_statuses allow has ss
       | StatusExperimental \<Rightarrow>
           fail_if (\<not> allow)
             (Config (''advanced.crypto.allow_experimental must be true to offer '' @ CryptoSuiteId_as_str s))
           (check_statuses allow True ss)
       | StatusDeprecated \<Rightarrow>
           Err (Config (''advanced.crypto.offered_suites contains deprecated suite '' @ CryptoSuiteId_as_str s))
       | StatusRemoved \<Rightarrow>
           Err (Config (''advanced.crypto.offered_suites contains removed suite '' @ CryptoSuiteId_as_str s))
       | StatusDisabled \<Rightarrow>
           Err (Config (''advanced.crypto.offered_suites contains disabled suite '' @ CryptoSuiteId_as_str s)))"

definition CryptoPolicyConfig_validate :: "CryptoPolicyConfig \<Rightarrow> Mode \<Rightarrow> unit result" where
  "CryptoPolicyConfig_validate p mode =
     fail_if (cc_offered_suites p = []) (Config ''advanced.crypto.offered_suites must not be empty'')
     (fail_if (mode = Stable \<and> (cc_allow_experimental p \<or> cc_require_experimental p))
        (Config ''stable mode refuses advanced.crypto experimental settings'')
     (fail_if (cc_require_experimental p \<and> \<not> cc_allow_experimental p)
        (Config ''advanced.crypto.require_experimental requires allow_experimental=true'')
     (and_then (check_duplicates {} (cc_offered_suites p)) (\<lambda>seen.
      fail_if (Tls13 \<notin> seen) (Config ''advanced.crypto.offered_suites must include tls13'')
      (and_then (check_statuses (cc_allow_experimental p) False (cc_offered_suites p)) (\<lambda>has_experimental.
       fail_if (cc_require_experimental p \<and> \<not> has_experimental)
         (Config ''advanced.crypto.require_experimental needs at least one enabled experimental suite'')
       (Ok ())))))))"

subsection \<open>Lemmas\<close>

lemma crypto_suite_descriptor_status:
  "\<exists>d. crypto_suite_descriptor s = Ok d \<and> sd_suite d = s
     \<and> sd_status d = (if s = Tls13 then StatusStable else StatusDisabled)"
  by (cases s) (simp_all add: crypto_suite_descriptor_def CRYPTO_SUITE_REGISTRY_def)

lemma check_duplicates_Ok_iff:
  "check_duplicates seen ss = Ok seen' \<longleftrightarrow> distinct ss \<and> set ss \<inter> seen = {} \<and> seen' = seen \<union> set ss"
  by (induction ss arbitrary: seen) auto

lemma check_duplicates_not_Panic [simp]: "check_duplicates seen ss \<noteq> Panic"
  by (induction ss arbitrary: seen) auto

lemma check_statuses_cases:
  "check_statuses allow has ss =
     (if set ss \<subseteq> {Tls13} then Ok has else
      Err (Config (''advanced.crypto.offered_suites contains disabled suite ''
        @ CryptoSuiteId_as_str (hd (filter (\<lambda>s. s \<noteq> Tls13) ss)))))"
proof (induction ss arbitrary: has)
  case (Cons s ss)
  obtain d where "crypto_suite_descriptor s = Ok d"
    "sd_status d = (if s = Tls13 then StatusStable else StatusDisabled)"
    using crypto_suite_descriptor_status by blast
  with Cons show ?case by simp
qed simp

lemma only_tls13: "distinct ss \<Longrightarrow> Tls13 \<in> set ss \<Longrightarrow> set ss \<subseteq> {Tls13} \<longleftrightarrow> ss = [Tls13]"
proof
  assume "distinct ss" "Tls13 \<in> set ss" "set ss \<subseteq> {Tls13}"
  then have "set ss = {Tls13}" by blast
  with \<open>distinct ss\<close> show "ss = [Tls13]"
    by (cases ss; cases "tl ss") auto
qed simp

lemma CryptoPolicyConfig_validate_Ok_iff:
  "CryptoPolicyConfig_validate p mode = Ok () \<longleftrightarrow>
      cc_offered_suites p = [Tls13] \<and> \<not> cc_require_experimental p
      \<and> \<not> (mode = Stable \<and> cc_allow_experimental p)"
  using only_tls13 [of "cc_offered_suites p"]
  by (auto simp: CryptoPolicyConfig_validate_def and_then_Ok_iff check_duplicates_Ok_iff check_statuses_cases)

lemma CryptoPolicyConfig_validate_not_Panic: "CryptoPolicyConfig_validate p mode \<noteq> Panic"
  by (auto simp: CryptoPolicyConfig_validate_def and_then_Panic_iff check_statuses_cases)

text \<open>The prologue as a list of length-prefixed fields.\<close>

definition prologue_field :: "string \<Rightarrow> bytes \<Rightarrow> bytes" where
  "prologue_field name value =
     put_u16 (of_nat (length name)) @ ascii name @ put_u16 (of_nat (length value)) @ value"

definition prologue_fields :: "NoisePrologueContext \<Rightarrow> bytes" where
  "prologue_fields c =
     prologue_field ''suite'' (ascii (CryptoSuiteId_as_str (np_suite c)))
     @ prologue_field ''noise_name'' (ascii (np_noise_name c))
     @ prologue_field ''maverick_protocol'' (ascii (np_maverick_protocol c))
     @ prologue_field ''maverick_protocol_version'' (dec (unat (np_maverick_protocol_version c)))
     @ prologue_field ''initiator_role'' (ascii (np_initiator_role c))
     @ prologue_field ''responder_role'' (ascii (np_responder_role c))
     @ prologue_field ''transport_context'' (ascii (NoiseTransportContext_as_str (np_transport_context c)))
     @ prologue_field ''purpose'' (ascii (np_purpose c))"

definition fields_fit :: "NoisePrologueContext \<Rightarrow> bool" where
  "fields_fit c = (length (np_noise_name c) \<le> 65535 \<and> length (np_maverick_protocol c) \<le> 65535
     \<and> length (dec (unat (np_maverick_protocol_version c))) \<le> 65535
     \<and> length (np_initiator_role c) \<le> 65535 \<and> length (np_responder_role c) \<le> 65535
     \<and> length (np_purpose c) \<le> 65535)"

lemma as_str_inject [simp]:
  "CryptoSuiteId_as_str a = CryptoSuiteId_as_str b \<longleftrightarrow> a = b"
  "NoiseTransportContext_as_str c = NoiseTransportContext_as_str d \<longleftrightarrow> c = d"
  by (cases a; cases b; simp) (cases c; cases d; simp)

lemma as_str_length [simp]:
  "length (CryptoSuiteId_as_str a) \<le> 65535" "length (NoiseTransportContext_as_str c) \<le> 65535"
  by (cases a; simp) (cases c; simp)

lemma prologue_field_inject:
  assumes "length v \<le> 65535" "length v' \<le> 65535"
  shows "prologue_field n v @ x = prologue_field n v' @ y \<longleftrightarrow> v = v' \<and> x = y"
  using assms by (auto simp: prologue_field_def of_nat_u16_inject)

lemma encode_prologue_field_Ok_iff:
  "encode_prologue_field out n v = Ok b \<longleftrightarrow>
     length n \<le> 65535 \<and> length v \<le> 65535 \<and> b = out @ prologue_field n v"
  by (auto simp: encode_prologue_field_def prologue_field_def)

lemma canonical_prologue_Ok_iff:
  "canonical_prologue c = Ok b \<longleftrightarrow> fields_fit c \<and>
     b = ascii ''MaverickNoisePrologue'' @ prologue_field ''encoding'' (ascii ''length-prefixed-fields-v1'')
         @ prologue_fields c"
  by (auto simp: canonical_prologue_def and_then_Ok_iff encode_prologue_field_Ok_iff fields_fit_def
      prologue_fields_def)

subsection \<open>Properties of the crypto policy\<close>

text \<open>
  The only policy the validation accepts offers exactly TLS 1.3, does not require an
  experimental suite, and does not even allow one in stable mode; validation never panics, so
  every suite has its registry entry.
\<close>

theorem crypto_policy_accepts_only_tls13:
  "(CryptoPolicyConfig_validate p mode = Ok () \<longleftrightarrow>
      cc_offered_suites p = [Tls13] \<and> \<not> cc_require_experimental p
      \<and> \<not> (mode = Stable \<and> cc_allow_experimental p))
   \<and> CryptoPolicyConfig_validate p mode \<noteq> Panic"
  by (simp add: CryptoPolicyConfig_validate_Ok_iff CryptoPolicyConfig_validate_not_Panic)

text \<open>
  The Noise prologue determines its context: whenever two contexts have a prologue and the
  prologues are equal, the contexts are equal in every field, so the two peers of a handshake
  agree on suite, protocol version, roles, transport and purpose.
\<close>

theorem canonical_prologue_injective:
  assumes "canonical_prologue c = Ok b" "canonical_prologue c' = Ok b"
  shows "c = c'"
proof -
  from assms have "prologue_fields c = prologue_fields c'" "fields_fit c" "fields_fit c'"
    by (auto simp: canonical_prologue_Ok_iff)
  then show ?thesis
    by (intro NoisePrologueContext.equality)
       (auto simp: prologue_fields_def fields_fit_def prologue_field_inject
          prologue_field_inject [where x = "[]" and y = "[]", simplified] dec_inject word_unat_eq_iff)
qed

theorem canonical_prologue_injective_witness:
  "\<exists>b. canonical_prologue (xx25519_chachapoly_v1 CtxH2) = Ok b
     \<and> xx25519_chachapoly_v1 CtxH2 = xx25519_chachapoly_v1 CtxH2"
proof -
  have "fields_fit (xx25519_chachapoly_v1 CtxH2)"
    by (simp add: fields_fit_def xx25519_chachapoly_v1_def dec.simps)
  then obtain b where "canonical_prologue (xx25519_chachapoly_v1 CtxH2) = Ok b"
    by (simp add: canonical_prologue_Ok_iff)
  then show ?thesis using canonical_prologue_injective by blast
qed

end
