(* ===== verification/Egress_Policy.thy ===== *)
theory Egress_Policy
  imports Mav_Net
begin

text \<open>
  The egress policy of the server, \<open>ServerEgressPolicyConfig\<close> of \<open>maverick-core/src/config.rs\<close>:
  which addresses a tunnel may be connected to. IPv6 addresses that carry an IPv4 address are
  judged by that address.
\<close>

unbundle bit_operations_syntax

record ServerEgressPolicyConfig =
  allow_loopback :: bool
  allow_private :: bool
  allow_link_local :: bool
  allow_multicast :: bool
  allow_unspecified :: bool

definition ServerEgressPolicyConfig_default :: ServerEgressPolicyConfig where
  "ServerEgressPolicyConfig_default =
     \<lparr>allow_loopback = False, allow_private = False, allow_link_local = False,
      allow_multicast = False, allow_unspecified = False\<rparr>"

definition embedded_ipv4_for_egress :: "Ipv6Addr \<Rightarrow> Ipv4Addr option" where
  "embedded_ipv4_for_egress ip =
     (let octets = ipv6_octets ip in
      if take 10 octets = replicate 10 0 \<and> octets ! 10 = 0xff \<and> octets ! 11 = 0xff
      then Some (ipv4_from [octets ! 12, octets ! 13, octets ! 14, octets ! 15])
      else let embedded = [octets ! 12, octets ! 13, octets ! 14, octets ! 15] in
      if take 12 octets = replicate 12 0 \<and> embedded \<noteq> [0, 0, 0, 0] \<and> embedded \<noteq> [0, 0, 0, 1]
      then Some (ipv4_from embedded)
      else if take 12 octets = [0x00, 0x64, 0xff, 0x9b, 0, 0, 0, 0, 0, 0, 0, 0]
      then Some (ipv4_from [octets ! 12, octets ! 13, octets ! 14, octets ! 15])
      else if octets ! 0 = 0x20 \<and> octets ! 1 = 0x02
      then Some (ipv4_from [octets ! 2, octets ! 3, octets ! 4, octets ! 5])
      else if take 4 octets = [0x20, 0x01, 0x00, 0x00]
      then Some (ipv4_from [NOT (octets ! 12), NOT (octets ! 13), NOT (octets ! 14), NOT (octets ! 15)])
      else None)"

definition canonicalize_egress_ip :: "IpAddr \<Rightarrow> IpAddr" where
  "canonicalize_egress_ip ip =
     (case ip of
        V4 _ \<Rightarrow> ip
      | V6 a \<Rightarrow> (case embedded_ipv4_for_egress a of Some b \<Rightarrow> V4 b | None \<Rightarrow> V6 a))"

definition is_shared_ipv4 :: "Ipv4Addr \<Rightarrow> bool" where
  "is_shared_ipv4 ip = (ipv4_octets ip ! 0 = 100 \<and> (ipv4_octets ip ! 1) AND 0b11000000 = 64)"

definition is_local_use_nat64_ip :: "Ipv6Addr \<Rightarrow> bool" where
  "is_local_use_nat64_ip ip =
     (let segments = ipv6_segments ip in
      segments ! 0 = 0x0064 \<and> segments ! 1 = 0xff9b \<and> segments ! 2 = 0x0001)"

definition is_link_local_ip :: "IpAddr \<Rightarrow> bool" where
  "is_link_local_ip ip =
     (case ip of
        V4 a \<Rightarrow> ipv4_is_link_local a
      | V6 a \<Rightarrow> (ipv6_segments a ! 0) AND 0xffc0 = 0xfe80)"

definition is_private_ip :: "IpAddr \<Rightarrow> bool" where
  "is_private_ip ip =
     (case ip of
        V4 a \<Rightarrow> ipv4_is_private a \<or> is_shared_ipv4 a
      | V6 a \<Rightarrow> (ipv6_segments a ! 0) AND 0xfe00 = 0xfc00 \<or> is_local_use_nat64_ip a)"

definition is_reserved_or_special_ipv4 :: "Ipv4Addr \<Rightarrow> bool" where
  "is_reserved_or_special_ipv4 ip =
     (let first = ipv4_octets ip ! 0; second = ipv4_octets ip ! 1; third = ipv4_octets ip ! 2 in
      first = 0
      \<or> first \<ge> 240
      \<or> ip = ipv4_from [255, 255, 255, 255]
      \<or> (first = 192 \<and> second = 0 \<and> third = 0)
      \<or> (first = 192 \<and> second = 0 \<and> third = 2)
      \<or> (first = 198 \<and> (second = 18 \<or> second = 19))
      \<or> (first = 198 \<and> second = 51 \<and> third = 100)
      \<or> (first = 203 \<and> second = 0 \<and> third = 113)
      \<or> (first = 192 \<and> second = 88 \<and> third = 99))"

definition is_reserved_or_special_ip :: "IpAddr \<Rightarrow> bool" where
  "is_reserved_or_special_ip ip =
     (case ip of
        V4 a \<Rightarrow> is_reserved_or_special_ipv4 a
      | V6 a \<Rightarrow> ipv6_segments a ! 0 = 0x2001 \<and> ipv6_segments a ! 1 = 0x0db8)"

definition allows_ip :: "ServerEgressPolicyConfig \<Rightarrow> IpAddr \<Rightarrow> bool" where
  "allows_ip p addr =
     (let ip = canonicalize_egress_ip addr in
      if ip_is_loopback ip then allow_loopback p
      else if ip_is_unspecified ip then allow_unspecified p
      else if ip_is_multicast ip then allow_multicast p
      else if is_link_local_ip ip then allow_link_local p
      else if is_private_ip ip then allow_private p
      else if is_reserved_or_special_ip ip then False
      else True)"

subsection \<open>The policy as a prefix table\<close>

text \<open>
  A table is a list of prefixes with a verdict; the first prefix that matches decides, and an
  address that no prefix matches is allowed.
\<close>

definition in_prefix :: "nat \<Rightarrow> nat \<Rightarrow> nat \<times> nat \<Rightarrow> bool" where
  "in_prefix width a p = (case p of (base, len) \<Rightarrow> a div 2 ^ (width - len) = base div 2 ^ (width - len))"

fun first_match :: "nat \<Rightarrow> ((nat \<times> nat) \<times> bool) list \<Rightarrow> nat \<Rightarrow> bool" where
  "first_match width [] a = True"
| "first_match width ((p, verdict) # rows) a =
     (if in_prefix width a p then verdict else first_match width rows a)"

definition ip4 :: "nat \<Rightarrow> nat \<Rightarrow> nat \<Rightarrow> nat \<Rightarrow> nat" where
  "ip4 a b c d = ((a * 256 + b) * 256 + c) * 256 + d"

definition egress_table4 :: "ServerEgressPolicyConfig \<Rightarrow> ((nat \<times> nat) \<times> bool) list" where
  "egress_table4 p =
     [((ip4 127 0 0 0, 8), allow_loopback p), ((ip4 0 0 0 0, 32), allow_unspecified p),
      ((ip4 224 0 0 0, 4), allow_multicast p), ((ip4 169 254 0 0, 16), allow_link_local p),
      ((ip4 10 0 0 0, 8), allow_private p), ((ip4 172 16 0 0, 12), allow_private p),
      ((ip4 192 168 0 0, 16), allow_private p), ((ip4 100 64 0 0, 10), allow_private p),
      ((ip4 0 0 0 0, 8), False), ((ip4 240 0 0 0, 4), False), ((ip4 192 0 0 0, 24), False),
      ((ip4 192 0 2 0, 24), False), ((ip4 198 18 0 0, 15), False), ((ip4 198 51 100 0, 24), False),
      ((ip4 203 0 113 0, 24), False), ((ip4 192 88 99 0, 24), False)]"

definition ip6_prefix :: "nat \<Rightarrow> nat \<Rightarrow> nat \<Rightarrow> nat" where
  "ip6_prefix a b c = ((a * 2 ^ 16 + b) * 2 ^ 16 + c) * 2 ^ 80"

definition egress_table6 :: "ServerEgressPolicyConfig \<Rightarrow> ((nat \<times> nat) \<times> bool) list" where
  "egress_table6 p =
     [((1, 128), allow_loopback p), ((0, 128), allow_unspecified p),
      ((ip6_prefix 0xff00 0 0, 8), allow_multicast p), ((ip6_prefix 0xfe80 0 0, 10), allow_link_local p),
      ((ip6_prefix 0xfc00 0 0, 7), allow_private p), ((ip6_prefix 0x64 0xff9b 1, 48), allow_private p),
      ((ip6_prefix 0x2001 0xdb8 0, 32), False)]"

lemma and_not_mask_eq_iff:
  fixes x y :: "'a::len word"
  shows "x AND NOT (mask n) = y AND NOT (mask n) \<longleftrightarrow> unat x div 2 ^ n = unat y div 2 ^ n"
proof -
  have d: "drop_bit n (z AND NOT (mask n)) = drop_bit n z" for z :: "'a word"
    by (rule bit_word_eqI) (auto simp: bit_simps dest: bit_imp_le_length)
  have p: "z AND NOT (mask n) = push_bit n (drop_bit n z)" for z :: "'a word"
    by (rule bit_word_eqI) (auto simp: bit_simps dest: bit_imp_le_length)
  have "x AND NOT (mask n) = y AND NOT (mask n) \<longleftrightarrow> drop_bit n x = drop_bit n y"
    using d [of x] d [of y] p [of x] p [of y] by metis
  also have "\<dots> \<longleftrightarrow> unat (drop_bit n x) = unat (drop_bit n y)" by (rule word_unat_eq_iff)
  finally show ?thesis unfolding unat_drop_bit_eq by (simp only: drop_bit_eq_div)
qed

lemma ip4_div:
  assumes "b < 256" "c < 256" "d < 256"
  shows "ip4 a b c d div 2 ^ 28 = a div 16" "ip4 a b c d div 2 ^ 24 = a"
    "ip4 a b c d div 2 ^ 22 = a * 4 + b div 64" "ip4 a b c d div 2 ^ 20 = a * 16 + b div 16"
    "ip4 a b c d div 2 ^ 17 = a * 128 + b div 2" "ip4 a b c d div 2 ^ 16 = a * 256 + b"
    "ip4 a b c d div 2 ^ 8 = (a * 256 + b) * 256 + c"
  using assms unfolding ip4_def by simp_all

lemma list_of_4: "length xs = 4 \<Longrightarrow> \<exists>a b c d. xs = [a, b, c, d]"
  by (auto simp: length_Suc_conv eval_nat_numeral)

lemma ipv4_octets_cases:
  obtains o0 o1 o2 o3 where "ipv4_octets a = [o0, o1, o2, o3]"
    "unat a = ip4 (unat o0) (unat o1) (unat o2) (unat o3)"
proof -
  obtain o0 o1 o2 o3 where o: "ipv4_octets a = [o0, o1, o2, o3]"
    using list_of_4 [OF length_octets(1)] by blast
  have "unat a = be_nat (ipv4_octets a)" using unat_less_pow [of a] by (simp add: ipv4_octets_def)
  also have "\<dots> = ip4 (unat o0) (unat o1) (unat o2) (unat o3)" by (simp add: o be_nat_def ip4_def)
  finally show ?thesis using that o by blast
qed

lemma u8_eq_numeral: "(w :: u8) = numeral k \<longleftrightarrow> unat w = unat (numeral k :: u8)"
  by (rule word_unat_eq_iff)

lemma is_shared_iff: "unat ((w :: u8) AND 0b11000000) = 64 \<longleftrightarrow> unat w div 64 = 1"
proof -
  have m: "(0b11000000 :: u8) = NOT (mask 6)" "(64 :: u8) = 64 AND NOT (mask 6)" by code_simp+
  have "w AND 0b11000000 = 64 \<longleftrightarrow> w AND NOT (mask 6) = 64 AND NOT (mask 6)" using m by metis
  then show ?thesis unfolding and_not_mask_eq_iff u8_eq_numeral by simp
qed

lemma digits_eq:
  fixes m n :: nat
  assumes "n < k" "j < k"
  shows "m * k + n = i * k + j \<longleftrightarrow> m = i \<and> n = j"
proof
  assume "m * k + n = i * k + j"
  then have "(m * k + n) div k = (i * k + j) div k" "(m * k + n) mod k = (i * k + j) mod k" by simp_all
  with assms show "m = i \<and> n = j" by simp
qed simp

lemma ipv4_classes:
  assumes "ipv4_octets a = [o0, o1, o2, o3]"
  defines "n0 \<equiv> unat o0" and "n1 \<equiv> unat o1" and "n2 \<equiv> unat o2"
  shows "ip_is_loopback (V4 a) \<longleftrightarrow> n0 = 127"
    "ip_is_unspecified (V4 a) \<longleftrightarrow> unat a = 0"
    "ip_is_multicast (V4 a) \<longleftrightarrow> n0 div 16 = 14"
    "is_link_local_ip (V4 a) \<longleftrightarrow> n0 = 169 \<and> n1 = 254"
    "is_private_ip (V4 a) \<longleftrightarrow> n0 = 10 \<or> (n0 = 172 \<and> n1 div 16 = 1) \<or> (n0 = 192 \<and> n1 = 168)
       \<or> (n0 = 100 \<and> n1 div 64 = 1)"
    "is_reserved_or_special_ip (V4 a) \<longleftrightarrow> n0 = 0 \<or> n0 div 16 = 15 \<or> (n0 = 192 \<and> n1 = 0 \<and> n2 = 0)
       \<or> (n0 = 192 \<and> n1 = 0 \<and> n2 = 2) \<or> (n0 = 198 \<and> n1 div 2 = 9)
       \<or> (n0 = 198 \<and> n1 = 51 \<and> n2 = 100) \<or> (n0 = 203 \<and> n1 = 0 \<and> n2 = 113)
       \<or> (n0 = 192 \<and> n1 = 88 \<and> n2 = 99)"
proof -
  have b: "n0 < 256" "n1 < 256" by (simp_all add: unat_u8_less n0_def n1_def)
  have all: "a = ipv4_from [255, 255, 255, 255] \<Longrightarrow> n0 div 16 = 15"
    using assms(1) by (auto simp: n0_def)
  have d: "16 \<le> n1 \<and> n1 \<le> 31 \<longleftrightarrow> n1 div 16 = 1" "n1 = 18 \<or> n1 = 19 \<longleftrightarrow> n1 div 2 = 9"
    "240 \<le> n0 \<longleftrightarrow> n0 div 16 = 15" "224 \<le> n0 \<and> n0 \<le> 239 \<longleftrightarrow> n0 div 16 = 14"
    using b by auto
  note simps = assms(1) u8_eq_numeral word_le_nat_alt Let_def unat_eq_zero [symmetric] is_shared_iff
    n0_def [symmetric] n1_def [symmetric] n2_def [symmetric] d
  show "ip_is_loopback (V4 a) \<longleftrightarrow> n0 = 127" "ip_is_unspecified (V4 a) \<longleftrightarrow> unat a = 0"
    "ip_is_multicast (V4 a) \<longleftrightarrow> n0 div 16 = 14"
    by (simp_all add: ipv4_is_loopback_def ipv4_is_unspecified_def ipv4_is_multicast_def simps)
  show "is_link_local_ip (V4 a) \<longleftrightarrow> n0 = 169 \<and> n1 = 254"
    by (simp add: is_link_local_ip_def ipv4_is_link_local_def simps)
  show "is_private_ip (V4 a) \<longleftrightarrow> n0 = 10 \<or> (n0 = 172 \<and> n1 div 16 = 1) \<or> (n0 = 192 \<and> n1 = 168)
       \<or> (n0 = 100 \<and> n1 div 64 = 1)"
    by (simp add: is_private_ip_def ipv4_is_private_def is_shared_ipv4_def simps disj_assoc)
  show "is_reserved_or_special_ip (V4 a) \<longleftrightarrow> n0 = 0 \<or> n0 div 16 = 15 \<or> (n0 = 192 \<and> n1 = 0 \<and> n2 = 0)
       \<or> (n0 = 192 \<and> n1 = 0 \<and> n2 = 2) \<or> (n0 = 198 \<and> n1 div 2 = 9)
       \<or> (n0 = 198 \<and> n1 = 51 \<and> n2 = 100) \<or> (n0 = 203 \<and> n1 = 0 \<and> n2 = 113)
       \<or> (n0 = 192 \<and> n1 = 88 \<and> n2 = 99)"
    using all by (simp add: is_reserved_or_special_ip_def is_reserved_or_special_ipv4_def simps) blast
qed

lemma in_prefix_ip4:
  assumes "n1 < 256" "n2 < 256" "n3 < 256"
  shows "j < 256 \<Longrightarrow> k < 256 \<Longrightarrow>
      in_prefix 32 (ip4 n0 n1 n2 n3) (ip4 i j k 0, 24) \<longleftrightarrow> n0 = i \<and> n1 = j \<and> n2 = k"
    "j < 256 \<Longrightarrow> in_prefix 32 (ip4 n0 n1 n2 n3) (ip4 i j 0 0, 16) \<longleftrightarrow> n0 = i \<and> n1 = j"
    "j < 256 \<Longrightarrow> in_prefix 32 (ip4 n0 n1 n2 n3) (ip4 i j 0 0, 15) \<longleftrightarrow> n0 = i \<and> n1 div 2 = j div 2"
    "j < 256 \<Longrightarrow> in_prefix 32 (ip4 n0 n1 n2 n3) (ip4 i j 0 0, 12) \<longleftrightarrow> n0 = i \<and> n1 div 16 = j div 16"
    "j < 256 \<Longrightarrow> in_prefix 32 (ip4 n0 n1 n2 n3) (ip4 i j 0 0, 10) \<longleftrightarrow> n0 = i \<and> n1 div 64 = j div 64"
    "in_prefix 32 (ip4 n0 n1 n2 n3) (ip4 i 0 0 0, 8) \<longleftrightarrow> n0 = i"
    "in_prefix 32 (ip4 n0 n1 n2 n3) (ip4 i 0 0 0, 4) \<longleftrightarrow> n0 div 16 = i div 16"
    "in_prefix 32 (ip4 n0 n1 n2 n3) (ip4 0 0 0 0, 32) \<longleftrightarrow> ip4 n0 n1 n2 n3 = 0"
proof -
  have z: "(0::nat) < 256" by simp
  have s: "(32::nat) - 24 = 8" "(32::nat) - 16 = 16" "(32::nat) - 15 = 17" "(32::nat) - 12 = 20"
    "(32::nat) - 10 = 22" "(32::nat) - 8 = 24" "(32::nat) - 4 = 28" "(32::nat) - 32 = 0" by simp_all
  note p = in_prefix_def split_conv s ip4_div [OF assms] ip4_div [OF z z z]
  {
    assume j: "j < 256"
    have c: "n1 div 2 < 128" "j div 2 < 128" "n1 div 16 < 16" "j div 16 < 16" "n1 div 64 < 4" "j div 64 < 4"
      using assms(1) j by (simp_all add: less_mult_imp_div_less)
    show "in_prefix 32 (ip4 n0 n1 n2 n3) (ip4 i j 0 0, 16) \<longleftrightarrow> n0 = i \<and> n1 = j"
      unfolding p ip4_div [OF j z z] digits_eq [OF assms(1) j] by (rule refl)
    show "in_prefix 32 (ip4 n0 n1 n2 n3) (ip4 i j 0 0, 15) \<longleftrightarrow> n0 = i \<and> n1 div 2 = j div 2"
      unfolding p ip4_div [OF j z z] digits_eq [OF c(1,2)] by (rule refl)
    show "in_prefix 32 (ip4 n0 n1 n2 n3) (ip4 i j 0 0, 12) \<longleftrightarrow> n0 = i \<and> n1 div 16 = j div 16"
      unfolding p ip4_div [OF j z z] digits_eq [OF c(3,4)] by (rule refl)
    show "in_prefix 32 (ip4 n0 n1 n2 n3) (ip4 i j 0 0, 10) \<longleftrightarrow> n0 = i \<and> n1 div 64 = j div 64"
      unfolding p ip4_div [OF j z z] digits_eq [OF c(5,6)] by (rule refl)
    assume k: "k < 256"
    show "in_prefix 32 (ip4 n0 n1 n2 n3) (ip4 i j k 0, 24) \<longleftrightarrow> n0 = i \<and> n1 = j \<and> n2 = k"
      unfolding p ip4_div [OF j k z] digits_eq [OF assms(2) k] digits_eq [OF assms(1) j] by (rule conj_assoc)
  }
  show "in_prefix 32 (ip4 n0 n1 n2 n3) (ip4 i 0 0 0, 8) \<longleftrightarrow> n0 = i"
    "in_prefix 32 (ip4 n0 n1 n2 n3) (ip4 i 0 0 0, 4) \<longleftrightarrow> n0 div 16 = i div 16"
    unfolding p by (rule refl)+
  show "in_prefix 32 (ip4 n0 n1 n2 n3) (ip4 0 0 0 0, 32) \<longleftrightarrow> ip4 n0 n1 n2 n3 = 0"
    by (simp add: in_prefix_def ip4_def)
qed

lemma allows_ipv4_table:
  "allows_ip p (V4 a) = first_match 32 (egress_table4 p) (unat a)"
proof -
  obtain o0 o1 o2 o3 where o: "ipv4_octets a = [o0, o1, o2, o3]"
    and u: "unat a = ip4 (unat o0) (unat o1) (unat o2) (unat o3)" by (rule ipv4_octets_cases)
  define n0 n1 n2 n3 where n: "n0 = unat o0" "n1 = unat o1" "n2 = unat o2" "n3 = unat o3"
  have b: "n1 < 256" "n2 < 256" "n3 < 256" by (simp_all add: unat_u8_less n)
  have rows: "in_prefix 32 (ip4 n0 n1 n2 n3) (ip4 172 16 0 0, 12) \<longleftrightarrow> n0 = 172 \<and> n1 div 16 = 1"
    "in_prefix 32 (ip4 n0 n1 n2 n3) (ip4 100 64 0 0, 10) \<longleftrightarrow> n0 = 100 \<and> n1 div 64 = 1"
    "in_prefix 32 (ip4 n0 n1 n2 n3) (ip4 198 18 0 0, 15) \<longleftrightarrow> n0 = 198 \<and> n1 div 2 = 9"
    "in_prefix 32 (ip4 n0 n1 n2 n3) (ip4 224 0 0 0, 4) \<longleftrightarrow> n0 div 16 = 14"
    "in_prefix 32 (ip4 n0 n1 n2 n3) (ip4 240 0 0 0, 4) \<longleftrightarrow> n0 div 16 = 15"
    by (simp_all add: in_prefix_ip4 [OF b])
  have c: "(0::nat) < 256" "(254::nat) < 256" "(168::nat) < 256" "(2::nat) < 256" "(51::nat) < 256"
    "(100::nat) < 256" "(113::nat) < 256" "(88::nat) < 256" "(99::nat) < 256" by simp_all
  have q: "(224::nat) div 16 = 14" "(240::nat) div 16 = 15" by simp_all
  have if_disj: "(if P \<or> Q then x else y) = (if P then x else if Q then x else y)" for P Q x y :: bool
    by simp
  show ?thesis
    unfolding egress_table4_def allows_ip_def canonicalize_egress_ip_def Let_def IpAddr.case
      ipv4_classes [OF o] u n [symmetric] first_match.simps
    by (simp only: rows in_prefix_ip4 [OF b] c q if_disj)
qed

lemma be_append: "be (m + n) v = be m (v div 256 ^ n) @ be n v"
  by (induction n arbitrary: v) (simp_all add: div_mult2_eq)

lemma be_slice: "m + k + n = w \<Longrightarrow> take k (drop m (be w v)) = be k (v div 256 ^ n)"
  using be_append [of m "k + n" v] be_append [of k n v] by (auto simp: add.assoc)

lemma unat_segment:
  assumes "i < 8"
  shows "unat (ipv6_segment a i) = unat a div 2 ^ (112 - 16 * i) mod 2 ^ 16"
proof -
  have "take 2 (drop (2 * i) (be 16 (unat a))) = be 2 (unat a div 256 ^ (14 - 2 * i))"
    using assms by (intro be_slice) simp
  moreover have "(256::nat) ^ (14 - 2 * i) = 2 ^ (112 - 16 * i)"
    using power_mult [of "2::nat" 8 "14 - 2 * i"] by (simp add: diff_mult_distrib2)
  ultimately show ?thesis
    by (simp add: ipv6_segment_def ipv6_octets_def u16_from_be_def unat_of_nat)
qed

lemma ipv6_prefix_words:
  fixes a :: Ipv6Addr
  shows "unat (ipv6_segments a ! 0) = unat a div 2 ^ 112"
    "unat (ipv6_octets a ! 0) = unat a div 2 ^ 120"
    "ipv6_segments a ! 0 = x \<and> ipv6_segments a ! 1 = y \<longleftrightarrow>
       unat a div 2 ^ 96 = unat x * 2 ^ 16 + unat y"
    "ipv6_segments a ! 0 = x \<and> ipv6_segments a ! 1 = y \<and> ipv6_segments a ! 2 = z \<longleftrightarrow>
       unat a div 2 ^ 80 = (unat x * 2 ^ 16 + unat y) * 2 ^ 16 + unat z"
proof -
  let ?v = "unat a"
  have v: "?v < 2 ^ 128" using unat_less_pow [of a] by simp
  have m: "(n::nat) mod 2 ^ 16 < 2 ^ 16" for n by simp
  have w: "unat (x :: u16) < 2 ^ 16" for x using unat_bounds(1) [of x] by simp
  have "?v div 2 ^ 112 < 2 ^ 16" using v by (intro less_mult_imp_div_less) simp
  then show s0: "unat (ipv6_segments a ! 0) = ?v div 2 ^ 112"
    by (simp add: ipv6_segments_def unat_segment)
  have "take 1 (drop 0 (be 16 ?v)) = be 1 (?v div 256 ^ 15)" by (intro be_slice) simp
  then have "ipv6_octets a ! 0 = of_nat (?v div 256 ^ 15 mod 256)"
    by (cases "be 16 ?v") (auto simp: ipv6_octets_def)
  moreover have "?v div 256 ^ 15 < 256" using v by (intro less_mult_imp_div_less) simp
  ultimately show "unat (ipv6_octets a ! 0) = ?v div 2 ^ 120" by (simp add: unat_of_nat)
  have s1: "unat (ipv6_segments a ! 1) = ?v div 2 ^ 96 mod 2 ^ 16"
    and s2: "unat (ipv6_segments a ! 2) = ?v div 2 ^ 80 mod 2 ^ 16"
    by (simp_all add: ipv6_segments_def unat_segment)
  have e1: "?v div 2 ^ 96 = ?v div 2 ^ 112 * 2 ^ 16 + ?v div 2 ^ 96 mod 2 ^ 16"
    using div_mult_mod_eq [of "?v div 2 ^ 96" "2 ^ 16"] by (simp flip: div_mult2_eq power_add)
  have e2: "?v div 2 ^ 80 = ?v div 2 ^ 96 * 2 ^ 16 + ?v div 2 ^ 80 mod 2 ^ 16"
    using div_mult_mod_eq [of "?v div 2 ^ 80" "2 ^ 16"] by (simp flip: div_mult2_eq power_add)
  show two: "ipv6_segments a ! 0 = x \<and> ipv6_segments a ! 1 = y \<longleftrightarrow>
      ?v div 2 ^ 96 = unat x * 2 ^ 16 + unat y" for x y
    unfolding word_unat_eq_iff s0 s1 by (subst (2) e1) (rule digits_eq [OF m w, symmetric])
  show "ipv6_segments a ! 0 = x \<and> ipv6_segments a ! 1 = y \<and> ipv6_segments a ! 2 = z \<longleftrightarrow>
      ?v div 2 ^ 80 = (unat x * 2 ^ 16 + unat y) * 2 ^ 16 + unat z"
    unfolding conj_assoc [symmetric] two word_unat_eq_iff [of _ z] s2
    by (subst (2) e2) (rule digits_eq [OF m w, symmetric])
qed

lemma and_mask_u16:
  "(w :: u16) AND 0xffc0 = 0xfe80 \<longleftrightarrow> unat w div 64 = 1018"
  "(w :: u16) AND 0xfe00 = 0xfc00 \<longleftrightarrow> unat w div 512 = 126"
proof -
  have m: "(0xffc0 :: u16) = NOT (mask 6)" "(0xfe80 :: u16) = 0xfe80 AND NOT (mask 6)"
    "(0xfe00 :: u16) = NOT (mask 9)" "(0xfc00 :: u16) = 0xfc00 AND NOT (mask 9)" by code_simp+
  have "w AND 0xffc0 = 0xfe80 \<longleftrightarrow> w AND NOT (mask 6) = 0xfe80 AND NOT (mask 6)" using m by metis
  then show "w AND 0xffc0 = 0xfe80 \<longleftrightarrow> unat w div 64 = 1018" unfolding and_not_mask_eq_iff by simp
  have "w AND 0xfe00 = 0xfc00 \<longleftrightarrow> w AND NOT (mask 9) = 0xfc00 AND NOT (mask 9)" using m by metis
  then show "w AND 0xfe00 = 0xfc00 \<longleftrightarrow> unat w div 512 = 126" unfolding and_not_mask_eq_iff by simp
qed

lemma ipv6_classes:
  fixes a :: Ipv6Addr
  shows "ip_is_loopback (V6 a) \<longleftrightarrow> unat a = 1" "ip_is_unspecified (V6 a) \<longleftrightarrow> unat a = 0"
    "ip_is_multicast (V6 a) \<longleftrightarrow> unat a div 2 ^ 120 = 255"
    "is_link_local_ip (V6 a) \<longleftrightarrow> unat a div 2 ^ 118 = 1018"
    "is_private_ip (V6 a) \<longleftrightarrow> unat a div 2 ^ 121 = 126
       \<or> unat a div 2 ^ 80 = (0x64 * 2 ^ 16 + 0xff9b) * 2 ^ 16 + 1"
    "is_reserved_or_special_ip (V6 a) \<longleftrightarrow> unat a div 2 ^ 96 = 0x2001 * 2 ^ 16 + 0xdb8"
proof -
  have d: "unat a div 2 ^ 112 div 64 = unat a div 2 ^ 118" "unat a div 2 ^ 112 div 512 = unat a div 2 ^ 121"
    by (simp_all flip: div_mult2_eq)
  show "ip_is_loopback (V6 a) \<longleftrightarrow> unat a = 1" "ip_is_unspecified (V6 a) \<longleftrightarrow> unat a = 0"
    by (simp_all add: word_unat_eq_iff)
  show "ip_is_multicast (V6 a) \<longleftrightarrow> unat a div 2 ^ 120 = 255"
    unfolding ip_is_multicast.simps u8_eq_numeral ipv6_prefix_words by simp
  show "is_link_local_ip (V6 a) \<longleftrightarrow> unat a div 2 ^ 118 = 1018"
    unfolding is_link_local_ip_def IpAddr.case and_mask_u16 ipv6_prefix_words d ..
  show "is_private_ip (V6 a) \<longleftrightarrow> unat a div 2 ^ 121 = 126
       \<or> unat a div 2 ^ 80 = (0x64 * 2 ^ 16 + 0xff9b) * 2 ^ 16 + 1"
    unfolding is_private_ip_def is_local_use_nat64_ip_def Let_def IpAddr.case and_mask_u16
      ipv6_prefix_words d by simp
  show "is_reserved_or_special_ip (V6 a) \<longleftrightarrow> unat a div 2 ^ 96 = 0x2001 * 2 ^ 16 + 0xdb8"
    unfolding is_reserved_or_special_ip_def IpAddr.case ipv6_prefix_words by simp
qed

lemma in_prefix_ip6:
  "in_prefix 128 v (1, 128) \<longleftrightarrow> v = 1" "in_prefix 128 v (0, 128) \<longleftrightarrow> v = 0"
  "in_prefix 128 v (ip6_prefix 0xff00 0 0, 8) \<longleftrightarrow> v div 2 ^ 120 = 255"
  "in_prefix 128 v (ip6_prefix 0xfe80 0 0, 10) \<longleftrightarrow> v div 2 ^ 118 = 1018"
  "in_prefix 128 v (ip6_prefix 0xfc00 0 0, 7) \<longleftrightarrow> v div 2 ^ 121 = 126"
  "in_prefix 128 v (ip6_prefix 0x64 0xff9b 1, 48) \<longleftrightarrow> v div 2 ^ 80 = (0x64 * 2 ^ 16 + 0xff9b) * 2 ^ 16 + 1"
  "in_prefix 128 v (ip6_prefix 0x2001 0xdb8 0, 32) \<longleftrightarrow> v div 2 ^ 96 = 0x2001 * 2 ^ 16 + 0xdb8"
  by (simp_all add: in_prefix_def ip6_prefix_def)

lemma allows_ipv6_table:
  "allows_ip p (V6 a) = (case embedded_ipv4_for_egress a of
      Some b \<Rightarrow> first_match 32 (egress_table4 p) (unat b)
    | None \<Rightarrow> first_match 128 (egress_table6 p) (unat a))"
proof (cases "embedded_ipv4_for_egress a")
  case None
  have if_disj: "(if P \<or> Q then x else y) = (if P then x else if Q then x else y)" for P Q x y :: bool
    by simp
  have "allows_ip p (V6 a) = first_match 128 (egress_table6 p) (unat a)"
    unfolding allows_ip_def canonicalize_egress_ip_def None Let_def IpAddr.case option.case
      ipv6_classes egress_table6_def first_match.simps
    by (simp only: in_prefix_ip6 if_disj)
  with None show ?thesis by (simp only: option.case)
next
  case (Some b)
  have "allows_ip p (V6 a) = allows_ip p (V4 b)"
    by (simp add: allows_ip_def canonicalize_egress_ip_def Some)
  with Some show ?thesis by (simp only: allows_ipv4_table option.case)
qed

subsection \<open>Embedded addresses\<close>

definition mapped_ip :: "Ipv4Addr \<Rightarrow> Ipv6Addr" where
  "mapped_ip a = ipv6_from (replicate 10 0 @ [0xff, 0xff] @ ipv4_octets a)"

definition compatible_ip :: "Ipv4Addr \<Rightarrow> Ipv6Addr" where
  "compatible_ip a = ipv6_from (replicate 12 0 @ ipv4_octets a)"

definition nat64_ip :: "Ipv4Addr \<Rightarrow> Ipv6Addr" where
  "nat64_ip a = ipv6_from ([0x00, 0x64, 0xff, 0x9b] @ replicate 8 0 @ ipv4_octets a)"

definition six_to_four_ip :: "bytes \<Rightarrow> Ipv4Addr \<Rightarrow> Ipv6Addr" where
  "six_to_four_ip site a = ipv6_from ([0x20, 0x02] @ ipv4_octets a @ site)"

definition teredo_ip :: "bytes \<Rightarrow> Ipv4Addr \<Rightarrow> Ipv6Addr" where
  "teredo_ip server a = ipv6_from ([0x20, 0x01, 0, 0] @ server @ map (\<lambda>b. NOT b) (ipv4_octets a))"

definition local_use_nat64_ip :: "bytes \<Rightarrow> Ipv6Addr" where
  "local_use_nat64_ip rest = ipv6_from ([0x00, 0x64, 0xff, 0x9b, 0x00, 0x01] @ rest)"

lemma embedded_simps:
  "embedded_ipv4_for_egress (mapped_ip a) = Some a"
  "a \<noteq> 0 \<Longrightarrow> a \<noteq> 1 \<Longrightarrow> embedded_ipv4_for_egress (compatible_ip a) = Some a"
  "embedded_ipv4_for_egress (nat64_ip a) = Some a"
  "length site = 10 \<Longrightarrow> embedded_ipv4_for_egress (six_to_four_ip site a) = Some a"
  "length server = 8 \<Longrightarrow> embedded_ipv4_for_egress (teredo_ip server a) = Some a"
proof -
  obtain o0 o1 o2 o3 where o: "ipv4_octets a = [o0, o1, o2, o3]" using list_of_4 [OF length_octets(1)] by blast
  then have a: "ipv4_from [o0, o1, o2, o3] = a" using from_octets(1) [of a] by simp
  have z: "a = 0" if "[o0, o1, o2, o3] = [0, 0, 0, 0]"
    using a that by (simp add: ipv4_from_def be_nat_def)
  have e: "a = 1" if "[o0, o1, o2, o3] = [0, 0, 0, 1]"
    using a that by (simp add: ipv4_from_def be_nat_def)
  have r: "replicate 10 0 = (0::u8) # replicate 9 0" "replicate 12 0 = (0::u8) # replicate 11 0"
    by (simp_all add: eval_nat_numeral)
  note d = embedded_ipv4_for_egress_def Let_def o a
  show "embedded_ipv4_for_egress (mapped_ip a) = Some a"
    by (simp add: d mapped_ip_def eval_nat_numeral)
  show "embedded_ipv4_for_egress (nat64_ip a) = Some a"
    by (simp add: d nat64_ip_def eval_nat_numeral)
  show "embedded_ipv4_for_egress (compatible_ip a) = Some a" if "a \<noteq> 0" "a \<noteq> 1"
    using z e that by (auto simp add: d compatible_ip_def eval_nat_numeral)
  show "embedded_ipv4_for_egress (six_to_four_ip site a) = Some a" if "length site = 10"
    using that by (simp add: d six_to_four_ip_def r)
  show "embedded_ipv4_for_egress (teredo_ip server a) = Some a" if "length server = 8"
    using that by (simp add: d teredo_ip_def r nth_append)
qed

text \<open>The two lowest addresses, and the local-use translation prefix, are not read as carrying an IPv4 address.\<close>

lemma low_octets: "ipv4_octets 0 = [0, 0, 0, 0]" "ipv4_octets 1 = [0, 0, 0, 1]"
proof -
  have "ipv4_from [0, 0, 0, 0] = 0" "ipv4_from [0, 0, 0, 1] = 1" by (simp_all add: ipv4_from_def be_nat_def)
  then show "ipv4_octets 0 = [0, 0, 0, 0]" "ipv4_octets 1 = [0, 0, 0, 1]"
    using octets_from(1) [of "[0, 0, 0, 0]"] octets_from(1) [of "[0, 0, 0, 1]"] by simp_all
qed

lemma not_embedded:
  "embedded_ipv4_for_egress (compatible_ip 0) = None" "embedded_ipv4_for_egress (compatible_ip 1) = None"
  "length rest = 10 \<Longrightarrow> embedded_ipv4_for_egress (local_use_nat64_ip rest) = None"
proof -
  have r: "replicate 10 (0::u8) = [0,0,0,0,0,0,0,0,0,0]" "replicate 12 (0::u8) = [0,0,0,0,0,0,0,0,0,0,0,0]"
    by (simp_all add: eval_nat_numeral)
  show "embedded_ipv4_for_egress (compatible_ip 0) = None" "embedded_ipv4_for_egress (compatible_ip 1) = None"
    by (simp_all add: embedded_ipv4_for_egress_def Let_def compatible_ip_def low_octets r)
  show "embedded_ipv4_for_egress (local_use_nat64_ip rest) = None" if "length rest = 10"
    using that by (simp add: embedded_ipv4_for_egress_def Let_def local_use_nat64_ip_def r)
qed

lemma compatible_low: "unat (compatible_ip 0) = 0" "unat (compatible_ip 1) = 1"
proof -
  have r: "replicate 12 (0::u8) = [0,0,0,0,0,0,0,0,0,0,0,0]" by (simp_all add: eval_nat_numeral)
  show "unat (compatible_ip 0) = 0" "unat (compatible_ip 1) = 1"
  by (simp_all add: compatible_ip_def ipv6_from_def be_nat_def low_octets r)
qed

lemma allows_compatible_low:
  "allows_ip p (V6 (compatible_ip 0)) = allows_ip p (V4 0)"
  "allows_ip p (V6 (compatible_ip 1)) = allow_loopback p" "\<not> allows_ip p (V4 1)"
proof -
  have "allows_ip p (V6 (compatible_ip 0)) = allow_unspecified p" "allows_ip p (V6 (compatible_ip 1)) = allow_loopback p"
    by (simp_all del: One_nat_def add: allows_ipv6_table not_embedded compatible_low egress_table6_def in_prefix_ip6)
  moreover have "allows_ip p (V4 0) = allow_unspecified p" "\<not> allows_ip p (V4 1)"
    by (simp_all add: allows_ipv4_table egress_table4_def in_prefix_def ip4_def)
  ultimately show "allows_ip p (V6 (compatible_ip 0)) = allows_ip p (V4 0)"
    "allows_ip p (V6 (compatible_ip 1)) = allow_loopback p" "\<not> allows_ip p (V4 1)" by simp_all
qed

lemma allows_local_use_nat64:
  assumes "length rest = 10"
  shows "allows_ip p (V6 (local_use_nat64_ip rest)) = allow_private p"
proof -
  let ?a = "local_use_nat64_ip rest"
  have "is_local_use_nat64_ip ?a"
    using assms by (simp add: is_local_use_nat64_ip_def local_use_nat64_ip_def Let_def ipv6_segments_def ipv6_segment_def
      u16_from_be_def be_nat_def upt_rec)
  then have d: "unat ?a div 2 ^ 80 = (0x64 * 2 ^ 16 + 0xff9b) * 2 ^ 16 + 1"
    unfolding is_local_use_nat64_ip_def Let_def ipv6_prefix_words by simp
  have q: "unat ?a div 2 ^ (80 + k) = ((0x64 * 2 ^ 16 + 0xff9b) * 2 ^ 16 + 1) div 2 ^ k" for k
    by (simp only: power_add div_mult2_eq d)
  have "unat ?a \<noteq> 0" "unat ?a \<noteq> 1" using d by auto
  then show ?thesis
    using q [of 40] q [of 38] q [of 41] d
    by (simp del: One_nat_def add: allows_ipv6_table not_embedded(3) [OF assms] egress_table6_def in_prefix_ip6)
qed
subsection \<open>Properties of the egress policy\<close>

text \<open>
  C21. The cascade of octet and segment tests of \<open>allows_ip\<close> is the prefix table of the policy:
  an IPv4 address, or the IPv4 address an IPv6 address carries, is looked up in the IPv4 table,
  every other IPv6 address in the IPv6 table, and the first matching prefix decides.
\<close>

theorem egress_policy_is_prefix_table:
  "allows_ip p (V4 a) = first_match 32 (egress_table4 p) (unat a)
   \<and> allows_ip p (V6 b) = (case embedded_ipv4_for_egress b of
        Some c \<Rightarrow> first_match 32 (egress_table4 p) (unat c)
      | None \<Rightarrow> first_match 128 (egress_table6 p) (unat b))"
  by (simp only: allows_ipv4_table allows_ipv6_table simp_thms)

text \<open>
  C9. Writing an IPv4 address as an IPv6 address in one of the five forms the code reads does not change the answer of
  the policy: mapped, under the well-known NAT64 prefix, 6to4 and Teredo, whatever the rest of the address, and
  compatible with one exception, since \<open>::1\<close> is the IPv6 loopback address and follows \<open>allow_loopback\<close>, while \<open>0.0.0.1\<close> is
  always refused. The local-use NAT64 prefix \<open>64:ff9b:1::/48\<close> is not read this way: such an address follows \<open>allow_private\<close>
  alone, whatever IPv4 address it carries.
\<close>

theorem egress_no_embedding_bypass:
  assumes "length site = 10" "length server = 8" "length rest = 10"
  shows "allows_ip p (V6 (mapped_ip a)) = allows_ip p (V4 a)
    \<and> allows_ip p (V6 (nat64_ip a)) = allows_ip p (V4 a)
    \<and> allows_ip p (V6 (six_to_four_ip site a)) = allows_ip p (V4 a)
    \<and> allows_ip p (V6 (teredo_ip server a)) = allows_ip p (V4 a)
    \<and> (a \<noteq> 1 \<longrightarrow> allows_ip p (V6 (compatible_ip a)) = allows_ip p (V4 a))
    \<and> allows_ip p (V6 (compatible_ip 1)) = allow_loopback p \<and> \<not> allows_ip p (V4 1)
    \<and> allows_ip p (V6 (local_use_nat64_ip rest)) = allow_private p"
proof -
  have "allows_ip p (V6 (compatible_ip a)) = allows_ip p (V4 a)" if "a \<noteq> 1"
    using allows_compatible_low(1) embedded_simps(2) [of a] that
    by (cases "a = 0") (simp_all add: allows_ipv6_table allows_ipv4_table)
  then show ?thesis
    using embedded_simps(1,3-5) allows_compatible_low(2,3) allows_local_use_nat64 [OF assms(3)] assms(1,2)
    by (simp add: allows_ipv6_table [of p "mapped_ip a"] allows_ipv6_table [of p "nat64_ip a"] allows_ipv4_table [of p a]
        allows_ipv6_table [of p "six_to_four_ip site a"] allows_ipv6_table [of p "teredo_ip server a"])
qed

theorem egress_no_embedding_bypass_witness:
  "allows_ip ServerEgressPolicyConfig_default (V4 0x7f000001) = False
   \<and> allows_ip ServerEgressPolicyConfig_default (V6 (mapped_ip 0x7f000001)) = False
   \<and> allows_ip ServerEgressPolicyConfig_default (V6 (teredo_ip (replicate 8 3) 0x7f000001)) = False
   \<and> allows_ip ServerEgressPolicyConfig_default (V4 0x08080808) = True
   \<and> allows_ip ServerEgressPolicyConfig_default (V6 (six_to_four_ip (replicate 10 5) 0x08080808)) = True"
proof -
  have v: "allows_ip ServerEgressPolicyConfig_default (V4 0x7f000001) = False"
    "allows_ip ServerEgressPolicyConfig_default (V4 0x08080808) = True"
    by (simp_all add: allows_ipv4_table egress_table4_def in_prefix_def ip4_def
        ServerEgressPolicyConfig_default_def)
  have l: "length (replicate 10 (5::u8)) = 10" "length (replicate 8 (3::u8)) = 8" "length (replicate 10 (7::u8)) = 10" by simp_all
  show ?thesis
    using egress_no_embedding_bypass [OF l, of ServerEgressPolicyConfig_default "0x7f000001"]
      egress_no_embedding_bypass [OF l, of ServerEgressPolicyConfig_default "0x08080808"] v
    by (simp only: simp_thms)
qed

end
