(* ===== verification/Stream_Codec.thy ===== *)
theory Stream_Codec
  imports Mav_Error
begin

text \<open>
  The contract between a message codec and the loops that read a byte stream in chunks.
  A provider gives the encoding \<open>enc\<close>, the incremental decoder \<open>step\<close> (one attempt to take a
  message off the front of a buffer) and the messages \<open>valid\<close> it may carry; it promises that
  a complete encoding is taken off exactly and that an incomplete one is left alone. Clients
  get that messages are read back in order whatever the chunk boundaries, and that a byte
  stream is parsed in one way only.
\<close>

locale stream_codec =
  fixes enc :: "'a \<Rightarrow> bytes"
    and step :: "bytes \<Rightarrow> 'a option result \<times> bytes"
    and valid :: "'a \<Rightarrow> bool"
  assumes step_complete: "valid x \<Longrightarrow> step (enc x @ rest) = (Ok (Some x), rest)"
    and step_partial: "valid x \<Longrightarrow> strict_prefix p (enc x) \<Longrightarrow> step p = (Ok None, p)"
    and step_empty: "step [] = (Ok None, [])"
begin

lemma enc_nonempty: "valid x \<Longrightarrow> enc x \<noteq> []"
  using step_complete [of x "[]"] step_empty by auto

lemma step_cases:
  assumes "valid x" and "b @ more = enc x @ rest"
  obtains (partial) "strict_prefix b (enc x)" "step b = (Ok None, b)" "more \<noteq> []"
    | (complete) r where "b = enc x @ r" "step b = (Ok (Some x), r)" "r @ more = rest"
proof (cases "length b < length (enc x)")
  case True
  have "take (length b) (b @ more) = take (length b) (enc x @ rest)" by (simp only: assms(2))
  with True have b: "take (length b) (enc x) = b" by simp
  have "strict_prefix b (enc x)"
    using True b take_is_prefix [of "length b" "enc x"] by (metis less_irrefl prefix_order.le_less)
  moreover have "step b = (Ok None, b)" by (rule step_partial [OF assms(1)]) fact
  moreover have "more \<noteq> []" using True assms(2) by auto
  ultimately show ?thesis by (rule partial)
next
  case False
  define r where "r = drop (length (enc x)) b"
  have "take (length (enc x)) (b @ more) = take (length (enc x)) (enc x @ rest)"
    by (simp only: assms(2))
  with False have "take (length (enc x)) b = enc x" by simp
  then have r: "b = enc x @ r" unfolding r_def by (metis append_take_drop_id)
  with assms(2) have "r @ more = rest" by simp
  with r step_complete [OF assms(1)] show ?thesis by (intro complete) auto
qed

lemma enc_unique:
  assumes "valid x" "valid y" "enc x @ r = enc y @ r'"
  shows "x = y \<and> r = r'"
proof -
  have "(Ok (Some x), r) = step (enc y @ r')"
    by (simp only: step_complete [OF assms(1), of r, symmetric] assms(3))
  then show ?thesis by (simp add: step_complete [OF assms(2)])
qed

lemma stream_unique:
  "\<forall>x \<in> set xs. valid x \<Longrightarrow> \<forall>y \<in> set ys. valid y \<Longrightarrow>
   concat (map enc xs) = concat (map enc ys) \<Longrightarrow> xs = ys"
proof (induction xs arbitrary: ys)
  case Nil
  then show ?case using enc_nonempty by (cases ys) auto
next
  case (Cons x xs)
  show ?case
  proof (cases ys)
    case Nil
    with Cons.prems enc_nonempty [of x] show ?thesis by simp
  next
    case (Cons y ys')
    then have "x = y \<and> concat (map enc xs) = concat (map enc ys')"
      using Cons.prems by (intro enc_unique) simp_all
    with Cons Cons.prems Cons.IH [of ys'] show ?thesis by simp
  qed
qed

end

end
