(* ===== verification/Frame_Codec.thy ===== *)
theory Frame_Codec
  imports Mav_Net Stream_Codec
begin

text \<open>
  The frame codec, \<open>maverick-core/src/frame.rs\<close>: the frame types, the 14-byte header with its
  big-endian length, the incremental decoder over a mutable buffer, and the payloads of
  the open, datagram and error frames. The decoder takes the buffer and returns its
  result together with the buffer it leaves behind.
\<close>

definition FRAME_HEADER_LEN :: nat where "FRAME_HEADER_LEN = 14"
definition DEFAULT_MAX_FRAME_SIZE :: nat where "DEFAULT_MAX_FRAME_SIZE = 65536"
definition MAX_NEGOTIATED_FRAME_SIZE :: nat where "MAX_NEGOTIATED_FRAME_SIZE = 1024 * 1024"

datatype FrameType =
    ClientHello | ServerHello | OpenTcp | TcpData | TcpFin | TcpReset | OpenUdp | UdpPacket
  | CloseFlow | Ping | Pong | WindowUpdate | Error | DnsQuery | DnsResponse | Padding

fun FrameType_as_u8 :: "FrameType \<Rightarrow> u8" where
  "FrameType_as_u8 ClientHello = 0x01"
| "FrameType_as_u8 ServerHello = 0x02"
| "FrameType_as_u8 OpenTcp = 0x03"
| "FrameType_as_u8 TcpData = 0x04"
| "FrameType_as_u8 TcpFin = 0x05"
| "FrameType_as_u8 TcpReset = 0x06"
| "FrameType_as_u8 OpenUdp = 0x07"
| "FrameType_as_u8 UdpPacket = 0x08"
| "FrameType_as_u8 CloseFlow = 0x09"
| "FrameType_as_u8 Ping = 0x0A"
| "FrameType_as_u8 Pong = 0x0B"
| "FrameType_as_u8 WindowUpdate = 0x0C"
| "FrameType_as_u8 Error = 0x0D"
| "FrameType_as_u8 DnsQuery = 0x0E"
| "FrameType_as_u8 DnsResponse = 0x0F"
| "FrameType_as_u8 Padding = 0x10"

definition FrameType_try_from :: "u8 \<Rightarrow> FrameType result" where
  "FrameType_try_from v =
     (if v = 0x01 then Ok ClientHello
      else if v = 0x02 then Ok ServerHello
      else if v = 0x03 then Ok OpenTcp
      else if v = 0x04 then Ok TcpData
      else if v = 0x05 then Ok TcpFin
      else if v = 0x06 then Ok TcpReset
      else if v = 0x07 then Ok OpenUdp
      else if v = 0x08 then Ok UdpPacket
      else if v = 0x09 then Ok CloseFlow
      else if v = 0x0A then Ok Ping
      else if v = 0x0B then Ok Pong
      else if v = 0x0C then Ok WindowUpdate
      else if v = 0x0D then Ok Error
      else if v = 0x0E then Ok DnsQuery
      else if v = 0x0F then Ok DnsResponse
      else if v = 0x10 then Ok Padding
      else Err (UnknownFrameType v))"

record Frame =
  frame_type :: FrameType
  flags :: u8
  flow_id :: u64
  payload :: bytes

definition Frame_new :: "FrameType \<Rightarrow> u8 \<Rightarrow> u64 \<Rightarrow> bytes \<Rightarrow> Frame" where
  "Frame_new t fl fid p = \<lparr>frame_type = t, flags = fl, flow_id = fid, payload = p\<rparr>"

definition Frame_encode :: "Frame \<Rightarrow> nat \<Rightarrow> bytes result" where
  "Frame_encode f max_frame_size =
     fail_if (length (payload f) > max_frame_size)
       (FrameTooLarge (length (payload f)) max_frame_size)
     (and_then (ok_or (MalformedFrame ''frame length overflow'')
                  (checked_add_usize FRAME_HEADER_LEN (length (payload f))))
       (\<lambda>encoded_len.
          Ok (put_u8 (FrameType_as_u8 (frame_type f)) @ put_u8 (flags f) @ put_u64 (flow_id f)
              @ put_u32 (of_nat (length (payload f))) @ payload f)))"

text \<open>An early return from a function that owns a mutable buffer leaves the buffer as it is.\<close>

fun with_buf :: "'a result \<Rightarrow> bytes \<Rightarrow> ('a \<Rightarrow> 'b result \<times> bytes) \<Rightarrow> 'b result \<times> bytes" where
  "with_buf (Ok x) buf k = k x"
| "with_buf (Err e) buf k = (Err e, buf)"
| "with_buf Panic buf k = (Panic, buf)"

definition Frame_decode_from :: "bytes \<Rightarrow> nat \<Rightarrow> Frame option result \<times> bytes" where
  "Frame_decode_from buf max_frame_size =
     (if length buf < FRAME_HEADER_LEN then (Ok None, buf)
      else with_buf (byte_slice 10 4 buf) buf (\<lambda>len4.
        let len = unat (u32_from_be len4) in
        if len > max_frame_size then (Err (FrameTooLarge len max_frame_size), buf)
        else with_buf (ok_or (MalformedFrame ''frame length overflow'')
                         (checked_add_usize FRAME_HEADER_LEN len)) buf (\<lambda>encoded_len.
          if length buf < encoded_len then (Ok None, buf)
          else with_buf (and_then (byte_at buf 0) FrameType_try_from) buf (\<lambda>ft.
            with_buf (copy_to_bytes FRAME_HEADER_LEN buf) buf (\<lambda>(header, buf1).
            with_buf (copy_to_bytes 1 header) buf1 (\<lambda>(_, header1).
            with_buf (get_u8 header1) buf1 (\<lambda>(fl, header2).
            with_buf (get_u64 header2) buf1 (\<lambda>(fid, header3).
            with_buf (get_u32 header3) buf1 (\<lambda>(payload_len, _).
            with_buf (copy_to_bytes (unat payload_len) buf1) buf1 (\<lambda>(p, buf2).
              (Ok (Some \<lparr>frame_type = ft, flags = fl, flow_id = fid, payload = p\<rparr>), buf2)))))))))))"

subsection \<open>Targets and payloads\<close>

datatype TargetAddr = Domain bytes | Ipv4 Ipv4Addr | Ipv6 Ipv6Addr

fun to_authority :: "TargetAddr \<Rightarrow> u16 \<Rightarrow> bytes" where
  "to_authority (Domain host) port = host @ ascii '':'' @ dec (unat port)"
| "to_authority (Ipv4 addr) port = display_ipv4 addr @ ascii '':'' @ dec (unat port)"
| "to_authority (Ipv6 addr) port = ascii ''['' @ display_ipv6 addr @ ascii '']:'' @ dec (unat port)"

record OpenTcpPayload =
  ot_target :: TargetAddr
  ot_port :: u16
  ot_initial_data :: bytes

definition OpenTcpPayload_new :: "TargetAddr \<Rightarrow> u16 \<Rightarrow> OpenTcpPayload" where
  "OpenTcpPayload_new t p = \<lparr>ot_target = t, ot_port = p, ot_initial_data = []\<rparr>"

definition OpenTcpPayload_encode :: "OpenTcpPayload \<Rightarrow> bytes result" where
  "OpenTcpPayload_encode o' =
     and_then
       (case ot_target o' of
          Domain host \<Rightarrow>
            fail_if (length host > 65535) (MalformedFrame ''domain too long'')
              (Ok (put_u8 0x03 @ put_u16 (of_nat (length host)) @ host))
        | Ipv4 addr \<Rightarrow> Ok (put_u8 0x01 @ ipv4_octets addr)
        | Ipv6 addr \<Rightarrow> Ok (put_u8 0x04 @ ipv6_octets addr))
       (\<lambda>out. Ok (out @ put_u16 (ot_port o') @ put_u32 (of_nat (length (ot_initial_data o')))
                  @ ot_initial_data o'))"

definition decode_target :: "bytes \<Rightarrow> (TargetAddr \<times> bytes) result" where
  "decode_target buf0 =
     fail_if (buf0 = []) (MalformedFrame ''missing address type'')
     (and_then (get_u8 buf0) (\<lambda>(atyp, buf).
        if atyp = 0x01 then
          fail_if (length buf < 4) (MalformedFrame ''truncated ipv4 address'')
          (and_then (copy_to_bytes 4 buf) (\<lambda>(octets, buf). Ok (Ipv4 (ipv4_from octets), buf)))
        else if atyp = 0x03 then
          fail_if (length buf < 2) (MalformedFrame ''missing domain length'')
          (and_then (get_u16 buf) (\<lambda>(len16, buf).
             let len = unat len16 in
             fail_if (len = 0 \<or> length buf < len) (MalformedFrame ''truncated domain'')
             (and_then (copy_to_bytes len buf) (\<lambda>(bs, buf).
                and_then (ok_or (MalformedFrame ''domain is not utf-8'') (from_utf8 bs))
                  (\<lambda>host. Ok (Domain host, buf))))))
        else if atyp = 0x04 then
          fail_if (length buf < 16) (MalformedFrame ''truncated ipv6 address'')
          (and_then (copy_to_bytes 16 buf) (\<lambda>(octets, buf). Ok (Ipv6 (ipv6_from octets), buf)))
        else Err (MalformedFrame ''unknown address type'')))"

definition OpenTcpPayload_decode :: "bytes \<Rightarrow> OpenTcpPayload result" where
  "OpenTcpPayload_decode input =
     and_then (decode_target input) (\<lambda>(target, buf).
       fail_if (length buf < 2 + 4) (MalformedFrame ''truncated open tcp payload'')
       (and_then (get_u16 buf) (\<lambda>(port, buf).
        and_then (get_u32 buf) (\<lambda>(initial_len, buf).
          fail_if (length buf < unat initial_len) (MalformedFrame ''truncated initial data'')
          (and_then (copy_to_bytes (unat initial_len) buf) (\<lambda>(initial_data, buf).
             fail_if (buf \<noteq> []) (MalformedFrame ''open tcp trailing bytes'')
             (Ok \<lparr>ot_target = target, ot_port = port, ot_initial_data = initial_data\<rparr>)))))))"

record UdpPacketPayload =
  up_target :: TargetAddr
  up_port :: u16
  up_data :: bytes

definition UdpPacketPayload_new :: "TargetAddr \<Rightarrow> u16 \<Rightarrow> bytes \<Rightarrow> UdpPacketPayload" where
  "UdpPacketPayload_new t p d = \<lparr>up_target = t, up_port = p, up_data = d\<rparr>"

definition UdpPacketPayload_encode :: "UdpPacketPayload \<Rightarrow> bytes result" where
  "UdpPacketPayload_encode u =
     OpenTcpPayload_encode \<lparr>ot_target = up_target u, ot_port = up_port u, ot_initial_data = up_data u\<rparr>"

definition UdpPacketPayload_decode :: "bytes \<Rightarrow> UdpPacketPayload result" where
  "UdpPacketPayload_decode input =
     and_then (OpenTcpPayload_decode input) (\<lambda>d.
       Ok \<lparr>up_target = ot_target d, up_port = ot_port d, up_data = ot_initial_data d\<rparr>)"

record OpenUdpPayload =
  idle_timeout_ms :: u64

definition OpenUdpPayload_encode :: "OpenUdpPayload \<Rightarrow> bytes" where
  "OpenUdpPayload_encode p = put_u64 (idle_timeout_ms p)"

definition OpenUdpPayload_decode :: "bytes \<Rightarrow> OpenUdpPayload result" where
  "OpenUdpPayload_decode input =
     fail_if (length input \<noteq> 8) (MalformedFrame ''invalid open udp payload'')
     (and_then (get_u64 input) (\<lambda>(ms, _). Ok \<lparr>idle_timeout_ms = ms\<rparr>))"

datatype ErrorCode =
  TargetConnectFailed | FlowNotFound | FlowLimitExceeded | ProtocolError | InternalError

fun ErrorCode_as_u16 :: "ErrorCode \<Rightarrow> u16" where
  "ErrorCode_as_u16 TargetConnectFailed = 1"
| "ErrorCode_as_u16 FlowNotFound = 2"
| "ErrorCode_as_u16 FlowLimitExceeded = 3"
| "ErrorCode_as_u16 ProtocolError = 4"
| "ErrorCode_as_u16 InternalError = 5"

definition ErrorCode_encode :: "ErrorCode \<Rightarrow> bytes" where
  "ErrorCode_encode c = put_u16 (ErrorCode_as_u16 c)"

definition ErrorCode_decode :: "bytes \<Rightarrow> ErrorCode result" where
  "ErrorCode_decode input =
     fail_if (length input \<noteq> 2) (MalformedFrame ''invalid error code payload'')
     (and_then (get_u16 input) (\<lambda>(v, _).
        if v = 1 then Ok TargetConnectFailed
        else if v = 2 then Ok FlowNotFound
        else if v = 3 then Ok FlowLimitExceeded
        else if v = 4 then Ok ProtocolError
        else if v = 5 then Ok InternalError
        else Err (MalformedFrame ''unknown error code'')))"

subsection \<open>What the codec may carry\<close>

text \<open>
  \<open>frame_bytes\<close> is the wire image of a frame and \<open>frame_ok m\<close> the frames an endpoint with
  frame limit \<open>m\<close> can send: the length field has 32 bits. \<open>target_ok\<close> are the targets that
  have a wire image: a domain is non-empty UTF-8 text whose length fits 16 bits.
\<close>

definition frame_bytes :: "Frame \<Rightarrow> bytes" where
  "frame_bytes f =
     put_u8 (FrameType_as_u8 (frame_type f)) @ put_u8 (flags f) @ put_u64 (flow_id f)
     @ put_u32 (of_nat (length (payload f))) @ payload f"

definition frame_ok :: "nat \<Rightarrow> Frame \<Rightarrow> bool" where
  "frame_ok m f = (length (payload f) \<le> m \<and> length (payload f) < 4294967296)"

fun target_ok :: "TargetAddr \<Rightarrow> bool" where
  "target_ok (Domain h) = (utf8_valid h \<and> h \<noteq> [] \<and> length h \<le> 65535)"
| "target_ok (Ipv4 a) = True"
| "target_ok (Ipv6 a) = True"

definition open_tcp_ok :: "OpenTcpPayload \<Rightarrow> bool" where
  "open_tcp_ok p = (target_ok (ot_target p) \<and> length (ot_initial_data p) < 4294967296)"

subsection \<open>Frame types\<close>

lemma FrameType_try_from_as_u8 [simp]: "FrameType_try_from (FrameType_as_u8 t) = Ok t"
  by (cases t) (simp_all add: FrameType_try_from_def)

lemma FrameType_try_from_OkD: "FrameType_try_from v = Ok t \<Longrightarrow> FrameType_as_u8 t = v"
  by (auto simp: FrameType_try_from_def split: if_splits)

lemma FrameType_try_from_not_Panic [simp]: "FrameType_try_from v \<noteq> Panic"
  by (simp add: FrameType_try_from_def)

lemma FrameType_try_from_Err:
  "FrameType_try_from v = Err e \<longleftrightarrow> e = UnknownFrameType v \<and> (v = 0 \<or> 0x10 < v)"
proof -
  have "v = 0 \<or> 0x10 < v \<or> v \<in> FrameType_as_u8 ` UNIV"
  proof -
    have "unat v < 17 \<Longrightarrow> v = 0 \<or> v \<in> FrameType_as_u8 ` UNIV"
    proof -
      assume "unat v < 17"
      then have "unat v \<in> set [0..<17]" by simp
      then have "v \<in> (of_nat ` set [0..<17] :: u8 set)" by (intro image_eqI [of _ _ "unat v"]) simp_all
      also have "\<dots> = insert 0 (FrameType_as_u8 ` {ClientHello, ServerHello, OpenTcp, TcpData, TcpFin,
        TcpReset, OpenUdp, UdpPacket, CloseFlow, Ping, Pong, WindowUpdate, Error, DnsQuery,
        DnsResponse, Padding})"
        by (simp add: upt_rec insert_commute)
      finally show ?thesis by blast
    qed
    then show ?thesis by (cases "unat v < 17") (auto simp: word_less_nat_alt)
  qed
  moreover have "FrameType_try_from v = Err e \<longleftrightarrow> e = UnknownFrameType v"
    if "v = 0 \<or> 0x10 < v"
    using that by (auto simp: FrameType_try_from_def)
  ultimately show ?thesis by auto
qed

subsection \<open>The frame header\<close>

lemma Frame_encode_Ok_iff:
  "Frame_encode f m = Ok bs \<longleftrightarrow>
     length (payload f) \<le> m \<and> FRAME_HEADER_LEN + length (payload f) \<le> USIZE_MAX \<and> bs = frame_bytes f"
  by (auto simp: Frame_encode_def frame_bytes_def and_then_Ok_iff checked_add_usize_def)

lemma Frame_encode_ok: "frame_ok m f \<Longrightarrow> Frame_encode f m = Ok (frame_bytes f)"
  by (simp add: Frame_encode_Ok_iff frame_ok_def FRAME_HEADER_LEN_def USIZE_MAX_def)

lemma Frame_encode_not_Panic: "Frame_encode f m \<noteq> Panic"
  by (simp add: Frame_encode_def and_then_Panic_iff)

lemma length_frame_bytes: "length (frame_bytes f) = FRAME_HEADER_LEN + length (payload f)"
  by (simp add: frame_bytes_def FRAME_HEADER_LEN_def)

lemma frame_bytes_prefix_length:
  assumes "length p < length (frame_bytes f)" "prefix p (frame_bytes f)" "FRAME_HEADER_LEN \<le> length p"
  shows "take 4 (drop 10 p) = put_u32 (of_nat (length (payload f)))"
proof -
  from assms(2) obtain q where q: "frame_bytes f = p @ q" by (auto simp: prefix_def)
  have "take 4 (drop 10 (p @ q)) = take 4 (drop 10 p)" using assms(3) by (simp add: FRAME_HEADER_LEN_def)
  moreover have "take 4 (drop 10 (frame_bytes f)) = put_u32 (of_nat (length (payload f)))"
    by (simp add: frame_bytes_def)
  ultimately show ?thesis by (simp only: q)
qed

lemma frame_ok_length:
  assumes "frame_ok m f"
  shows "unat (of_nat (length (payload f)) :: u32) = length (payload f)"
    and "checked_add_usize 14 (length (payload f)) = Some (14 + length (payload f))"
    and "\<not> m < length (payload f)"
  using assms
  by (simp_all add: checked_add_usize_def frame_ok_def USIZE_MAX_def unat_of_nat_le)

lemma Frame_decode_complete:
  assumes "frame_ok m f"
  shows "Frame_decode_from (frame_bytes f @ rest) m = (Ok (Some f), rest)"
proof -
  have s: "byte_slice 10 4 (frame_bytes f @ rest) = Ok (put_u32 (of_nat (length (payload f))))"
    by (simp add: frame_bytes_def byte_slice_def)
  have b: "byte_at (frame_bytes f @ rest) 0 = Ok (FrameType_as_u8 (frame_type f))"
    by (simp add: byte_at_def frame_bytes_def put_u8_def)
  have h: "copy_to_bytes 14 (frame_bytes f @ rest) =
      Ok (put_u8 (FrameType_as_u8 (frame_type f)) @ put_u8 (flags f) @ put_u64 (flow_id f)
          @ put_u32 (of_nat (length (payload f))), payload f @ rest)"
    by (simp add: copy_to_bytes_def frame_bytes_def)
  have l: "length (frame_bytes f @ rest) = 14 + length (payload f) + length rest"
    by (simp add: length_frame_bytes FRAME_HEADER_LEN_def)
  show ?thesis
    unfolding Frame_decode_from_def FRAME_HEADER_LEN_def l
    by (simp del: byte_slice_simps byte_at_simps add: s b h frame_ok_length [OF assms] Let_def)
qed

lemma Frame_decode_partial:
  assumes "frame_ok m f" "strict_prefix p (frame_bytes f)"
  shows "Frame_decode_from p m = (Ok None, p)"
proof (cases "length p < 14")
  case True
  then show ?thesis by (simp add: Frame_decode_from_def FRAME_HEADER_LEN_def)
next
  case False
  have lp: "length p < 14 + length (payload f)"
    using prefix_length_less [OF assms(2)] by (simp add: length_frame_bytes FRAME_HEADER_LEN_def)
  have "take 4 (drop 10 p) = put_u32 (of_nat (length (payload f)))"
    using False lp assms(2)
    by (intro frame_bytes_prefix_length)
       (auto simp: strict_prefix_def length_frame_bytes FRAME_HEADER_LEN_def)
  with False have s: "byte_slice 10 4 p = Ok (put_u32 (of_nat (length (payload f))))"
    by (simp add: byte_slice_def)
  from False lp show ?thesis
    unfolding Frame_decode_from_def FRAME_HEADER_LEN_def
    by (simp del: byte_slice_simps add: s frame_ok_length [OF assms(1)] Let_def)
qed

text \<open>
  \<open>frame_codec.step_complete\<close>, \<open>frame_codec.step_cases\<close> and \<open>frame_codec.stream_unique\<close> are the
  contract of \<open>stream_codec\<close> for bare frames, the payload of a WebSocket message.
\<close>

interpretation frame_codec: stream_codec frame_bytes "\<lambda>b. Frame_decode_from b m" "frame_ok m"
  for m :: nat
proof unfold_locales
  fix x rest
  assume "frame_ok m x"
  then show "Frame_decode_from (frame_bytes x @ rest) m = (Ok (Some x), rest)"
    by (rule Frame_decode_complete)
next
  fix x p
  assume "frame_ok m x" "strict_prefix p (frame_bytes x)"
  then show "Frame_decode_from p m = (Ok None, p)" by (rule Frame_decode_partial)
next
  show "Frame_decode_from [] m = (Ok None, [])"
    by (simp add: Frame_decode_from_def FRAME_HEADER_LEN_def)
qed

lemma with_buf_iff:
  "with_buf m buf k = (Ok y, b') \<longleftrightarrow> (\<exists>x. m = Ok x \<and> k x = (Ok y, b'))"
  "with_buf m buf k = (Panic, b') \<longleftrightarrow> (m = Panic \<and> b' = buf) \<or> (\<exists>x. m = Ok x \<and> k x = (Panic, b'))"
  "with_buf m buf k = (Err e, b') \<longleftrightarrow> (m = Err e \<and> b' = buf) \<or> (\<exists>x. m = Ok x \<and> k x = (Err e, b'))"
  by (cases m; auto)+

lemma copy_to_bytes_take: "n \<le> length b \<Longrightarrow> copy_to_bytes n b = Ok (take n b, drop n b)"
  by (simp add: copy_to_bytes_def)

text \<open>
  A buffer with a whole frame at its front has the shape of \<open>frame_bytes\<close>: the header fields
  and a payload of the announced length.
\<close>

lemma header_split:
  assumes "14 \<le> length buf" "14 + unat (u32_from_be (take 4 (drop 10 buf))) \<le> length buf"
  obtains v fl fid p r where
    "buf = put_u8 v @ put_u8 fl @ put_u64 fid @ put_u32 (of_nat (length p)) @ p @ r"
    "length p = unat (u32_from_be (take 4 (drop 10 buf)))" "length p < 4294967296"
proof -
  define n where "n = unat (u32_from_be (take 4 (drop 10 buf)))"
  define t where "t = drop 2 buf"
  have t: "12 \<le> length t" "drop 10 buf = drop 8 t" using assms(1) by (simp_all add: t_def)
  have buf: "buf = put_u8 (buf ! 0) @ put_u8 (buf ! 1) @ t"
    using assms(1) by (cases buf; cases "tl buf") (auto simp: t_def put_u8_def)
  have len: "put_u32 (of_nat n) = take 4 (drop 8 t)"
    using t assms(1) by (simp add: n_def put_from_be)
  have fid: "put_u64 (u64_from_be (take 8 t)) = take 8 t" using t by (simp add: put_from_be)
  have "t = take 8 t @ take 4 (drop 8 t) @ take n (drop 12 t) @ drop n (drop 12 t)"
  proof -
    have "drop 12 t = drop 4 (drop 8 t)" by simp
    then show ?thesis by (simp only: append_take_drop_id)
  qed
  moreover have L: "length (take n (drop 12 t)) = n" using assms(2) by (simp add: n_def t_def)
  ultimately have B: "buf = put_u8 (buf ! 0) @ put_u8 (buf ! 1) @ put_u64 (u64_from_be (take 8 t))
      @ put_u32 (of_nat (length (take n (drop 12 t)))) @ take n (drop 12 t) @ drop n (drop 12 t)"
    using buf by (simp only: len fid)
  have "n < 4294967296" by (simp add: n_def unat_bounds)
  with L show ?thesis by (intro that [OF B]) (simp_all only: n_def)
qed

lemma Frame_decode_unknown:
  assumes "length p \<le> m" "length p < 4294967296"
    and "buf = put_u8 v @ put_u8 fl @ put_u64 fid @ put_u32 (of_nat (length p)) @ p @ r"
    and "FrameType_try_from v = Err e"
  shows "Frame_decode_from buf m = (Err e, buf)"
proof -
  have s: "byte_slice 10 4 buf = Ok (put_u32 (of_nat (length p)))"
    by (simp add: assms(3) byte_slice_def)
  have b: "byte_at buf 0 = Ok v" by (simp add: byte_at_def assms(3) put_u8_def)
  have l: "length buf = 14 + length p + length r" by (simp add: assms(3))
  have u: "checked_add_usize 14 (length p) = Some (14 + length p)" 
     "unat (of_nat (length p) :: u32) = length p"
    using assms(2) by (simp_all add: checked_add_usize_def USIZE_MAX_def unat_of_nat_le)
  show ?thesis
    unfolding Frame_decode_from_def FRAME_HEADER_LEN_def l
    using assms(1) by (simp del: byte_slice_simps byte_at_simps add: s b u assms(4) Let_def)
qed

text \<open>Every buffer falls under one of four cases, and each fixes the result of the decoder.\<close>

lemma Frame_decode_cases:
  obtains (short) "length buf < FRAME_HEADER_LEN" "Frame_decode_from buf m = (Ok None, buf)"
  | (large) n where "n = unat (u32_from_be (take 4 (drop 10 buf)))" "m < n"
      "FRAME_HEADER_LEN \<le> length buf" "Frame_decode_from buf m = (Err (FrameTooLarge n m), buf)"
  | (waiting) n where "n = unat (u32_from_be (take 4 (drop 10 buf)))" "n \<le> m"
      "FRAME_HEADER_LEN \<le> length buf"
      "length buf < FRAME_HEADER_LEN + n" "Frame_decode_from buf m = (Ok None, buf)"
  | (unknown) v p where "v = 0 \<or> 0x10 < v" "buf = v # p" "FRAME_HEADER_LEN \<le> length buf"
      "Frame_decode_from buf m = (Err (UnknownFrameType v), buf)"
  | (frame) f r where "frame_ok m f" "buf = frame_bytes f @ r"
      "Frame_decode_from buf m = (Ok (Some f), r)"
proof (cases "length buf < 14")
  case True
  then show ?thesis by (intro short) (simp_all add: Frame_decode_from_def FRAME_HEADER_LEN_def)
next
  case False
  define n where "n = unat (u32_from_be (take 4 (drop 10 buf)))"
  from False have s: "byte_slice 10 4 buf = Ok (take 4 (drop 10 buf))" by (simp add: byte_slice_def)
  have "n < 4294967296" by (simp add: n_def unat_bounds)
  then have u: "checked_add_usize 14 n = Some (14 + n)"
    by (simp add: checked_add_usize_def USIZE_MAX_def)
  consider "m < n" | "n \<le> m" "length buf < 14 + n" | "n \<le> m" "14 + n \<le> length buf" by linarith
  then show ?thesis
  proof cases
    case 1
    then have "Frame_decode_from buf m = (Err (FrameTooLarge n m), buf)"
      unfolding Frame_decode_from_def FRAME_HEADER_LEN_def
      using False by (simp del: byte_slice_simps add: s Let_def flip: n_def)
    with 1 False n_def show ?thesis by (intro large) (simp_all add: FRAME_HEADER_LEN_def)
  next
    case 2
    then have "Frame_decode_from buf m = (Ok None, buf)"
      unfolding Frame_decode_from_def FRAME_HEADER_LEN_def
      using False by (simp del: byte_slice_simps add: s u Let_def flip: n_def)
    with 2 False n_def show ?thesis by (intro waiting) (simp_all add: FRAME_HEADER_LEN_def)
  next
    case 3
    then have c: "14 \<le> length buf" "14 + unat (u32_from_be (take 4 (drop 10 buf))) \<le> length buf"
      using False by (simp_all add: n_def)
    obtain v fl fid p r where
      b: "buf = put_u8 v @ put_u8 fl @ put_u64 fid @ put_u32 (of_nat (length p)) @ p @ r"
      and n: "length p = unat (u32_from_be (take 4 (drop 10 buf)))" and l: "length p < 4294967296"
      by (rule header_split [OF c])
    from n 3 have le: "length p \<le> m" by (simp add: n_def)
    show ?thesis
    proof (cases "FrameType_try_from v")
      case (Ok t)
      define f where "f = \<lparr>frame_type = t, flags = fl, flow_id = fid, payload = p\<rparr>"
      have "buf = frame_bytes f @ r" "frame_ok m f"
        using b l le FrameType_try_from_OkD [OF Ok] by (simp_all add: frame_bytes_def f_def frame_ok_def)
      then show ?thesis using Frame_decode_complete [of m f r] by (intro frame) simp_all
    next
      case (Err e)
      then have "e = UnknownFrameType v" "v = 0 \<or> 0x10 < v" by (simp_all add: FrameType_try_from_Err)
      moreover have "Frame_decode_from buf m = (Err e, buf)"
        by (rule Frame_decode_unknown [OF le l b Err])
      moreover have "buf = v # (put_u8 fl @ put_u64 fid @ put_u32 (of_nat (length p)) @ p @ r)"
        by (subst b) (simp add: put_u8_def)
      ultimately show ?thesis using c(1) by (intro unknown [of v]) (simp_all only: FRAME_HEADER_LEN_def)
    qed simp
  qed
qed

subsection \<open>Payloads\<close>

lemma decode_target_encode:
  assumes "target_ok (ot_target p)"
  shows "\<exists>t. OpenTcpPayload_encode p = Ok (t @ put_u16 (ot_port p)
           @ put_u32 (of_nat (length (ot_initial_data p))) @ ot_initial_data p)
         \<and> (\<forall>r. decode_target (t @ r) = Ok (ot_target p, r))"
proof (cases "ot_target p")
  case (Domain h)
  with assms have h: "h \<noteq> []" "length h \<le> 65535" "utf8_valid h" by simp_all
  then have "unat (of_nat (length h) :: u16) = length h" by (simp add: unat_of_nat_le)
  with h Domain show ?thesis
    by (intro exI [of _ "put_u8 3 @ put_u16 (of_nat (length h)) @ h"])
       (simp add: OpenTcpPayload_encode_def decode_target_def from_utf8_def put_u8_def Let_def)
next
  case (Ipv4 a)
  then show ?thesis
    by (intro exI [of _ "put_u8 1 @ ipv4_octets a"])
       (simp add: OpenTcpPayload_encode_def decode_target_def put_u8_def length_octets from_octets)
next
  case (Ipv6 a)
  then show ?thesis
    by (intro exI [of _ "put_u8 4 @ ipv6_octets a"])
       (simp add: OpenTcpPayload_encode_def decode_target_def put_u8_def length_octets from_octets)
qed

lemma OpenTcpPayload_encode_decode:
  assumes "open_tcp_ok p"
  obtains bs where "OpenTcpPayload_encode p = Ok bs" "OpenTcpPayload_decode bs = Ok p"
proof -
  from assms have l: "unat (of_nat (length (ot_initial_data p)) :: u32) = length (ot_initial_data p)"
    by (simp add: open_tcp_ok_def unat_of_nat_le)
  from assms obtain t where t: "OpenTcpPayload_encode p = Ok (t @ put_u16 (ot_port p)
           @ put_u32 (of_nat (length (ot_initial_data p))) @ ot_initial_data p)"
         "\<And>r. decode_target (t @ r) = Ok (ot_target p, r)"
    using decode_target_encode [of p] by (auto simp: open_tcp_ok_def)
  show ?thesis
    by (rule that [OF t(1)]) (simp add: OpenTcpPayload_decode_def t(2) l)
qed

lemma decode_target_OkD:
  assumes "decode_target b = Ok (t, r)"
  shows "target_ok t \<and> (\<exists>h. b = h @ r
     \<and> (\<forall>port d. OpenTcpPayload_encode \<lparr>ot_target = t, ot_port = port, ot_initial_data = d\<rparr>
           = Ok (h @ put_u16 port @ put_u32 (of_nat (length d)) @ d)))"
  using assms
  by (auto simp: decode_target_def and_then_Ok_iff from_utf8_def Let_def OpenTcpPayload_encode_def
        octets_from
      dest!: cursor_OkD split: if_splits)

lemma OpenTcpPayload_decode_OkD:
  assumes "OpenTcpPayload_decode b = Ok p"
  shows "OpenTcpPayload_encode p = Ok b \<and> open_tcp_ok p"
proof -
  from assms obtain t r port n d where "decode_target b = Ok (t, r)"
    and r: "r = put_u16 port @ put_u32 n @ d" "length d = unat n"
    and p: "p = \<lparr>ot_target = t, ot_port = port, ot_initial_data = d\<rparr>"
    unfolding OpenTcpPayload_decode_def
    by (force simp: and_then_Ok_iff dest!: cursor_OkD)
  with decode_target_OkD [of b t r] unat_bounds(2) [of n] show ?thesis
    by (auto simp: open_tcp_ok_def)
qed

lemma OpenTcpPayload_encode_Err_iff:
  "OpenTcpPayload_encode p = Err e \<longleftrightarrow>
     e = MalformedFrame ''domain too long'' \<and> (\<exists>h. ot_target p = Domain h \<and> 65535 < length h)"
  by (auto simp: OpenTcpPayload_encode_def and_then_Err_iff split: TargetAddr.splits)

lemma decode_target_not_Panic: "decode_target b \<noteq> Panic"
  by (auto simp: decode_target_def and_then_Panic_iff Let_def dest!: cursor_OkD)

lemma OpenTcpPayload_decode_not_Panic: "OpenTcpPayload_decode b \<noteq> Panic"
  by (auto simp: OpenTcpPayload_decode_def and_then_Panic_iff decode_target_not_Panic dest!: cursor_OkD)

lemma UdpPacketPayload_decode_not_Panic: "UdpPacketPayload_decode b \<noteq> Panic"
  by (auto simp: UdpPacketPayload_decode_def and_then_Panic_iff OpenTcpPayload_decode_not_Panic)

lemma ErrorCode_decode_encode: "ErrorCode_decode (ErrorCode_encode c) = Ok c"
  by (cases c) (simp_all add: ErrorCode_decode_def ErrorCode_encode_def)

lemma ErrorCode_decode_OkD: "ErrorCode_decode b = Ok c \<Longrightarrow> ErrorCode_encode c = b"
  by (auto simp: ErrorCode_decode_def ErrorCode_encode_def and_then_Ok_iff
      dest!: cursor_OkD split: if_splits)

lemma OpenUdpPayload_decode_iff: "OpenUdpPayload_decode b = Ok p \<longleftrightarrow> b = OpenUdpPayload_encode p"
  by (auto simp: OpenUdpPayload_decode_def OpenUdpPayload_encode_def and_then_Ok_iff
      dest!: cursor_OkD)

subsection \<open>Properties of the frame codec\<close>

text \<open>
  C17. The frame decoder inverts the encoder and accepts nothing else: it returns a frame
  exactly when the buffer starts with the encoding of that frame under the same frame limit
  (whose length field has 32 bits), and it leaves exactly the bytes after the encoding.
\<close>

theorem Frame_decode_from_iff_encode:
  "Frame_decode_from buf m = (Ok (Some f), rest) \<longleftrightarrow>
     length (payload f) < 2 ^ 32 \<and> (\<exists>bs. Frame_encode f m = Ok bs \<and> buf = bs @ rest)"
proof
  assume "Frame_decode_from buf m = (Ok (Some f), rest)"
  then have "frame_ok m f" "buf = frame_bytes f @ rest"
    by (cases rule: Frame_decode_cases [of buf m]; simp)+
  then show "length (payload f) < 2 ^ 32 \<and> (\<exists>bs. Frame_encode f m = Ok bs \<and> buf = bs @ rest)"
    by (simp add: Frame_encode_ok) (simp add: frame_ok_def)
next
  assume "length (payload f) < 2 ^ 32 \<and> (\<exists>bs. Frame_encode f m = Ok bs \<and> buf = bs @ rest)"
  then have "frame_ok m f" "buf = frame_bytes f @ rest"
    by (auto simp: Frame_encode_Ok_iff frame_ok_def)
  then show "Frame_decode_from buf m = (Ok (Some f), rest)" by (simp only: Frame_decode_complete)
qed

text \<open>
  C27. The frame decoder never panics. It asks for more bytes only while the buffer is
  shorter than the largest frame, and then leaves it as it is; an error is one of the two
  documented ones and leaves the buffer as it is; a frame takes at least the 14 header
  bytes off the buffer.
\<close>

theorem Frame_decode_from_safe:
  "case Frame_decode_from buf m of
     (Ok None, rest) \<Rightarrow> rest = buf \<and> length buf < FRAME_HEADER_LEN + m
   | (Ok (Some f), rest) \<Rightarrow>
       length (payload f) \<le> m
       \<and> length buf = FRAME_HEADER_LEN + length (payload f) + length rest
   | (Err (FrameTooLarge n m'), rest) \<Rightarrow> rest = buf \<and> m' = m \<and> m < n
   | (Err (UnknownFrameType v), rest) \<Rightarrow> rest = buf \<and> (v = 0 \<or> 16 < v)
   | (_, rest) \<Rightarrow> False"
  by (cases rule: Frame_decode_cases [of buf m]) (auto simp: length_frame_bytes frame_ok_def)

text \<open>
  C28. The payload codecs of the open-TCP and datagram frames are inverse to each other: a
  byte string decodes to a payload exactly when it is the encoding of that payload and the
  payload is well formed (a domain is non-empty UTF-8 text of at most 65535 bytes, the data
  length fits 32 bits); the decoders never panic.
\<close>

theorem OpenTcpPayload_decode_iff_encode:
  "(OpenTcpPayload_decode b = Ok p \<longleftrightarrow> open_tcp_ok p \<and> OpenTcpPayload_encode p = Ok b)
   \<and> OpenTcpPayload_decode b \<noteq> Panic
   \<and> (UdpPacketPayload_decode b = Ok u \<longleftrightarrow>
        target_ok (up_target u) \<and> length (up_data u) < 2 ^ 32 \<and> UdpPacketPayload_encode u = Ok b)
   \<and> UdpPacketPayload_decode b \<noteq> Panic"
proof -
  have ot: "OpenTcpPayload_decode b = Ok p \<longleftrightarrow> open_tcp_ok p \<and> OpenTcpPayload_encode p = Ok b" for p
    by (metis OpenTcpPayload_decode_OkD OpenTcpPayload_encode_decode outcome.inject(1))
  have "UdpPacketPayload_decode b = Ok u \<longleftrightarrow>
      OpenTcpPayload_decode b = Ok \<lparr>ot_target = up_target u, ot_port = up_port u, ot_initial_data = up_data u\<rparr>"
    by (auto simp: UdpPacketPayload_decode_def and_then_Ok_iff)
  with ot show ?thesis
    by (auto simp: OpenTcpPayload_decode_not_Panic UdpPacketPayload_decode_not_Panic
        UdpPacketPayload_encode_def open_tcp_ok_def)
qed

end
