(* ===== verification/Advanced_Config.thy ===== *)
theory Advanced_Config
  imports F64 Mode_Secret Crypto_Policy Egress_Policy Frame_Codec
begin

text \<open>
  The logging, shaping, stealth and advanced sections of the configuration,
  \<open>maverick-core/src/config.rs\<close>, with their defaults and their validation. The two build
  options these functions ask for are the record \<open>Build\<close>.
\<close>

record Build =
  bd_browser_tls_profile_supported :: bool
  bd_experimental_h3 :: bool

subsection \<open>Defaults\<close>

definition default_true :: bool where "default_true = True"
definition default_index :: bytes where "default_index = ascii ''index.html''"
definition default_log_level :: bytes where "default_log_level = ascii ''info''"
definition default_padding :: bytes where "default_padding = ascii ''auto''"
definition default_connect_timeout_ms :: u64 where "default_connect_timeout_ms = 10000"
definition default_handshake_timeout_ms :: u64 where "default_handshake_timeout_ms = 10000"
definition default_max_concurrent_connections :: u32 where "default_max_concurrent_connections = 2048"
definition default_max_concurrent_connections_per_source :: u32 where
  "default_max_concurrent_connections_per_source = 256"
definition default_pre_auth_max_concurrent :: u32 where "default_pre_auth_max_concurrent = 512"
definition default_fallback_max_concurrent :: u32 where "default_fallback_max_concurrent = 512"
definition default_h2_max_concurrent_streams :: u32 where "default_h2_max_concurrent_streams = 256"
definition default_h2_max_concurrent_reset_streams :: u32 where
  "default_h2_max_concurrent_reset_streams = 50"
definition default_h2_max_pending_accept_reset_streams :: u32 where
  "default_h2_max_pending_accept_reset_streams = 20"
definition default_h2_max_local_error_reset_streams :: u32 where
  "default_h2_max_local_error_reset_streams = 1024"
definition default_auth_failure_window_secs :: u64 where "default_auth_failure_window_secs = 60"
definition default_max_auth_failures_per_window :: u32 where "default_max_auth_failures_per_window = 24"
definition default_auth_failure_cache_max_entries :: u32 where
  "default_auth_failure_cache_max_entries = 4096"
definition default_idle_timeout_secs :: u64 where "default_idle_timeout_secs = 300"
definition default_max_concurrent_flows :: u32 where "default_max_concurrent_flows = 256"
definition default_max_frame_size :: u32 where "default_max_frame_size = of_nat DEFAULT_MAX_FRAME_SIZE"
definition default_replay_window_secs :: i64 where "default_replay_window_secs = 120"
definition default_replay_cache_entries_per_credential :: nat where
  "default_replay_cache_entries_per_credential = 16384"
definition default_replay_cache_max_credentials_per_shard :: nat where
  "default_replay_cache_max_credentials_per_shard = 1024"
definition default_dns_timeout_ms :: u64 where "default_dns_timeout_ms = 5000"
definition default_udp_idle_timeout_ms :: u64 where "default_udp_idle_timeout_ms = 30000"
definition default_shaping_max_padding_bytes_per_frame :: u16 where
  "default_shaping_max_padding_bytes_per_frame = 256"
definition default_shaping_max_overhead_ratio :: f64 where
  "default_shaping_max_overhead_ratio = Fin False 1 (- 2)"
definition default_shaping_max_delay_ms :: u64 where "default_shaping_max_delay_ms = 20"
definition default_shaping_max_batch_bytes :: u32 where "default_shaping_max_batch_bytes = 65536"
definition default_cover_traffic_window_ms :: u64 where "default_cover_traffic_window_ms = 1000"
definition MAX_REPLAY_WINDOW_SECS :: i64 where "MAX_REPLAY_WINDOW_SECS = 86400"

subsection \<open>Logging\<close>

record LogConfig =
  lg_level :: bytes
  lg_redact :: bool

definition LogConfig_default :: LogConfig where
  "LogConfig_default = \<lparr>lg_level = default_log_level, lg_redact = True\<rparr>"

text \<open>
  The length of the white-space character (Unicode \<open>White_Space\<close>) that a UTF-8 string starts
  with, 0 if it starts with none; \<open>str::trim\<close> leaves nothing exactly when all characters are
  white space.
\<close>

definition whitespace_len :: "bytes \<Rightarrow> nat" where
  "whitespace_len s =
     (case s of [] \<Rightarrow> 0
      | a # r \<Rightarrow>
        if (0x09 \<le> a \<and> a \<le> 0x0D) \<or> a = 0x20 then 1
        else (case r of [] \<Rightarrow> 0
          | b # r' \<Rightarrow>
            if a = 0xC2 \<and> (b = 0x85 \<or> b = 0xA0) then 2
            else (case r' of [] \<Rightarrow> 0
              | c # _ \<Rightarrow>
                if (a = 0xE1 \<and> b = 0x9A \<and> c = 0x80)
                  \<or> (a = 0xE2 \<and> b = 0x80 \<and> ((0x80 \<le> c \<and> c \<le> 0x8A) \<or> c = 0xA8 \<or> c = 0xA9 \<or> c = 0xAF))
                  \<or> (a = 0xE2 \<and> b = 0x81 \<and> c = 0x9F)
                  \<or> (a = 0xE3 \<and> b = 0x80 \<and> c = 0x80)
                then 3 else 0)))"

function trim_is_empty :: "bytes \<Rightarrow> bool" where
  "trim_is_empty s =
     (if s = [] then True
      else if whitespace_len s = 0 then False
      else trim_is_empty (drop (whitespace_len s) s))"
  by pat_completeness auto
termination
  by (relation "measure length") auto

declare trim_is_empty.simps [simp del]

definition LogConfig_validate :: "LogConfig \<Rightarrow> unit result" where
  "LogConfig_validate c =
     fail_if (trim_is_empty (lg_level c)) (Config ''log.level must not be empty'')
     (fail_if (\<not> lg_redact c) (Config ''log.redact=false is not supported in this prototype'')
     (Ok ()))"

subsection \<open>Shaping\<close>

record ShapingConfig =
  shp_enabled :: bool
  shp_max_padding_bytes_per_frame :: u16
  shp_max_overhead_ratio :: f64
  shp_max_delay_ms :: u64
  shp_max_batch_bytes :: u32
  shp_cover_traffic :: bool
  shp_cover_traffic_operator_approved :: bool
  shp_cover_traffic_window_ms :: u64

definition ShapingConfig_default :: ShapingConfig where
  "ShapingConfig_default =
     \<lparr>shp_enabled = False,
      shp_max_padding_bytes_per_frame = default_shaping_max_padding_bytes_per_frame,
      shp_max_overhead_ratio = default_shaping_max_overhead_ratio,
      shp_max_delay_ms = default_shaping_max_delay_ms,
      shp_max_batch_bytes = default_shaping_max_batch_bytes,
      shp_cover_traffic = False,
      shp_cover_traffic_operator_approved = False,
      shp_cover_traffic_window_ms = default_cover_traffic_window_ms\<rparr>"

definition ShapingConfig_validate :: "ShapingConfig \<Rightarrow> unit result" where
  "ShapingConfig_validate c =
     fail_if (shp_max_padding_bytes_per_frame c = 0)
       (Config ''advanced.shaping.max_padding_bytes_per_frame must be greater than zero'')
     (fail_if (\<not> f64_is_finite (shp_max_overhead_ratio c)
               \<or> f64_lt_zero (shp_max_overhead_ratio c)
               \<or> f64_gt_one (shp_max_overhead_ratio c))
       (Config ''advanced.shaping.max_overhead_ratio must be between 0.0 and 1.0'')
     (fail_if (shp_max_delay_ms c > 1000)
       (Config ''advanced.shaping.max_delay_ms must be no greater than 1000'')
     (fail_if (shp_max_batch_bytes c = 0 \<or> shp_max_batch_bytes c > 1048576)
       (Config ''advanced.shaping.max_batch_bytes must be between 1 and 1048576'')
     (fail_if (shp_cover_traffic c \<and> \<not> shp_enabled c)
       (Config ''advanced.shaping.enabled must be true when cover_traffic is true'')
     (fail_if (shp_cover_traffic c \<and> \<not> shp_cover_traffic_operator_approved c)
       (Config ''advanced.shaping.cover_traffic_operator_approved must be true when cover_traffic is true'')
     (fail_if (shp_cover_traffic_window_ms c = 0 \<or> shp_cover_traffic_window_ms c > 60000)
       (Config ''advanced.shaping.cover_traffic_window_ms must be between 1 and 60000'')
     (Ok ())))))))"

subsection \<open>Stealth and CDN fronting\<close>

datatype TlsFingerprintMode = RustlsDefault | BrowserMimic

datatype CdnFrontingProvider = Cloudflare

datatype CdnFrontingCarrier = CarrierH2 | CarrierWebSocket

record CdnFrontingConfig =
  cdn_enabled :: bool
  cdn_provider :: CdnFrontingProvider
  cdn_carrier :: CdnFrontingCarrier
  cdn_trusted_tls_terminating_provider :: bool

definition CdnFrontingConfig_default :: CdnFrontingConfig where
  "CdnFrontingConfig_default =
     \<lparr>cdn_enabled = False, cdn_provider = Cloudflare, cdn_carrier = CarrierWebSocket,
      cdn_trusted_tls_terminating_provider = False\<rparr>"

definition websocket_enabled :: "CdnFrontingConfig \<Rightarrow> bool" where
  "websocket_enabled c = (cdn_enabled c \<and> cdn_carrier c = CarrierWebSocket)"

definition h2_enabled :: "CdnFrontingConfig \<Rightarrow> bool" where
  "h2_enabled c = (cdn_enabled c \<and> cdn_carrier c = CarrierH2)"

definition CdnFrontingConfig_validate :: "CdnFrontingConfig \<Rightarrow> string \<Rightarrow> bool \<Rightarrow> unit result" where
  "CdnFrontingConfig_validate c field experimental_cloudflare_ws =
     fail_if (experimental_cloudflare_ws \<and> \<not> cdn_enabled c)
       (Config (field @ ''.enabled must be true when CDN-fronted WebSocket is selected''))
     (fail_if (experimental_cloudflare_ws \<and> cdn_carrier c \<noteq> CarrierWebSocket)
       (Config (field @ ''.carrier must be web_socket when advanced.experimental_cloudflare_ws is enabled''))
     (fail_if (cdn_enabled c \<and> \<not> cdn_trusted_tls_terminating_provider c)
       (Config (field @ ''.trusted_tls_terminating_provider must be true because CDN-fronted mode terminates client TLS at the provider edge''))
     (Ok ())))"

record StealthConfig =
  stl_tls_fingerprint :: TlsFingerprintMode
  stl_active_probe_resistance :: bool
  stl_cdn_fronting :: CdnFrontingConfig

definition StealthConfig_default :: StealthConfig where
  "StealthConfig_default =
     \<lparr>stl_tls_fingerprint = RustlsDefault, stl_active_probe_resistance = True,
      stl_cdn_fronting = CdnFrontingConfig_default\<rparr>"

definition default_client_stealth :: "Build \<Rightarrow> StealthConfig" where
  "default_client_stealth b =
     (if bd_browser_tls_profile_supported b
      then StealthConfig_default\<lparr>stl_tls_fingerprint := BrowserMimic\<rparr>
      else StealthConfig_default)"

definition StealthConfig_validate ::
  "StealthConfig \<Rightarrow> string \<Rightarrow> Mode \<Rightarrow> bool \<Rightarrow> bool \<Rightarrow> unit result" where
  "StealthConfig_validate c field mode experimental_cloudflare_ws browser_mimic_supported =
     fail_if (stl_tls_fingerprint c = BrowserMimic \<and> \<not> browser_mimic_supported)
       (Config (field @ ''.tls_fingerprint=browser_mimic requires a browser TLS backend''))
     (fail_if (mode = Private \<and> \<not> stl_active_probe_resistance c)
       (Config (field @ ''.active_probe_resistance=false is not allowed in private mode''))
     (fail_if (cdn_enabled (stl_cdn_fronting c) \<and> \<not> stl_active_probe_resistance c)
       (Config (field @ ''.active_probe_resistance=false is not allowed with CDN fronting''))
     (CdnFrontingConfig_validate (stl_cdn_fronting c) (field @ ''.cdn_fronting'') experimental_cloudflare_ws)))"

datatype EchFallbackPolicy = FailClosed | AllowPlainSni

definition validate_experimental_ech :: "bool \<Rightarrow> unit result" where
  "validate_experimental_ech enabled =
     fail_if enabled
       (Config ''advanced.experimental_ech is reserved until TLS stack ECH support is implemented'')
     (Ok ())"

definition reject_retired_v1_h3 :: "bool \<Rightarrow> unit result" where
  "reject_retired_v1_h3 enabled =
     fail_if enabled (Config ''advanced.experimental_h3=true is retired for config version 1'')
     (Ok ())"

definition validate_quiche_h3 :: "Build \<Rightarrow> bool \<Rightarrow> bool \<Rightarrow> unit result" where
  "validate_quiche_h3 b enabled fronting =
     (if \<not> enabled then Ok ()
      else fail_if (\<not> bd_experimental_h3 b)
        (Config ''advanced.quiche_h3 requires the experimental-h3 build feature'')
      (fail_if fronting
        (Config ''advanced.quiche_h3 does not support TLS-terminating CDN fronting or WebSocket'')
      (Ok ())))"

subsection \<open>The advanced section of the client\<close>

record ClientAdvancedConfig =
  cad_connect_timeout_ms :: u64
  cad_idle_timeout_secs :: u64
  cad_max_concurrent_flows :: u32
  cad_padding :: bytes
  cad_udp_idle_timeout_ms :: u64
  cad_shaping :: ShapingConfig
  cad_stealth :: StealthConfig
  cad_allow_non_loopback_listeners :: bool
  cad_experimental_h3 :: bool
  cad_quiche_h3 :: bool
  cad_experimental_cloudflare_ws :: bool
  cad_experimental_ech :: bool
  cad_experimental_tun :: bool
  cad_ech_fallback_policy :: EchFallbackPolicy
  cad_crypto :: CryptoPolicyConfig

definition ClientAdvancedConfig_default :: "Build \<Rightarrow> ClientAdvancedConfig" where
  "ClientAdvancedConfig_default b =
     \<lparr>cad_connect_timeout_ms = default_connect_timeout_ms,
      cad_idle_timeout_secs = default_idle_timeout_secs,
      cad_max_concurrent_flows = default_max_concurrent_flows,
      cad_padding = default_padding,
      cad_udp_idle_timeout_ms = default_udp_idle_timeout_ms,
      cad_shaping = ShapingConfig_default,
      cad_stealth = default_client_stealth b,
      cad_allow_non_loopback_listeners = False,
      cad_experimental_h3 = False,
      cad_quiche_h3 = False,
      cad_experimental_cloudflare_ws = False,
      cad_experimental_ech = False,
      cad_experimental_tun = False,
      cad_ech_fallback_policy = FailClosed,
      cad_crypto = CryptoPolicyConfig_default\<rparr>"

definition cad_cloudflare_ws_enabled :: "ClientAdvancedConfig \<Rightarrow> bool" where
  "cad_cloudflare_ws_enabled c =
     (cad_experimental_cloudflare_ws c \<or> websocket_enabled (stl_cdn_fronting (cad_stealth c)))"

definition cad_cdn_fronted_h2_enabled :: "ClientAdvancedConfig \<Rightarrow> bool" where
  "cad_cdn_fronted_h2_enabled c = h2_enabled (stl_cdn_fronting (cad_stealth c))"

definition cad_tls_terminating_fronting_enabled :: "ClientAdvancedConfig \<Rightarrow> bool" where
  "cad_tls_terminating_fronting_enabled c =
     (cad_experimental_cloudflare_ws c \<or> cdn_enabled (stl_cdn_fronting (cad_stealth c)))"

definition ClientAdvancedConfig_validate :: "Build \<Rightarrow> ClientAdvancedConfig \<Rightarrow> Mode \<Rightarrow> unit result" where
  "ClientAdvancedConfig_validate b c mode =
     fail_if (mode = Private \<and> cad_ech_fallback_policy c = AllowPlainSni)
       (Config ''advanced.ech_fallback_policy=allow_plain_sni is not allowed in private mode'')
     (let cloudflare_ws_enabled = cad_cloudflare_ws_enabled c;
          fronting_enabled = cad_tls_terminating_fronting_enabled c in
      fail_if (mode = Stable \<and> fronting_enabled)
        (Config ''CDN fronting is not allowed in stable mode'')
      (fail_if (mode = Stable \<and> cad_experimental_tun c)
        (Config ''advanced.experimental_tun is not allowed in stable mode'')
      (fail_if (fronting_enabled \<and> cad_experimental_h3 c)
        (Config ''CDN fronting and advanced.experimental_h3 cannot both be enabled'')
      (fail_if (stl_tls_fingerprint (cad_stealth c) = BrowserMimic \<and> cloudflare_ws_enabled)
        (Config ''advanced.stealth.tls_fingerprint=browser_mimic currently supports the H2 carrier only'')
      (and_then (validate_experimental_ech (cad_experimental_ech c)) (\<lambda>_.
       and_then (StealthConfig_validate (cad_stealth c) ''advanced.stealth'' mode
                   (cad_experimental_cloudflare_ws c) (bd_browser_tls_profile_supported b)) (\<lambda>_.
       fail_if (mode = Private \<and> stl_tls_fingerprint (cad_stealth c) = RustlsDefault)
         (Config ''advanced.stealth.tls_fingerprint=rustls_default is not allowed in private mode'')
       (CryptoPolicyConfig_validate (cad_crypto c) mode))))))))"

subsection \<open>The advanced section of the server\<close>

record ServerAdvancedConfig =
  sad_idle_timeout_secs :: u64
  sad_tcp_connect_timeout_ms :: u64
  sad_handshake_timeout_ms :: u64
  sad_max_concurrent_connections :: u32
  sad_max_concurrent_connections_per_source :: u32
  sad_pre_auth_max_concurrent :: u32
  sad_fallback_max_concurrent :: u32
  sad_h2_max_concurrent_streams :: u32
  sad_h2_max_concurrent_reset_streams :: u32
  sad_h2_max_pending_accept_reset_streams :: u32
  sad_h2_max_local_error_reset_streams :: u32
  sad_auth_failure_window_secs :: u64
  sad_max_auth_failures_per_window :: u32
  sad_auth_failure_cache_max_entries :: u32
  sad_max_frame_size :: u32
  sad_udp_idle_timeout_ms :: u64
  sad_shaping :: ShapingConfig
  sad_stealth :: StealthConfig
  sad_egress :: ServerEgressPolicyConfig
  sad_experimental_h3 :: bool
  sad_quiche_h3 :: bool
  sad_experimental_cloudflare_ws :: bool
  sad_experimental_ech :: bool
  sad_crypto :: CryptoPolicyConfig

definition ServerAdvancedConfig_default :: ServerAdvancedConfig where
  "ServerAdvancedConfig_default =
     \<lparr>sad_idle_timeout_secs = default_idle_timeout_secs,
      sad_tcp_connect_timeout_ms = default_connect_timeout_ms,
      sad_handshake_timeout_ms = default_handshake_timeout_ms,
      sad_max_concurrent_connections = default_max_concurrent_connections,
      sad_max_concurrent_connections_per_source = default_max_concurrent_connections_per_source,
      sad_pre_auth_max_concurrent = default_pre_auth_max_concurrent,
      sad_fallback_max_concurrent = default_fallback_max_concurrent,
      sad_h2_max_concurrent_streams = default_h2_max_concurrent_streams,
      sad_h2_max_concurrent_reset_streams = default_h2_max_concurrent_reset_streams,
      sad_h2_max_pending_accept_reset_streams = default_h2_max_pending_accept_reset_streams,
      sad_h2_max_local_error_reset_streams = default_h2_max_local_error_reset_streams,
      sad_auth_failure_window_secs = default_auth_failure_window_secs,
      sad_max_auth_failures_per_window = default_max_auth_failures_per_window,
      sad_auth_failure_cache_max_entries = default_auth_failure_cache_max_entries,
      sad_max_frame_size = default_max_frame_size,
      sad_udp_idle_timeout_ms = default_udp_idle_timeout_ms,
      sad_shaping = ShapingConfig_default,
      sad_stealth = StealthConfig_default,
      sad_egress = ServerEgressPolicyConfig_default,
      sad_experimental_h3 = False,
      sad_quiche_h3 = False,
      sad_experimental_cloudflare_ws = False,
      sad_experimental_ech = False,
      sad_crypto = CryptoPolicyConfig_default\<rparr>"

definition sad_cloudflare_ws_enabled :: "ServerAdvancedConfig \<Rightarrow> bool" where
  "sad_cloudflare_ws_enabled c =
     (sad_experimental_cloudflare_ws c \<or> websocket_enabled (stl_cdn_fronting (sad_stealth c)))"

definition sad_cdn_fronted_h2_enabled :: "ServerAdvancedConfig \<Rightarrow> bool" where
  "sad_cdn_fronted_h2_enabled c = h2_enabled (stl_cdn_fronting (sad_stealth c))"

definition sad_tls_terminating_fronting_enabled :: "ServerAdvancedConfig \<Rightarrow> bool" where
  "sad_tls_terminating_fronting_enabled c =
     (sad_experimental_cloudflare_ws c \<or> cdn_enabled (stl_cdn_fronting (sad_stealth c)))"

definition ServerAdvancedConfig_validate :: "ServerAdvancedConfig \<Rightarrow> Mode \<Rightarrow> unit result" where
  "ServerAdvancedConfig_validate c mode =
     fail_if (sad_max_concurrent_connections c = 0)
       (Config ''advanced.max_concurrent_connections must be greater than zero'')
     (fail_if (sad_max_concurrent_connections_per_source c = 0)
       (Config ''advanced.max_concurrent_connections_per_source must be greater than zero'')
     (fail_if (sad_pre_auth_max_concurrent c = 0)
       (Config ''advanced.pre_auth_max_concurrent must be greater than zero'')
     (fail_if (sad_fallback_max_concurrent c = 0)
       (Config ''advanced.fallback_max_concurrent must be greater than zero'')
     (fail_if (sad_h2_max_concurrent_streams c = 0)
       (Config ''advanced.h2_max_concurrent_streams must be greater than zero'')
     (fail_if (sad_h2_max_concurrent_reset_streams c = 0)
       (Config ''advanced.h2_max_concurrent_reset_streams must be greater than zero'')
     (fail_if (sad_h2_max_pending_accept_reset_streams c = 0)
       (Config ''advanced.h2_max_pending_accept_reset_streams must be greater than zero'')
     (fail_if (sad_h2_max_local_error_reset_streams c = 0)
       (Config ''advanced.h2_max_local_error_reset_streams must be greater than zero'')
     (fail_if (sad_auth_failure_window_secs c = 0)
       (Config ''advanced.auth_failure_window_secs must be greater than zero'')
     (fail_if (sad_max_auth_failures_per_window c = 0)
       (Config ''advanced.max_auth_failures_per_window must be greater than zero'')
     (fail_if (sad_auth_failure_cache_max_entries c = 0)
       (Config ''advanced.auth_failure_cache_max_entries must be greater than zero'')
     (let fronting_enabled = sad_tls_terminating_fronting_enabled c in
      fail_if (mode = Stable \<and> fronting_enabled)
        (Config ''CDN fronting is not allowed in stable mode'')
      (fail_if (mode = Stable \<and> sad_experimental_h3 c)
        (Config ''advanced.experimental_h3 is not allowed in stable mode'')
      (and_then (validate_experimental_ech (sad_experimental_ech c)) (\<lambda>_.
       and_then (StealthConfig_validate (sad_stealth c) ''advanced.stealth'' mode
                   (sad_experimental_cloudflare_ws c) False) (\<lambda>_.
       CryptoPolicyConfig_validate (sad_crypto c) mode)))))))))))))))"

end
