(* ===== verification/Node_Config.thy ===== *)
theory Node_Config
  imports Advanced_Config Auth_Config
begin

text \<open>
  The configuration documents of the client and of the server, \<open>ClientConfig\<close> and
  \<open>ServerConfig\<close> of \<open>maverick-core/src/config.rs\<close>, and their validation in the order of the
  code. RFC 3339 parsing and base64 decoding are library code, the arguments \<open>rfc\<close> and
  \<open>b64dec\<close>; paths are byte strings.
\<close>

definition starts_with_slash :: "bytes \<Rightarrow> bool" where
  "starts_with_slash s = (case s of [] \<Rightarrow> False | b # _ \<Rightarrow> b = 0x2F)"

definition validate_cert_pin :: "(bytes \<Rightarrow> bytes option) \<Rightarrow> bytes \<Rightarrow> unit result" where
  "validate_cert_pin b64dec pin =
     and_then (ok_or (Config ''cert_pin must use sha256/<base64url-no-pad>'')
                 (strip_prefix (ascii ''sha256/'') pin)) (\<lambda>encoded.
     and_then (ok_or (Config ''cert_pin is not valid base64url'') (b64dec encoded)) (\<lambda>decoded.
     fail_if (length decoded \<noteq> 32) (Config ''cert_pin SHA-256 value must be 32 bytes'')
     (Ok ())))"

definition validate_loopback_listener :: "string \<Rightarrow> SocketAddr \<Rightarrow> unit result" where
  "validate_loopback_listener field listen =
     (if ip_is_loopback (sa_ip listen) then Ok ()
      else Err (Config (field @ '' must be loopback unless advanced.allow_non_loopback_listeners is true'')))"

subsection \<open>The client\<close>

record Socks5Config =
  sk_listen :: SocketAddr

record ClientDnsConfig =
  cdns_enabled :: bool
  cdns_listen :: "SocketAddr option"

record HttpConnectConfig =
  hc_enabled :: bool
  hc_listen :: "SocketAddr option"

record LocalConfig =
  lc_socks5 :: Socks5Config
  lc_dns :: "ClientDnsConfig option"
  lc_http_connect :: "HttpConnectConfig option"

record ClientConfig =
  cfg_version :: u16
  cfg_mode :: Mode
  cfg_local :: LocalConfig
  cfg_server :: ClientServerConfig
  cfg_auth :: ClientAuthConfig
  cfg_log :: LogConfig
  cfg_advanced :: ClientAdvancedConfig

definition validate_client_quiche :: "ClientConfig \<Rightarrow> unit result" where
  "validate_client_quiche c =
     (if cad_quiche_h3 (cfg_advanced c) then
        fail_if (stl_tls_fingerprint (cad_stealth (cfg_advanced c)) \<noteq> BrowserMimic)
          (Config ''advanced.quiche_h3 requires the browser_mimic TLS profile'')
        (fail_if (case lc_dns (cfg_local c) of Some dns \<Rightarrow> cdns_enabled dns | None \<Rightarrow> False)
          (Config ''advanced.quiche_h3 does not support the local DNS listener'')
        (fail_if (cad_experimental_tun (cfg_advanced c))
          (Config ''advanced.quiche_h3 does not support TUN'')
        (Ok ())))
      else Ok ())"

definition validate_listener ::
  "ClientConfig \<Rightarrow> string \<Rightarrow> bool \<Rightarrow> SocketAddr option \<Rightarrow> unit result" where
  "validate_listener c name enabled listen =
     (if enabled then
        and_then (ok_or (Config (name @ ''.listen is required when '' @ name @ ''.enabled is true'')) listen) (\<lambda>addr.
          if \<not> cad_allow_non_loopback_listeners (cfg_advanced c)
          then validate_loopback_listener (name @ ''.listen'') addr else Ok ())
      else Ok ())"

definition ClientConfig_validate ::
  "Build \<Rightarrow> rfc3339 \<Rightarrow> (bytes \<Rightarrow> bytes option) \<Rightarrow> ClientConfig \<Rightarrow> unit result" where
  "ClientConfig_validate b rfc b64dec c =
     (let adv = cfg_advanced c; server = cfg_server c in
      fail_if (cfg_version c \<noteq> 1) (Config ''only config version 1 is supported'')
      (and_then (reject_retired_v1_h3 (cad_experimental_h3 adv)) (\<lambda>_.
       and_then (validate_quiche_h3 b (cad_quiche_h3 adv) (cad_tls_terminating_fronting_enabled adv)) (\<lambda>_.
       and_then (validate_client_quiche c) (\<lambda>_.
       and_then (LogConfig_validate (cfg_log c)) (\<lambda>_.
       and_then (SecretString_validate b64dec (csc_secret server)) (\<lambda>_.
       fail_if (csc_tunnel_path server = [] \<or> \<not> starts_with_slash (csc_tunnel_path server))
         (Config (''server.tunnel_path must start with '' @ [CHR 0x27, CHR ''/'', CHR 0x27]))
       (and_then (validate_auth_v1_string_len ''server.tunnel_path'' (csc_tunnel_path server)) (\<lambda>_.
       fail_if (csc_credential_id server = []) (Config ''server.credential_id must not be empty'')
       (and_then (validate_auth_v1_string_len ''server.credential_id'' (csc_credential_id server)) (\<lambda>_.
       and_then (ClientAuthConfig_validate rfc b64dec (cfg_auth c) (csc_credential_id server)) (\<lambda>_.
       and_then (if csc_cert_pin server \<noteq> None
                 then and_then (unwrap (csc_cert_pin server)) (\<lambda>pin. validate_cert_pin b64dec pin)
                 else Ok ()) (\<lambda>_.
       and_then (if \<not> cad_allow_non_loopback_listeners adv
                 then validate_loopback_listener ''local.socks5.listen'' (sk_listen (lc_socks5 (cfg_local c)))
                 else Ok ()) (\<lambda>_.
       fail_if (cad_connect_timeout_ms adv = 0)
         (Config ''advanced.connect_timeout_ms must be greater than zero'')
       (fail_if (cad_idle_timeout_secs adv = 0)
         (Config ''advanced.idle_timeout_secs must be greater than zero'')
       (fail_if (cad_max_concurrent_flows adv = 0)
         (Config ''advanced.max_concurrent_flows must be greater than zero'')
       (fail_if (cad_udp_idle_timeout_ms adv = 0)
         (Config ''advanced.udp_idle_timeout_ms must be greater than zero'')
       (and_then (ShapingConfig_validate (cad_shaping adv)) (\<lambda>_.
       and_then (ClientAdvancedConfig_validate b adv (cfg_mode c)) (\<lambda>_.
       and_then (validate_transport_support (cac_channel_binding (cfg_auth c))
                   (cad_tls_terminating_fronting_enabled adv) (cad_experimental_h3 adv)) (\<lambda>_.
       and_then (case lc_dns (cfg_local c) of
                   Some dns \<Rightarrow> validate_listener c ''local.dns'' (cdns_enabled dns) (cdns_listen dns)
                 | None \<Rightarrow> Ok ()) (\<lambda>_.
       case lc_http_connect (cfg_local c) of
         Some hc \<Rightarrow> validate_listener c ''local.http_connect'' (hc_enabled hc) (hc_listen hc)
       | None \<Rightarrow> Ok ()))))))))))))))))))))))"

subsection \<open>The server\<close>

record TlsConfig =
  tls_cert_path :: bytes
  tls_key_path :: bytes

record MaverickServerConfig =
  ms_tunnel_path :: bytes
  ms_mode_default :: Mode
  ms_replay_window_secs :: i64
  ms_replay_cache_entries_per_credential :: nat
  ms_replay_cache_max_credentials_per_shard :: nat
  ms_max_concurrent_flows_per_user :: u32

datatype FallbackConfig =
    FallbackStatic (static_dir: bytes) (static_index: bytes)
  | FallbackReverseProxy (proxy_upstream: bytes)

record ServerDnsConfig =
  sdns_upstream :: bytes
  sdns_timeout_ms :: u64

record MetricsConfig =
  mt_enabled :: bool
  mt_listen :: SocketAddr

record ServerConfig =
  scf_version :: u16
  scf_listen :: SocketAddr
  scf_tls :: TlsConfig
  scf_maverick :: MaverickServerConfig
  scf_users :: "UserConfig list"
  scf_fallback :: FallbackConfig
  scf_auth :: ServerAuthConfig
  scf_dns :: "ServerDnsConfig option"
  scf_metrics :: "MetricsConfig option"
  scf_log :: LogConfig
  scf_advanced :: ServerAdvancedConfig

fun validate_hints :: "PreviousCredentialConfig list \<Rightarrow> unit result" where
  "validate_hints [] = Ok ()"
| "validate_hints (p # ps) =
     and_then (validate_auth_v2_credential_hint_len ''user.rotation.previous.id'' (pc_id p)) (\<lambda>_. validate_hints ps)"

definition validate_user ::
  "rfc3339 \<Rightarrow> (bytes \<Rightarrow> bytes option) \<Rightarrow> ServerAuthConfig \<Rightarrow> UserConfig \<Rightarrow> unit result" where
  "validate_user rfc b64dec auth user =
     (let v2 = v2_enabled (sac_v2 auth) in
      fail_if (uc_id user = []) (Config ''user id must not be empty'')
      (and_then (validate_auth_v1_string_len ''user.id'' (uc_id user)) (\<lambda>_.
       and_then (if v2 then validate_auth_v2_credential_hint_len ''user.id'' (uc_id user) else Ok ()) (\<lambda>_.
       and_then (SecretString_validate b64dec (uc_secret user)) (\<lambda>_.
       fail_if (case uc_rate_limit user of Some rl \<Rightarrow> bytes_per_second rl = 0 | None \<Rightarrow> False)
         (Config ''user.rate_limit.bytes_per_second must be greater than zero'')
       (fail_if (uc_max_concurrent_flows user = Some 0)
         (Config ''user.max_concurrent_flows must be greater than zero'')
       (case uc_rotation user of
          None \<Rightarrow> Ok ()
        | Some rotation \<Rightarrow>
            and_then (validate_for_user rfc b64dec rotation (uc_id user)) (\<lambda>_.
            if v2 then
              and_then (validate_hints (ur_previous rotation)) (\<lambda>_.
              case ur_next rotation of
                Some next \<Rightarrow> validate_auth_v2_credential_hint_len ''user.rotation.next.id'' (nx_id next)
              | None \<Rightarrow> Ok ())
            else Ok ()))))))))"

fun validate_users ::
  "rfc3339 \<Rightarrow> (bytes \<Rightarrow> bytes option) \<Rightarrow> ServerAuthConfig \<Rightarrow> UserConfig list \<Rightarrow> unit result" where
  "validate_users rfc b64dec auth [] = Ok ()"
| "validate_users rfc b64dec auth (user # users) =
     and_then (validate_user rfc b64dec auth user) (\<lambda>_. validate_users rfc b64dec auth users)"

definition ServerConfig_validate ::
  "Build \<Rightarrow> rfc3339 \<Rightarrow> (bytes \<Rightarrow> bytes option) \<Rightarrow> ServerConfig \<Rightarrow> unit result" where
  "ServerConfig_validate b rfc b64dec c =
     (let adv = scf_advanced c; mv = scf_maverick c in
      fail_if (scf_version c \<noteq> 1) (Config ''only config version 1 is supported'')
      (and_then (reject_retired_v1_h3 (sad_experimental_h3 adv)) (\<lambda>_.
       and_then (validate_quiche_h3 b (sad_quiche_h3 adv) (sad_tls_terminating_fronting_enabled adv)) (\<lambda>_.
       and_then (LogConfig_validate (scf_log c)) (\<lambda>_.
       fail_if (ms_tunnel_path mv = [] \<or> \<not> starts_with_slash (ms_tunnel_path mv))
         (Config (''maverick.tunnel_path must start with '' @ [CHR 0x27, CHR ''/'', CHR 0x27]))
       (and_then (validate_auth_v1_string_len ''maverick.tunnel_path'' (ms_tunnel_path mv)) (\<lambda>_.
       fail_if (i64_le (ms_replay_window_secs mv) 0)
         (Config ''maverick.replay_window_secs must be greater than zero'')
       (fail_if (i64_lt MAX_REPLAY_WINDOW_SECS (ms_replay_window_secs mv))
         (Config ''maverick.replay_window_secs must be at most 86400'')
       (fail_if (ms_replay_cache_entries_per_credential mv = 0)
         (Config ''maverick.replay_cache_entries_per_credential must be greater than zero'')
       (fail_if (ms_replay_cache_max_credentials_per_shard mv = 0)
         (Config ''maverick.replay_cache_max_credentials_per_shard must be greater than zero'')
       (fail_if (ms_max_concurrent_flows_per_user mv = 0)
         (Config ''maverick.max_concurrent_flows_per_user must be greater than zero'')
       (fail_if (scf_users c = []) (Config ''at least one user is required'')
       (and_then (ServerAuthConfig_validate (scf_auth c)) (\<lambda>_.
       and_then (validate_users rfc b64dec (scf_auth c) (scf_users c)) (\<lambda>_.
       fail_if (case scf_dns c of Some dns \<Rightarrow> sdns_timeout_ms dns = 0 | None \<Rightarrow> False)
         (Config ''dns.timeout_ms must be greater than zero'')
       (fail_if (case scf_metrics c of
                   Some m \<Rightarrow> mt_enabled m \<and> \<not> ip_is_loopback (sa_ip (mt_listen m)) | None \<Rightarrow> False)
         (Config ''metrics.listen must be loopback when metrics are enabled'')
       (fail_if (sad_idle_timeout_secs adv = 0)
         (Config ''advanced.idle_timeout_secs must be greater than zero'')
       (fail_if (sad_tcp_connect_timeout_ms adv = 0)
         (Config ''advanced.tcp_connect_timeout_ms must be greater than zero'')
       (fail_if (sad_handshake_timeout_ms adv = 0)
         (Config ''advanced.handshake_timeout_ms must be greater than zero'')
       (fail_if (\<not> (DEFAULT_MAX_FRAME_SIZE \<le> unat (sad_max_frame_size adv)
                   \<and> unat (sad_max_frame_size adv) \<le> MAX_NEGOTIATED_FRAME_SIZE))
         (Config ''advanced.max_frame_size must be between 65536 and 1048576 bytes'')
       (fail_if (sad_udp_idle_timeout_ms adv = 0)
         (Config ''advanced.udp_idle_timeout_ms must be greater than zero'')
       (and_then (ShapingConfig_validate (sad_shaping adv)) (\<lambda>_.
       and_then (ServerAdvancedConfig_validate adv (ms_mode_default mv)) (\<lambda>_.
       validate_transport_support (sac_channel_binding (scf_auth c))
         (sad_tls_terminating_fronting_enabled adv) (sad_experimental_h3 adv)))))))))))))))))))))))))"

subsection \<open>What validation guarantees\<close>

named_theorems config_defs

declare reject_retired_v1_h3_def [config_defs] validate_quiche_h3_def [config_defs]
  validate_client_quiche_def [config_defs] LogConfig_validate_def [config_defs]
  ShapingConfig_validate_def [config_defs] validate_experimental_ech_def [config_defs]
  StealthConfig_validate_def [config_defs] CdnFrontingConfig_validate_def [config_defs]
  validate_transport_support_def [config_defs] validate_listener_def [config_defs]
  validate_loopback_listener_def [config_defs] validate_cert_pin_def [config_defs]
  ServerAuthConfig_validate_def [config_defs] ClientAuthConfig_validate_def [config_defs]
  AuthChannelBindingConfig_validate_def [config_defs]

lemma ClientAdvancedConfig_validate_OkD:
  assumes "ClientAdvancedConfig_validate b c mode = Ok ()"
  shows "mode = Private \<Longrightarrow> cad_ech_fallback_policy c = FailClosed"
    "mode = Private \<Longrightarrow> stl_tls_fingerprint (cad_stealth c) = BrowserMimic"
    "mode = Private \<Longrightarrow> stl_active_probe_resistance (cad_stealth c)"
    "mode = Stable \<Longrightarrow> \<not> cad_tls_terminating_fronting_enabled c \<and> \<not> cad_experimental_tun c"
    "stl_tls_fingerprint (cad_stealth c) = BrowserMimic \<Longrightarrow>
       bd_browser_tls_profile_supported b \<and> \<not> cad_cloudflare_ws_enabled c"
    "cad_tls_terminating_fronting_enabled c \<Longrightarrow>
       cdn_trusted_tls_terminating_provider (stl_cdn_fronting (cad_stealth c))
       \<and> stl_active_probe_resistance (cad_stealth c)"
    "\<not> cad_experimental_ech c" "cc_offered_suites (cad_crypto c) = [Tls13]"
proof -
  note d = assms [unfolded ClientAdvancedConfig_validate_def Let_def fail_if_Ok and_then_Ok_iff
      CryptoPolicyConfig_validate_Ok_iff config_defs]
  show "mode = Private \<Longrightarrow> cad_ech_fallback_policy c = FailClosed"
    using d by (cases "cad_ech_fallback_policy c") simp_all
  show "mode = Private \<Longrightarrow> stl_tls_fingerprint (cad_stealth c) = BrowserMimic"
    using d by (cases "stl_tls_fingerprint (cad_stealth c)") simp_all
  show "mode = Private \<Longrightarrow> stl_active_probe_resistance (cad_stealth c)" using d by simp
  show "mode = Stable \<Longrightarrow> \<not> cad_tls_terminating_fronting_enabled c \<and> \<not> cad_experimental_tun c"
    using d by simp
  show "stl_tls_fingerprint (cad_stealth c) = BrowserMimic \<Longrightarrow>
       bd_browser_tls_profile_supported b \<and> \<not> cad_cloudflare_ws_enabled c" using d by simp
  show "cad_tls_terminating_fronting_enabled c \<Longrightarrow>
       cdn_trusted_tls_terminating_provider (stl_cdn_fronting (cad_stealth c))
       \<and> stl_active_probe_resistance (cad_stealth c)"
    using d by (auto simp: cad_tls_terminating_fronting_enabled_def)
  show "\<not> cad_experimental_ech c" "cc_offered_suites (cad_crypto c) = [Tls13]" using d by simp_all
qed

lemma ClientConfig_validate_OkD:
  assumes "ClientConfig_validate b rfc b64dec c = Ok ()"
  shows "ClientAdvancedConfig_validate b (cfg_advanced c) (cfg_mode c) = Ok ()"
    "ClientAuthConfig_validate rfc b64dec (cfg_auth c) (csc_credential_id (cfg_server c)) = Ok ()"
    "SecretString_validate b64dec (csc_secret (cfg_server c)) = Ok ()"
    "ShapingConfig_validate (cad_shaping (cfg_advanced c)) = Ok ()"
    "csc_credential_id (cfg_server c) \<noteq> []" "length (csc_credential_id (cfg_server c)) \<le> 65535"
    "length (csc_tunnel_path (cfg_server c)) \<le> 65535"
    "\<not> cad_allow_non_loopback_listeners (cfg_advanced c) \<Longrightarrow>
       ip_is_loopback (sa_ip (sk_listen (lc_socks5 (cfg_local c))))"
    "cb_require (cac_channel_binding (cfg_auth c)) \<Longrightarrow>
       cb_enabled (cac_channel_binding (cfg_auth c)) \<and> \<not> cad_tls_terminating_fronting_enabled (cfg_advanced c)"
proof -
  note d = assms [unfolded ClientConfig_validate_def Let_def fail_if_Ok and_then_Ok_iff ex_simps simp_thms]
  show "ClientAdvancedConfig_validate b (cfg_advanced c) (cfg_mode c) = Ok ()" using d by simp
  show a: "ClientAuthConfig_validate rfc b64dec (cfg_auth c) (csc_credential_id (cfg_server c)) = Ok ()" using d by simp
  show "SecretString_validate b64dec (csc_secret (cfg_server c)) = Ok ()" using d by simp
  show "ShapingConfig_validate (cad_shaping (cfg_advanced c)) = Ok ()" using d by simp
  show "csc_credential_id (cfg_server c) \<noteq> []" "length (csc_credential_id (cfg_server c)) \<le> 65535"
    "length (csc_tunnel_path (cfg_server c)) \<le> 65535" using d by simp_all
  show "\<not> cad_allow_non_loopback_listeners (cfg_advanced c) \<Longrightarrow>
       ip_is_loopback (sa_ip (sk_listen (lc_socks5 (cfg_local c))))"
    using d by (auto simp: validate_loopback_listener_def split: if_splits)
  show "cb_require (cac_channel_binding (cfg_auth c)) \<Longrightarrow>
       cb_enabled (cac_channel_binding (cfg_auth c)) \<and> \<not> cad_tls_terminating_fronting_enabled (cfg_advanced c)"
    using d a by (auto simp: ClientAuthConfig_validate_def AuthChannelBindingConfig_validate_def
        and_then_Ok_iff validate_transport_support_def)
qed

lemma validate_listener_OkD:
  assumes "validate_listener c name True listen = Ok ()"
  shows "\<exists>addr. listen = Some addr
    \<and> (cad_allow_non_loopback_listeners (cfg_advanced c) \<or> ip_is_loopback (sa_ip addr))"
  using assms by (auto simp: config_defs and_then_Ok_iff split: if_splits)

lemma ClientConfig_validate_listeners:
  assumes "ClientConfig_validate b rfc b64dec c = Ok ()"
  shows "lc_dns (cfg_local c) = Some dns \<Longrightarrow> cdns_enabled dns \<Longrightarrow>
      validate_listener c ''local.dns'' True (cdns_listen dns) = Ok ()"
    "lc_http_connect (cfg_local c) = Some hc \<Longrightarrow> hc_enabled hc \<Longrightarrow>
      validate_listener c ''local.http_connect'' True (hc_listen hc) = Ok ()"
proof -
  note d = assms [unfolded ClientConfig_validate_def Let_def fail_if_Ok and_then_Ok_iff ex_simps simp_thms]
  show "lc_dns (cfg_local c) = Some dns \<Longrightarrow> cdns_enabled dns \<Longrightarrow>
      validate_listener c ''local.dns'' True (cdns_listen dns) = Ok ()" using d by simp
  show "lc_http_connect (cfg_local c) = Some hc \<Longrightarrow> hc_enabled hc \<Longrightarrow>
      validate_listener c ''local.http_connect'' True (hc_listen hc) = Ok ()" using d by simp
qed

lemma validate_users_Ok_iff:
  "validate_users rfc b64dec auth users = Ok () \<longleftrightarrow>
     (\<forall>u \<in> set users. validate_user rfc b64dec auth u = Ok ())"
  by (induction users) (simp_all add: and_then_Ok_iff)

lemma validate_hints_Ok_iff: "validate_hints ps = Ok () \<longleftrightarrow> (\<forall>p \<in> set ps. length (pc_id p) \<le> 512)"
  by (induction ps) (simp_all add: and_then_Ok_iff)

lemma validate_user_OkD:
  assumes "validate_user rfc b64dec auth u = Ok ()"
  shows "uc_id u \<noteq> []" "length (uc_id u) \<le> 65535" "SecretString_validate b64dec (uc_secret u) = Ok ()"
    "uc_max_concurrent_flows u \<noteq> Some 0"
    "uc_rotation u = Some r \<Longrightarrow> validate_for_user rfc b64dec r (uc_id u) = Ok ()"
    "v2_enabled (sac_v2 auth) \<Longrightarrow> length (uc_id u) \<le> 512"
    "v2_enabled (sac_v2 auth) \<Longrightarrow> uc_rotation u = Some r \<Longrightarrow> p \<in> set (ur_previous r) \<Longrightarrow> length (pc_id p) \<le> 512"
proof -
  note d = assms [unfolded validate_user_def Let_def fail_if_Ok and_then_Ok_iff ex_simps simp_thms]
  show "uc_id u \<noteq> []" "length (uc_id u) \<le> 65535" "SecretString_validate b64dec (uc_secret u) = Ok ()"
    "uc_max_concurrent_flows u \<noteq> Some 0" "v2_enabled (sac_v2 auth) \<Longrightarrow> length (uc_id u) \<le> 512"
    using d by simp_all
  show "uc_rotation u = Some r \<Longrightarrow> validate_for_user rfc b64dec r (uc_id u) = Ok ()"
    using d by (auto simp: and_then_Ok_iff)
  show "v2_enabled (sac_v2 auth) \<Longrightarrow> uc_rotation u = Some r \<Longrightarrow> p \<in> set (ur_previous r) \<Longrightarrow> length (pc_id p) \<le> 512"
    using d by (auto simp: and_then_Ok_iff validate_hints_Ok_iff)
qed

lemma ServerConfig_validate_OkD:
  assumes "ServerConfig_validate b rfc b64dec c = Ok ()"
  shows "ServerAuthConfig_validate (scf_auth c) = Ok ()"
    "u \<in> set (scf_users c) \<Longrightarrow> validate_user rfc b64dec (scf_auth c) u = Ok ()"
    "scf_users c \<noteq> []" "length (ms_tunnel_path (scf_maverick c)) \<le> 65535"
    "0 < sint (ms_replay_window_secs (scf_maverick c))"
    "sint (ms_replay_window_secs (scf_maverick c)) \<le> 86400"
    "0 < ms_replay_cache_entries_per_credential (scf_maverick c)"
    "0 < ms_replay_cache_max_credentials_per_shard (scf_maverick c)"
    "ms_max_concurrent_flows_per_user (scf_maverick c) \<noteq> 0"
    "65536 \<le> unat (sad_max_frame_size (scf_advanced c))"
    "unat (sad_max_frame_size (scf_advanced c)) \<le> 1048576"
    "ShapingConfig_validate (sad_shaping (scf_advanced c)) = Ok ()"
    "ServerAdvancedConfig_validate (scf_advanced c) (ms_mode_default (scf_maverick c)) = Ok ()"
    "scf_metrics c = Some m \<Longrightarrow> mt_enabled m \<Longrightarrow> ip_is_loopback (sa_ip (mt_listen m))"
proof -
  note d = assms [unfolded ServerConfig_validate_def Let_def fail_if_Ok and_then_Ok_iff ex_simps simp_thms
      DEFAULT_MAX_FRAME_SIZE_def MAX_NEGOTIATED_FRAME_SIZE_def MAX_REPLAY_WINDOW_SECS_def i64_le_def i64_lt_def]
  show "ServerAuthConfig_validate (scf_auth c) = Ok ()" "scf_users c \<noteq> []"
    "length (ms_tunnel_path (scf_maverick c)) \<le> 65535"
    "0 < sint (ms_replay_window_secs (scf_maverick c))"
    "sint (ms_replay_window_secs (scf_maverick c)) \<le> 86400"
    "0 < ms_replay_cache_entries_per_credential (scf_maverick c)"
    "0 < ms_replay_cache_max_credentials_per_shard (scf_maverick c)"
    "ms_max_concurrent_flows_per_user (scf_maverick c) \<noteq> 0"
    "65536 \<le> unat (sad_max_frame_size (scf_advanced c))"
    "unat (sad_max_frame_size (scf_advanced c)) \<le> 1048576"
    "ShapingConfig_validate (sad_shaping (scf_advanced c)) = Ok ()"
    "ServerAdvancedConfig_validate (scf_advanced c) (ms_mode_default (scf_maverick c)) = Ok ()"
    using d by simp_all
  show "u \<in> set (scf_users c) \<Longrightarrow> validate_user rfc b64dec (scf_auth c) u = Ok ()"
    using d by (simp add: validate_users_Ok_iff)
  show "scf_metrics c = Some m \<Longrightarrow> mt_enabled m \<Longrightarrow> ip_is_loopback (sa_ip (mt_listen m))"
    using d by simp
qed

subsection \<open>Validation is total\<close>

text \<open>An outcome that is a value or an error about the configuration.\<close>

definition config_safe :: "'a result \<Rightarrow> bool" where
  "config_safe m = (case m of Ok _ \<Rightarrow> True | Err (Config _) \<Rightarrow> True | Err InvalidSecret \<Rightarrow> True | _ \<Rightarrow> False)"

named_theorems safe_intros

lemma config_safe_basic [safe_intros]:
  "config_safe (Ok x)" "config_safe (Err (Config msg))" "config_safe (Err InvalidSecret)"
  "config_safe (ok_or (Config msg) v)" "config_safe (ok_or InvalidSecret v)"
  by (cases v; simp add: config_safe_def)+

lemma config_safe_and_then [safe_intros]:
  "config_safe m \<Longrightarrow> (\<And>x. config_safe (f x)) \<Longrightarrow> config_safe (and_then m f)"
  by (cases m) (simp_all add: config_safe_def)

lemma config_safe_fail_if [safe_intros]:
  "config_safe k \<Longrightarrow> config_safe (fail_if c (Config msg) k)" "config_safe k \<Longrightarrow> config_safe (fail_if c InvalidSecret k)"
  by (simp_all add: fail_if_def config_safe_def)

lemma config_safe_if [safe_intros]:
  "config_safe m \<Longrightarrow> config_safe k \<Longrightarrow> config_safe (if c then m else k)"
  by simp

lemma config_safe_option [safe_intros]:
  "config_safe m \<Longrightarrow> (\<And>x. config_safe (f x)) \<Longrightarrow> config_safe (case v of None \<Rightarrow> m | Some x \<Rightarrow> f x)"
  by (cases v) simp_all

lemma config_safe_unwrap [safe_intros]:
  "(\<And>x. config_safe (f x)) \<Longrightarrow> config_safe (if v \<noteq> None then and_then (unwrap v) f else Ok x)"
  by (cases v) (simp_all add: config_safe_def)

lemma config_safe_crypto [safe_intros]: "config_safe (CryptoPolicyConfig_validate p mode)"
proof -
  have d: "config_safe (check_duplicates seen ss)" for seen ss
    by (induction ss arbitrary: seen) (auto intro: safe_intros)
  show ?thesis unfolding CryptoPolicyConfig_validate_def check_statuses_cases by (intro safe_intros d)
qed

lemma config_safe_auth [safe_intros]:
  "config_safe (validate_auth_v1_string_len f v)" "config_safe (validate_auth_v2_credential_hint_len f v)"
  "config_safe (SecretString_validate b64dec secret)" "config_safe (parse_rfc3339 rfc f v)"
  "config_safe (parse_auth_epoch v)" "config_safe (AuthChannelBindingConfig_validate cb)"
  "config_safe (validate_transport_support cb fronting h3)"
  by (unfold validate_auth_v1_string_len_def validate_auth_v2_credential_hint_len_def
      SecretString_validate_def parse_rfc3339_def parse_auth_epoch_def AuthChannelBindingConfig_validate_def
      validate_transport_support_def; intro safe_intros)+

lemma config_safe_auth_v2 [safe_intros]: "config_safe (AuthV2Config_validate_server v)"
proof -
  have d: "config_safe (epochs_distinct seen es)" for seen es
    by (induction es arbitrary: seen) (auto intro: safe_intros)
  show ?thesis unfolding AuthV2Config_validate_server_def by (intro safe_intros d)
qed

lemma config_safe_credentials [safe_intros]:
  "config_safe (ClientAuthConfig_validate rfc b64dec ca cid)" "config_safe (ServerAuthConfig_validate sa)"
  "config_safe (PreviousCredentialConfig_validate rfc b64dec p)" "config_safe (NextCredentialConfig_validate rfc n)"
  by (unfold ClientAuthConfig_validate_def ClientCredentialRotationConfig_validate_def
      ClientNextCredentialConfig_validate_def AuthV2Config_validate_client_def ServerAuthConfig_validate_def
      PreviousCredentialConfig_validate_def NextCredentialConfig_validate_def; intro safe_intros)+

lemma config_safe_rotation [safe_intros]: "config_safe (validate_for_user rfc b64dec r uid)"
proof -
  have d: "config_safe (validate_previous rfc b64dec seen ps)" for seen ps
    by (induction ps arbitrary: seen) (auto intro: safe_intros)
  show ?thesis unfolding validate_for_user_def by (intro safe_intros d)
qed

lemma config_safe_users [safe_intros]: "config_safe (validate_users rfc b64dec auth users)"
proof -
  have d: "config_safe (validate_hints ps)" for ps
    by (induction ps) (auto intro: safe_intros)
  have "config_safe (validate_user rfc b64dec auth u)" for u
    unfolding validate_user_def Let_def by (intro safe_intros d)
  then show ?thesis by (induction users) (auto intro: safe_intros)
qed

lemma config_safe_sections [safe_intros]:
  "config_safe (reject_retired_v1_h3 h3)" "config_safe (validate_quiche_h3 b q f)"
  "config_safe (validate_client_quiche c)" "config_safe (LogConfig_validate lg)"
  "config_safe (ShapingConfig_validate sh)" "config_safe (validate_listener c name enabled listen)"
  "config_safe (validate_loopback_listener name addr)" "config_safe (validate_cert_pin b64dec pin)"
  "config_safe (ClientAdvancedConfig_validate b cadv mode)" "config_safe (ServerAdvancedConfig_validate sadv mode)"
  by (unfold config_defs ClientAdvancedConfig_validate_def ServerAdvancedConfig_validate_def Let_def; intro safe_intros)+

text \<open>
  Validation of a configuration always returns: for every client and every server document,
  whatever its fields hold, the result is acceptance, an error that names a configuration
  problem, or the rejection of a secret; it never panics (the one unwrapped option is tested
  first) and yields no other error.
\<close>

lemma config_validation_total:
  "config_safe (ClientConfig_validate b rfc b64dec c) \<and> config_safe (ServerConfig_validate b rfc b64dec s)"
  unfolding ClientConfig_validate_def ServerConfig_validate_def Let_def
  by (intro conjI safe_intros)

text \<open>
  What a validated client configuration promises about its mode. In private mode the build
  has the browser TLS profile and it is used, ECH fails closed, active-probe resistance is on and
  the WebSocket carrier is off. In stable mode there is no TLS-terminating fronting and no TUN.
  In every mode the only suite offered is TLS 1.3, fronting needs the declared trust in the
  provider, and a required channel binding excludes fronting.
\<close>

theorem client_mode_policy:
  assumes "ClientConfig_validate b rfc b64dec c = Ok ()"
  shows "(cfg_mode c = Private \<longrightarrow>
      bd_browser_tls_profile_supported b \<and> stl_tls_fingerprint (cad_stealth (cfg_advanced c)) = BrowserMimic
      \<and> cad_ech_fallback_policy (cfg_advanced c) = FailClosed
      \<and> stl_active_probe_resistance (cad_stealth (cfg_advanced c))
      \<and> \<not> cad_cloudflare_ws_enabled (cfg_advanced c))
    \<and> (cfg_mode c = Stable \<longrightarrow>
      \<not> cad_tls_terminating_fronting_enabled (cfg_advanced c) \<and> \<not> cad_experimental_tun (cfg_advanced c))
    \<and> cc_offered_suites (cad_crypto (cfg_advanced c)) = [Tls13]
    \<and> (cad_tls_terminating_fronting_enabled (cfg_advanced c) \<longrightarrow>
         cdn_trusted_tls_terminating_provider (stl_cdn_fronting (cad_stealth (cfg_advanced c)))
         \<and> \<not> cb_require (cac_channel_binding (cfg_auth c)))"
  using ClientAdvancedConfig_validate_OkD [OF ClientConfig_validate_OkD(1) [OF assms]]
    ClientConfig_validate_OkD(9) [OF assms]
  by blast

definition example_build :: Build where
  "example_build = \<lparr>bd_browser_tls_profile_supported = True, bd_experimental_h3 = False\<rparr>"

definition example_b64 :: "bytes \<Rightarrow> bytes option" where
  "example_b64 s = Some (replicate 32 0)"

definition loopback_addr :: "u16 \<Rightarrow> SocketAddr" where
  "loopback_addr port = \<lparr>sa_ip = V6 1, sa_port = port\<rparr>"

definition no_rotation :: ClientCredentialRotationConfig where
  "no_rotation = \<lparr>cr_active_epoch = None, cr_next_credential_id = None, cr_auto_switch = False, cr_next = None\<rparr>"

definition example_client_config :: "Mode \<Rightarrow> ClientConfig" where
  "example_client_config mode =
     \<lparr>cfg_version = 1, cfg_mode = mode,
      cfg_local = \<lparr>lc_socks5 = \<lparr>sk_listen = loopback_addr 1080\<rparr>,
                   lc_dns = Some \<lparr>cdns_enabled = True, cdns_listen = Some (loopback_addr 5353)\<rparr>,
                   lc_http_connect = None\<rparr>,
      cfg_server = \<lparr>csc_address = [], csc_server_name = [], csc_tunnel_path = [0x2F], csc_credential_id = [117],
                    csc_secret = PREFIX, csc_ca_cert = None, csc_cert_pin = None\<rparr>,
      cfg_auth = \<lparr>cac_channel_binding = AuthChannelBindingConfig_default,
                  cac_v2 = \<lparr>v2_enabled = False, v2_require = False, v2_accepted_epochs = []\<rparr>,
                  cac_rotation = no_rotation\<rparr>,
      cfg_log = LogConfig_default,
      cfg_advanced = ClientAdvancedConfig_default example_build\<rparr>"

lemma log_default_ok: "LogConfig_validate LogConfig_default = Ok ()"
  by (simp add: LogConfig_validate_def LogConfig_default_def default_log_level_def ascii_def
      trim_is_empty.simps whitespace_len_def)

lemma shaping_default_ok: "ShapingConfig_validate ShapingConfig_default = Ok ()"
  by (simp add: ShapingConfig_validate_def ShapingConfig_default_def
      default_shaping_max_padding_bytes_per_frame_def default_shaping_max_overhead_ratio_def
      default_shaping_max_delay_ms_def default_shaping_max_batch_bytes_def default_cover_traffic_window_ms_def)

lemma client_advanced_default_ok:
  assumes "bd_browser_tls_profile_supported b"
  shows "ClientAdvancedConfig_validate b (ClientAdvancedConfig_default b) mode = Ok ()"
  using assms
  by (simp add: ClientAdvancedConfig_validate_def ClientAdvancedConfig_default_def Let_def
      cad_cloudflare_ws_enabled_def websocket_enabled_def cad_tls_terminating_fronting_enabled_def
      default_client_stealth_def StealthConfig_default_def CdnFrontingConfig_default_def config_defs
      CryptoPolicyConfig_validate_Ok_iff CryptoPolicyConfig_default_def default_crypto_suites_def)

lemma example_client_config_ok:
  "ClientConfig_validate example_build rfc example_b64 (example_client_config mode) = Ok ()"
proof -
  have adv: "ClientAdvancedConfig_validate example_build (ClientAdvancedConfig_default example_build) mode = Ok ()"
    by (rule client_advanced_default_ok) (simp add: example_build_def)
  have auth: "ClientAuthConfig_validate rfc example_b64
      (cfg_auth (example_client_config mode)) [117] = Ok ()"
    by (simp add: example_client_config_def ClientAuthConfig_validate_def and_then_Ok_iff
        AuthChannelBindingConfig_validate_def AuthChannelBindingConfig_default_def no_rotation_def
        ClientCredentialRotationConfig_validate_def AuthV2Config_validate_client_def)
  have secret: "SecretString_validate example_b64 PREFIX = Ok ()"
    by (simp add: SecretString_validate_iff example_b64_def)
  have pick: "cad_shaping (ClientAdvancedConfig_default example_build) = ShapingConfig_default"
    "cad_experimental_h3 (ClientAdvancedConfig_default example_build) = False"
    "cad_quiche_h3 (ClientAdvancedConfig_default example_build) = False"
    "cad_connect_timeout_ms (ClientAdvancedConfig_default example_build) = 10000"
    "cad_idle_timeout_secs (ClientAdvancedConfig_default example_build) = 300"
    "cad_max_concurrent_flows (ClientAdvancedConfig_default example_build) = 256"
    "cad_udp_idle_timeout_ms (ClientAdvancedConfig_default example_build) = 30000"
    by (simp_all add: ClientAdvancedConfig_default_def default_connect_timeout_ms_def
        default_idle_timeout_secs_def default_max_concurrent_flows_def default_udp_idle_timeout_ms_def)
  show ?thesis
    using adv auth secret log_default_ok shaping_default_ok
    by (simp add: ClientConfig_validate_def Let_def and_then_Ok_iff example_client_config_def pick
        reject_retired_v1_h3_def validate_quiche_h3_def validate_client_quiche_def starts_with_slash_def
        validate_loopback_listener_def validate_transport_support_def validate_listener_def loopback_addr_def
        AuthChannelBindingConfig_default_def)
qed

theorem client_mode_policy_witness:
  "ClientConfig_validate example_build (\<lambda>_. None) example_b64 (example_client_config Private) = Ok ()
   \<and> stl_tls_fingerprint (cad_stealth (cfg_advanced (example_client_config Private))) = BrowserMimic
   \<and> cc_offered_suites (cad_crypto (cfg_advanced (example_client_config Private))) = [Tls13]"
  using client_mode_policy [OF example_client_config_ok [of "\<lambda>_. None" Private]]
    example_client_config_ok [of "\<lambda>_. None" Private]
  by (simp add: example_client_config_def)

text \<open>
  Unless the configuration allows it explicitly, a validated client listens on loopback
  addresses only: the SOCKS5 listener, and the DNS and HTTP CONNECT listeners when they are
  enabled, which then do have an address.
\<close>

theorem client_listeners_loopback:
  assumes "ClientConfig_validate b rfc b64dec c = Ok ()"
    and "\<not> cad_allow_non_loopback_listeners (cfg_advanced c)"
  shows "ip_is_loopback (sa_ip (sk_listen (lc_socks5 (cfg_local c))))
    \<and> (\<forall>dns. lc_dns (cfg_local c) = Some dns \<longrightarrow> cdns_enabled dns \<longrightarrow>
         (\<exists>addr. cdns_listen dns = Some addr \<and> ip_is_loopback (sa_ip addr)))
    \<and> (\<forall>hc. lc_http_connect (cfg_local c) = Some hc \<longrightarrow> hc_enabled hc \<longrightarrow>
         (\<exists>addr. hc_listen hc = Some addr \<and> ip_is_loopback (sa_ip addr)))"
  using ClientConfig_validate_OkD(8) [OF assms] ClientConfig_validate_listeners [OF assms(1)]
    validate_listener_OkD [of c] assms(2)
  by blast

theorem client_listeners_loopback_witness:
  "ClientConfig_validate example_build (\<lambda>_. None) example_b64 (example_client_config Auto) = Ok ()
   \<and> ip_is_loopback (sa_ip (sk_listen (lc_socks5 (cfg_local (example_client_config Auto)))))"
proof -
  have "\<not> cad_allow_non_loopback_listeners (cfg_advanced (example_client_config Auto))"
    by (simp add: example_client_config_def ClientAdvancedConfig_default_def)
  from client_listeners_loopback [OF example_client_config_ok [of "\<lambda>_. None" Auto] this]
  show ?thesis using example_client_config_ok by blast
qed

end
