(* ===== verification/Server_Auth.thy ===== *)
theory Server_Auth
  imports Auth_Hello_V2 Sharded_Replay User_Store Node_Config
begin

text \<open>
  The authentication of a tunnel by the server, \<open>maverick-server/src/server.rs\<close>: the first
  frame of a tunnel must carry a client hello of a version the policy accepts, for a credential
  of the user store, with a valid tag for the configured tunnel path and channel binding, that
  the replay caches have not seen. \<open>ServerState\<close> has the fields these functions read; the
  replay caches are behind locks, so that a call is one step of the state.
\<close>

unbundle bit_operations_syntax

record ServerState =
  st_config :: ServerConfig
  st_users :: UserStore
  st_dummy_auth_secret :: SecretString
  st_replay :: "ReplayCache list"

definition server_state :: "rfc3339 \<Rightarrow> SecretString \<Rightarrow> ServerConfig \<Rightarrow> (ServerState, string) outcome" where
  "server_state rfc dummy config =
     and_then (UserStore_new rfc (scf_users config)) (\<lambda>users.
       Ok \<lparr>st_config = config, st_users = users, st_dummy_auth_secret = dummy,
           st_replay = replay_caches (ms_replay_window_secs (scf_maverick config))
             (ms_replay_cache_entries_per_credential (scf_maverick config))
             (ms_replay_cache_max_credentials_per_shard (scf_maverick config))\<rparr>)"

datatype AuthenticatedClientAuth =
    AuthV1 (v1_client_nonce: bytes) (v1_timestamp_unix: i64)
  | AuthV2 (v2_auth_epoch: u64) (v2_client_nonce: bytes) (v2_timestamp_unix: i64)

record AuthenticatedClientHello =
  ah_credential :: CredentialMatch
  ah_auth :: AuthenticatedClientAuth
  ah_replay_key :: bytes
  ah_feature_flags_selected :: u64

definition client_nonce :: "AuthenticatedClientHello \<Rightarrow> bytes" where
  "client_nonce a = (case ah_auth a of AuthV1 n _ \<Rightarrow> n | AuthV2 _ n _ \<Rightarrow> n)"

definition timestamp_unix :: "AuthenticatedClientHello \<Rightarrow> i64" where
  "timestamp_unix a = (case ah_auth a of AuthV1 _ t \<Rightarrow> t | AuthV2 _ _ t \<Rightarrow> t)"

definition selected_client_feature_flags :: "u64 \<Rightarrow> ServerState \<Rightarrow> TlsChannelBinding option \<Rightarrow> u64 option" where
  "selected_client_feature_flags requested st channel_binding =
     (let requested_channel_binding = (requested AND FEATURE_TLS_CHANNEL_BINDING \<noteq> 0);
          policy = sac_channel_binding (scf_auth (st_config st)) in
      if cb_require policy \<and> \<not> requested_channel_binding then None
      else if \<not> requested_channel_binding then Some 0
      else if \<not> cb_enabled policy \<or> channel_binding = None then None
      else Some FEATURE_TLS_CHANNEL_BINDING)"

definition selected_channel_binding_for_flags ::
  "u64 \<Rightarrow> TlsChannelBinding option \<Rightarrow> TlsChannelBinding option" where
  "selected_channel_binding_for_flags selected channel_binding =
     (if selected AND FEATURE_TLS_CHANNEL_BINDING = 0 then None else channel_binding)"

definition payload_version :: "bytes \<Rightarrow> u16 option" where
  "payload_version input =
     (if length input < 2 then None else Some (u16_from_be (take 2 input)))"

definition verify_secret :: "ServerState \<Rightarrow> bytes \<Rightarrow> i64 \<Rightarrow> SecretString" where
  "verify_secret st credential_id now_unix =
     (case lookup_secret (st_users st) credential_id now_unix of
        Some credential \<Rightarrow> cs_secret credential
      | None \<Rightarrow> st_dummy_auth_secret st)"

definition authenticate_client_hello_v1 ::
  "Crypto \<Rightarrow> bytes \<Rightarrow> ServerState \<Rightarrow> i64 \<Rightarrow> TlsChannelBinding option \<Rightarrow> AuthenticatedClientHello option" where
  "authenticate_client_hello_v1 K input st now_unix channel_binding =
     Option.bind (to_option (ClientHello_decode input)) (\<lambda>hello.
     if ch_protocol_version hello \<noteq> PROTOCOL_VERSION then None
     else
       let secret = verify_secret st (ch_credential_id hello) now_unix in
       Option.bind (selected_client_feature_flags (ch_feature_flags hello) st channel_binding) (\<lambda>selected.
       if \<not> ClientHello_verify_with_channel_binding K hello secret (ms_tunnel_path (scf_maverick (st_config st)))
              (selected_channel_binding_for_flags selected channel_binding) then None
       else Option.bind (lookup_credential (st_users st) (ch_credential_id hello) now_unix) (\<lambda>credential.
         Some \<lparr>ah_credential = credential,
               ah_auth = AuthV1 (ch_client_nonce hello) (ch_timestamp_unix hello),
               ah_replay_key = ch_credential_id hello,
               ah_feature_flags_selected = selected\<rparr>)))"

definition v2_replay_key :: "u64 \<Rightarrow> bytes \<Rightarrow> bytes" where
  "v2_replay_key auth_epoch credential_id =
     ascii ''v2:'' @ dec (unat auth_epoch) @ ascii '':'' @ credential_id"

definition authenticate_client_hello_v2 ::
  "Crypto \<Rightarrow> bytes \<Rightarrow> ServerState \<Rightarrow> i64 \<Rightarrow> TlsChannelBinding option \<Rightarrow> AuthenticatedClientHello option" where
  "authenticate_client_hello_v2 K input st now_unix channel_binding =
     Option.bind (to_option (ClientHelloV2_decode input)) (\<lambda>hello.
     if c2_protocol_version hello \<noteq> AUTH_V2_PROTOCOL_VERSION
        \<or> c2_auth_epoch hello \<notin> set (v2_accepted_epochs (sac_v2 (scf_auth (st_config st)))) then None
     else Option.bind (from_utf8 (c2_credential_hint hello)) (\<lambda>credential_id.
       let secret = verify_secret st credential_id now_unix in
       Option.bind (selected_client_feature_flags (c2_feature_flags hello) st channel_binding) (\<lambda>selected.
       if \<not> ClientHelloV2_verify_with_channel_binding K hello secret (ms_tunnel_path (scf_maverick (st_config st)))
              (selected_channel_binding_for_flags selected channel_binding) then None
       else Option.bind (lookup_credential (st_users st) credential_id now_unix) (\<lambda>credential.
         Some \<lparr>ah_credential = credential,
               ah_auth = AuthV2 (c2_auth_epoch hello) (c2_client_nonce hello) (c2_timestamp_unix hello),
               ah_replay_key = v2_replay_key (c2_auth_epoch hello) credential_id,
               ah_feature_flags_selected = selected\<rparr>))))"

definition authenticate_client_hello ::
  "Crypto \<Rightarrow> bytes \<Rightarrow> ServerState \<Rightarrow> i64 \<Rightarrow> TlsChannelBinding option \<Rightarrow> AuthenticatedClientHello option" where
  "authenticate_client_hello K input st now_unix channel_binding =
     Option.bind (payload_version input) (\<lambda>version.
     if version = PROTOCOL_VERSION \<and> \<not> v2_require (sac_v2 (scf_auth (st_config st)))
     then authenticate_client_hello_v1 K input st now_unix channel_binding
     else if version = AUTH_V2_PROTOCOL_VERSION \<and> v2_enabled (sac_v2 (scf_auth (st_config st)))
     then authenticate_client_hello_v2 K input st now_unix channel_binding
     else None)"

definition authenticate_tunnel_frame ::
  "Crypto \<Rightarrow> (bytes \<Rightarrow> nat) \<Rightarrow> Frame \<Rightarrow> ServerState \<Rightarrow> i64 \<Rightarrow> TlsChannelBinding option
   \<Rightarrow> AuthenticatedClientHello option result \<times> ServerState" where
  "authenticate_tunnel_frame K hash frame st now_unix channel_binding =
     (if frame_type frame \<noteq> ClientHello then (Ok None, st)
      else case authenticate_client_hello K (payload frame) st now_unix channel_binding of
        None \<Rightarrow> (Ok None, st)
      | Some authenticated \<Rightarrow>
          (let (r, replay) = sharded_check check_and_insert hash (st_replay st) (ah_replay_key authenticated)
                 (client_nonce authenticated) (timestamp_unix authenticated) now_unix in
           (case r of Ok _ \<Rightarrow> Ok (Some authenticated) | Err _ \<Rightarrow> Ok None | Panic \<Rightarrow> Panic,
            st\<lparr>st_replay := replay\<rparr>)))"

definition server_hello_payload ::
  "Crypto \<Rightarrow> 'r os_rng \<Rightarrow> 'r \<Rightarrow> AuthenticatedClientHello \<Rightarrow> u32 \<Rightarrow> u32 \<Rightarrow> TlsChannelBinding option
   \<Rightarrow> bytes result \<times> 'r" where
  "server_hello_payload K os r a max_frame_size max_concurrent_flows channel_binding =
     (let nonce = client_nonce a;
          selected = selected_channel_binding_for_flags (ah_feature_flags_selected a) channel_binding;
          secret = cm_secret (ah_credential a) in
      case ah_auth a of
        AuthV1 _ _ \<Rightarrow>
          (let (h, r') = ServerHello_try_new_with_channel_binding K os r secret nonce max_frame_size
                 max_concurrent_flows (ah_feature_flags_selected a) selected in
           (map_ok ServerHello_encode h, r'))
      | AuthV2 auth_epoch _ _ \<Rightarrow>
          (let (h, r') = ServerHelloV2_try_new_with_channel_binding K os r
                 \<lparr>sp_secret = secret, sp_selected_epoch = auth_epoch, sp_client_nonce = nonce,
                  sp_max_frame_size = max_frame_size, sp_max_concurrent_flows = max_concurrent_flows,
                  sp_feature_flags_selected = ah_feature_flags_selected a,
                  sp_rotation_window_secs = 86400, sp_channel_binding = selected\<rparr> in
           (and_then h ServerHelloV2_encode, r')))"

subsection \<open>What is authentic\<close>

text \<open>
  The specification: which decoded hello is authentic at a time, for a match of the user store.
  The flags of the client decide whether its tag covers the channel binding.
\<close>

definition binding_policy_ok :: "AuthChannelBindingConfig \<Rightarrow> u64 \<Rightarrow> TlsChannelBinding option \<Rightarrow> bool" where
  "binding_policy_ok policy fl binding =
     ((cb_require policy \<longrightarrow> wants_binding fl)
      \<and> (wants_binding fl \<longrightarrow> cb_enabled policy \<and> binding \<noteq> None))"

definition bound :: "u64 \<Rightarrow> TlsChannelBinding option \<Rightarrow> TlsChannelBinding option" where
  "bound fl binding = (if wants_binding fl then binding else None)"

definition flags_of :: "u64 \<Rightarrow> u64" where
  "flags_of fl = (if wants_binding fl then FEATURE_TLS_CHANNEL_BINDING else 0)"

definition authentic_v1 ::
  "Crypto \<Rightarrow> ServerState \<Rightarrow> i64 \<Rightarrow> TlsChannelBinding option \<Rightarrow> ClientHello \<Rightarrow> CredentialMatch \<Rightarrow> bool" where
  "authentic_v1 K st now binding h m =
     (client_hello_ok h \<and> ch_protocol_version h = 1
      \<and> \<not> v2_require (sac_v2 (scf_auth (st_config st)))
      \<and> lookup_credential (st_users st) (ch_credential_id h) now = Some m
      \<and> binding_policy_ok (sac_channel_binding (scf_auth (st_config st))) (ch_feature_flags h) binding
      \<and> ch_auth_tag h = hmac_sha256 K (cm_secret m) (client_auth_input (ClientHello_transcript h
           (ms_tunnel_path (scf_maverick (st_config st))) (bound (ch_feature_flags h) binding))))"

definition authentic_v2 ::
  "Crypto \<Rightarrow> ServerState \<Rightarrow> i64 \<Rightarrow> TlsChannelBinding option \<Rightarrow> ClientHelloV2 \<Rightarrow> CredentialMatch \<Rightarrow> bool" where
  "authentic_v2 K st now binding h m =
     (client_hello_v2_ok h \<and> c2_protocol_version h = 2
      \<and> v2_enabled (sac_v2 (scf_auth (st_config st)))
      \<and> c2_auth_epoch h \<in> set (v2_accepted_epochs (sac_v2 (scf_auth (st_config st))))
      \<and> utf8_valid (c2_credential_hint h)
      \<and> lookup_credential (st_users st) (c2_credential_hint h) now = Some m
      \<and> binding_policy_ok (sac_channel_binding (scf_auth (st_config st))) (c2_feature_flags h) binding
      \<and> c2_auth_tag h = hmac_sha256 K (auth_v2_epoch_key K (cm_secret m) (c2_auth_epoch h) AUTH_V2_CLIENT_INFO)
          (client_auth_v2_input (ClientHelloV2_transcript h
             (ms_tunnel_path (scf_maverick (st_config st))) (bound (c2_feature_flags h) binding))))"

definition accepted_v1 :: "ClientHello \<Rightarrow> CredentialMatch \<Rightarrow> AuthenticatedClientHello" where
  "accepted_v1 h m =
     \<lparr>ah_credential = m, ah_auth = AuthV1 (ch_client_nonce h) (ch_timestamp_unix h),
      ah_replay_key = ch_credential_id h, ah_feature_flags_selected = flags_of (ch_feature_flags h)\<rparr>"

definition accepted_v2 :: "ClientHelloV2 \<Rightarrow> CredentialMatch \<Rightarrow> AuthenticatedClientHello" where
  "accepted_v2 h m =
     \<lparr>ah_credential = m, ah_auth = AuthV2 (c2_auth_epoch h) (c2_client_nonce h) (c2_timestamp_unix h),
      ah_replay_key = v2_replay_key (c2_auth_epoch h) (c2_credential_hint h),
      ah_feature_flags_selected = flags_of (c2_feature_flags h)\<rparr>"

lemma feature_flag_nonzero [simp]:
  "FEATURE_TLS_CHANNEL_BINDING \<noteq> 0" "wants_binding FEATURE_TLS_CHANNEL_BINDING" "\<not> wants_binding 0"
  by (simp_all add: FEATURE_TLS_CHANNEL_BINDING_def wants_binding_def)

lemma selected_flags_Some_iff:
  "selected_client_feature_flags fl st binding = Some sel \<longleftrightarrow>
     binding_policy_ok (sac_channel_binding (scf_auth (st_config st))) fl binding \<and> sel = flags_of fl"
  by (auto simp: selected_client_feature_flags_def binding_policy_ok_def flags_of_def Let_def
      wants_binding_def split: if_splits)

lemma selected_flags_None:
  "\<not> binding_policy_ok (sac_channel_binding (scf_auth (st_config st))) fl binding \<Longrightarrow>
     selected_client_feature_flags fl st binding = None"
  using selected_flags_Some_iff [of fl st binding] by (cases "selected_client_feature_flags fl st binding") auto

lemma selected_binding_flags_of:
  "selected_channel_binding_for_flags (flags_of fl) binding = bound fl binding"
  by (simp add: selected_channel_binding_for_flags_def flags_of_def bound_def flip: wants_binding_def)

lemma selected_binding_bound:
  assumes "binding_policy_ok policy fl binding"
  shows "selected_channel_binding fl (bound fl binding) = Some (bound fl binding)"
  using assms by (auto simp: binding_policy_ok_def selected_channel_binding_def bound_def)

lemma verify_secret_match:
  "lookup_credential (st_users st) i now = Some m \<Longrightarrow> verify_secret st i now = cm_secret m"
  by (simp add: verify_secret_def lookup_secret_credential)

lemma verify_v1_bound:
  assumes "crypto_ok K" "binding_policy_ok policy (ch_feature_flags h) binding"
  shows "ClientHello_verify_with_channel_binding K h secret path (bound (ch_feature_flags h) binding) \<longleftrightarrow>
    ch_auth_tag h = hmac_sha256 K secret
      (client_auth_input (ClientHello_transcript h path (bound (ch_feature_flags h) binding)))"
  using assms(1) selected_binding_bound [OF assms(2)]
  by (auto simp: ClientHello_verify_with_channel_binding_def verify_tag_def crypto_ok_def
      client_auth_tag_def expose_secret_def)

lemma verify_v2_bound:
  assumes "crypto_ok K" "binding_policy_ok policy (c2_feature_flags h) binding" "client_hello_v2_ok h"
  shows "ClientHelloV2_verify_with_channel_binding K h secret path (bound (c2_feature_flags h) binding) \<longleftrightarrow>
    c2_auth_tag h = hmac_sha256 K (auth_v2_epoch_key K secret (c2_auth_epoch h) AUTH_V2_CLIENT_INFO)
      (client_auth_v2_input (ClientHelloV2_transcript h path (bound (c2_feature_flags h) binding)))"
  using assms(3) selected_binding_bound [OF assms(2)]
  by (simp add: ClientHelloV2_verify_iff [OF assms(1)] client_hello_v2_ok_def)

lemma ClientHelloV2_decode_bytes_iff:
  "ClientHelloV2_decode b = Ok h \<longleftrightarrow> client_hello_v2_ok h \<and> b = client_hello_v2_bytes h"
  using ClientHelloV2_decode_OkD [of b h] ClientHelloV2_decode_bytes [of h] by argo

lemma authenticate_v1_decoded:
  assumes "crypto_ok K" "\<not> v2_require (sac_v2 (scf_auth (st_config st)))" "ClientHello_decode p = Ok h"
  shows "authenticate_client_hello_v1 K p st now binding = Some a \<longleftrightarrow>
    (\<exists>m. authentic_v1 K st now binding h m \<and> a = accepted_v1 h m)"
proof -
  have ok: "client_hello_ok h" using assms(3) by (simp add: ClientHello_decode_iff)
  let ?policy = "sac_channel_binding (scf_auth (st_config st))"
  show ?thesis
  proof (cases "ch_protocol_version h = 1 \<and> binding_policy_ok ?policy (ch_feature_flags h) binding")
    case True
    then have sel: "selected_client_feature_flags (ch_feature_flags h) st binding = Some (flags_of (ch_feature_flags h))"
      by (simp add: selected_flags_Some_iff)
    have "authenticate_client_hello_v1 K p st now binding = Some a \<longleftrightarrow>
        (\<exists>m. lookup_credential (st_users st) (ch_credential_id h) now = Some m
           \<and> ch_auth_tag h = hmac_sha256 K (verify_secret st (ch_credential_id h) now)
               (client_auth_input (ClientHello_transcript h (ms_tunnel_path (scf_maverick (st_config st)))
                  (bound (ch_feature_flags h) binding)))
           \<and> a = accepted_v1 h m)"
      using True sel verify_v1_bound [OF assms(1) conjunct2 [OF True]]
      by (auto simp: authenticate_client_hello_v1_def assms(3) Let_def PROTOCOL_VERSION_def
          selected_binding_flags_of bind_eq_Some_conv accepted_v1_def)
    then show ?thesis
      using True ok assms(2) verify_secret_match [of st "ch_credential_id h" now]
      by (cases "lookup_credential (st_users st) (ch_credential_id h) now") (simp_all add: authentic_v1_def)
  next
    case False
    then have "authenticate_client_hello_v1 K p st now binding = None"
      using selected_flags_None [of st "ch_feature_flags h" binding]
      by (auto simp: authenticate_client_hello_v1_def assms(3) Let_def PROTOCOL_VERSION_def bind_eq_None_conv)
    with False show ?thesis by (auto simp: authentic_v1_def)
  qed
qed

lemma authenticate_v1_iff:
  assumes "crypto_ok K" "\<not> v2_require (sac_v2 (scf_auth (st_config st)))"
  shows "authenticate_client_hello_v1 K p st now binding = Some a \<longleftrightarrow>
    (\<exists>h m. p = ClientHello_encode h \<and> authentic_v1 K st now binding h m \<and> a = accepted_v1 h m)"
proof
  assume l: "authenticate_client_hello_v1 K p st now binding = Some a"
  then obtain h where h: "ClientHello_decode p = Ok h"
    by (auto simp: authenticate_client_hello_v1_def bind_eq_Some_conv)
  with l show "\<exists>h m. p = ClientHello_encode h \<and> authentic_v1 K st now binding h m \<and> a = accepted_v1 h m"
    using authenticate_v1_decoded [OF assms h] ClientHello_decode_iff by blast
next
  assume "\<exists>h m. p = ClientHello_encode h \<and> authentic_v1 K st now binding h m \<and> a = accepted_v1 h m"
  then obtain h m where h: "p = ClientHello_encode h" "authentic_v1 K st now binding h m" "a = accepted_v1 h m" by blast
  then have "ClientHello_decode p = Ok h" by (simp add: ClientHello_decode_iff authentic_v1_def)
  with h show "authenticate_client_hello_v1 K p st now binding = Some a"
    using authenticate_v1_decoded [OF assms] by blast
qed

lemma authenticate_v2_decoded:
  assumes "crypto_ok K" "v2_enabled (sac_v2 (scf_auth (st_config st)))" "ClientHelloV2_decode p = Ok h"
  shows "authenticate_client_hello_v2 K p st now binding = Some a \<longleftrightarrow>
    (\<exists>m. authentic_v2 K st now binding h m \<and> a = accepted_v2 h m)"
proof -
  have ok: "client_hello_v2_ok h" using assms(3) by (simp add: ClientHelloV2_decode_bytes_iff)
  let ?policy = "sac_channel_binding (scf_auth (st_config st))"
  show ?thesis
  proof (cases "c2_protocol_version h = 2 \<and> c2_auth_epoch h \<in> set (v2_accepted_epochs (sac_v2 (scf_auth (st_config st))))
      \<and> utf8_valid (c2_credential_hint h) \<and> binding_policy_ok ?policy (c2_feature_flags h) binding")
    case True
    then have sel: "selected_client_feature_flags (c2_feature_flags h) st binding = Some (flags_of (c2_feature_flags h))"
      and pol: "binding_policy_ok ?policy (c2_feature_flags h) binding"
      by (simp_all add: selected_flags_Some_iff)
    have "authenticate_client_hello_v2 K p st now binding = Some a \<longleftrightarrow>
        (\<exists>m. lookup_credential (st_users st) (c2_credential_hint h) now = Some m
           \<and> c2_auth_tag h = hmac_sha256 K
               (auth_v2_epoch_key K (verify_secret st (c2_credential_hint h) now) (c2_auth_epoch h) AUTH_V2_CLIENT_INFO)
               (client_auth_v2_input (ClientHelloV2_transcript h (ms_tunnel_path (scf_maverick (st_config st)))
                  (bound (c2_feature_flags h) binding)))
           \<and> a = accepted_v2 h m)"
      using True sel verify_v2_bound [OF assms(1) pol ok]
      by (auto simp: authenticate_client_hello_v2_def assms(3) Let_def AUTH_V2_PROTOCOL_VERSION_def
          selected_binding_flags_of bind_eq_Some_conv accepted_v2_def from_utf8_def)
    then show ?thesis
      using True ok assms(2) verify_secret_match [of st "c2_credential_hint h" now]
      by (cases "lookup_credential (st_users st) (c2_credential_hint h) now") (simp_all add: authentic_v2_def)
  next
    case False
    then have "authenticate_client_hello_v2 K p st now binding = None"
      using selected_flags_None [of st "c2_feature_flags h" binding]
      by (auto simp: authenticate_client_hello_v2_def assms(3) Let_def AUTH_V2_PROTOCOL_VERSION_def
          bind_eq_None_conv from_utf8_def)
    with False show ?thesis by (auto simp: authentic_v2_def)
  qed
qed

lemma authenticate_v2_iff:
  assumes "crypto_ok K" "v2_enabled (sac_v2 (scf_auth (st_config st)))"
  shows "authenticate_client_hello_v2 K p st now binding = Some a \<longleftrightarrow>
    (\<exists>h m. p = client_hello_v2_bytes h \<and> authentic_v2 K st now binding h m \<and> a = accepted_v2 h m)"
proof
  assume l: "authenticate_client_hello_v2 K p st now binding = Some a"
  then obtain h where h: "ClientHelloV2_decode p = Ok h"
    by (auto simp: authenticate_client_hello_v2_def bind_eq_Some_conv)
  with l show "\<exists>h m. p = client_hello_v2_bytes h \<and> authentic_v2 K st now binding h m \<and> a = accepted_v2 h m"
    using authenticate_v2_decoded [OF assms h] ClientHelloV2_decode_bytes_iff by blast
next
  assume "\<exists>h m. p = client_hello_v2_bytes h \<and> authentic_v2 K st now binding h m \<and> a = accepted_v2 h m"
  then obtain h m where h: "p = client_hello_v2_bytes h" "authentic_v2 K st now binding h m" "a = accepted_v2 h m" by blast
  then have "ClientHelloV2_decode p = Ok h" by (simp add: ClientHelloV2_decode_bytes_iff authentic_v2_def)
  with h show "authenticate_client_hello_v2 K p st now binding = Some a"
    using authenticate_v2_decoded [OF assms] by blast
qed

lemma payload_version_encode [simp]:
  "payload_version (ClientHello_encode h) = Some (ch_protocol_version h)"
  "payload_version (client_hello_v2_bytes h2) = Some (c2_protocol_version h2)"
  by (simp_all add: payload_version_def ClientHello_encode_def client_hello_v2_bytes_def)

lemma authenticate_client_hello_iff:
  assumes "crypto_ok K"
  shows "authenticate_client_hello K p st now binding = Some a \<longleftrightarrow>
    (\<exists>h m. p = ClientHello_encode h \<and> authentic_v1 K st now binding h m \<and> a = accepted_v1 h m)
    \<or> (\<exists>h m. p = client_hello_v2_bytes h \<and> authentic_v2 K st now binding h m \<and> a = accepted_v2 h m)"
    (is "_ \<longleftrightarrow> ?v1 \<or> ?v2")
proof -
  have v1: "?v1 \<Longrightarrow> payload_version p = Some 1 \<and> \<not> v2_require (sac_v2 (scf_auth (st_config st)))"
    and v2: "?v2 \<Longrightarrow> payload_version p = Some 2 \<and> v2_enabled (sac_v2 (scf_auth (st_config st)))"
    by (auto simp: authentic_v1_def authentic_v2_def)
  have l: "authenticate_client_hello K p st now binding = Some a \<longleftrightarrow>
      (payload_version p = Some 1 \<and> \<not> v2_require (sac_v2 (scf_auth (st_config st)))
         \<and> authenticate_client_hello_v1 K p st now binding = Some a)
      \<or> (payload_version p = Some 2 \<and> v2_enabled (sac_v2 (scf_auth (st_config st)))
         \<and> authenticate_client_hello_v2 K p st now binding = Some a)"
    by (cases "payload_version p")
       (auto simp: authenticate_client_hello_def PROTOCOL_VERSION_def AUTH_V2_PROTOCOL_VERSION_def)
  show ?thesis
    unfolding l using v1 v2 authenticate_v1_iff [OF assms] authenticate_v2_iff [OF assms] by metis
qed

subsection \<open>A sequence of tunnels\<close>

type_synonym tunnel_event = "Frame \<times> i64 \<times> TlsChannelBinding option"

fun run_tunnels ::
  "Crypto \<Rightarrow> (bytes \<Rightarrow> nat) \<Rightarrow> ServerState \<Rightarrow> tunnel_event list \<Rightarrow> (bytes \<times> AuthenticatedClientHello) list" where
  "run_tunnels K hash st [] = []"
| "run_tunnels K hash st ((frame, now, binding) # es) =
     (case authenticate_tunnel_frame K hash frame st now binding of
        (Ok (Some a), st') \<Rightarrow> (payload frame, a) # run_tunnels K hash st' es
      | (_, st') \<Rightarrow> run_tunnels K hash st' es)"

definition replay_triple :: "AuthenticatedClientHello \<Rightarrow> bytes \<times> bytes \<times> i64" where
  "replay_triple a = (ah_replay_key a, client_nonce a, timestamp_unix a)"

definition tunnel_call :: "Crypto \<Rightarrow> ServerState \<Rightarrow> tunnel_event \<Rightarrow> replay_call list" where
  "tunnel_call K st e =
     (case e of (frame, now, binding) \<Rightarrow>
        if frame_type frame \<noteq> ClientHello then []
        else case authenticate_client_hello K (payload frame) st now binding of
          None \<Rightarrow> []
        | Some a \<Rightarrow> [(ah_replay_key a, client_nonce a, timestamp_unix a, now)])"

lemma authenticate_ignores_replay [simp]:
  "authenticate_client_hello K p (st\<lparr>st_replay := r\<rparr>) now binding = authenticate_client_hello K p st now binding"
proof -
  have sel: "st_config (st\<lparr>st_replay := r\<rparr>) = st_config st" "st_users (st\<lparr>st_replay := r\<rparr>) = st_users st"
    "verify_secret (st\<lparr>st_replay := r\<rparr>) = verify_secret st"
    "selected_client_feature_flags fl (st\<lparr>st_replay := r\<rparr>) = selected_client_feature_flags fl st" for fl
    by (simp_all add: fun_eq_iff verify_secret_def selected_client_feature_flags_def split: option.split)
  show ?thesis
    unfolding authenticate_client_hello_def authenticate_client_hello_v1_def authenticate_client_hello_v2_def sel
    by (rule refl)
qed

lemma tunnel_call_ignores_replay [simp]: "tunnel_call K (st\<lparr>st_replay := r\<rparr>) = tunnel_call K st"
  by (rule ext) (simp add: tunnel_call_def split: prod.splits)

lemma accepted_calls_simps [simp]:
  "accepted_calls [] [] = []"
  "accepted_calls (r # rs) ((cid, n, ts, now) # calls) =
     (if r = Ok () then (cid, n, ts) # accepted_calls rs calls else accepted_calls rs calls)"
  by (simp_all add: accepted_calls_def)

lemma run_tunnels_checks:
  "map (\<lambda>(_, a). replay_triple a) (run_tunnels K hash st es) =
     (let calls = concat (map (tunnel_call K st) es) in
      accepted_calls (fst (run_checks (sharded_check check_and_insert hash) (st_replay st) calls)) calls)"
proof (induction es arbitrary: st)
  case Nil
  show ?case by simp
next
  case (Cons e es)
  obtain frame now binding where e: "e = (frame, now, binding)" by (cases e)
  show ?case
  proof (cases "tunnel_call K st e")
    case Nil
    then have "authenticate_tunnel_frame K hash frame st now binding = (Ok None, st)"
      by (auto simp: e tunnel_call_def authenticate_tunnel_frame_def split: if_splits option.splits)
    with Nil Cons show ?thesis by (simp add: e)
  next
    case (Cons call calls)
    then obtain a where a: "frame_type frame = ClientHello"
        "authenticate_client_hello K (payload frame) st now binding = Some a"
        "tunnel_call K st e = [(ah_replay_key a, client_nonce a, timestamp_unix a, now)]"
      by (auto simp: e tunnel_call_def split: if_splits option.splits)
    obtain r shards where r: "sharded_check check_and_insert hash (st_replay st) (ah_replay_key a)
        (client_nonce a) (timestamp_unix a) now = (r, shards)" by fastforce
    have ih: "map (\<lambda>(_, a). replay_triple a) (run_tunnels K hash (st\<lparr>st_replay := shards\<rparr>) es) =
       (let calls = concat (map (tunnel_call K st) es) in
        accepted_calls (fst (run_checks (sharded_check check_and_insert hash) shards calls)) calls)"
      using Cons.IH [of "st\<lparr>st_replay := shards\<rparr>"] unfolding tunnel_call_ignores_replay by simp
    show ?thesis
      using a r ih
      by (cases r) (auto simp: e authenticate_tunnel_frame_def replay_triple_def Let_def split: prod.splits)
  qed
qed

subsection \<open>Invariant of the server state\<close>

definition server_ok :: "ServerState \<Rightarrow> bool" where
  "server_ok st =
     (sharded_inv cache_inv (\<lambda>c. sint (rc_window_secs c)) (st_replay st)
      \<and> sint (rc_window_secs (hd (st_replay st))) = sint (ms_replay_window_secs (scf_maverick (st_config st))))"

lemma server_state_ok: "server_state rfc dummy config = Ok st \<Longrightarrow> server_ok st"
proof -
  assume "server_state rfc dummy config = Ok st"
  moreover have "hd (replay_caches w e m) = ReplayCache_new w e m" for w e m
    by (simp add: replay_caches_def REPLAY_CACHE_SHARDS_def hd_map)
  ultimately show ?thesis
    by (auto simp: server_ok_def server_state_def and_then_Ok_iff replay_caches_inv ReplayCache_new_def)
qed

lemma sharded_check_not_Panic:
  assumes "shards \<noteq> []"
  shows "fst (sharded_check check_and_insert hash shards key n ts now) \<noteq> Panic"
proof -
  have "fst (check_and_insert c key n ts now) \<noteq> Panic" for c
    by (auto simp: check_and_insert_def Let_def split: option.splits)
  then show ?thesis using assms by (simp add: sharded_check_nonempty Let_def case_prod_beta)
qed

lemma authenticate_tunnel_frame_cases:
  obtains (rejected) "authenticate_tunnel_frame K hash f st now binding = (Ok None, st)"
    "frame_type f \<noteq> ClientHello \<or> authenticate_client_hello K (payload f) st now binding = None"
  | (checked) a r shards where "frame_type f = ClientHello"
    "authenticate_client_hello K (payload f) st now binding = Some a"
    "sharded_check check_and_insert hash (st_replay st) (ah_replay_key a) (client_nonce a) (timestamp_unix a) now
       = (r, shards)"
    "authenticate_tunnel_frame K hash f st now binding =
       (case r of Ok _ \<Rightarrow> Ok (Some a) | Err _ \<Rightarrow> Ok None | Panic \<Rightarrow> Panic, st\<lparr>st_replay := shards\<rparr>)"
proof (cases "frame_type f \<noteq> ClientHello \<or> authenticate_client_hello K (payload f) st now binding = None")
  case True
  then show ?thesis by (intro rejected) (auto simp: authenticate_tunnel_frame_def)
next
  case False
  then obtain a where a: "authenticate_client_hello K (payload f) st now binding = Some a" by auto
  obtain r shards where "sharded_check check_and_insert hash (st_replay st) (ah_replay_key a) (client_nonce a)
      (timestamp_unix a) now = (r, shards)" by fastforce
  with a False show ?thesis by (intro checked [of a r shards]) (simp_all add: authenticate_tunnel_frame_def)
qed

lemma authenticate_step:
  assumes "server_ok st" "authenticate_tunnel_frame K hash f st now binding = (r, st')"
  shows "server_ok st'" "r \<noteq> Panic" "st_config st' = st_config st" "st_users st' = st_users st"
proof -
  have inv: "sharded_inv cache_inv (\<lambda>c. sint (rc_window_secs c)) (st_replay st)"
    and ne: "st_replay st \<noteq> []" using assms(1) by (simp_all add: server_ok_def sharded_inv_def)
  have "server_ok st' \<and> r \<noteq> Panic \<and> st_config st' = st_config st \<and> st_users st' = st_users st"
  proof (cases rule: authenticate_tunnel_frame_cases [of K hash f st now binding])
    case rejected
    then show ?thesis using assms by auto
  next
    case (checked a q shards)
    have "q \<noteq> Panic" using sharded_check_not_Panic [OF ne] checked(3) by (metis fst_conv)
    then show ?thesis
      using shards.check_inv [OF inv checked(3)] checked(4) assms
      by (auto simp: server_ok_def split: outcome.splits)
  qed
  then show "server_ok st'" "r \<noteq> Panic" "st_config st' = st_config st" "st_users st' = st_users st" by simp_all
qed

lemma authenticated_facts:
  assumes "server_ok st" "authenticate_tunnel_frame K hash f st now binding = (Ok (Some a), st')"
  shows "frame_type f = ClientHello" "authenticate_client_hello K (payload f) st now binding = Some a"
    "sint now - sint (ms_replay_window_secs (scf_maverick (st_config st))) \<le> sint (timestamp_unix a)"
    "sint (timestamp_unix a) \<le> sint now + sint (ms_replay_window_secs (scf_maverick (st_config st)))"
proof -
  have inv: "sharded_inv cache_inv (\<lambda>c. sint (rc_window_secs c)) (st_replay st)"
    using assms(1) by (simp add: server_ok_def)
  have "frame_type f = ClientHello \<and> authenticate_client_hello K (payload f) st now binding = Some a
      \<and> (\<exists>shards. sharded_check check_and_insert hash (st_replay st) (ah_replay_key a) (client_nonce a)
           (timestamp_unix a) now = (Ok (), shards))"
    using assms(2)
    by (cases rule: authenticate_tunnel_frame_cases [of K hash f st now binding])
       (auto split: outcome.splits)
  then show "frame_type f = ClientHello" "authenticate_client_hello K (payload f) st now binding = Some a"
    "sint now - sint (ms_replay_window_secs (scf_maverick (st_config st))) \<le> sint (timestamp_unix a)"
    "sint (timestamp_unix a) \<le> sint now + sint (ms_replay_window_secs (scf_maverick (st_config st)))"
    using shards.accept_window [OF inv] assms(1) by (auto simp: server_ok_def)
qed

lemma tunnel_clock:
  assumes "sorted (map (\<lambda>(_, now, _). sint now) es)"
  shows "clock_ok (concat (map (tunnel_call K st) es))"
proof -
  have now: "snd (snd (snd c)) = fst (snd e)" if "c \<in> set (tunnel_call K st e)" for c e
    using that by (auto simp: tunnel_call_def split: prod.splits if_splits option.splits)
  have one: "sorted (map (\<lambda>(_, _, _, now). sint now) (tunnel_call K st e))" for e
    by (auto simp: tunnel_call_def split: prod.splits option.splits)
  show ?thesis
    using assms
  proof (induction es)
    case (Cons e es)
    have le: "sint (fst (snd e)) \<le> sint (fst (snd e'))" if "e' \<in> set es" for e'
      using Cons.prems that by (auto simp: case_prod_beta)
    then show ?case
      using Cons now one [of e]
      by (auto simp: clock_ok_def sorted_append case_prod_beta)
  qed (simp add: clock_ok_def)
qed

text \<open>The replay triple is a function of the bytes on the wire.\<close>

definition wire_triple :: "bytes \<Rightarrow> bytes \<times> bytes \<times> i64" where
  "wire_triple p =
     (if payload_version p = Some 1
      then (case ClientHello_decode p of
              Ok h \<Rightarrow> (ch_credential_id h, ch_client_nonce h, ch_timestamp_unix h) | _ \<Rightarrow> ([], [], 0))
      else (case ClientHelloV2_decode p of
              Ok h \<Rightarrow> (v2_replay_key (c2_auth_epoch h) (c2_credential_hint h), c2_client_nonce h, c2_timestamp_unix h)
            | _ \<Rightarrow> ([], [], 0)))"

lemma triple_of_wire:
  assumes "crypto_ok K" "authenticate_client_hello K p st now binding = Some a"
  shows "replay_triple a = wire_triple p"
proof -
  consider h m where "p = ClientHello_encode h" "authentic_v1 K st now binding h m" "a = accepted_v1 h m"
    | h m where "p = client_hello_v2_bytes h" "authentic_v2 K st now binding h m" "a = accepted_v2 h m"
    using assms(2) authenticate_client_hello_iff [OF assms(1)] by blast
  then show ?thesis
  proof cases
    case 1
    then have "ClientHello_decode p = Ok h" by (simp add: ClientHello_decode_iff authentic_v1_def)
    with 1 show ?thesis
      by (simp add: wire_triple_def replay_triple_def accepted_v1_def authentic_v1_def client_nonce_def timestamp_unix_def)
  next
    case 2
    then have "ClientHelloV2_decode p = Ok h" by (simp add: ClientHelloV2_decode_bytes_iff authentic_v2_def)
    with 2 show ?thesis
      by (simp add: wire_triple_def replay_triple_def accepted_v2_def authentic_v2_def client_nonce_def timestamp_unix_def)
  qed
qed

lemma run_tunnels_wire:
  assumes "crypto_ok K" "(p, a) \<in> set (run_tunnels K hash st es)"
  shows "replay_triple a = wire_triple p"
  using assms(2)
proof (induction es arbitrary: st)
  case (Cons e es)
  obtain frame now binding where e: "e = (frame, now, binding)" by (cases e)
  obtain r st' where step: "authenticate_tunnel_frame K hash frame st now binding = (r, st')" by fastforce
  show ?case
  proof (cases "\<exists>b. r = Ok (Some b)")
    case True
    then obtain b where b: "r = Ok (Some b)" by blast
    then have "authenticate_client_hello K (payload frame) st now binding = Some b"
      using step by (cases rule: authenticate_tunnel_frame_cases [of K hash frame st now binding])
        (auto split: outcome.splits)
    with Cons b step show ?thesis using triple_of_wire [OF assms(1)] by (auto simp: e)
  next
    case False
    with Cons step show ?thesis by (auto simp: e split: outcome.splits option.splits)
  qed
qed simp

subsection \<open>A concrete server\<close>

lemma fresh_caches_accept:
  assumes "in_window (ReplayCache_new w e m) ts now" "0 < e" "0 < m"
  shows "\<exists>shards. sharded_check check_and_insert hash (replay_caches w e m) key n ts now = (Ok (), shards)"
proof -
  have ne: "replay_caches w e m \<noteq> []" by (simp add: replay_caches_def REPLAY_CACHE_SHARDS_def)
  have "hash key mod length (replay_caches w e m) < length (replay_caches w e m)" using ne by simp
  then have c: "replay_caches w e m ! (hash key mod length (replay_caches w e m)) = ReplayCache_new w e m"
    by (simp add: replay_caches_def)
  have "fst (check_and_insert (ReplayCache_new w e m) key n ts now) = Ok ()"
    using assms(2,3) unfolding check_in_window [OF assms(1)]
    by (simp add: cleanup_def ReplayCache_new_def lookup_state_def default_state_def)
  then show ?thesis using c by (auto simp: sharded_check_nonempty [OF ne] Let_def split: prod.splits)
qed

definition peer_user :: UserConfig where
  "peer_user = \<lparr>uc_id = [117], uc_name = None, uc_secret = PREFIX, uc_enabled = True, uc_rate_limit = None,
     uc_max_concurrent_flows = None, uc_rotation = None\<rparr>"

definition example_server_config :: "AuthV2Config \<Rightarrow> ServerConfig" where
  "example_server_config v2 =
     \<lparr>scf_version = 1, scf_listen = loopback_addr 443, scf_tls = \<lparr>tls_cert_path = [], tls_key_path = []\<rparr>,
      scf_maverick = \<lparr>ms_tunnel_path = [0x2F], ms_mode_default = Auto, ms_replay_window_secs = 120,
        ms_replay_cache_entries_per_credential = 4, ms_replay_cache_max_credentials_per_shard = 4,
        ms_max_concurrent_flows_per_user = 256\<rparr>,
      scf_users = [peer_user], scf_fallback = FallbackStatic [] [],
      scf_auth = \<lparr>sac_channel_binding = AuthChannelBindingConfig_default, sac_v2 = v2\<rparr>,
      scf_dns = None, scf_metrics = None, scf_log = LogConfig_default,
      scf_advanced = ServerAdvancedConfig_default\<rparr>"

definition v2_off :: AuthV2Config where
  "v2_off = \<lparr>v2_enabled = False, v2_require = False, v2_accepted_epochs = []\<rparr>"

definition example_state :: "AuthV2Config \<Rightarrow> ServerState" where
  "example_state v2 =
     \<lparr>st_config = example_server_config v2,
      st_users = \<lparr>us_active = [[117] \<mapsto> peer_user], us_previous = Map.empty\<rparr>,
      st_dummy_auth_secret = [], st_replay = replay_caches 120 4 4\<rparr>"

lemma example_server_state: "server_state rfc [] (example_server_config v2) = Ok (example_state v2)"
  by (simp add: server_state_def example_server_config_def example_state_def UserStore_new_def peer_user_def)

lemma example_lookup:
  "lookup_credential (st_users (example_state v2)) [117] now
     = Some \<lparr>cm_user = peer_user, cm_secret = PREFIX, cm_state = CredActive\<rparr>"
  by (simp add: example_state_def lookup_credential_def peer_user_def)

definition example_hello :: ClientHello where
  "example_hello = (let h = \<lparr>ch_protocol_version = 1, ch_client_nonce = replicate 32 1, ch_timestamp_unix = 100,
       ch_credential_id = [117], ch_mode = Auto, ch_feature_flags = 0, ch_auth_tag = []\<rparr> in
     h\<lparr>ch_auth_tag := hmac_sha256 example_crypto PREFIX (client_auth_input (ClientHello_transcript h [0x2F] None))\<rparr>)"

lemma example_hello_authentic:
  "authentic_v1 example_crypto (example_state v2_off) 100 None example_hello
     \<lparr>cm_user = peer_user, cm_secret = PREFIX, cm_state = CredActive\<rparr>"
proof -
  have "utf8_valid [117]" by (rule utf8_valid_ascii) simp
  moreover have "length (hmac_sha256 example_crypto k m) = 32" for k m
    using example_crypto_ok by (simp add: crypto_ok_def)
  moreover have "ch_credential_id example_hello = [117]"
    by (simp add: example_hello_def Let_def)
  ultimately show ?thesis
    using example_lookup [of v2_off 100]
    by (simp add: authentic_v1_def client_hello_ok_def example_hello_def Let_def example_state_def
        example_server_config_def v2_off_def binding_policy_ok_def AuthChannelBindingConfig_default_def
        bound_def ClientHello_transcript_def)
qed

lemma example_accepted:
  "\<exists>st'. authenticate_tunnel_frame example_crypto hash (Frame_new ClientHello 0 0 (ClientHello_encode example_hello))
     (example_state v2_off) 100 None =
     (Ok (Some (accepted_v1 example_hello \<lparr>cm_user = peer_user, cm_secret = PREFIX, cm_state = CredActive\<rparr>)), st')"
proof -
  let ?a = "accepted_v1 example_hello \<lparr>cm_user = peer_user, cm_secret = PREFIX, cm_state = CredActive\<rparr>"
  have a: "authenticate_client_hello example_crypto (ClientHello_encode example_hello) (example_state v2_off) 100 None
      = Some ?a"
    using authenticate_client_hello_iff [OF example_crypto_ok] example_hello_authentic by blast
  have "timestamp_unix ?a = 100" by (simp add: timestamp_unix_def accepted_v1_def example_hello_def Let_def)
  moreover have "in_window (ReplayCache_new 120 4 4) 100 100"
    by (simp add: in_window_def ReplayCache_new_def I64_MIN_def I64_MAX_def)
  ultimately obtain shards where "sharded_check check_and_insert hash (replay_caches 120 4 4) (ah_replay_key ?a)
      (client_nonce ?a) (timestamp_unix ?a) 100 = (Ok (), shards)"
    using fresh_caches_accept [of 120 4 4 100 100 hash] by auto
  moreover have "st_replay (example_state v2_off) = replay_caches 120 4 4" by (simp add: example_state_def)
  ultimately show ?thesis by (simp add: authenticate_tunnel_frame_def Frame_new_def a)
qed

subsection \<open>Properties of tunnel authentication\<close>

text \<open>
  C2. The server authenticates exactly the authentic hellos. A payload is accepted, before the
  replay check, if and only if it is the encoding of a well-formed hello of a version the policy
  admits, for a credential that the user store grants at that time, under the channel binding
  policy, whose tag is the HMAC of its transcript under the secret of that credential, for the
  configured tunnel path and the binding of this connection. In particular the dummy secret used
  for unknown credentials never lets a hello through.
\<close>

theorem authenticates_exactly_authentic:
  assumes "crypto_ok K"
  shows "authenticate_client_hello K p st now binding = Some a \<longleftrightarrow>
    (\<exists>h m. p = ClientHello_encode h \<and> authentic_v1 K st now binding h m \<and> a = accepted_v1 h m)
    \<or> (\<exists>h m. p = client_hello_v2_bytes h \<and> authentic_v2 K st now binding h m \<and> a = accepted_v2 h m)"
  by (rule authenticate_client_hello_iff [OF assms])

theorem authenticates_exactly_authentic_witness:
  "crypto_ok example_crypto
   \<and> authenticate_client_hello example_crypto (ClientHello_encode example_hello) (example_state v2_off) 100 None
     = Some (accepted_v1 example_hello \<lparr>cm_user = peer_user, cm_secret = PREFIX, cm_state = CredActive\<rparr>)"
  using authenticates_exactly_authentic [OF example_crypto_ok] example_hello_authentic example_crypto_ok by blast

text \<open>
  C1. No hello is accepted twice: from a freshly started server, while the clock does not run
  backwards, in any sequence of first frames with any channel bindings, the payloads the server
  authenticates are pairwise distinct, and so are their replay keys with nonce and timestamp.
\<close>

theorem tunnels_never_replayed:
  assumes "crypto_ok K" "server_state rfc dummy config = Ok st" "sorted (map (\<lambda>(_, now, _). sint now) es)"
  shows "distinct (map fst (run_tunnels K hash st es))
    \<and> distinct (map (\<lambda>(_, a). replay_triple a) (run_tunnels K hash st es))"
proof -
  have inv: "sharded_inv cache_inv (\<lambda>c. sint (rc_window_secs c)) (st_replay st)"
    using server_state_ok [OF assms(2)] by (simp add: server_ok_def)
  have d: "distinct (map (\<lambda>(_, a). replay_triple a) (run_tunnels K hash st es))"
    unfolding run_tunnels_checks Let_def using inv tunnel_clock [OF assms(3)] by (rule shards.accepted_distinct)
  have "map (\<lambda>(_, a). replay_triple a) (run_tunnels K hash st es) = map wire_triple (map fst (run_tunnels K hash st es))"
    using run_tunnels_wire [OF assms(1)] by (auto simp: case_prod_beta)
  then have "distinct (map wire_triple (map fst (run_tunnels K hash st es)))" using d by (simp only:)
  then have "distinct (map fst (run_tunnels K hash st es))" by (rule conjunct1 [OF distinct_map [THEN iffD1]])
  with d show ?thesis by blast
qed

theorem tunnels_never_replayed_witness:
  "map fst (run_tunnels example_crypto (\<lambda>_. 0) (example_state v2_off)
     [(Frame_new ClientHello 0 0 (ClientHello_encode example_hello), 100, None),
      (Frame_new ClientHello 0 0 (ClientHello_encode example_hello), 101, None)])
   = [ClientHello_encode example_hello]"
proof -
  let ?f = "Frame_new ClientHello 0 0 (ClientHello_encode example_hello)"
  let ?es = "[(?f, 100, None), (?f, 101, None)] :: tunnel_event list"
  let ?run = "run_tunnels example_crypto (\<lambda>_. 0) (example_state v2_off)"
  have "sorted (map (\<lambda>(_, now, _). sint now) ?es)" by simp
  from tunnels_never_replayed [OF example_crypto_ok example_server_state [of "\<lambda>_. None" v2_off] this]
  have d: "distinct (map fst (?run ?es))" by blast
  obtain a st' where a: "authenticate_tunnel_frame example_crypto (\<lambda>_. 0) ?f (example_state v2_off) 100 None
      = (Ok (Some a), st')" using example_accepted by blast
  obtain r st'' where r: "authenticate_tunnel_frame example_crypto (\<lambda>_. 0) ?f st' 101 None = (r, st'')" by fastforce
  have p: "payload ?f = ClientHello_encode example_hello" by (simp add: Frame_new_def)
  show ?thesis
    using d by (auto simp: a r p split: outcome.splits option.splits)
qed

text \<open>
  C14. What an authenticated tunnel satisfies, and what every attempt keeps. Under a validated
  policy, a server with version 2 enabled accepts version 2 hellos of an accepted epoch only (no
  downgrade) and a server without it version 1 hellos only; the timestamp is inside the replay
  window; where channel binding is required the connection has one and the hello selected it;
  and with the user store of its configuration, the tunnel belongs to an enabled user of the
  configuration, under the credential the hello names, active or inside its validity window.
  Every attempt, accepted or not, returns, keeps the state invariant, and changes neither the
  configuration nor the user store.
\<close>

theorem authenticated_meets_policy:
  assumes "crypto_ok K" "server_ok st" "ServerAuthConfig_validate (scf_auth (st_config st)) = Ok ()"
    and "authenticate_tunnel_frame K hash f st now binding = (r, st')"
  shows "r \<noteq> Panic \<and> server_ok st' \<and> st_config st' = st_config st \<and> st_users st' = st_users st
    \<and> (\<forall>a. r = Ok (Some a) \<longrightarrow>
        (case ah_auth a of
           AuthV1 _ _ \<Rightarrow> \<not> v2_enabled (sac_v2 (scf_auth (st_config st)))
         | AuthV2 epoch _ _ \<Rightarrow> v2_enabled (sac_v2 (scf_auth (st_config st)))
             \<and> epoch \<in> set (v2_accepted_epochs (sac_v2 (scf_auth (st_config st)))))
        \<and> \<bar>sint (timestamp_unix a) - sint now\<bar> \<le> sint (ms_replay_window_secs (scf_maverick (st_config st)))
        \<and> (cb_require (sac_channel_binding (scf_auth (st_config st))) \<longrightarrow>
             binding \<noteq> None \<and> ah_feature_flags_selected a = FEATURE_TLS_CHANNEL_BINDING)
        \<and> (\<forall>rfc. UserStore_new rfc (scf_users (st_config st)) = Ok (st_users st) \<longrightarrow>
             (\<exists>u \<in> set (scf_users (st_config st)). \<exists>i. uc_enabled u \<and> credential_of rfc u i now (ah_credential a)
                \<and> ah_replay_key a = (case ah_auth a of AuthV1 _ _ \<Rightarrow> i | AuthV2 epoch _ _ \<Rightarrow> v2_replay_key epoch i))))"
proof -
  let ?auth = "scf_auth (st_config st)"
  have v2: "v2_enabled (sac_v2 ?auth) = v2_require (sac_v2 ?auth)"
    using assms(3) by (auto simp: ServerAuthConfig_validate_def and_then_Ok_iff AuthV2Config_validate_server_iff)
  have "(case ah_auth a of
           AuthV1 _ _ \<Rightarrow> \<not> v2_enabled (sac_v2 ?auth)
         | AuthV2 epoch _ _ \<Rightarrow> v2_enabled (sac_v2 ?auth) \<and> epoch \<in> set (v2_accepted_epochs (sac_v2 ?auth)))
      \<and> \<bar>sint (timestamp_unix a) - sint now\<bar> \<le> sint (ms_replay_window_secs (scf_maverick (st_config st)))
      \<and> (cb_require (sac_channel_binding ?auth) \<longrightarrow>
           binding \<noteq> None \<and> ah_feature_flags_selected a = FEATURE_TLS_CHANNEL_BINDING)
      \<and> (\<forall>rfc. UserStore_new rfc (scf_users (st_config st)) = Ok (st_users st) \<longrightarrow>
           (\<exists>u \<in> set (scf_users (st_config st)). \<exists>i. uc_enabled u \<and> credential_of rfc u i now (ah_credential a)
              \<and> ah_replay_key a = (case ah_auth a of AuthV1 _ _ \<Rightarrow> i | AuthV2 epoch _ _ \<Rightarrow> v2_replay_key epoch i)))"
    if "r = Ok (Some a)" for a
  proof -
    have user: "\<exists>u \<in> set (scf_users (st_config st)). \<exists>i. uc_enabled u \<and> credential_of rfc u i now m \<and> g i = g j"
      if "UserStore_new rfc (scf_users (st_config st)) = Ok (st_users st)" "lookup_credential (st_users st) j now = Some m"
      for rfc m j and g :: "bytes \<Rightarrow> bytes"
      using that lookup_credential_iff [OF that(1)] by (auto simp: credential_of_def)
    note f = authenticated_facts [OF assms(2) assms(4) [unfolded that]]
    have w: "\<bar>sint (timestamp_unix a) - sint now\<bar> \<le> sint (ms_replay_window_secs (scf_maverick (st_config st)))"
      using f(3,4) by linarith
    from f(2) authenticate_client_hello_iff [OF assms(1)]
    consider h m where "authentic_v1 K st now binding h m" "a = accepted_v1 h m"
      | h m where "authentic_v2 K st now binding h m" "a = accepted_v2 h m" by blast
    then show ?thesis
    proof cases
      case 1
      then have "ah_auth a = AuthV1 (ch_client_nonce h) (ch_timestamp_unix h)" "\<not> v2_enabled (sac_v2 ?auth)"
        "binding_policy_ok (sac_channel_binding ?auth) (ch_feature_flags h) binding"
        "ah_feature_flags_selected a = flags_of (ch_feature_flags h)"
        "lookup_credential (st_users st) (ch_credential_id h) now = Some (ah_credential a)" "ah_replay_key a = ch_credential_id h"
        using v2 by (simp_all add: authentic_v1_def accepted_v1_def)
      with w user [where g = "\<lambda>i. i"] show ?thesis by (simp add: binding_policy_ok_def flags_of_def)
    next
      case 2
      then have "ah_auth a = AuthV2 (c2_auth_epoch h) (c2_client_nonce h) (c2_timestamp_unix h)"
        "v2_enabled (sac_v2 ?auth)" "c2_auth_epoch h \<in> set (v2_accepted_epochs (sac_v2 ?auth))"
        "binding_policy_ok (sac_channel_binding ?auth) (c2_feature_flags h) binding"
        "ah_feature_flags_selected a = flags_of (c2_feature_flags h)"
        "lookup_credential (st_users st) (c2_credential_hint h) now = Some (ah_credential a)"
        "ah_replay_key a = v2_replay_key (c2_auth_epoch h) (c2_credential_hint h)"
        by (simp_all add: authentic_v2_def accepted_v2_def)
      with w user [where g = "v2_replay_key (c2_auth_epoch h)"] show ?thesis by (simp add: binding_policy_ok_def flags_of_def) metis
    qed
  qed
  then show ?thesis using authenticate_step [OF assms(2,4)] by blast
qed

theorem authenticated_meets_policy_witness:
  "\<exists>st'. authenticate_tunnel_frame example_crypto (\<lambda>_. 0)
       (Frame_new ClientHello 0 0 (ClientHello_encode example_hello)) (example_state v2_off) 100 None =
       (Ok (Some (accepted_v1 example_hello \<lparr>cm_user = peer_user, cm_secret = PREFIX, cm_state = CredActive\<rparr>)), st')
     \<and> server_ok st' \<and> (\<exists>u. u \<in> set (scf_users (st_config (example_state v2_off))) \<and> uc_enabled u
        \<and> credential_of (\<lambda>_. None) u [117] 100 \<lparr>cm_user = peer_user, cm_secret = PREFIX, cm_state = CredActive\<rparr>)"
proof -
  obtain st' where a: "authenticate_tunnel_frame example_crypto (\<lambda>_. 0)
       (Frame_new ClientHello 0 0 (ClientHello_encode example_hello)) (example_state v2_off) 100 None =
       (Ok (Some (accepted_v1 example_hello \<lparr>cm_user = peer_user, cm_secret = PREFIX, cm_state = CredActive\<rparr>)), st')"
    using example_accepted by blast
  have v: "ServerAuthConfig_validate (scf_auth (st_config (example_state v2_off))) = Ok ()"
    by (simp add: example_state_def example_server_config_def v2_off_def ServerAuthConfig_validate_def
        AuthChannelBindingConfig_validate_def AuthChannelBindingConfig_default_def AuthV2Config_validate_server_def)
  have u: "UserStore_new (\<lambda>_. None) (scf_users (st_config (example_state v2_off))) = Ok (st_users (example_state v2_off))"
    by (simp add: example_state_def example_server_config_def UserStore_new_def peer_user_def)
  have "ch_credential_id example_hello = [117]" by (simp add: example_hello_def)
  then show ?thesis
    using authenticated_meets_policy [OF example_crypto_ok
        server_state_ok [OF example_server_state [of "\<lambda>_. None" v2_off]] v a] a u
    by (auto simp: accepted_v1_def)
qed

end
