(* ===== verification/Client_Handshake.thy ===== *)
theory Client_Handshake
  imports Server_Auth
begin

text \<open>
  The client side of the tunnel handshake, \<open>ClientHandshake\<close> of
  \<open>maverick-client/src/tunnel.rs\<close>: choosing the credential, the version and the feature flags,
  building the hello, and judging the answer of the server. Then the two sides together.
\<close>

unbundle bit_operations_syntax

datatype client_error = CoreError error | Bail string

type_synonym 'a client_result = "('a, client_error) outcome"

datatype ClientHandshakeMessage = MsgV1 ClientHello | MsgV2 ClientHelloV2

record ClientHandshake =
  hs_message :: ClientHandshakeMessage
  hs_secret :: SecretString
  hs_channel_binding :: "TlsChannelBinding option"
  hs_require_binding :: bool

definition client_feature_flags :: "ClientConfig \<Rightarrow> TlsChannelBinding option \<Rightarrow> u64 client_result" where
  "client_feature_flags config channel_binding =
     (let policy = cac_channel_binding (cfg_auth config) in
      if \<not> cb_enabled policy then Ok 0
      else if channel_binding \<noteq> None then Ok FEATURE_TLS_CHANNEL_BINDING
      else if cb_require policy
      then Err (Bail ''auth.channel_binding.require needs a transport with TLS channel binding support'')
      else Ok 0)"

definition tunnel_selected_channel_binding :: "u64 \<Rightarrow> TlsChannelBinding option \<Rightarrow> TlsChannelBinding option" where
  "tunnel_selected_channel_binding selected channel_binding =
     (if selected AND FEATURE_TLS_CHANNEL_BINDING = 0 then None else channel_binding)"

definition has_unrequested_feature_flags :: "u64 \<Rightarrow> u64 \<Rightarrow> bool" where
  "has_unrequested_feature_flags selected requested = (selected AND NOT requested \<noteq> 0)"

definition current_unix_timestamp :: "i64 option \<Rightarrow> i64 client_result" where
  "current_unix_timestamp clock = ok_or (Bail ''system clock is before Unix epoch'') clock"

definition ClientHandshake_new ::
  "Crypto \<Rightarrow> 'r os_rng \<Rightarrow> 'r \<Rightarrow> rfc3339 \<Rightarrow> i64 option \<Rightarrow> i64 \<Rightarrow> ClientConfig \<Rightarrow> TlsChannelBinding option
   \<Rightarrow> ClientHandshake client_result \<times> 'r" where
  "ClientHandshake_new K os r rfc clock now config channel_binding =
     (case and_then (current_unix_timestamp clock) (\<lambda>unix.
             map_err CoreError (select_client_credential_at_unix rfc (cfg_server config)
               (cac_rotation (cfg_auth config)) unix)) of
        Panic \<Rightarrow> (Panic, r) | Err e \<Rightarrow> (Err e, r)
      | Ok credential \<Rightarrow>
      (case client_feature_flags config channel_binding of
         Panic \<Rightarrow> (Panic, r) | Err e \<Rightarrow> (Err e, r)
       | Ok feature_flags \<Rightarrow>
       (let binding = tunnel_selected_channel_binding feature_flags channel_binding;
            handshake = (\<lambda>m. \<lparr>hs_message = m, hs_secret = sel_secret credential,
              hs_channel_binding = channel_binding,
              hs_require_binding = cb_require (cac_channel_binding (cfg_auth config))\<rparr>) in
        if v2_enabled (cac_v2 (cfg_auth config)) then
          (case and_then (ok_or (Bail ''auth.rotation.active_epoch is required when auth.v2.enabled is true'')
                            (cr_active_epoch (cac_rotation (cfg_auth config)))) (\<lambda>active_epoch.
                  map_err CoreError (parse_auth_epoch active_epoch)) of
             Panic \<Rightarrow> (Panic, r) | Err e \<Rightarrow> (Err e, r)
           | Ok auth_epoch \<Rightarrow>
               (let (h, r') = ClientHelloV2_new_with_channel_binding K os r now
                      \<lparr>cp_credential_hint = sel_id credential, cp_secret = sel_secret credential,
                       cp_auth_epoch = auth_epoch, cp_tunnel_path = csc_tunnel_path (cfg_server config),
                       cp_mode = cfg_mode config, cp_feature_flags = feature_flags,
                       cp_rotation_flags = 0, cp_channel_binding = binding\<rparr> in
                (map_err CoreError (map_ok (\<lambda>hello. handshake (MsgV2 hello)) h), r')))
        else
          (let (h, r') = ClientHello_try_new_with_channel_binding K os r now (sel_id credential)
                 (sel_secret credential) (csc_tunnel_path (cfg_server config)) (cfg_mode config)
                 feature_flags binding in
           (map_err CoreError (map_ok (\<lambda>hello. handshake (MsgV1 hello)) h), r')))))"

definition ClientHandshake_encode :: "ClientHandshake \<Rightarrow> bytes result" where
  "ClientHandshake_encode hs =
     (case hs_message hs of MsgV1 h \<Rightarrow> Ok (ClientHello_encode h) | MsgV2 h \<Rightarrow> ClientHelloV2_encode h)"

definition verify_server_hello :: "Crypto \<Rightarrow> ClientHandshake \<Rightarrow> bytes \<Rightarrow> u32 client_result" where
  "verify_server_hello K hs input =
     (case hs_message hs of
        MsgV1 hello \<Rightarrow>
          and_then (map_err CoreError (ServerHello_decode input)) (\<lambda>s.
          fail_if (sh_protocol_version_selected s \<noteq> PROTOCOL_VERSION
              \<or> sh_max_concurrent_flows s = 0
              \<or> (hs_require_binding hs \<and> sh_feature_flags_selected s AND FEATURE_TLS_CHANNEL_BINDING = 0)
              \<or> has_unrequested_feature_flags (sh_feature_flags_selected s) (ch_feature_flags hello)
              \<or> \<not> ServerHello_verify_with_channel_binding K s (hs_secret hs) (ch_client_nonce hello)
                   (tunnel_selected_channel_binding (sh_feature_flags_selected s) (hs_channel_binding hs)))
            (Bail ''invalid ServerHello'')
          (Ok (sh_max_frame_size s)))
      | MsgV2 hello \<Rightarrow>
          and_then (map_err CoreError (ServerHelloV2_decode input)) (\<lambda>s.
          fail_if (s2_protocol_version_selected s \<noteq> AUTH_V2_PROTOCOL_VERSION
              \<or> s2_selected_epoch s \<noteq> c2_auth_epoch hello
              \<or> s2_max_concurrent_flows s = 0
              \<or> s2_rotation_window_secs s = 0
              \<or> (hs_require_binding hs \<and> s2_feature_flags_selected s AND FEATURE_TLS_CHANNEL_BINDING = 0)
              \<or> has_unrequested_feature_flags (s2_feature_flags_selected s) (c2_feature_flags hello)
              \<or> \<not> ServerHelloV2_verify_with_channel_binding K s (hs_secret hs) (c2_client_nonce hello)
                   (tunnel_selected_channel_binding (s2_feature_flags_selected s) (hs_channel_binding hs)))
            (Bail ''invalid ServerHello v2'')
          (Ok (s2_max_frame_size s))))"

definition validate_negotiated_max_frame_size :: "u32 \<Rightarrow> nat client_result" where
  "validate_negotiated_max_frame_size value =
     fail_if (unat value < DEFAULT_MAX_FRAME_SIZE)
       (Bail ''server negotiated max_frame_size below the client minimum'')
     (fail_if (unat value > MAX_NEGOTIATED_FRAME_SIZE)
       (Bail ''server negotiated max_frame_size above the client limit'')
     (Ok (unat value)))"

subsection \<open>What a handshake holds\<close>

lemma tunnel_selected_bound: "tunnel_selected_channel_binding fl b = bound fl b"
  by (simp add: tunnel_selected_channel_binding_def bound_def wants_binding_def)

lemma map_err_simps [simp]:
  "map_err f m = Ok x \<longleftrightarrow> m = Ok x" "map_err f m = Panic \<longleftrightarrow> m = Panic"
  by (cases m; simp)+

lemma client_feature_flags_Ok_iff:
  "client_feature_flags c b = Ok fl \<longleftrightarrow>
     (if cb_enabled (cac_channel_binding (cfg_auth c)) \<and> b \<noteq> None then fl = FEATURE_TLS_CHANNEL_BINDING
      else fl = 0 \<and> (cb_enabled (cac_channel_binding (cfg_auth c)) \<longrightarrow> \<not> cb_require (cac_channel_binding (cfg_auth c))))"
  by (auto simp: client_feature_flags_def Let_def)

lemma ClientHandshake_new_OkD:
  assumes "ClientHandshake_new K os r rfc clock now config binding = (Ok hs, r')"
  obtains unix sel fl where "clock = Some unix"
    "select_client_credential_at_unix rfc (cfg_server config) (cac_rotation (cfg_auth config)) unix = Ok sel"
    "client_feature_flags config binding = Ok fl" "hs_secret hs = sel_secret sel"
    "hs_channel_binding hs = binding"
    "hs_require_binding hs = cb_require (cac_channel_binding (cfg_auth config))"
    "if v2_enabled (cac_v2 (cfg_auth config)) then \<exists>h raw epoch.
        cr_active_epoch (cac_rotation (cfg_auth config)) = Some raw \<and> parse_auth_epoch raw = Ok epoch
        \<and> hs_message hs = MsgV2 h
        \<and> ClientHelloV2_new_with_channel_binding K os r now
             \<lparr>cp_credential_hint = sel_id sel, cp_secret = sel_secret sel, cp_auth_epoch = epoch,
              cp_tunnel_path = csc_tunnel_path (cfg_server config), cp_mode = cfg_mode config,
              cp_feature_flags = fl, cp_rotation_flags = 0, cp_channel_binding = bound fl binding\<rparr> = (Ok h, r')
     else \<exists>h. hs_message hs = MsgV1 h
        \<and> ClientHello_try_new_with_channel_binding K os r now (sel_id sel) (sel_secret sel)
            (csc_tunnel_path (cfg_server config)) (cfg_mode config) fl (bound fl binding) = (Ok h, r')"
proof -
  let ?cred = "and_then (current_unix_timestamp clock) (\<lambda>unix.
      map_err CoreError (select_client_credential_at_unix rfc (cfg_server config) (cac_rotation (cfg_auth config)) unix))"
  obtain sel where sel: "?cred = Ok sel"
    using assms by (cases ?cred) (simp_all add: ClientHandshake_new_def)
  then obtain unix where unix: "clock = Some unix"
    "select_client_credential_at_unix rfc (cfg_server config) (cac_rotation (cfg_auth config)) unix = Ok sel"
    by (auto simp: and_then_Ok_iff current_unix_timestamp_def)
  obtain fl where fl: "client_feature_flags config binding = Ok fl"
    using assms sel by (cases "client_feature_flags config binding") (simp_all add: ClientHandshake_new_def)
  note d = assms [unfolded ClientHandshake_new_def sel outcome.case fl Let_def tunnel_selected_bound]
  show ?thesis
  proof (cases "v2_enabled (cac_v2 (cfg_auth config))")
    case True
    let ?ep = "and_then (ok_or (Bail ''auth.rotation.active_epoch is required when auth.v2.enabled is true'')
        (cr_active_epoch (cac_rotation (cfg_auth config)))) (\<lambda>active_epoch. map_err CoreError (parse_auth_epoch active_epoch))"
    obtain epoch where ep: "?ep = Ok epoch" using d True by (cases ?ep) simp_all
    then obtain raw where "cr_active_epoch (cac_rotation (cfg_auth config)) = Some raw" "parse_auth_epoch raw = Ok epoch"
      by (auto simp: and_then_Ok_iff)
    with d True ep unix fl show ?thesis by (intro that [of unix sel fl]) (auto split: prod.splits)
  next
    case False
    with d unix fl show ?thesis by (intro that [of unix sel fl]) (auto split: prod.splits)
  qed
qed

subsection \<open>Client and server together\<close>

text \<open>
  The two configurations fit at a time and on a connection: the server grants the credential the
  client selects, with the same secret and a name the hello can carry, for the same tunnel path
  and version, the epoch of the client is accepted, and the channel binding policies are
  compatible.
\<close>

definition peers_agree ::
  "rfc3339 \<Rightarrow> i64 \<Rightarrow> ClientConfig \<Rightarrow> ServerState \<Rightarrow> i64 \<Rightarrow> TlsChannelBinding option \<Rightarrow> CredentialMatch \<Rightarrow> bool" where
  "peers_agree rfc unix c st now binding m =
     (let cb = cac_channel_binding (cfg_auth c); sb = sac_channel_binding (scf_auth (st_config st));
          v2 = sac_v2 (scf_auth (st_config st)) in
      (\<exists>sel. select_client_credential_at_unix rfc (cfg_server c) (cac_rotation (cfg_auth c)) unix = Ok sel
         \<and> utf8_valid (sel_id sel) \<and> length (sel_id sel) \<le> 512
         \<and> lookup_credential (st_users st) (sel_id sel) now = Some m \<and> cm_secret m = sel_secret sel)
      \<and> csc_tunnel_path (cfg_server c) = ms_tunnel_path (scf_maverick (st_config st))
      \<and> v2_enabled (cac_v2 (cfg_auth c)) = v2_enabled v2 \<and> v2_enabled v2 = v2_require v2
      \<and> (v2_enabled v2 \<longrightarrow> (\<exists>raw epoch. cr_active_epoch (cac_rotation (cfg_auth c)) = Some raw
            \<and> parse_auth_epoch raw = Ok epoch \<and> epoch \<in> set (v2_accepted_epochs v2)))
      \<and> (cb_enabled cb \<and> binding \<noteq> None \<longrightarrow> cb_enabled sb)
      \<and> (cb_require sb \<longrightarrow> cb_enabled cb \<and> binding \<noteq> None))"

lemma client_flags_bound:
  assumes "client_feature_flags c binding = Ok fl"
  shows "flags_of fl = fl" "\<not> has_unrequested_feature_flags fl fl"
    "wants_binding fl \<longleftrightarrow> cb_enabled (cac_channel_binding (cfg_auth c)) \<and> binding \<noteq> None"
    "binding_consistent fl (bound fl binding)"
  using assms
  by (auto simp: client_feature_flags_Ok_iff flags_of_def has_unrequested_feature_flags_def binding_consistent_def
      bound_def split: if_splits)

lemma peers_agree_binding:
  assumes "peers_agree rfc unix c st now binding m" "client_feature_flags c binding = Ok fl"
  shows "binding_policy_ok (sac_channel_binding (scf_auth (st_config st))) fl binding"
  using assms(1) client_flags_bound(3) [OF assms(2)] by (auto simp: peers_agree_def Let_def binding_policy_ok_def)

lemma peers_agreeD:
  assumes "peers_agree rfc unix c st now binding m"
  shows "csc_tunnel_path (cfg_server c) = ms_tunnel_path (scf_maverick (st_config st))"
    "v2_enabled (sac_v2 (scf_auth (st_config st))) = v2_enabled (cac_v2 (cfg_auth c))"
    "v2_require (sac_v2 (scf_auth (st_config st))) = v2_enabled (cac_v2 (cfg_auth c))"
  using assms by (auto simp: peers_agree_def Let_def)

lemma handshake_v1:
  assumes "crypto_ok K" "rng_ok os" "peers_agree rfc unix c st now binding m"
    and "select_client_credential_at_unix rfc (cfg_server c) (cac_rotation (cfg_auth c)) unix = Ok sel"
    and "client_feature_flags c binding = Ok fl" "\<not> v2_enabled (cac_v2 (cfg_auth c))"
    and "ClientHello_try_new_with_channel_binding K os r ts (sel_id sel) (sel_secret sel)
           (csc_tunnel_path (cfg_server c)) (cfg_mode c) fl (bound fl binding) = (Ok h, r')"
  shows "authentic_v1 K st now binding h m"
proof -
  note h = ClientHello_try_new_OkD [OF assms(7)]
  have sel: "utf8_valid (sel_id sel)" "length (sel_id sel) \<le> 512"
    "lookup_credential (st_users st) (sel_id sel) now = Some m" "cm_secret m = sel_secret sel"
    using assms(3,4) by (auto simp: peers_agree_def Let_def)
  have "client_hello_ok h" by (rule ClientHello_created_ok [OF assms(1,2) sel(1,2) assms(7)])
  with h sel peers_agree_binding [OF assms(3,5)] peers_agreeD [OF assms(3)] assms(6) show ?thesis
    by (simp add: authentic_v1_def PROTOCOL_VERSION_def client_auth_tag_def expose_secret_def)
qed

lemma handshake_v2:
  assumes "crypto_ok K" "rng_ok os" "peers_agree rfc unix c st now binding m"
    and "select_client_credential_at_unix rfc (cfg_server c) (cac_rotation (cfg_auth c)) unix = Ok sel"
    and "client_feature_flags c binding = Ok fl" "v2_enabled (cac_v2 (cfg_auth c))"
    and "cr_active_epoch (cac_rotation (cfg_auth c)) = Some raw" "parse_auth_epoch raw = Ok epoch"
    and "ClientHelloV2_new_with_channel_binding K os r ts
             \<lparr>cp_credential_hint = sel_id sel, cp_secret = sel_secret sel, cp_auth_epoch = epoch,
              cp_tunnel_path = csc_tunnel_path (cfg_server c), cp_mode = cfg_mode c,
              cp_feature_flags = fl, cp_rotation_flags = 0, cp_channel_binding = bound fl binding\<rparr> = (Ok h, r')"
  shows "authentic_v2 K st now binding h m"
proof -
  note h = ClientHelloV2_new_OkD [OF assms(9), simplified]
  have sel: "utf8_valid (sel_id sel)" "length (sel_id sel) \<le> 512"
    "lookup_credential (st_users st) (sel_id sel) now = Some m" "cm_secret m = sel_secret sel"
    using assms(3,4) by (auto simp: peers_agree_def Let_def)
  have "c2_protocol_version h = 2"
    using assms(9) by (auto simp: ClientHelloV2_new_with_channel_binding_def and_then_Ok_iff
        AUTH_V2_PROTOCOL_VERSION_def split: prod.splits outcome.splits if_splits)
  moreover have "client_hello_v2_ok h" by (rule ClientHelloV2_created_ok [OF assms(1,2,9)])
  moreover have "epoch \<in> set (v2_accepted_epochs (sac_v2 (scf_auth (st_config st))))"
    using assms(3,6,7,8) by (auto simp: peers_agree_def Let_def)
  ultimately show ?thesis
    using h sel peers_agree_binding [OF assms(3,5)] peers_agreeD [OF assms(3)] assms(6)
    by (simp add: authentic_v2_def client_auth_v2_tag_Ok_iff ClientHelloV2_transcript_def)
qed

text \<open>The answer of the server to an accepted hello satisfies the client that sent it.\<close>

lemma answer_v1:
  assumes "crypto_ok K" "rng_ok os" "client_feature_flags c binding = Ok fl"
    and "binding_policy_ok policy fl binding" "ch_feature_flags h = fl" "mcf \<noteq> 0"
    and "server_hello_payload K os r (accepted_v1 h m) mfs mcf binding = (Ok out, r')"
    and "hs_message hs = MsgV1 h" "hs_secret hs = cm_secret m" "hs_channel_binding hs = binding"
    and "hs_require_binding hs \<longrightarrow> wants_binding fl"
  shows "verify_server_hello K hs out = Ok mfs"
proof -
  note fl = client_flags_bound [OF assms(3)]
  have a: "ah_auth (accepted_v1 h m) = AuthV1 (ch_client_nonce h) (ch_timestamp_unix h)"
    "client_nonce (accepted_v1 h m) = ch_client_nonce h" "ah_feature_flags_selected (accepted_v1 h m) = fl"
    "ah_credential (accepted_v1 h m) = m"
    using assms(5) fl(1) by (simp_all add: accepted_v1_def client_nonce_def)
  have b: "selected_channel_binding_for_flags fl binding = bound fl binding"
    using selected_binding_flags_of [of fl binding] fl(1) by simp
  obtain s where s: "ServerHello_try_new_with_channel_binding K os r (cm_secret m) (ch_client_nonce h) mfs mcf fl
      (bound fl binding) = (Ok s, r')" "out = ServerHello_encode s"
    using assms(7) by (auto simp: server_hello_payload_def Let_def a b split: prod.splits)
  have "ServerHello_decode out = Ok s"
    unfolding s(2) ServerHello_decode_iff using ServerHello_created_ok [OF assms(1,2) s(1)] by simp
  moreover have "ServerHello_verify_with_channel_binding K s (cm_secret m) (ch_client_nonce h) (bound fl binding)"
    using ServerHello_try_new_OkD(1,5) [OF s(1)] selected_binding_bound [OF assms(4)] assms(1)
    by (simp add: ServerHello_verify_with_channel_binding_def verify_tag_def crypto_ok_def)
  ultimately show ?thesis
    using ServerHello_try_new_OkD(2-5) [OF s(1)] fl(2) assms(5,6,8-11)
    by (simp add: verify_server_hello_def tunnel_selected_bound flip: wants_binding_def)
qed

lemma answer_v2:
  assumes "crypto_ok K" "rng_ok os" "client_feature_flags c binding = Ok fl"
    and "binding_policy_ok policy fl binding" "c2_feature_flags h = fl" "mcf \<noteq> 0"
    and "server_hello_payload K os r (accepted_v2 h m) mfs mcf binding = (Ok out, r')"
    and "hs_message hs = MsgV2 h" "hs_secret hs = cm_secret m" "hs_channel_binding hs = binding"
    and "hs_require_binding hs \<longrightarrow> wants_binding fl"
  shows "verify_server_hello K hs out = Ok mfs"
proof -
  note fl = client_flags_bound [OF assms(3)]
  let ?p = "\<lparr>sp_secret = cm_secret m, sp_selected_epoch = c2_auth_epoch h, sp_client_nonce = c2_client_nonce h,
      sp_max_frame_size = mfs, sp_max_concurrent_flows = mcf, sp_feature_flags_selected = fl,
      sp_rotation_window_secs = 86400, sp_channel_binding = bound fl binding\<rparr>"
  have a: "ah_auth (accepted_v2 h m) = AuthV2 (c2_auth_epoch h) (c2_client_nonce h) (c2_timestamp_unix h)"
    "client_nonce (accepted_v2 h m) = c2_client_nonce h" "ah_feature_flags_selected (accepted_v2 h m) = fl"
    "ah_credential (accepted_v2 h m) = m"
    using assms(5) fl(1) by (simp_all add: accepted_v2_def client_nonce_def)
  have b: "selected_channel_binding_for_flags fl binding = bound fl binding"
    using selected_binding_flags_of [of fl binding] fl(1) by simp
  obtain s where s: "ServerHelloV2_try_new_with_channel_binding K os r ?p = (Ok s, r')" "ServerHelloV2_encode s = Ok out"
    using assms(7) by (auto simp: server_hello_payload_def Let_def a b and_then_Ok_iff split: prod.splits)
  have ok: "server_hello_v2_ok s" by (rule ServerHelloV2_created_ok [OF assms(1,2) s(1)])
  have "ServerHelloV2_decode out = Ok s"
    using s(2) ServerHelloV2_decode_bytes [OF ok] by (simp add: ServerHelloV2_encode_Ok_iff)
  moreover have "ServerHelloV2_verify_with_channel_binding K s (cm_secret m) (c2_client_nonce h) (bound fl binding)"
    using ServerHelloV2_verify_created [OF assms(1) _ s(1)] fl(4) by simp
  moreover have "s2_protocol_version_selected s = 2" "s2_max_frame_size s = mfs" "s2_max_concurrent_flows s = mcf"
    "s2_rotation_window_secs s = 86400"
    using s(1) by (auto simp: ServerHelloV2_try_new_with_channel_binding_def and_then_Ok_iff
        AUTH_V2_PROTOCOL_VERSION_def split: prod.splits outcome.splits if_splits)
  ultimately show ?thesis
    using ServerHelloV2_try_new_OkD(2,3) [OF s(1)] fl(2) assms(5,6,8-11)
    by (simp add: verify_server_hello_def tunnel_selected_bound AUTH_V2_PROTOCOL_VERSION_def flip: wants_binding_def)
qed

text \<open>The flow limit the server announces in its hello.\<close>

definition session_flows :: "ServerState \<Rightarrow> CredentialMatch \<Rightarrow> u32" where
  "session_flows st m =
     (case uc_max_concurrent_flows (cm_user m) of
        Some n \<Rightarrow> n | None \<Rightarrow> ms_max_concurrent_flows_per_user (scf_maverick (st_config st)))"

lemma session_flows_pos:
  assumes "ServerConfig_validate b rfc b64dec (st_config st) = Ok ()"
    and "UserStore_new rfc (scf_users (st_config st)) = Ok (st_users st)"
    and "lookup_credential (st_users st) cid now = Some m"
  shows "session_flows st m \<noteq> 0"
proof -
  obtain u where "u \<in> set (scf_users (st_config st))" "credential_of rfc u cid now m"
    using lookup_credential_iff [OF assms(2)] assms(3) by blast
  then have "cm_user m \<in> set (scf_users (st_config st))" by (auto simp: credential_of_def)
  then have "uc_max_concurrent_flows (cm_user m) \<noteq> Some 0"
    using validate_user_OkD(4) [OF ServerConfig_validate_OkD(2) [OF assms(1)]] by blast
  then show ?thesis
    using ServerConfig_validate_OkD(9) [OF assms(1)] by (auto simp: session_flows_def split: option.splits)
qed

lemma client_hello_accepted:
  assumes "crypto_ok K" "rng_ok os" "peers_agree rfc unix c st now binding m"
    and "ClientHandshake_new K os r rfc (Some unix) ts c binding = (Ok hs, r1)"
  shows "\<exists>p a fl. ClientHandshake_encode hs = Ok p \<and> authenticate_client_hello K p st now binding = Some a
     \<and> ah_credential a = m \<and> client_feature_flags c binding = Ok fl \<and> hs_secret hs = cm_secret m
     \<and> hs_channel_binding hs = binding \<and> hs_require_binding hs = cb_require (cac_channel_binding (cfg_auth c))
     \<and> ((\<exists>h. hs_message hs = MsgV1 h \<and> a = accepted_v1 h m \<and> ch_feature_flags h = fl \<and> ch_timestamp_unix h = ts)
        \<or> (\<exists>h. hs_message hs = MsgV2 h \<and> a = accepted_v2 h m \<and> c2_feature_flags h = fl \<and> c2_timestamp_unix h = ts))"
proof -
  from assms(4) obtain unix' sel fl where n: "Some unix = Some unix'"
      "select_client_credential_at_unix rfc (cfg_server c) (cac_rotation (cfg_auth c)) unix' = Ok sel"
      "client_feature_flags c binding = Ok fl" "hs_secret hs = sel_secret sel"
      "hs_channel_binding hs = binding" "hs_require_binding hs = cb_require (cac_channel_binding (cfg_auth c))"
    and msg: "if v2_enabled (cac_v2 (cfg_auth c)) then \<exists>h raw epoch.
        cr_active_epoch (cac_rotation (cfg_auth c)) = Some raw \<and> parse_auth_epoch raw = Ok epoch
        \<and> hs_message hs = MsgV2 h
        \<and> ClientHelloV2_new_with_channel_binding K os r ts
             \<lparr>cp_credential_hint = sel_id sel, cp_secret = sel_secret sel, cp_auth_epoch = epoch,
              cp_tunnel_path = csc_tunnel_path (cfg_server c), cp_mode = cfg_mode c,
              cp_feature_flags = fl, cp_rotation_flags = 0, cp_channel_binding = bound fl binding\<rparr> = (Ok h, r1)
     else \<exists>h. hs_message hs = MsgV1 h
        \<and> ClientHello_try_new_with_channel_binding K os r ts (sel_id sel) (sel_secret sel)
            (csc_tunnel_path (cfg_server c)) (cfg_mode c) fl (bound fl binding) = (Ok h, r1)"
    by (rule ClientHandshake_new_OkD)
  have sec: "cm_secret m = sel_secret sel" using assms(3) n(1,2) by (auto simp: peers_agree_def Let_def)
  note iff = authenticate_client_hello_iff [OF assms(1)]
  show ?thesis
  proof (cases "v2_enabled (cac_v2 (cfg_auth c))")
    case False
    then obtain h where h: "hs_message hs = MsgV1 h"
        "ClientHello_try_new_with_channel_binding K os r ts (sel_id sel) (sel_secret sel)
            (csc_tunnel_path (cfg_server c)) (cfg_mode c) fl (bound fl binding) = (Ok h, r1)" using msg by auto
    have "authentic_v1 K st now binding h m"
      using handshake_v1 [OF assms(1-3) _ n(3) False h(2)] n(1,2) by simp
    then have "authenticate_client_hello K (ClientHello_encode h) st now binding = Some (accepted_v1 h m)"
      using iff by blast
    with h(1) n(3-6) sec ClientHello_try_new_OkD(5,6) [OF h(2)] show ?thesis
      by (intro exI [of _ "ClientHello_encode h"] exI [of _ "accepted_v1 h m"])
         (simp add: ClientHandshake_encode_def, simp add: accepted_v1_def)
  next
    case True
    then obtain h raw epoch where e: "cr_active_epoch (cac_rotation (cfg_auth c)) = Some raw"
        "parse_auth_epoch raw = Ok epoch" and h: "hs_message hs = MsgV2 h"
        "ClientHelloV2_new_with_channel_binding K os r ts
             \<lparr>cp_credential_hint = sel_id sel, cp_secret = sel_secret sel, cp_auth_epoch = epoch,
              cp_tunnel_path = csc_tunnel_path (cfg_server c), cp_mode = cfg_mode c,
              cp_feature_flags = fl, cp_rotation_flags = 0, cp_channel_binding = bound fl binding\<rparr> = (Ok h, r1)"
      using msg by auto
    have au: "authentic_v2 K st now binding h m"
      using handshake_v2 [OF assms(1-3) _ n(3) True e h(2)] n(1,2) by simp
    then have "authenticate_client_hello K (client_hello_v2_bytes h) st now binding = Some (accepted_v2 h m)"
      using iff by blast
    moreover have "ClientHelloV2_encode h = Ok (client_hello_v2_bytes h)"
      using au by (simp add: ClientHelloV2_encode_Ok_iff authentic_v2_def client_hello_v2_ok_def)
    ultimately show ?thesis
      using h(1) n(3-6) sec ClientHelloV2_new_OkD(4,5) [OF h(2)]
      by (intro exI [of _ "client_hello_v2_bytes h"] exI [of _ "accepted_v2 h m"])
         (simp add: ClientHandshake_encode_def, simp add: accepted_v2_def)
  qed
qed

lemma accepted_tunnel:
  assumes "authenticate_client_hello K p st now binding = Some a"
    and "fst (sharded_check check_and_insert hash (st_replay st) (ah_replay_key a) (client_nonce a)
           (timestamp_unix a) now) = Ok u"
  shows "fst (authenticate_tunnel_frame K hash (Frame_new ClientHello 0 0 p) st now binding) = Ok (Some a)"
  using assms by (auto simp: authenticate_tunnel_frame_def Frame_new_def split: prod.splits)

subsection \<open>The handshake completes\<close>

text \<open>C3. End to end, in both versions of the handshake: between a client and a server whose
configurations validate and agree (on the credential, path, version, epoch and binding policy), the hello the
client builds is encodable and authenticates as the credential the server holds; if the replay guard takes
its nonce, the tunnel frame is accepted; and every answer the server then builds for the session, with the
frame size of its configuration and the flow limit of the user, passes the client's verification with exactly
that frame size, which is in the range the client accepts.\<close>

theorem handshake_completes:
  assumes "crypto_ok K" "rng_ok os"
    and "ClientConfig_validate b rfc b64dec c = Ok ()"
    and "ServerConfig_validate b' rfc b64dec (st_config st) = Ok ()"
    and "UserStore_new rfc (scf_users (st_config st)) = Ok (st_users st)"
    and "peers_agree rfc unix c st now binding m"
    and "ClientHandshake_new K os r rfc (Some unix) ts c binding = (Ok hs, r1)"
  shows "\<exists>p a. ClientHandshake_encode hs = Ok p
     \<and> authenticate_client_hello K p st now binding = Some a \<and> ah_credential a = m
     \<and> (fst (sharded_check check_and_insert hash (st_replay st) (ah_replay_key a) (client_nonce a)
              (timestamp_unix a) now) = Ok ()
          \<longrightarrow> fst (authenticate_tunnel_frame K hash (Frame_new ClientHello 0 0 p) st now binding) = Ok (Some a))
     \<and> (\<forall>out r2 r3. server_hello_payload K os r2 a (sad_max_frame_size (scf_advanced (st_config st)))
              (session_flows st m) binding = (Ok out, r3)
          \<longrightarrow> and_then (verify_server_hello K hs out) validate_negotiated_max_frame_size
                = Ok (unat (sad_max_frame_size (scf_advanced (st_config st)))))"
proof -
  let ?mfs = "sad_max_frame_size (scf_advanced (st_config st))"
  obtain p a fl where pa: "ClientHandshake_encode hs = Ok p" "authenticate_client_hello K p st now binding = Some a"
      "ah_credential a = m" and fl: "client_feature_flags c binding = Ok fl"
    and hs: "hs_secret hs = cm_secret m" "hs_channel_binding hs = binding"
      "hs_require_binding hs = cb_require (cac_channel_binding (cfg_auth c))"
    and msg: "(\<exists>h. hs_message hs = MsgV1 h \<and> a = accepted_v1 h m \<and> ch_feature_flags h = fl \<and> ch_timestamp_unix h = ts)
        \<or> (\<exists>h. hs_message hs = MsgV2 h \<and> a = accepted_v2 h m \<and> c2_feature_flags h = fl \<and> c2_timestamp_unix h = ts)"
    using client_hello_accepted [OF assms(1,2,6,7)] by blast
  have flows: "session_flows st m \<noteq> 0"
    using assms(6) session_flows_pos [OF assms(4,5)] by (auto simp: peers_agree_def Let_def)
  have req: "hs_require_binding hs \<longrightarrow> wants_binding fl"
    unfolding hs(3) client_flags_bound(3) [OF fl]
    using fl [unfolded client_feature_flags_Ok_iff] ClientConfig_validate_OkD(9) [OF assms(3)]
    by (cases "binding = None") (simp, blast, simp)
  note pol = peers_agree_binding [OF assms(6) fl]
  have size: "validate_negotiated_max_frame_size ?mfs = Ok (unat ?mfs)"
    using ServerConfig_validate_OkD(10,11) [OF assms(4)]
    by (simp add: validate_negotiated_max_frame_size_def DEFAULT_MAX_FRAME_SIZE_def MAX_NEGOTIATED_FRAME_SIZE_def
        fail_if_def)
  have "verify_server_hello K hs out = Ok ?mfs"
    if "server_hello_payload K os r2 a ?mfs (session_flows st m) binding = (Ok out, r3)" for out r2 r3
    using msg that answer_v1 [OF assms(1,2) fl pol _ flows _ _ hs(1,2) req, where mfs = ?mfs]
      answer_v2 [OF assms(1,2) fl pol _ flows _ _ hs(1,2) req, where mfs = ?mfs] by blast
  then show ?thesis using pa accepted_tunnel [OF pa(2)] size by (intro exI conjI) auto
qed

definition example_match :: CredentialMatch where
  "example_match = \<lparr>cm_user = peer_user, cm_secret = PREFIX, cm_state = CredActive\<rparr>"

lemmas server_default_defs = default_true_def default_index_def default_log_level_def default_padding_def
  default_connect_timeout_ms_def default_handshake_timeout_ms_def default_max_concurrent_connections_def
  default_max_concurrent_connections_per_source_def default_pre_auth_max_concurrent_def
  default_fallback_max_concurrent_def default_h2_max_concurrent_streams_def
  default_h2_max_concurrent_reset_streams_def default_h2_max_pending_accept_reset_streams_def
  default_h2_max_local_error_reset_streams_def default_auth_failure_window_secs_def
  default_max_auth_failures_per_window_def default_auth_failure_cache_max_entries_def
  default_idle_timeout_secs_def default_max_concurrent_flows_def default_max_frame_size_def
  default_replay_window_secs_def default_replay_cache_entries_per_credential_def
  default_replay_cache_max_credentials_per_shard_def default_dns_timeout_ms_def
  default_udp_idle_timeout_ms_def default_shaping_max_padding_bytes_per_frame_def
  default_shaping_max_overhead_ratio_def default_shaping_max_delay_ms_def
  default_shaping_max_batch_bytes_def default_cover_traffic_window_ms_def default_client_stealth_def

lemma server_advanced_default_ok: "ServerAdvancedConfig_validate ServerAdvancedConfig_default Auto = Ok ()"
  by (simp add: ServerAdvancedConfig_validate_def ServerAdvancedConfig_default_def config_defs Let_def
      server_default_defs StealthConfig_default_def CdnFrontingConfig_default_def
      CryptoPolicyConfig_validate_Ok_iff CryptoPolicyConfig_default_def default_crypto_suites_def)

lemma example_peers: "peers_agree rfc unix (example_client_config Auto) (example_state v2_off) now None example_match"
proof -
  have "utf8_valid [117]" by (rule utf8_valid_ascii) simp
  then show ?thesis
    by (simp add: peers_agree_def Let_def example_client_config_def example_state_def example_server_config_def
        v2_off_def AuthChannelBindingConfig_default_def select_client_credential_at_unix_def no_rotation_def
        lookup_credential_def peer_user_def example_match_def)
qed

lemma example_handshake:
  "\<exists>hs r1. ClientHandshake_new example_crypto example_rng 1 rfc (Some 100) 100 (example_client_config Auto) None = (Ok hs, r1)"
  by (simp add: ClientHandshake_new_def current_unix_timestamp_def example_client_config_def
      AuthChannelBindingConfig_default_def client_feature_flags_def select_client_credential_at_unix_def no_rotation_def
      ClientHello_try_new_with_channel_binding_def example_fill_random Let_def)

lemma example_server_config_ok:
  "ServerConfig_validate example_build rfc example_b64 (example_server_config v2_off) = Ok ()"
proof -
  have auth: "ServerAuthConfig_validate (scf_auth (example_server_config v2_off)) = Ok ()"
    by (simp add: example_server_config_def v2_off_def ServerAuthConfig_validate_def
        AuthChannelBindingConfig_validate_def AuthChannelBindingConfig_default_def AuthV2Config_validate_server_def)
  have users: "validate_users rfc example_b64 (scf_auth (example_server_config v2_off)) [peer_user] = Ok ()"
    by (simp add: validate_users_Ok_iff validate_user_def peer_user_def SecretString_validate_iff example_b64_def
        and_then_Ok_iff example_server_config_def v2_off_def)
  have pick: "sad_shaping ServerAdvancedConfig_default = ShapingConfig_default"
    "sad_experimental_h3 ServerAdvancedConfig_default = False" "sad_quiche_h3 ServerAdvancedConfig_default = False"
    "sad_max_frame_size ServerAdvancedConfig_default = 65536"
    "sad_idle_timeout_secs ServerAdvancedConfig_default = 300"
    "sad_tcp_connect_timeout_ms ServerAdvancedConfig_default = 10000"
    "sad_handshake_timeout_ms ServerAdvancedConfig_default = 10000"
    "sad_udp_idle_timeout_ms ServerAdvancedConfig_default = 30000"
    by (simp_all add: ServerAdvancedConfig_default_def server_default_defs DEFAULT_MAX_FRAME_SIZE_def)
  show ?thesis
    using auth users log_default_ok shaping_default_ok server_advanced_default_ok
    by (simp add: ServerConfig_validate_def Let_def and_then_Ok_iff example_server_config_def pick
        reject_retired_v1_h3_def validate_quiche_h3_def starts_with_slash_def i64_le_def i64_lt_def
        MAX_REPLAY_WINDOW_SECS_def DEFAULT_MAX_FRAME_SIZE_def MAX_NEGOTIATED_FRAME_SIZE_def
        validate_transport_support_def AuthChannelBindingConfig_default_def)
qed

theorem handshake_completes_witness:
  "\<exists>hs r1 p a. ClientHandshake_new example_crypto example_rng 1 example_rfc (Some 100) 100
       (example_client_config Auto) None = (Ok hs, r1)
     \<and> ClientHandshake_encode hs = Ok p
     \<and> authenticate_client_hello example_crypto p (example_state v2_off) 100 None = Some a
     \<and> ah_credential a = example_match"
proof -
  obtain hs r1 where h: "ClientHandshake_new example_crypto example_rng 1 example_rfc (Some 100) 100
       (example_client_config Auto) None = (Ok hs, r1)" using example_handshake by blast
  have c: "st_config (example_state v2_off) = example_server_config v2_off"
    "UserStore_new example_rfc (scf_users (example_server_config v2_off)) = Ok (st_users (example_state v2_off))"
    using example_server_state [of example_rfc v2_off]
    by (simp_all add: example_state_def example_server_config_def UserStore_new_def peer_user_def)
  show ?thesis
    using handshake_completes [OF example_crypto_ok example_rng_ok
        example_client_config_ok [of example_rfc Auto] _ _ example_peers h, unfolded c(1),
        OF example_server_config_ok c(2)] h by blast
qed

end
