(* ===== verification/Config_Document.thy ===== *)
theory Config_Document
  imports Mav_Error
begin

text \<open>
  The reader of configuration documents, \<open>maverick-core/src/config.rs\<close>: the probe of the version
  field, the rejection of unknown keys, and the location text of an unknown key. The YAML parser
  and the serde machinery are library code, the arguments \<open>probe\<close> and \<open>deserialize\<close>: the first
  yields the entries of the root mapping or a parse error, the second a value with the paths of
  the ignored keys in document order.
\<close>

datatype ConfigVersion = ConfigV1 | ConfigV2 | ConfigUnsupported

datatype yaml_value = YamlInt int | YamlOther

datatype yaml_error = DuplicateMappingKey "bytes option" | YamlErrorOther

fun visit_version :: "yaml_value \<Rightarrow> (ConfigVersion, yaml_error) outcome" where
  "visit_version (YamlInt n) =
     Ok (if n = 1 then ConfigV1 else if n = 2 then ConfigV2 else ConfigUnsupported)"
| "visit_version YamlOther = Err YamlErrorOther"

fun visit_map :: "ConfigVersion option \<Rightarrow> (bytes \<times> yaml_value) list \<Rightarrow> (ConfigVersion, yaml_error) outcome" where
  "visit_map version [] = ok_or YamlErrorOther version"
| "visit_map version ((key, value) # entries) =
     (if key = ascii ''version'' then
        fail_if (version \<noteq> None) YamlErrorOther
        (and_then (visit_version value) (\<lambda>v. visit_map (Some v) entries))
      else visit_map version entries)"

datatype ConfigVersionFailure = InvalidMetadata | DuplicateKey yaml_error

definition probe_config_version ::
  "(bytes \<Rightarrow> ((bytes \<times> yaml_value) list, yaml_error) outcome) \<Rightarrow> bytes
   \<Rightarrow> (ConfigVersion, ConfigVersionFailure) outcome" where
  "probe_config_version probe input =
     map_err (\<lambda>e. case e of
         DuplicateMappingKey key \<Rightarrow> if key \<noteq> Some (ascii ''version'') then DuplicateKey e else InvalidMetadata
       | YamlErrorOther \<Rightarrow> InvalidMetadata)
     (and_then (probe input) (visit_map None))"

definition config_version ::
  "(bytes \<Rightarrow> ((bytes \<times> yaml_value) list, yaml_error) outcome) \<Rightarrow> bytes \<Rightarrow> ConfigVersion result" where
  "config_version probe input =
     map_err (\<lambda>f. case f of
         InvalidMetadata \<Rightarrow> Config ''invalid configuration version metadata''
       | DuplicateKey _ \<Rightarrow> Yaml)
     (probe_config_version probe input)"

subsection \<open>The location of an unknown key\<close>

datatype Path = PRoot | PSeq Path nat | PMap Path bytes | PSome Path | PNewtypeStruct Path | PNewtypeVariant Path

definition safe_byte :: "u8 \<Rightarrow> bool" where
  "safe_byte b = ((0x30 \<le> b \<and> b \<le> 0x39) \<or> (0x41 \<le> b \<and> b \<le> 0x5A) \<or> (0x61 \<le> b \<and> b \<le> 0x7A)
     \<or> b = 0x5F \<or> b = 0x2D)"

definition MAX_SEGMENTS :: nat where "MAX_SEGMENTS = 16"
definition MAX_SEGMENT_LEN :: nat where "MAX_SEGMENT_LEN = 48"
definition MAX_LOCATION_LEN :: nat where "MAX_LOCATION_LEN = 160"
definition INVALID_SEGMENT :: bytes where "INVALID_SEGMENT = ascii ''<segment>''"
definition TRUNCATED_LOCATION :: bytes where "TRUNCATED_LOCATION = ascii ''<truncated>''"

definition append_safe_config_segment :: "bytes \<Rightarrow> bytes \<Rightarrow> nat \<Rightarrow> bool \<times> bytes \<times> nat" where
  "append_safe_config_segment location segment remaining =
     (if remaining = 0 then (False, TRUNCATED_LOCATION, remaining)
      else
        let remaining = remaining - 1;
            safe_segment = (if segment \<noteq> [] \<and> length segment \<le> MAX_SEGMENT_LEN \<and> list_all safe_byte segment
                            then segment else INVALID_SEGMENT);
            separator_len = (if location \<noteq> [] then 1 else 0 :: nat)
        in if length location + separator_len + length safe_segment > MAX_LOCATION_LEN
           then (False, TRUNCATED_LOCATION, remaining)
           else (True, location @ (if separator_len = 1 then ascii ''.'' else []) @ safe_segment, remaining))"

fun append_safe_config_location :: "Path \<Rightarrow> bytes \<Rightarrow> nat \<Rightarrow> bool \<times> bytes \<times> nat" where
  "append_safe_config_location PRoot location remaining = (True, location, remaining)"
| "append_safe_config_location (PMap parent key) location remaining =
     (case append_safe_config_location parent location remaining of
        (False, l, r) \<Rightarrow> (False, l, r)
      | (True, l, r) \<Rightarrow> append_safe_config_segment l key r)"
| "append_safe_config_location (PSeq parent index) location remaining =
     (case append_safe_config_location parent location remaining of
        (False, l, r) \<Rightarrow> (False, l, r)
      | (True, l, r) \<Rightarrow> append_safe_config_segment l (dec index) r)"
| "append_safe_config_location (PSome parent) location remaining =
     append_safe_config_location parent location remaining"
| "append_safe_config_location (PNewtypeStruct parent) location remaining =
     append_safe_config_location parent location remaining"
| "append_safe_config_location (PNewtypeVariant parent) location remaining =
     append_safe_config_location parent location remaining"

definition safe_unknown_parent_location :: "Path \<Rightarrow> bytes" where
  "safe_unknown_parent_location path =
     (let location = (case path of
            PMap parent _ \<Rightarrow> fst (snd (append_safe_config_location parent [] MAX_SEGMENTS))
          | _ \<Rightarrow> []) in
      if location = [] then ascii ''<root>'' else location)"

definition as_text :: "bytes \<Rightarrow> string" where
  "as_text b = map (\<lambda>x. char_of (unat x)) b"

definition from_yaml_str_rejecting_unknown_fields ::
  "(bytes \<Rightarrow> ('a \<times> Path list) option) \<Rightarrow> bytes \<Rightarrow> 'a result" where
  "from_yaml_str_rejecting_unknown_fields deserialize input =
     and_then (ok_or Yaml (deserialize input)) (\<lambda>(value, ignored).
     case ignored of
       [] \<Rightarrow> Ok value
     | path # _ \<Rightarrow>
         Err (Config (''unknown configuration key under '' @ as_text (safe_unknown_parent_location path))))"

definition from_versioned_yaml_str_rejecting_unknown_fields ::
  "(bytes \<Rightarrow> ((bytes \<times> yaml_value) list, yaml_error) outcome) \<Rightarrow> (bytes \<Rightarrow> ('a \<times> Path list) option)
   \<Rightarrow> bytes \<Rightarrow> 'a result" where
  "from_versioned_yaml_str_rejecting_unknown_fields probe deserialize input =
     and_then (config_version probe input) (\<lambda>version.
     case version of
       ConfigV1 \<Rightarrow> from_yaml_str_rejecting_unknown_fields deserialize input
     | _ \<Rightarrow> Err (Config ''unsupported configuration version''))"

definition from_yaml_str ::
  "(bytes \<Rightarrow> ((bytes \<times> yaml_value) list, yaml_error) outcome) \<Rightarrow> (bytes \<Rightarrow> ('a \<times> Path list) option)
   \<Rightarrow> ('a \<Rightarrow> unit result) \<Rightarrow> bytes \<Rightarrow> 'a result" where
  "from_yaml_str probe deserialize validate input =
     and_then (from_versioned_yaml_str_rejecting_unknown_fields probe deserialize input) (\<lambda>cfg.
     and_then (validate cfg) (\<lambda>_. Ok cfg))"

subsection \<open>Lemmas\<close>

definition versions :: "(bytes \<times> yaml_value) list \<Rightarrow> yaml_value list" where
  "versions entries = map snd (filter (\<lambda>(k, _). k = ascii ''version'') entries)"

lemma versions_simps [simp]:
  "versions [] = []"
  "versions ((k, v) # es) = (if k = ascii ''version'' then v # versions es else versions es)"
  by (simp_all add: versions_def)

lemma visit_map_Ok_iff:
  "visit_map version es = Ok v \<longleftrightarrow>
     (case version of
        Some w \<Rightarrow> versions es = [] \<and> v = w
      | None \<Rightarrow> \<exists>x. versions es = [x] \<and> visit_version x = Ok v)"
proof (induction version es rule: visit_map.induct)
  case (1 version)
  then show ?case by (cases version) auto
next
  case (2 version key val es)
  then show ?case
    by (cases version) (auto simp: and_then_Ok_iff split: if_splits)
qed

lemma visit_version_Ok_iff: "visit_version x = Ok ConfigV1 \<longleftrightarrow> x = YamlInt 1"
  by (cases x) auto

lemma map_err_Ok_iff [simp]: "map_err f m = Ok x \<longleftrightarrow> m = Ok x"
  by (cases m) auto

definition location_byte :: "u8 \<Rightarrow> bool" where
  "location_byte b = (safe_byte b \<or> b = 0x2E \<or> b = 0x3C \<or> b = 0x3E)"

definition location_ok :: "bytes \<Rightarrow> bool" where
  "location_ok l = (length l \<le> 160 \<and> list_all location_byte l)"

lemma location_ok_texts:
  "location_ok TRUNCATED_LOCATION" "location_ok (ascii ''<root>'')"
  "list_all location_byte INVALID_SEGMENT" "location_byte 0x2E"
  by (simp_all add: location_ok_def location_byte_def safe_byte_def TRUNCATED_LOCATION_def
      INVALID_SEGMENT_def ascii_def)

lemma append_segment_ok:
  assumes "location_ok l"
  shows "location_ok (fst (snd (append_safe_config_segment l seg r)))"
proof -
  have "list_all location_byte seg" if "list_all safe_byte seg"
    using that by (simp add: list_all_iff location_byte_def)
  with assms location_ok_texts show ?thesis
    by (auto simp: append_safe_config_segment_def Let_def location_ok_def MAX_LOCATION_LEN_def ascii_def)
qed

lemma append_location_ok:
  "location_ok l \<Longrightarrow> location_ok (fst (snd (append_safe_config_location p l r)))"
proof (induction p l r rule: append_safe_config_location.induct)
  case (2 parent key location remaining)
  then show ?case
    by (cases "append_safe_config_location parent location remaining")
       (auto simp: append_segment_ok split: bool.splits)
next
  case (3 parent index location remaining)
  then show ?case
    by (cases "append_safe_config_location parent location remaining")
       (auto simp: append_segment_ok split: bool.splits)
qed simp_all

subsection \<open>Properties of the reader\<close>

text \<open>
  C26. A configuration is read exactly when the root mapping has one \<open>version\<close> entry, of value 1,
  no key was ignored, and the value passes validation; so neither a document of another version
  nor one with a misspelt key is ever used.
\<close>

theorem from_yaml_str_accepts:
  "from_yaml_str probe deserialize validate input = Ok cfg \<longleftrightarrow>
     (\<exists>entries. probe input = Ok entries \<and> versions entries = [YamlInt 1])
     \<and> deserialize input = Some (cfg, []) \<and> validate cfg = Ok ()"
proof -
  have "config_version probe input = Ok ConfigV1 \<longleftrightarrow>
      (\<exists>entries. probe input = Ok entries \<and> versions entries = [YamlInt 1])"
    by (auto simp: config_version_def probe_config_version_def and_then_Ok_iff visit_map_Ok_iff
        visit_version_Ok_iff)
  moreover have "from_versioned_yaml_str_rejecting_unknown_fields probe deserialize input = Ok cfg \<longleftrightarrow>
      config_version probe input = Ok ConfigV1 \<and> deserialize input = Some (cfg, [])"
  proof (cases "config_version probe input")
    case (Ok v)
    then show ?thesis
      by (cases v; cases "deserialize input")
         (auto simp: from_versioned_yaml_str_rejecting_unknown_fields_def
           from_yaml_str_rejecting_unknown_fields_def split: list.splits)
  qed (simp_all add: from_versioned_yaml_str_rejecting_unknown_fields_def)
  ultimately show ?thesis by (auto simp: from_yaml_str_def and_then_Ok_iff)
qed

text \<open>
  The location reported for an unknown key is harmless to print: whatever the keys of the
  document are, it has at most 160 bytes, and they are letters, digits, underscore, hyphen, the
  dot between segments or the angle brackets of a placeholder.
\<close>

theorem unknown_key_location_safe:
  "length (safe_unknown_parent_location path) \<le> 160
   \<and> list_all location_byte (safe_unknown_parent_location path)"
proof -
  have "location_ok []" by (simp add: location_ok_def)
  then have "location_ok (safe_unknown_parent_location path)"
    using location_ok_texts(2) append_location_ok
    by (auto simp: safe_unknown_parent_location_def Let_def split: Path.splits)
  then show ?thesis by (simp add: location_ok_def)
qed

end
