(* ===== verification/Grpc_Codec.thy ===== *)
theory Grpc_Codec
  imports Frame_Codec
begin

text \<open>
  The gRPC-style message framing of the HTTP/2 and HTTP/3 tunnel bodies,
  \<open>maverick-core/src/grpc.rs\<close>: a zero compression flag, a 32-bit length, and exactly one
  frame. The decoder splits the whole message off the buffer before it looks at the frame,
  so an error inside the message leaves the buffer behind the message. The frame limit is a
  configured value of at most \<open>MAX_NEGOTIATED_FRAME_SIZE\<close>, so the sum of the two lengths is a
  plain natural number here.
\<close>

definition GRPC_MESSAGE_HEADER_LEN :: nat where "GRPC_MESSAGE_HEADER_LEN = 5"

definition encode_grpc_message :: "bytes \<Rightarrow> bytes" where
  "encode_grpc_message message = put_u8 0 @ put_u32 (of_nat (length message)) @ message"

definition encode_grpc_frame :: "Frame \<Rightarrow> nat \<Rightarrow> bytes result" where
  "encode_grpc_frame frame max_frame_size =
     and_then (Frame_encode frame max_frame_size) (\<lambda>bs. Ok (encode_grpc_message bs))"

definition decode_grpc_frame_from :: "bytes \<Rightarrow> nat \<Rightarrow> Frame option result \<times> bytes" where
  "decode_grpc_frame_from buf max_frame_size =
     (if length buf < GRPC_MESSAGE_HEADER_LEN then (Ok None, buf)
      else with_buf (byte_at buf 0) buf (\<lambda>flag.
        if flag \<noteq> 0 then (Err (MalformedFrame ''compressed grpc messages are unsupported''), buf)
        else with_buf (byte_slice 1 4 buf) buf (\<lambda>len4.
          let message_len = unat (u32_from_be len4) in
          with_buf (add_usize FRAME_HEADER_LEN max_frame_size) buf (\<lambda>max_message_len.
          if message_len > max_message_len
          then (Err (FrameTooLarge message_len max_message_len), buf)
          else if length buf < GRPC_MESSAGE_HEADER_LEN + message_len then (Ok None, buf)
          else with_buf (copy_to_bytes GRPC_MESSAGE_HEADER_LEN buf) buf (\<lambda>(_, buf1).
            with_buf (copy_to_bytes message_len buf1) buf1 (\<lambda>(message, buf2).
              case Frame_decode_from message max_frame_size of
                (Ok (Some frame), message') \<Rightarrow>
                  if message' \<noteq> []
                  then (Err (MalformedFrame ''grpc message contained trailing bytes''), buf2)
                  else (Ok (Some frame), buf2)
              | (Ok None, _) \<Rightarrow>
                  (Err (MalformedFrame ''grpc message did not contain a complete frame''), buf2)
              | (Err e, _) \<Rightarrow> (Err e, buf2)
              | (Panic, _) \<Rightarrow> (Panic, buf2)))))))"

subsection \<open>The wire image of a frame in a message\<close>

definition grpc_bytes :: "Frame \<Rightarrow> bytes" where
  "grpc_bytes f = encode_grpc_message (frame_bytes f)"

definition grpc_ok :: "nat \<Rightarrow> Frame \<Rightarrow> bool" where
  "grpc_ok m f = (length (payload f) \<le> m \<and> FRAME_HEADER_LEN + length (payload f) < 4294967296
     \<and> FRAME_HEADER_LEN + m \<le> USIZE_MAX)"

lemma grpc_ok_frame_ok: "grpc_ok m f \<Longrightarrow> frame_ok m f"
  by (simp add: grpc_ok_def frame_ok_def FRAME_HEADER_LEN_def)

lemma encode_grpc_frame_ok: "grpc_ok m f \<Longrightarrow> encode_grpc_frame f m = Ok (grpc_bytes f)"
  by (simp add: encode_grpc_frame_def grpc_bytes_def Frame_encode_ok grpc_ok_frame_ok)

lemma length_grpc_bytes: "length (grpc_bytes f) = 19 + length (payload f)"
  by (simp add: grpc_bytes_def encode_grpc_message_def length_frame_bytes FRAME_HEADER_LEN_def)

text \<open>The decoder on a buffer whose header is complete.\<close>

lemma decode_grpc_header:
  assumes "n < 4294967296" "n \<le> FRAME_HEADER_LEN + m" "FRAME_HEADER_LEN + m \<le> USIZE_MAX"
  shows "decode_grpc_frame_from (put_u8 0 @ put_u32 (of_nat n) @ r) m =
    (if length r < n then (Ok None, put_u8 0 @ put_u32 (of_nat n) @ r)
     else case Frame_decode_from (take n r) m of
            (Ok (Some frame), message') \<Rightarrow>
              if message' \<noteq> []
              then (Err (MalformedFrame ''grpc message contained trailing bytes''), drop n r)
              else (Ok (Some frame), drop n r)
          | (Ok None, _) \<Rightarrow>
              (Err (MalformedFrame ''grpc message did not contain a complete frame''), drop n r)
          | (Err e, _) \<Rightarrow> (Err e, drop n r)
          | (Panic, _) \<Rightarrow> (Panic, drop n r))"
proof -
  let ?b = "put_u8 0 @ put_u32 (of_nat n) @ r"
  have s: "byte_slice 1 4 ?b = Ok (put_u32 (of_nat n))" by (simp add: byte_slice_def)
  have b: "byte_at ?b 0 = Ok 0" by (simp add: byte_at_def put_u8_def)
  have h: "copy_to_bytes 5 ?b = Ok (put_u8 0 @ put_u32 (of_nat n), r)" by (simp add: copy_to_bytes_def)
  have l: "length ?b = 5 + length r" by simp
  have u: "unat (of_nat n :: u32) = n" using assms(1) by (simp add: unat_of_nat_le)
  show ?thesis
    unfolding decode_grpc_frame_from_def GRPC_MESSAGE_HEADER_LEN_def l
    using assms(2,3)
    by (simp del: One_nat_def byte_slice_simps byte_at_simps add: s b h u Let_def copy_to_bytes_take add_usize_def)
qed

lemma decode_grpc_complete:
  assumes "grpc_ok m f"
  shows "decode_grpc_frame_from (grpc_bytes f @ rest) m = (Ok (Some f), rest)"
proof -
  let ?n = "length (frame_bytes f)"
  have n: "?n < 4294967296" "?n \<le> FRAME_HEADER_LEN + m" "FRAME_HEADER_LEN + m \<le> USIZE_MAX"
    using assms by (simp_all add: grpc_ok_def length_frame_bytes)
  have "Frame_decode_from (frame_bytes f) m = (Ok (Some f), [])"
    using frame_codec.step_complete [OF grpc_ok_frame_ok [OF assms], of "[]"] by simp
  then show ?thesis
    using decode_grpc_header [OF n, of "frame_bytes f @ rest"]
    by (simp add: grpc_bytes_def encode_grpc_message_def)
qed

lemma decode_grpc_partial:
  assumes "grpc_ok m f" "strict_prefix p (grpc_bytes f)"
  shows "decode_grpc_frame_from p m = (Ok None, p)"
proof (cases "length p < 5")
  case True
  then show ?thesis by (simp add: decode_grpc_frame_from_def GRPC_MESSAGE_HEADER_LEN_def)
next
  case False
  let ?n = "length (frame_bytes f)"
  have n: "?n < 4294967296" "?n \<le> FRAME_HEADER_LEN + m" "FRAME_HEADER_LEN + m \<le> USIZE_MAX"
    using assms by (simp_all add: grpc_ok_def length_frame_bytes)
  from assms(2) have "take (length p) (grpc_bytes f) = p"
    by (auto simp: strict_prefix_def prefix_def)
  with False have p: "p = put_u8 0 @ put_u32 (of_nat ?n) @ take (length p - 5) (frame_bytes f)"
    by (simp add: grpc_bytes_def encode_grpc_message_def)
  have "length p < 5 + ?n"
    using prefix_length_less [OF assms(2)] by (simp add: grpc_bytes_def encode_grpc_message_def)
  with False have "length (take (length p - 5) (frame_bytes f)) < ?n" by simp
  with decode_grpc_header [OF n, of "take (length p - 5) (frame_bytes f)"] p show ?thesis
    by (metis (no_types, lifting))
qed

interpretation grpc_codec: stream_codec grpc_bytes "\<lambda>b. decode_grpc_frame_from b m" "grpc_ok m"
  for m :: nat
proof unfold_locales
  fix x rest
  assume "grpc_ok m x"
  then show "decode_grpc_frame_from (grpc_bytes x @ rest) m = (Ok (Some x), rest)"
    by (rule decode_grpc_complete)
next
  fix x p
  assume "grpc_ok m x" "strict_prefix p (grpc_bytes x)"
  then show "decode_grpc_frame_from p m = (Ok None, p)" by (rule decode_grpc_partial)
next
  show "decode_grpc_frame_from [] m = (Ok None, [])"
    by (simp add: decode_grpc_frame_from_def GRPC_MESSAGE_HEADER_LEN_def)
qed

lemma grpc_header_split:
  assumes "5 \<le> length buf"
  obtains v n r where "buf = put_u8 v @ put_u32 (of_nat n) @ r" "n < 4294967296"
proof -
  have "buf = take 1 buf @ take 4 (drop 1 buf) @ drop 5 buf"
  proof -
    have "drop 5 buf = drop 4 (drop 1 buf)" by simp
    then show ?thesis by (simp only: append_take_drop_id)
  qed
  moreover have "take 1 buf = put_u8 (buf ! 0)" using assms by (cases buf) (simp_all add: put_u8_def)
  moreover have "take 4 (drop 1 buf) = put_u32 (of_nat (unat (u32_from_be (take 4 (drop 1 buf)))))"
    using assms by (simp add: put_from_be)
  ultimately show ?thesis using unat_bounds(2) that by metis
qed

text \<open>Every buffer falls under one of six cases, when the largest message has a length that fits.\<close>

lemma decode_grpc_cases:
  assumes m: "FRAME_HEADER_LEN + m \<le> USIZE_MAX"
  obtains (short) "length buf < GRPC_MESSAGE_HEADER_LEN" "decode_grpc_frame_from buf m = (Ok None, buf)"
  | (flag) v r where "v \<noteq> 0" "buf = put_u8 v @ r"
      "decode_grpc_frame_from buf m = (Err (MalformedFrame ''compressed grpc messages are unsupported''), buf)"
  | (large) n r where "buf = put_u8 0 @ put_u32 (of_nat n) @ r" "n < 4294967296" "FRAME_HEADER_LEN + m < n"
      "decode_grpc_frame_from buf m = (Err (FrameTooLarge n (FRAME_HEADER_LEN + m)), buf)"
  | (waiting) n r where "buf = put_u8 0 @ put_u32 (of_nat n) @ r" "n \<le> FRAME_HEADER_LEN + m"
      "n < 4294967296" "length r < n" "decode_grpc_frame_from buf m = (Ok None, buf)"
  | (bad) n msg r e where "buf = put_u8 0 @ put_u32 (of_nat n) @ msg @ r" "length msg = n"
      "n < 4294967296" "\<And>f. Frame_decode_from msg m \<noteq> (Ok (Some f), [])"
      "decode_grpc_frame_from buf m = (Err e, r)"
  | (frame) f r where "grpc_ok m f" "buf = grpc_bytes f @ r"
      "decode_grpc_frame_from buf m = (Ok (Some f), r)"
proof (cases "length buf < 5")
  case True
  then show ?thesis
    by (intro short) (simp_all add: decode_grpc_frame_from_def GRPC_MESSAGE_HEADER_LEN_def)
next
  case False
  then obtain v n r where b: "buf = put_u8 v @ put_u32 (of_nat n) @ r" and n: "n < 4294967296"
    using grpc_header_split [of buf] by auto
  have v: "byte_at buf 0 = Ok v" by (simp add: byte_at_def b put_u8_def)
  have s: "byte_slice 1 4 buf = Ok (put_u32 (of_nat n))" by (simp add: byte_slice_def b)
  have u: "unat (of_nat n :: u32) = n" using n by (simp add: unat_of_nat_le)
  consider "v \<noteq> 0" | "v = 0" "FRAME_HEADER_LEN + m < n" | "v = 0" "n \<le> FRAME_HEADER_LEN + m" "length r < n"
    | "v = 0" "n \<le> FRAME_HEADER_LEN + m" "n \<le> length r" by linarith
  then show ?thesis
  proof cases
    case 1
    then have "decode_grpc_frame_from buf m =
        (Err (MalformedFrame ''compressed grpc messages are unsupported''), buf)"
      unfolding decode_grpc_frame_from_def GRPC_MESSAGE_HEADER_LEN_def
      using False by (simp del: byte_at_simps add: v)
    with 1 b show ?thesis by (intro flag)
  next
    case 2
    then have "decode_grpc_frame_from buf m = (Err (FrameTooLarge n (FRAME_HEADER_LEN + m)), buf)"
      unfolding decode_grpc_frame_from_def GRPC_MESSAGE_HEADER_LEN_def
      using False by (simp del: byte_at_simps byte_slice_simps One_nat_def add: v s u Let_def add_usize_def m)
    with 2 b n show ?thesis by (intro large) simp_all
  next
    case 3
    with b have "decode_grpc_frame_from buf m = (Ok None, buf)"
      using decode_grpc_header [OF n 3(2) m, of r] by simp
    with 3 b n show ?thesis by (intro waiting) simp_all
  next
    case 4
    define msg where "msg = take n r"
    define r' where "r' = drop n r"
    have r: "r = msg @ r'" and l: "length msg = n" using 4 by (simp_all add: msg_def r'_def)
    note dec = decode_grpc_header [OF n 4(2) m, of r, folded msg_def r'_def]
    show ?thesis
    proof (cases "\<exists>f. Frame_decode_from msg m = (Ok (Some f), [])")
      case True
      then obtain f where f: "Frame_decode_from msg m = (Ok (Some f), [])" by blast
      then have "frame_ok m f" "msg = frame_bytes f"
        by (cases rule: Frame_decode_cases [of msg m]; simp)+
      with l n 4 b r m have "grpc_ok m f" "buf = grpc_bytes f @ r'"
        by (auto simp: grpc_ok_def frame_ok_def grpc_bytes_def encode_grpc_message_def length_frame_bytes)
      with dec f 4 b show ?thesis by (intro frame) simp_all
    next
      case bad': False
      have "\<exists>e. decode_grpc_frame_from buf m = (Err e, r')"
        using dec 4 b bad'
        by (cases rule: Frame_decode_cases [of msg m]) auto
      with bad' 4 b r l n show ?thesis by (metis bad)
    qed
  qed
qed

text \<open>
  C16. For a frame limit whose largest message still has a length in \<open>usize\<close> (every negotiated
  limit, at most 1 MiB, is far below), the message decoder inverts \<open>encode_grpc_frame\<close> and
  accepts nothing else: it returns a
  frame exactly when the buffer starts with the message of that frame (whose length field has
  32 bits), and leaves exactly the bytes after it. In every other case it either waits, with
  the buffer untouched and shorter than the largest message, or fails; it never panics and
  never grows the buffer.
\<close>

theorem decode_grpc_frame_iff_encode:
  assumes "FRAME_HEADER_LEN + m \<le> USIZE_MAX"
  shows "(decode_grpc_frame_from buf m = (Ok (Some f), rest) \<longleftrightarrow>
      FRAME_HEADER_LEN + length (payload f) < 2 ^ 32
      \<and> (\<exists>bs. encode_grpc_frame f m = Ok bs \<and> buf = bs @ rest))
   \<and> (case decode_grpc_frame_from buf m of
        (Ok None, b) \<Rightarrow>
          b = buf \<and> length buf < GRPC_MESSAGE_HEADER_LEN + FRAME_HEADER_LEN + m
      | (Ok (Some g), b) \<Rightarrow> suffix b buf \<and> length b < length buf
      | (Err e, b) \<Rightarrow> suffix b buf
      | (Panic, _) \<Rightarrow> False)"
proof
  show "decode_grpc_frame_from buf m = (Ok (Some f), rest) \<longleftrightarrow>
      FRAME_HEADER_LEN + length (payload f) < 2 ^ 32
      \<and> (\<exists>bs. encode_grpc_frame f m = Ok bs \<and> buf = bs @ rest)"
  proof
    assume "decode_grpc_frame_from buf m = (Ok (Some f), rest)"
    then have "grpc_ok m f" "buf = grpc_bytes f @ rest"
      by (cases rule: decode_grpc_cases [OF assms, of buf]; simp)+
    then show "FRAME_HEADER_LEN + length (payload f) < 2 ^ 32
        \<and> (\<exists>bs. encode_grpc_frame f m = Ok bs \<and> buf = bs @ rest)"
      by (simp add: encode_grpc_frame_ok) (simp add: grpc_ok_def)
  next
    assume "FRAME_HEADER_LEN + length (payload f) < 2 ^ 32
        \<and> (\<exists>bs. encode_grpc_frame f m = Ok bs \<and> buf = bs @ rest)"
    then have "grpc_ok m f" "buf = grpc_bytes f @ rest"
      using assms by (auto simp: encode_grpc_frame_def and_then_Ok_iff Frame_encode_Ok_iff grpc_ok_def grpc_bytes_def)
    then show "decode_grpc_frame_from buf m = (Ok (Some f), rest)" by (simp only: decode_grpc_complete)
  qed
next
  show "case decode_grpc_frame_from buf m of
        (Ok None, b) \<Rightarrow>
          b = buf \<and> length buf < GRPC_MESSAGE_HEADER_LEN + FRAME_HEADER_LEN + m
      | (Ok (Some g), b) \<Rightarrow> suffix b buf \<and> length b < length buf
      | (Err e, b) \<Rightarrow> suffix b buf
      | (Panic, _) \<Rightarrow> False"
    by (cases rule: decode_grpc_cases [OF assms, of buf])
       (auto simp: length_grpc_bytes GRPC_MESSAGE_HEADER_LEN_def suffix_def)
qed

theorem decode_grpc_frame_iff_encode_witness:
  "let f = Frame_new TcpData 0 1 [1, 2, 3] in
   \<exists>bs. encode_grpc_frame f 65536 = Ok bs \<and> decode_grpc_frame_from (bs @ [7]) 65536 = (Ok (Some f), [7])
      \<and> (case decode_grpc_frame_from [1, 0, 0, 0, 0] 65536 of (Err e, b) \<Rightarrow> suffix b [1, 0, 0, 0, 0] | _ \<Rightarrow> False)"
proof -
  let ?f = "Frame_new TcpData 0 1 [1, 2, 3]"
  have m: "FRAME_HEADER_LEN + 65536 \<le> USIZE_MAX" by (simp add: FRAME_HEADER_LEN_def USIZE_MAX_def)
  have "encode_grpc_frame ?f 65536 = Ok (grpc_bytes ?f)"
    by (rule encode_grpc_frame_ok) (simp add: grpc_ok_def Frame_new_def FRAME_HEADER_LEN_def USIZE_MAX_def)
  moreover from this have "decode_grpc_frame_from (grpc_bytes ?f @ [7]) 65536 = (Ok (Some ?f), [7])"
    using decode_grpc_frame_iff_encode [OF m, of "grpc_bytes ?f @ [7]" ?f "[7]"]
    by (simp add: Frame_new_def FRAME_HEADER_LEN_def)
  moreover have "decode_grpc_frame_from [1, 0, 0, 0, 0] 65536
      = (Err (MalformedFrame ''compressed grpc messages are unsupported''), [1, 0, 0, 0, 0])"
    by (simp add: decode_grpc_frame_from_def GRPC_MESSAGE_HEADER_LEN_def byte_at_def)
  ultimately show ?thesis by (simp add: Let_def)
qed

text \<open>Beyond that limit the addition overflows: with overflow checks on, the decoder panics on every uncompressed header
and never takes a frame off.\<close>

lemma decode_grpc_overflow:
  assumes "USIZE_MAX < FRAME_HEADER_LEN + m"
  shows "decode_grpc_frame_from buf m =
     (if length buf < 5 then (Ok None, buf)
      else if buf ! 0 \<noteq> 0 then (Err (MalformedFrame ''compressed grpc messages are unsupported''), buf)
      else (Panic, buf))"
  using assms by (auto simp: decode_grpc_frame_from_def GRPC_MESSAGE_HEADER_LEN_def byte_at_def byte_slice_def add_usize_def Let_def)

lemma frame_limit_fits:
  "m \<le> MAX_NEGOTIATED_FRAME_SIZE \<Longrightarrow> FRAME_HEADER_LEN + m \<le> USIZE_MAX"
  "FRAME_HEADER_LEN + unat (w :: u32) \<le> USIZE_MAX"
  using unat_bounds(2) [of w] by (simp_all add: MAX_NEGOTIATED_FRAME_SIZE_def FRAME_HEADER_LEN_def USIZE_MAX_def)

end
