(* ===== verification/Padding_Policy.thy ===== *)
theory Padding_Policy
  imports Frame_Codec Advanced_Config
begin

text \<open>
  Traffic shaping, \<open>maverick-core/src/padding.rs\<close>: padding policies, the runtime padding of
  outgoing frames, pacing, batching and cover traffic. A \<open>Duration\<close> is a natural number of
  nanoseconds. The generator of padding bytes is an argument \<open>fill\<close> that overwrites a buffer in
  place; that a write into a buffer keeps its length is \<open>fill_ok\<close>.
\<close>

type_synonym 'r filler = "'r \<Rightarrow> bytes \<Rightarrow> bytes \<times> 'r"

definition fill_ok :: "'r filler \<Rightarrow> bool" where
  "fill_ok fill = (\<forall>r b. length (fst (fill r b)) = length b)"

definition from_millis :: "nat \<Rightarrow> nat" where
  "from_millis ms = ms * 1000000"

definition as_millis :: "nat \<Rightarrow> nat" where
  "as_millis d = d div 1000000"

datatype PaddingKind = PadNone | PadLight | PadAuto | PadPrivate

record BasicPaddingPolicy =
  bp_kind :: PaddingKind
  bp_max_padding :: nat

definition BasicPaddingPolicy_new :: "PaddingKind \<Rightarrow> BasicPaddingPolicy" where
  "BasicPaddingPolicy_new kind = \<lparr>bp_kind = kind, bp_max_padding = 32\<rparr>"

definition random_padding_bytes :: "'r filler \<Rightarrow> 'r \<Rightarrow> nat \<Rightarrow> bytes \<times> 'r" where
  "random_padding_bytes fill r len =
     (let bytes = replicate len 0 in if len > 0 then fill r bytes else (bytes, r))"

record ShapingBounds =
  sb_max_padding_bytes_per_frame :: nat
  sb_max_overhead_ratio :: f64
  sb_max_delay_ms :: u64
  sb_max_batch_bytes :: nat

definition ShapingBounds_default :: ShapingBounds where
  "ShapingBounds_default =
     \<lparr>sb_max_padding_bytes_per_frame = 256, sb_max_overhead_ratio = Fin False 1 (-2),
      sb_max_delay_ms = 20, sb_max_batch_bytes = 65536\<rparr>"

definition ShapingBounds_from :: "ShapingConfig \<Rightarrow> ShapingBounds" where
  "ShapingBounds_from config =
     \<lparr>sb_max_padding_bytes_per_frame = unat (shp_max_padding_bytes_per_frame config),
      sb_max_overhead_ratio = shp_max_overhead_ratio config,
      sb_max_delay_ms = shp_max_delay_ms config,
      sb_max_batch_bytes = unat (shp_max_batch_bytes config)\<rparr>"

record BudgetedPaddingPolicy =
  pp_kind :: PaddingKind
  pp_bounds :: ShapingBounds

definition BudgetedPaddingPolicy_new :: "PaddingKind \<Rightarrow> ShapingBounds \<Rightarrow> BudgetedPaddingPolicy" where
  "BudgetedPaddingPolicy_new kind bounds = \<lparr>pp_kind = kind, pp_bounds = bounds\<rparr>"

definition overhead_cap :: "BudgetedPaddingPolicy \<Rightarrow> nat \<Rightarrow> nat" where
  "overhead_cap p payload_len =
     (let ratio = sb_max_overhead_ratio (pp_bounds p) in
      if \<not> f64_is_finite ratio \<or> f64_le_zero ratio then 0 else f64_budget payload_len ratio)"

definition budgeted_pad_outgoing_frame :: "BudgetedPaddingPolicy \<Rightarrow> FrameType \<Rightarrow> nat \<Rightarrow> nat" where
  "budgeted_pad_outgoing_frame p ft payload_len =
     (if ft \<in> {ClientHello, ServerHello, Error, Padding} then 0
      else
        let cap = min (sb_max_padding_bytes_per_frame (pp_bounds p)) (overhead_cap p payload_len) in
        case pp_kind p of
          PadNone \<Rightarrow> 0 | PadLight \<Rightarrow> min cap 16 | PadAuto \<Rightarrow> min cap 64 | PadPrivate \<Rightarrow> cap)"

definition basic_pad_outgoing_frame :: "BasicPaddingPolicy \<Rightarrow> FrameType \<Rightarrow> nat \<Rightarrow> nat" where
  "basic_pad_outgoing_frame p ft payload_len =
     (case bp_kind p of
        PadNone \<Rightarrow> 0
      | _ \<Rightarrow>
          if ft \<in> {ClientHello, ServerHello, Padding} then 0
          else if payload_len < 64 then min 8 (bp_max_padding p) else 0)"

subsection \<open>Runtime padding\<close>

definition is_delay_eligible :: "FrameType \<Rightarrow> bool" where
  "is_delay_eligible ft = (ft \<notin> {ClientHello, ServerHello, TcpFin, TcpReset, CloseFlow, Error, Padding})"

record RuntimePadding =
  rp_enabled :: bool
  rp_policy :: BudgetedPaddingPolicy

definition RuntimePadding_disabled :: RuntimePadding where
  "RuntimePadding_disabled =
     \<lparr>rp_enabled = False, rp_policy = BudgetedPaddingPolicy_new PadNone ShapingBounds_default\<rparr>"

definition RuntimePadding_from_config :: "Mode \<Rightarrow> ShapingConfig \<Rightarrow> RuntimePadding result" where
  "RuntimePadding_from_config mode config =
     (if \<not> shp_enabled config \<or> mode = Stable then Ok RuntimePadding_disabled
      else and_then (case mode of Auto \<Rightarrow> Ok PadAuto | Private \<Rightarrow> Ok PadPrivate | Stable \<Rightarrow> Panic) (\<lambda>kind.
        Ok \<lparr>rp_enabled = True, rp_policy = BudgetedPaddingPolicy_new kind (ShapingBounds_from config)\<rparr>))"

definition padding_frame :: "'r filler \<Rightarrow> 'r \<Rightarrow> RuntimePadding \<Rightarrow> FrameType \<Rightarrow> nat \<Rightarrow> nat \<Rightarrow> Frame option \<times> 'r" where
  "padding_frame fill r p ft payload_len max_frame_size =
     (if \<not> rp_enabled p \<or> max_frame_size = 0 then (None, r)
      else
        let padding_len = min (budgeted_pad_outgoing_frame (rp_policy p) ft payload_len) max_frame_size in
        if padding_len = 0 then (None, r)
        else let (bytes, r) = random_padding_bytes fill r padding_len in (Some (Frame_new Padding 0 0 bytes), r))"

definition pacing_delay :: "RuntimePadding \<Rightarrow> FrameType \<Rightarrow> nat \<Rightarrow> nat option" where
  "pacing_delay p ft payload_len =
     (if \<not> rp_enabled p \<or> \<not> is_delay_eligible ft then None
      else if payload_len \<ge> sb_max_batch_bytes (pp_bounds (rp_policy p)) then None
      else
        let max_delay = unat (sb_max_delay_ms (pp_bounds (rp_policy p)));
            delay_ms = (case pp_kind (rp_policy p) of
              PadNone \<Rightarrow> 0 | PadLight \<Rightarrow> min max_delay 1 | PadAuto \<Rightarrow> min max_delay 5 | PadPrivate \<Rightarrow> max_delay) in
        if delay_ms > 0 then Some (from_millis delay_ms) else None)"

subsection \<open>Cover traffic\<close>

record CoverTrafficPlan =
  ct_max_frames_per_window :: nat
  ct_max_bytes_per_window :: nat
  ct_frame_payload_bytes :: nat
  ct_spacing :: nat

record CoverTrafficOperatorPolicy =
  op_operator_approved :: bool
  op_window :: nat

definition operator_disabled :: CoverTrafficOperatorPolicy where
  "operator_disabled = \<lparr>op_operator_approved = False, op_window = from_millis 1000\<rparr>"

definition operator_approved :: "nat \<Rightarrow> CoverTrafficOperatorPolicy" where
  "operator_approved window = \<lparr>op_operator_approved = True, op_window = window\<rparr>"

datatype CoverTrafficDecisionReason =
    Ready | Disabled | StableMode | MissingOperatorApproval | InvalidWindow
  | MissingObservedPayloadBudget | BudgetUnavailable

record CoverTrafficDecision =
  cd_reason :: CoverTrafficDecisionReason
  cd_plan :: "CoverTrafficPlan option"

definition decision_ready :: "CoverTrafficPlan \<Rightarrow> CoverTrafficDecision" where
  "decision_ready plan = \<lparr>cd_reason = Ready, cd_plan = Some plan\<rparr>"

definition decision_rejected :: "CoverTrafficDecisionReason \<Rightarrow> CoverTrafficDecision" where
  "decision_rejected reason = \<lparr>cd_reason = reason, cd_plan = None\<rparr>"

definition decision_is_ready :: "CoverTrafficDecision \<Rightarrow> bool" where
  "decision_is_ready d = (cd_reason d = Ready \<and> cd_plan d \<noteq> None)"

definition cover_traffic_plan :: "Mode \<Rightarrow> ShapingConfig \<Rightarrow> nat \<Rightarrow> nat \<Rightarrow> CoverTrafficPlan option" where
  "cover_traffic_plan mode config observed_payload_bytes window =
     (if mode = Stable \<or> \<not> shp_enabled config \<or> \<not> shp_cover_traffic config
         \<or> observed_payload_bytes = 0 \<or> window = 0 then None
      else
        let bounds = ShapingBounds_from config; ratio = sb_max_overhead_ratio bounds in
        if \<not> f64_is_finite ratio \<or> f64_le_zero ratio then None
        else
          let overhead_budget = f64_budget observed_payload_bytes ratio;
              max_bytes = min overhead_budget (sb_max_batch_bytes bounds) in
          if max_bytes = 0 then None
          else
            let frame_payload_bytes = min (sb_max_padding_bytes_per_frame bounds) max_bytes in
            if frame_payload_bytes = 0 then None
            else
              let max_frames = (max_bytes + frame_payload_bytes - 1) div frame_payload_bytes;
                  spacing_ms = max (as_millis window div max_frames) 1 mod 2 ^ 64 in
              Some \<lparr>ct_max_frames_per_window = max_frames, ct_max_bytes_per_window = max_bytes,
                    ct_frame_payload_bytes = frame_payload_bytes, ct_spacing = from_millis spacing_ms\<rparr>)"

definition cover_traffic_decision ::
  "Mode \<Rightarrow> ShapingConfig \<Rightarrow> nat \<Rightarrow> CoverTrafficOperatorPolicy \<Rightarrow> CoverTrafficDecision" where
  "cover_traffic_decision mode config observed_payload_bytes policy =
     (if \<not> shp_enabled config \<or> \<not> shp_cover_traffic config then decision_rejected Disabled
      else if mode = Stable then decision_rejected StableMode
      else if \<not> op_operator_approved policy then decision_rejected MissingOperatorApproval
      else if op_window policy = 0 then decision_rejected InvalidWindow
      else if observed_payload_bytes = 0 then decision_rejected MissingObservedPayloadBudget
      else case cover_traffic_plan mode config observed_payload_bytes (op_window policy) of
        Some plan \<Rightarrow> decision_ready plan
      | None \<Rightarrow> decision_rejected BudgetUnavailable)"

record CoverTrafficEmitter =
  ce_plan :: CoverTrafficPlan
  ce_emitted_frames :: nat
  ce_emitted_bytes :: nat

definition CoverTrafficEmitter_new :: "CoverTrafficPlan \<Rightarrow> CoverTrafficEmitter" where
  "CoverTrafficEmitter_new plan = \<lparr>ce_plan = plan, ce_emitted_frames = 0, ce_emitted_bytes = 0\<rparr>"

definition next_padding_frame :: "'r filler \<Rightarrow> 'r \<Rightarrow> CoverTrafficEmitter \<Rightarrow> Frame option \<times> CoverTrafficEmitter \<times> 'r" where
  "next_padding_frame fill r e =
     (if ce_emitted_frames e \<ge> ct_max_frames_per_window (ce_plan e)
         \<or> ce_emitted_bytes e \<ge> ct_max_bytes_per_window (ce_plan e) then (None, e, r)
      else
        let remaining_bytes = ct_max_bytes_per_window (ce_plan e) - ce_emitted_bytes e;
            payload_len = min (ct_frame_payload_bytes (ce_plan e)) remaining_bytes in
        if payload_len = 0 then (None, e, r)
        else
          let (bytes, r) = random_padding_bytes fill r payload_len in
          (Some (Frame_new Padding 0 0 bytes),
           e\<lparr>ce_emitted_frames := ce_emitted_frames e + 1, ce_emitted_bytes := ce_emitted_bytes e + payload_len\<rparr>, r))"

record RuntimeCoverTraffic =
  rct_mode :: Mode
  rct_config :: ShapingConfig
  rct_operator_policy :: CoverTrafficOperatorPolicy

definition RuntimeCoverTraffic_disabled :: RuntimeCoverTraffic where
  "RuntimeCoverTraffic_disabled =
     \<lparr>rct_mode = Stable, rct_config = ShapingConfig_default, rct_operator_policy = operator_disabled\<rparr>"

definition RuntimeCoverTraffic_from_config :: "Mode \<Rightarrow> ShapingConfig \<Rightarrow> RuntimeCoverTraffic" where
  "RuntimeCoverTraffic_from_config mode config =
     (if \<not> shp_enabled config \<or> \<not> shp_cover_traffic config \<or> mode = Stable then RuntimeCoverTraffic_disabled
      else
        \<lparr>rct_mode = mode, rct_config = config,
         rct_operator_policy =
           (if shp_cover_traffic_operator_approved config
            then operator_approved (from_millis (unat (shp_cover_traffic_window_ms config)))
            else operator_disabled)\<rparr>)"

definition padding_frames ::
  "'r filler \<Rightarrow> 'r \<Rightarrow> RuntimeCoverTraffic \<Rightarrow> FrameType \<Rightarrow> nat \<Rightarrow> nat \<Rightarrow> Frame list \<times> 'r" where
  "padding_frames fill r c ft observed_payload_bytes max_frame_size =
     (if \<not> is_delay_eligible ft \<or> observed_payload_bytes = 0 \<or> max_frame_size = 0 then ([], r)
      else case cd_plan (cover_traffic_decision (rct_mode c) (rct_config c) observed_payload_bytes (rct_operator_policy c)) of
        None \<Rightarrow> ([], r)
      | Some plan \<Rightarrow>
          let plan = plan\<lparr>ct_frame_payload_bytes := min (ct_frame_payload_bytes plan) max_frame_size,
                          ct_max_bytes_per_window := min (ct_max_bytes_per_window plan) max_frame_size,
                          ct_max_frames_per_window := min (ct_max_frames_per_window plan) 1\<rparr>;
              (frame, _, r) = next_padding_frame fill r (CoverTrafficEmitter_new plan) in
          (case frame of Some f \<Rightarrow> [f] | None \<Rightarrow> [], r))"

subsection \<open>Batching\<close>

definition batch_cost_for_payload :: "nat \<Rightarrow> nat" where
  "batch_cost_for_payload payload_len = FRAME_HEADER_LEN + payload_len"

definition batch_cost :: "Frame \<Rightarrow> nat" where
  "batch_cost f = batch_cost_for_payload (length (payload f))"

definition is_batch_eligible :: "FrameType \<Rightarrow> nat \<Rightarrow> ShapingBounds \<Rightarrow> bool" where
  "is_batch_eligible ft payload_len bounds =
     (is_delay_eligible ft \<and> batch_cost_for_payload payload_len < sb_max_batch_bytes bounds)"

record RuntimeBatcher =
  rb_enabled :: bool
  rb_bounds :: ShapingBounds
  rb_pending :: "Frame list"
  rb_pending_bytes :: nat

definition RuntimeBatcher_disabled :: RuntimeBatcher where
  "RuntimeBatcher_disabled =
     \<lparr>rb_enabled = False, rb_bounds = ShapingBounds_default, rb_pending = [], rb_pending_bytes = 0\<rparr>"

definition RuntimeBatcher_from_config :: "Mode \<Rightarrow> ShapingConfig \<Rightarrow> RuntimeBatcher" where
  "RuntimeBatcher_from_config mode config =
     (if \<not> shp_enabled config \<or> mode = Stable \<or> shp_max_delay_ms config = 0 then RuntimeBatcher_disabled
      else \<lparr>rb_enabled = True, rb_bounds = ShapingBounds_from config, rb_pending = [], rb_pending_bytes = 0\<rparr>)"

definition flush :: "RuntimeBatcher \<Rightarrow> Frame list \<times> RuntimeBatcher" where
  "flush b = (rb_pending b, b\<lparr>rb_pending_bytes := 0, rb_pending := []\<rparr>)"

definition push :: "RuntimeBatcher \<Rightarrow> Frame \<Rightarrow> Frame list \<times> RuntimeBatcher" where
  "push b frame =
     (if \<not> rb_enabled b \<or> \<not> is_batch_eligible (frame_type frame) (length (payload frame)) (rb_bounds b)
      then let (ready, b) = flush b in (ready @ [frame], b)
      else
        let b = b\<lparr>rb_pending_bytes := rb_pending_bytes b + batch_cost frame, rb_pending := rb_pending b @ [frame]\<rparr> in
        if rb_pending_bytes b \<ge> sb_max_batch_bytes (rb_bounds b) then flush b else ([], b))"

definition flush_due :: "RuntimeBatcher \<Rightarrow> nat \<Rightarrow> Frame list \<times> RuntimeBatcher" where
  "flush_due b elapsed =
     (if rb_pending b \<noteq> [] \<and> elapsed \<ge> from_millis (unat (sb_max_delay_ms (rb_bounds b))) then flush b else ([], b))"

definition batcher_is_empty :: "RuntimeBatcher \<Rightarrow> bool" where
  "batcher_is_empty b = (rb_pending b = [])"

definition flush_delay :: "RuntimeBatcher \<Rightarrow> nat option" where
  "flush_delay b =
     (if rb_enabled b \<and> rb_pending b \<noteq> [] then Some (from_millis (unat (sb_max_delay_ms (rb_bounds b)))) else None)"

text \<open>What the client sends for a frame, with the batcher it leaves behind and the time it slept first.\<close>

definition prepare_outgoing_frames ::
  "Frame \<Rightarrow> RuntimeBatcher \<Rightarrow> RuntimePadding \<Rightarrow> Frame list \<times> RuntimeBatcher \<times> nat" where
  "prepare_outgoing_frames frame batcher padding =
     (if \<not> rb_enabled batcher
      then ([frame], batcher,
            case pacing_delay padding (frame_type frame) (length (payload frame)) of Some delay \<Rightarrow> delay | None \<Rightarrow> 0)
      else
        let (ready, batcher) = push batcher frame in
        if ready = [] then
          (case flush_delay batcher of
             Some delay \<Rightarrow> (let (ready, batcher) = flush_due batcher delay in (ready, batcher, delay))
           | None \<Rightarrow> (ready, batcher, 0))
        else (ready, batcher, 0))"

subsection \<open>Budgets\<close>

lemma ShapingConfig_validate_OkD:
  assumes "ShapingConfig_validate c = Ok ()"
  shows "f64_is_finite (shp_max_overhead_ratio c)" "\<not> f64_gt_one (shp_max_overhead_ratio c)"
    "unat (shp_max_delay_ms c) \<le> 1000" "0 < unat (shp_max_batch_bytes c)"
    "0 < unat (shp_max_padding_bytes_per_frame c)"
  using assms by (simp_all add: ShapingConfig_validate_def word_le_nat_alt not_less unat_gt_0)

lemma random_padding_length: "fill_ok fill \<Longrightarrow> length (fst (random_padding_bytes fill r n)) = n"
  by (auto simp: random_padding_bytes_def fill_ok_def Let_def)

lemma overhead_cap_le:
  assumes "n < 2 ^ 53" "\<not> f64_gt_one (sb_max_overhead_ratio (pp_bounds p))"
  shows "overhead_cap p n \<le> n"
  using f64_budget_le [OF assms(1) _ assms(2)] by (simp add: overhead_cap_def Let_def)

lemma budgeted_pad_le:
  "budgeted_pad_outgoing_frame p ft n \<le> sb_max_padding_bytes_per_frame (pp_bounds p)"
  "budgeted_pad_outgoing_frame p ft n \<le> overhead_cap p n"
  by (auto simp: budgeted_pad_outgoing_frame_def Let_def split: PaddingKind.splits)

text \<open>A frame of padding of at most \<open>n\<close> bytes.\<close>

definition padding_upto :: "nat \<Rightarrow> Frame \<Rightarrow> bool" where
  "padding_upto n f = (frame_type f = Padding \<and> flags f = 0 \<and> flow_id f = 0 \<and> payload f \<noteq> [] \<and> length (payload f) \<le> n)"

lemma padding_upto_new:
  "fill_ok fill \<Longrightarrow> 0 < k \<Longrightarrow> k \<le> n \<Longrightarrow> padding_upto n (Frame_new Padding 0 0 (fst (random_padding_bytes fill r k)))"
  using random_padding_length [of fill r k] by (auto simp: padding_upto_def Frame_new_def)

lemma padding_frame_upto:
  assumes "fill_ok fill" "padding_frame fill r p ft n mfs = (Some f, r')"
  shows "padding_upto (min (budgeted_pad_outgoing_frame (rp_policy p) ft n) mfs) f" "rp_enabled p"
  using assms(2) padding_upto_new [OF assms(1), of "min (budgeted_pad_outgoing_frame (rp_policy p) ft n) mfs" _ r]
  by (auto simp: padding_frame_def Let_def split: if_splits prod.splits)

lemma RuntimePadding_from_config_total:
  "\<exists>p. RuntimePadding_from_config mode c = Ok p
     \<and> (rp_enabled p \<longrightarrow> mode \<noteq> Stable \<and> shp_enabled c \<and> pp_bounds (rp_policy p) = ShapingBounds_from c)"
  by (cases mode) (auto simp: RuntimePadding_from_config_def RuntimePadding_disabled_def BudgetedPaddingPolicy_new_def)

lemma if_None_Some: "(if c then None else x) = Some y \<longleftrightarrow> \<not> c \<and> x = Some y"
  by simp

lemma cover_traffic_planD:
  assumes "cover_traffic_plan mode c n w = Some plan"
  shows "mode \<noteq> Stable" "shp_enabled c" "shp_cover_traffic c"
    "0 < ct_max_bytes_per_window plan" "ct_max_bytes_per_window plan \<le> f64_budget n (shp_max_overhead_ratio c)"
    "ct_max_bytes_per_window plan \<le> unat (shp_max_batch_bytes c)"
    "0 < ct_frame_payload_bytes plan" "ct_frame_payload_bytes plan \<le> unat (shp_max_padding_bytes_per_frame c)"
    "ct_frame_payload_bytes plan \<le> ct_max_bytes_per_window plan"
    "ct_max_frames_per_window plan
       = (ct_max_bytes_per_window plan + ct_frame_payload_bytes plan - 1) div ct_frame_payload_bytes plan"
proof -
  note d = assms [unfolded cover_traffic_plan_def Let_def if_None_Some option.inject]
  show "mode \<noteq> Stable" "shp_enabled c" "shp_cover_traffic c" using d by blast+
  from d obtain b f m where p: "plan = \<lparr>ct_max_frames_per_window = (b + f - 1) div f, ct_max_bytes_per_window = b,
        ct_frame_payload_bytes = f, ct_spacing = m\<rparr>" and "b \<noteq> 0" "f \<noteq> 0"
      and b: "b = min (f64_budget n (sb_max_overhead_ratio (ShapingBounds_from c))) (sb_max_batch_bytes (ShapingBounds_from c))"
      and f: "f = min (sb_max_padding_bytes_per_frame (ShapingBounds_from c)) b"
    by blast
  then show "0 < ct_max_bytes_per_window plan" "0 < ct_frame_payload_bytes plan"
    "ct_max_frames_per_window plan
       = (ct_max_bytes_per_window plan + ct_frame_payload_bytes plan - 1) div ct_frame_payload_bytes plan"
    by simp_all
  show "ct_max_bytes_per_window plan \<le> f64_budget n (shp_max_overhead_ratio c)"
    "ct_max_bytes_per_window plan \<le> unat (shp_max_batch_bytes c)"
    unfolding p b by (simp_all add: ShapingBounds_from_def)
  show "ct_frame_payload_bytes plan \<le> unat (shp_max_padding_bytes_per_frame c)"
    "ct_frame_payload_bytes plan \<le> ct_max_bytes_per_window plan"
    unfolding p f by (simp_all add: ShapingBounds_from_def)
qed

lemma cover_traffic_decisionD:
  assumes "cd_plan (cover_traffic_decision mode c n policy) = Some plan"
  shows "cover_traffic_plan mode c n (op_window policy) = Some plan" "op_operator_approved policy"
  using assms
  by (auto simp: cover_traffic_decision_def decision_rejected_def decision_ready_def split: if_splits option.splits)

lemma next_padding_frame_upto:
  assumes "fill_ok fill" "next_padding_frame fill r e = (Some f, e', r')"
  shows "padding_upto (min (ct_frame_payload_bytes (ce_plan e)) (ct_max_bytes_per_window (ce_plan e))) f"
proof -
  let ?k = "min (ct_frame_payload_bytes (ce_plan e)) (ct_max_bytes_per_window (ce_plan e) - ce_emitted_bytes e)"
  have "0 < ?k" "f = Frame_new Padding 0 0 (fst (random_padding_bytes fill r ?k))"
    using assms(2) by (auto simp: next_padding_frame_def Let_def split: if_splits prod.splits)
  then show ?thesis using padding_upto_new [OF assms(1), of ?k] by simp
qed

lemma padding_frames_upto:
  assumes "fill_ok fill" "f \<in> set (fst (padding_frames fill r c ft n mfs))"
  obtains plan where "cover_traffic_plan (rct_mode c) (rct_config c) n (op_window (rct_operator_policy c)) = Some plan"
    "op_operator_approved (rct_operator_policy c)" "is_delay_eligible ft"
    "padding_upto (min (ct_frame_payload_bytes plan) (min (ct_max_bytes_per_window plan) mfs)) f"
proof -
  obtain plan where plan: "is_delay_eligible ft"
      "cd_plan (cover_traffic_decision (rct_mode c) (rct_config c) n (rct_operator_policy c)) = Some plan"
    and f: "fst (next_padding_frame fill r (CoverTrafficEmitter_new
        (plan\<lparr>ct_frame_payload_bytes := min (ct_frame_payload_bytes plan) mfs,
              ct_max_bytes_per_window := min (ct_max_bytes_per_window plan) mfs,
              ct_max_frames_per_window := min (ct_max_frames_per_window plan) 1\<rparr>))) = Some f"
    using assms(2) by (auto simp: padding_frames_def Let_def split: if_splits option.splits prod.splits)
  note d = cover_traffic_decisionD [OF plan(2)]
  obtain e' r' where "next_padding_frame fill r (CoverTrafficEmitter_new
        (plan\<lparr>ct_frame_payload_bytes := min (ct_frame_payload_bytes plan) mfs,
              ct_max_bytes_per_window := min (ct_max_bytes_per_window plan) mfs,
              ct_max_frames_per_window := min (ct_max_frames_per_window plan) 1\<rparr>)) = (Some f, e', r')"
    using f by (metis prod.collapse)
  from next_padding_frame_upto [OF assms(1) this]
  have "padding_upto (min (ct_frame_payload_bytes plan) (min (ct_max_bytes_per_window plan) mfs)) f"
    by (simp add: CoverTrafficEmitter_new_def padding_upto_def)
  with d plan(1) show ?thesis by (intro that)
qed

lemma cover_frames_count: "length (fst (padding_frames fill r c ft n mfs)) \<le> 1"
  by (auto simp: padding_frames_def Let_def split: option.splits prod.splits)

lemma from_config_cover:
  "RuntimeCoverTraffic_from_config mode c = RuntimeCoverTraffic_disabled
   \<or> rct_mode (RuntimeCoverTraffic_from_config mode c) = mode \<and> rct_config (RuntimeCoverTraffic_from_config mode c) = c"
  by (simp add: RuntimeCoverTraffic_from_config_def)

lemma padding_upto_mono: "padding_upto m f \<Longrightarrow> m \<le> n \<Longrightarrow> padding_upto n f"
  by (auto simp: padding_upto_def)

lemma runtime_padding_le:
  assumes "fill_ok fill" "ShapingConfig_validate c = Ok ()" "n < 2 ^ 53"
    and "RuntimePadding_from_config mode c = Ok p" "padding_frame fill r p ft n mfs = (Some f, r')"
  shows "padding_upto (min n (min (unat (shp_max_padding_bytes_per_frame c)) mfs)) f"
proof -
  note f = padding_frame_upto [OF assms(1,5)]
  have b: "pp_bounds (rp_policy p) = ShapingBounds_from c"
    using RuntimePadding_from_config_total [of mode c] assms(4) f(2) by auto
  have "overhead_cap (rp_policy p) n \<le> n"
    by (rule overhead_cap_le [OF assms(3)]) (simp add: b ShapingBounds_from_def ShapingConfig_validate_OkD [OF assms(2)])
  then have "budgeted_pad_outgoing_frame (rp_policy p) ft n \<le> min n (unat (shp_max_padding_bytes_per_frame c))"
    using budgeted_pad_le [of "rp_policy p" ft n] by (simp add: b ShapingBounds_from_def)
  then show ?thesis by (intro padding_upto_mono [OF f(1)]) (simp add: min_le_iff_disj)
qed

lemma cover_traffic_le:
  assumes "fill_ok fill" "ShapingConfig_validate c = Ok ()" "n < 2 ^ 53"
    and "f \<in> set (fst (padding_frames fill r (RuntimeCoverTraffic_from_config mode c) ft n mfs))"
  shows "padding_upto (min n (min (unat (shp_max_padding_bytes_per_frame c)) mfs)) f"
    "is_delay_eligible ft" "mode \<noteq> Stable"
proof -
  let ?rc = "RuntimeCoverTraffic_from_config mode c"
  obtain plan where plan: "cover_traffic_plan (rct_mode ?rc) (rct_config ?rc) n (op_window (rct_operator_policy ?rc)) = Some plan"
      "is_delay_eligible ft"
      "padding_upto (min (ct_frame_payload_bytes plan) (min (ct_max_bytes_per_window plan) mfs)) f"
    by (rule padding_frames_upto [OF assms(1,4)])
  note d = cover_traffic_planD [OF plan(1)]
  have rc: "rct_mode ?rc = mode" "rct_config ?rc = c"
    using from_config_cover [of mode c] d(1) by (auto simp: RuntimeCoverTraffic_disabled_def)
  have "f64_budget n (shp_max_overhead_ratio c) \<le> n"
    using f64_budget_le [OF assms(3)] ShapingConfig_validate_OkD(1,2) [OF assms(2)] by blast
  then show "padding_upto (min n (min (unat (shp_max_padding_bytes_per_frame c)) mfs)) f"
    using d(5,8,9) unfolding rc by (intro padding_upto_mono [OF plan(3)]) (auto simp: min_le_iff_disj)
  show "is_delay_eligible ft" "mode \<noteq> Stable" using plan(2) d(1) rc by simp_all
qed

text \<open>Shaping keeps its budget. With a validated shaping section, for every mode, frame type, limit and
payload below \<open>2^53\<close> bytes (the range in which a \<open>usize\<close> is exact as an \<open>f64\<close>): setting the policy up cannot hit its
\<open>unreachable!\<close>; the padding sent before a frame is a \<open>Padding\<close> frame no longer than the frame's own payload, the
configured cap and the frame limit; cover traffic adds at most one more frame within the same limits, and only to
frames that carry flow data; and in stable mode nothing is added.\<close>

theorem padding_overhead_bounded:
  assumes "fill_ok fill" "ShapingConfig_validate c = Ok ()" "n < 2 ^ 53"
  shows "\<exists>p. RuntimePadding_from_config mode c = Ok p
     \<and> (\<forall>f. fst (padding_frame fill r p ft n mfs) = Some f \<longrightarrow>
           padding_upto (min n (min (unat (shp_max_padding_bytes_per_frame c)) mfs)) f \<and> mode \<noteq> Stable)
     \<and> length (fst (padding_frames fill r (RuntimeCoverTraffic_from_config mode c) ft n mfs)) \<le> 1
     \<and> (\<forall>f \<in> set (fst (padding_frames fill r (RuntimeCoverTraffic_from_config mode c) ft n mfs)).
           padding_upto (min n (min (unat (shp_max_padding_bytes_per_frame c)) mfs)) f
           \<and> is_delay_eligible ft \<and> mode \<noteq> Stable)"
proof -
  obtain p where p: "RuntimePadding_from_config mode c = Ok p" "rp_enabled p \<longrightarrow> mode \<noteq> Stable"
    using RuntimePadding_from_config_total by blast
  have "padding_upto (min n (min (unat (shp_max_padding_bytes_per_frame c)) mfs)) f \<and> mode \<noteq> Stable"
    if some: "fst (padding_frame fill r p ft n mfs) = Some f" for f
  proof -
    obtain r' where f: "padding_frame fill r p ft n mfs = (Some f, r')"
      using some by (cases "padding_frame fill r p ft n mfs") simp
    show ?thesis using runtime_padding_le [OF assms p(1) f] padding_frame_upto(2) [OF assms(1) f] p(2) by simp
  qed
  then show ?thesis using p(1) cover_frames_count cover_traffic_le [OF assms] by (intro exI conjI) auto
qed

definition zero_fill :: "unit filler" where
  "zero_fill r b = (b, r)"

definition example_shaping :: ShapingConfig where
  "example_shaping = ShapingConfig_default\<lparr>shp_enabled := True, shp_cover_traffic := True,
     shp_cover_traffic_operator_approved := True\<rparr>"

lemma example_shaping_ok: "ShapingConfig_validate example_shaping = Ok ()"
  by (simp add: example_shaping_def ShapingConfig_validate_def ShapingConfig_default_def
      default_shaping_max_padding_bytes_per_frame_def default_shaping_max_overhead_ratio_def
      default_shaping_max_delay_ms_def default_shaping_max_batch_bytes_def default_cover_traffic_window_ms_def)

lemma zero_fill_ok: "fill_ok zero_fill"
  by (simp add: fill_ok_def zero_fill_def)

theorem padding_overhead_bounded_witness:
  "fill_ok zero_fill \<and> ShapingConfig_validate example_shaping = Ok () \<and>
   (\<exists>p. RuntimePadding_from_config Private example_shaping = Ok p
      \<and> (\<forall>f. fst (padding_frame zero_fill () p TcpData 1000 65536) = Some f \<longrightarrow>
            padding_upto (min 1000 (min (unat (shp_max_padding_bytes_per_frame example_shaping)) 65536)) f))"
  using padding_overhead_bounded [OF zero_fill_ok example_shaping_ok, of 1000 Private "()" TcpData 65536]
    zero_fill_ok example_shaping_ok by auto

subsection \<open>Cover traffic uses up its plan\<close>

text \<open>Asking the emitter for frames until it has none.\<close>

lemma next_padding_frame_progress:
  assumes "next_padding_frame fill r e = (Some f, e', r')"
  shows "ct_max_bytes_per_window (ce_plan e') - ce_emitted_bytes e'
    < ct_max_bytes_per_window (ce_plan e) - ce_emitted_bytes e"
  using assms by (auto simp: next_padding_frame_def Let_def split: if_splits prod.splits)

function emit_all :: "'r filler \<Rightarrow> 'r \<Rightarrow> CoverTrafficEmitter \<Rightarrow> Frame list \<times> CoverTrafficEmitter \<times> 'r" where
  "emit_all fill r e =
     (case next_padding_frame fill r e of
        (None, e', r') \<Rightarrow> ([], e', r')
      | (Some f, e', r') \<Rightarrow> (let (fs, e'', r'') = emit_all fill r' e' in (f # fs, e'', r'')))"
  by pat_completeness auto

termination
  by (relation "measure (\<lambda>(fill, r, e). ct_max_bytes_per_window (ce_plan e) - ce_emitted_bytes e)")
     (auto dest: next_padding_frame_progress [OF sym])

declare emit_all.simps [simp del]

lemma div_ceil_less:
  fixes b f k :: nat
  assumes "0 < f"
  shows "k < (b + f - 1) div f \<longleftrightarrow> k * f < b"
proof -
  have "k < (b + f - 1) div f \<longleftrightarrow> Suc k * f \<le> b + f - 1"
    using less_eq_div_iff_mult_less_eq [OF assms, of "Suc k" "b + f - 1"] by (simp add: Suc_le_eq)
  also have "\<dots> \<longleftrightarrow> k * f < b" using assms by auto
  finally show ?thesis .
qed

definition payload_total :: "Frame list \<Rightarrow> nat" where
  "payload_total fs = sum_list (map (length \<circ> payload) fs)"

lemma next_padding_frame_some:
  assumes "fill_ok fill" "ce_emitted_frames e < ct_max_frames_per_window (ce_plan e)"
    and "ce_emitted_bytes e < ct_max_bytes_per_window (ce_plan e)" "0 < ct_frame_payload_bytes (ce_plan e)"
  obtains f r' where "next_padding_frame fill r e = (Some f, e\<lparr>ce_emitted_frames := ce_emitted_frames e + 1,
      ce_emitted_bytes := ce_emitted_bytes e + length (payload f)\<rparr>, r')"
    "length (payload f) = min (ct_frame_payload_bytes (ce_plan e)) (ct_max_bytes_per_window (ce_plan e) - ce_emitted_bytes e)"
    "padding_upto (ct_frame_payload_bytes (ce_plan e)) f"
proof -
  let ?k = "min (ct_frame_payload_bytes (ce_plan e)) (ct_max_bytes_per_window (ce_plan e) - ce_emitted_bytes e)"
  let ?f = "Frame_new Padding 0 0 (fst (random_padding_bytes fill r ?k))"
  have k: "0 < ?k" using assms(3,4) by simp
  have "length (payload ?f) = ?k" using random_padding_length [OF assms(1)] by (simp add: Frame_new_def)
  moreover have "padding_upto (ct_frame_payload_bytes (ce_plan e)) ?f" using padding_upto_new [OF assms(1) k] by simp
  moreover have "next_padding_frame fill r e = (Some ?f, e\<lparr>ce_emitted_frames := ce_emitted_frames e + 1,
      ce_emitted_bytes := ce_emitted_bytes e + ?k\<rparr>, snd (random_padding_bytes fill r ?k))"
    using assms(2,3) k by (simp add: next_padding_frame_def Let_def case_prod_beta)
  ultimately show ?thesis using that by metis
qed

lemma emit_all_from:
  assumes "fill_ok fill" "0 < ct_frame_payload_bytes (ce_plan e)"
    and "ct_max_frames_per_window (ce_plan e)
       = (ct_max_bytes_per_window (ce_plan e) + ct_frame_payload_bytes (ce_plan e) - 1) div ct_frame_payload_bytes (ce_plan e)"
    and "ce_emitted_frames e \<le> ct_max_frames_per_window (ce_plan e)"
    and "ce_emitted_bytes e = min (ct_max_bytes_per_window (ce_plan e)) (ce_emitted_frames e * ct_frame_payload_bytes (ce_plan e))"
  shows "length (fst (emit_all fill r e)) = ct_max_frames_per_window (ce_plan e) - ce_emitted_frames e
     \<and> payload_total (fst (emit_all fill r e)) = ct_max_bytes_per_window (ce_plan e) - ce_emitted_bytes e
     \<and> (\<forall>f \<in> set (fst (emit_all fill r e)). padding_upto (ct_frame_payload_bytes (ce_plan e)) f)"
  using assms
proof (induction fill r e rule: emit_all.induct)
  case (1 fill r e)
  let ?b = "ct_max_bytes_per_window (ce_plan e)" and ?f = "ct_frame_payload_bytes (ce_plan e)"
  let ?k = "ce_emitted_frames e"
  note ceil = div_ceil_less [OF "1.prems"(2), of ?k ?b, folded "1.prems"(3)]
  show ?case
  proof (cases "?k < ct_max_frames_per_window (ce_plan e)")
    case False
    then have "?k = ct_max_frames_per_window (ce_plan e)" "ce_emitted_bytes e = ?b" using "1.prems"(4,5) ceil by simp_all
    then show ?thesis by (simp add: emit_all.simps [of fill r e] next_padding_frame_def payload_total_def)
  next
    case True
    then have lt: "?k * ?f < ?b" using ceil by simp
    then have b: "ce_emitted_bytes e = ?k * ?f" using "1.prems"(5) by simp
    obtain f r' where n: "next_padding_frame fill r e = (Some f, e\<lparr>ce_emitted_frames := ?k + 1,
        ce_emitted_bytes := ce_emitted_bytes e + length (payload f)\<rparr>, r')"
        "length (payload f) = min ?f (?b - ce_emitted_bytes e)" "padding_upto ?f f"
      by (rule next_padding_frame_some [OF "1.prems"(1) True _ "1.prems"(2)]) (use lt b in simp)
    let ?e = "e\<lparr>ce_emitted_frames := ?k + 1, ce_emitted_bytes := ce_emitted_bytes e + length (payload f)\<rparr>"
    have "ce_emitted_bytes ?e = min ?b (ce_emitted_frames ?e * ?f)" using b n(2) lt by (auto simp: min_def)
    then have "length (fst (emit_all fill r' ?e)) = ct_max_frames_per_window (ce_plan e) - (?k + 1)
       \<and> payload_total (fst (emit_all fill r' ?e)) = ?b - (ce_emitted_bytes e + length (payload f))
       \<and> (\<forall>g \<in> set (fst (emit_all fill r' ?e)). padding_upto ?f g)"
      using "1.IH" [OF n(1) [symmetric] refl refl] "1.prems"(1,2,3) True by simp
    moreover have "fst (emit_all fill r e) = f # fst (emit_all fill r' ?e)"
      by (simp add: emit_all.simps [of fill r e] n(1) Let_def case_prod_beta)
    ultimately show ?thesis using n(2,3) True b lt by (simp add: payload_total_def)
  qed
qed

text \<open>C39. Cover traffic spends exactly its plan: asked again and again, the emitter of a planned window stops
by itself after exactly the planned number of frames, which together carry exactly the planned bytes, none of
them larger than the planned frame. With a validated shaping section, and for payloads below \<open>2^53\<close> bytes, the
planned bytes are no more than the payload observed and the batch cap.\<close>

theorem cover_traffic_spends_plan:
  assumes "fill_ok fill" "ShapingConfig_validate c = Ok ()" "n < 2 ^ 53"
    and "cover_traffic_plan mode c n window = Some plan"
  shows "length (fst (emit_all fill r (CoverTrafficEmitter_new plan))) = ct_max_frames_per_window plan
     \<and> payload_total (fst (emit_all fill r (CoverTrafficEmitter_new plan))) = ct_max_bytes_per_window plan
     \<and> (\<forall>f \<in> set (fst (emit_all fill r (CoverTrafficEmitter_new plan))). padding_upto (ct_frame_payload_bytes plan) f)
     \<and> ct_max_bytes_per_window plan \<le> min n (unat (shp_max_batch_bytes c))"
proof -
  note d = cover_traffic_planD [OF assms(4)]
  have "f64_budget n (shp_max_overhead_ratio c) \<le> n"
    using f64_budget_le [OF assms(3)] ShapingConfig_validate_OkD(1,2) [OF assms(2)] by blast
  then have "ct_max_bytes_per_window plan \<le> min n (unat (shp_max_batch_bytes c))" using d(5,6) by simp
  moreover have "length (fst (emit_all fill r (CoverTrafficEmitter_new plan))) = ct_max_frames_per_window plan
     \<and> payload_total (fst (emit_all fill r (CoverTrafficEmitter_new plan))) = ct_max_bytes_per_window plan
     \<and> (\<forall>f \<in> set (fst (emit_all fill r (CoverTrafficEmitter_new plan))). padding_upto (ct_frame_payload_bytes plan) f)"
    using emit_all_from [OF assms(1), of "CoverTrafficEmitter_new plan" r] d(7,10)
    by (simp add: CoverTrafficEmitter_new_def)
  ultimately show ?thesis by blast
qed

lemma example_cover_plan:
  "cover_traffic_plan Private example_shaping 4096 (from_millis 1000) =
     Some \<lparr>ct_max_frames_per_window = 4, ct_max_bytes_per_window = 1024, ct_frame_payload_bytes = 256,
           ct_spacing = from_millis 250\<rparr>"
proof -
  have "f64_budget 4096 (Fin False 1 (-2)) = 1024" using f64_budget_power2 [of 4096 2] by simp
  then show ?thesis
    by (simp add: cover_traffic_plan_def Let_def example_shaping_def ShapingConfig_default_def ShapingBounds_from_def
        default_shaping_max_padding_bytes_per_frame_def default_shaping_max_overhead_ratio_def from_millis_def
        default_shaping_max_batch_bytes_def as_millis_def)
qed

theorem cover_traffic_spends_plan_witness:
  "let plan = \<lparr>ct_max_frames_per_window = 4, ct_max_bytes_per_window = 1024, ct_frame_payload_bytes = 256,
           ct_spacing = from_millis 250\<rparr> in
   length (fst (emit_all zero_fill () (CoverTrafficEmitter_new plan))) = 4
   \<and> payload_total (fst (emit_all zero_fill () (CoverTrafficEmitter_new plan))) = 1024"
  using cover_traffic_spends_plan [OF zero_fill_ok example_shaping_ok _ example_cover_plan, of "()"] by simp

subsection \<open>Batching keeps the order\<close>

datatype batch_event = Push Frame | Due nat | Flush

fun batch_step :: "batch_event \<Rightarrow> RuntimeBatcher \<Rightarrow> Frame list \<times> RuntimeBatcher" where
  "batch_step (Push f) b = push b f"
| "batch_step (Due t) b = flush_due b t"
| "batch_step Flush b = flush b"

fun run_batcher :: "batch_event list \<Rightarrow> RuntimeBatcher \<Rightarrow> Frame list \<times> RuntimeBatcher" where
  "run_batcher [] b = ([], b)"
| "run_batcher (e # es) b =
     (let (out, b') = batch_step e b; (outs, b'') = run_batcher es b' in (out @ outs, b''))"

definition pushed :: "batch_event list \<Rightarrow> Frame list" where
  "pushed es = List.map_filter (\<lambda>e. case e of Push f \<Rightarrow> Some f | _ \<Rightarrow> None) es"

definition batcher_inv :: "RuntimeBatcher \<Rightarrow> bool" where
  "batcher_inv b =
     (rb_pending_bytes b = sum_list (map batch_cost (rb_pending b))
      \<and> (rb_pending b \<noteq> [] \<longrightarrow> rb_enabled b \<and> rb_pending_bytes b < sb_max_batch_bytes (rb_bounds b))
      \<and> (\<forall>f \<in> set (rb_pending b). is_delay_eligible (frame_type f)))"

lemma batch_step_inv:
  assumes "batcher_inv b" "batch_step e b = (out, b')"
  shows "batcher_inv b'" "rb_bounds b' = rb_bounds b \<and> rb_enabled b' = rb_enabled b"
    "rb_pending b @ pushed [e] = out @ rb_pending b'"
  using assms
  by (cases e; auto simp: push_def flush_def flush_due_def Let_def batcher_inv_def pushed_def map_filter_simps
      is_batch_eligible_def split: if_splits)+

lemma pushed_Cons: "pushed (e # es) = pushed [e] @ pushed es"
  by (simp add: pushed_def map_filter_simps split: batch_event.splits)

lemma run_batcher_inv:
  "batcher_inv b \<Longrightarrow> batcher_inv (snd (run_batcher es b))
     \<and> rb_pending b @ pushed es = fst (run_batcher es b) @ rb_pending (snd (run_batcher es b))
     \<and> rb_bounds (snd (run_batcher es b)) = rb_bounds b"
proof (induction es arbitrary: b)
  case (Cons e es)
  obtain out b' where e: "batch_step e b = (out, b')" by fastforce
  note step = batch_step_inv [OF Cons.prems e]
  have "rb_pending b @ pushed (e # es) = out @ rb_pending b' @ pushed es"
    unfolding pushed_Cons [of e es] using step(3) by (metis append.assoc)
  then show ?case using Cons.IH [OF step(1)] e step(2) by (simp add: Let_def case_prod_beta)
qed (simp add: pushed_def map_filter_simps)

lemma batcher_new_inv: "batcher_inv (RuntimeBatcher_from_config mode c)" "rb_pending (RuntimeBatcher_from_config mode c) = []"
  by (simp_all add: RuntimeBatcher_from_config_def RuntimeBatcher_disabled_def batcher_inv_def)

text \<open>The only caller sleeps for the flush delay inside the call that pushed the frame and flushes then, so
from an empty batcher every call sends exactly its own frame and leaves the batcher empty again: frames of
several calls are never sent together.\<close>

lemma prepare_outgoing_frames_single:
  assumes "rb_pending b = []"
  shows "fst (prepare_outgoing_frames f b p) = [f]"
    "rb_pending (fst (snd (prepare_outgoing_frames f b p))) = []"
  using assms
  by (auto simp: prepare_outgoing_frames_def push_def flush_def flush_due_def flush_delay_def Let_def split: option.splits)

text \<open>C40. Batching neither loses, duplicates nor reorders frames: after any sequence of pushes, timer checks and
flushes, what came out followed by what is pending is exactly what was pushed, in order. What is pending stays
below the batch cap, and a frame that ends a flow or reports an error is never held back.\<close>

theorem batcher_keeps_order:
  "case run_batcher es (RuntimeBatcher_from_config mode c) of (out, b) \<Rightarrow>
     pushed es = out @ rb_pending b
     \<and> (rb_pending b \<noteq> [] \<longrightarrow> sum_list (map batch_cost (rb_pending b)) < unat (shp_max_batch_bytes c))
     \<and> (\<forall>f \<in> set (rb_pending b). is_delay_eligible (frame_type f))"
proof -
  let ?b0 = "RuntimeBatcher_from_config mode c"
  have bounds: "rb_enabled ?b0 \<Longrightarrow> sb_max_batch_bytes (rb_bounds ?b0) = unat (shp_max_batch_bytes c)"
    by (auto simp: RuntimeBatcher_from_config_def RuntimeBatcher_disabled_def ShapingBounds_from_def)
  have en: "rb_enabled (snd (run_batcher es b)) = rb_enabled b" if "batcher_inv b" for b
    using that
  proof (induction es arbitrary: b)
    case (Cons e es)
    obtain out b' where e: "batch_step e b = (out, b')" by fastforce
    then show ?case using Cons.IH [OF batch_step_inv(1) [OF Cons.prems e]] batch_step_inv(2) [OF Cons.prems e]
      by (simp add: Let_def case_prod_beta)
  qed simp
  show ?thesis
    using run_batcher_inv [OF batcher_new_inv(1), of es mode c] en [OF batcher_new_inv(1)] bounds
    by (auto simp: batcher_new_inv(2) batcher_inv_def case_prod_beta)
qed

theorem batcher_keeps_order_witness:
  "let a = Frame_new TcpData 0 1 [1, 2, 3]; z = Frame_new TcpFin 0 1 [] in
   case run_batcher [Push a, Push z, Push a] (RuntimeBatcher_from_config Private example_shaping) of (out, b) \<Rightarrow>
     pushed [Push a, Push z, Push a] = out @ rb_pending b \<and> out = [a, z] \<and> rb_pending b = [a]
     \<and> sum_list (map batch_cost (rb_pending b)) < unat (shp_max_batch_bytes example_shaping)"
proof -
  let ?a = "Frame_new TcpData 0 1 [1, 2, 3]" and ?z = "Frame_new TcpFin 0 1 []"
  let ?r = "run_batcher [Push ?a, Push ?z, Push ?a] (RuntimeBatcher_from_config Private example_shaping)"
  have r: "fst ?r = [?a, ?z]" "rb_pending (snd ?r) = [?a]"
    by (simp_all add: RuntimeBatcher_from_config_def example_shaping_def ShapingConfig_default_def push_def flush_def
        Let_def is_batch_eligible_def is_delay_eligible_def Frame_new_def batch_cost_for_payload_def batch_cost_def
        ShapingBounds_from_def FRAME_HEADER_LEN_def default_shaping_max_batch_bytes_def default_shaping_max_delay_ms_def)
  then show ?thesis
    using batcher_keeps_order [where es = "[Push ?a, Push ?z, Push ?a]" and mode = Private and c = example_shaping]
    by (cases ?r) (simp add: Let_def)
qed

end
