(* ===== verification/Frame_IO.thy ===== *)
theory Frame_IO
  imports Grpc_Codec Padding_Policy
begin

text \<open>
  Frames on an HTTP/2 body: sending a frame with its padding and reading the next frame,
  \<open>maverick-server/src/relay.rs\<close> and \<open>maverick-client/src/tunnel.rs\<close>. The HTTP/2 library is not
  part of the program: what it delivers is a list of events, a chunk of data (with the answer of
  \<open>release_capacity\<close>) or a transport error, and the end of the list is the end of the body.
  The loops that read are total functions of that list; every pass either takes a message off the
  buffer or an event off the list.
\<close>

datatype io_error = IoCore error | IoBail string | IoTransport | IoStall

type_synonym 'a io_result = "('a, io_error) outcome"

datatype recv_event = RecvData bytes bool | RecvError

subsection \<open>Reading\<close>

lemma decode_grpc_outcomes:
  obtains (waits) "decode_grpc_frame_from b m = (Ok None, b)"
  | (frame) f r where "grpc_ok m f" "b = grpc_bytes f @ r" "decode_grpc_frame_from b m = (Ok (Some f), r)"
  | (fails) e r where "decode_grpc_frame_from b m = (Err e, r)"
  | (overflows) "USIZE_MAX < FRAME_HEADER_LEN + m" "decode_grpc_frame_from b m = (Panic, b)"
proof (cases "FRAME_HEADER_LEN + m \<le> USIZE_MAX")
  case True
  then show ?thesis by (cases rule: decode_grpc_cases [of m b]) (rule that; assumption)+
next
  case False
  then show ?thesis using that decode_grpc_overflow [of m b] by (simp split: if_splits)
qed

lemma decode_grpc_shorter: "decode_grpc_frame_from b m = (Ok (Some f), b') \<Longrightarrow> length b' < length b"
  by (cases rule: decode_grpc_outcomes [of b m]) (auto simp: length_grpc_bytes)

function read_next_frame_impl ::
  "nat \<Rightarrow> nat \<Rightarrow> recv_event list \<Rightarrow> bytes \<Rightarrow> bytes option
   \<Rightarrow> Frame option io_result \<times> recv_event list \<times> bytes \<times> bytes option" where
  "read_next_frame_impl max_frame_size max_capture_size stream buf capture =
     (case decode_grpc_frame_from buf max_frame_size of
        (Err e, buf) \<Rightarrow> (Err (IoCore e), stream, buf, capture)
      | (Panic, buf) \<Rightarrow> (Panic, stream, buf, capture)
      | (Ok (Some frame), buf) \<Rightarrow>
          if frame_type frame = Padding
          then read_next_frame_impl max_frame_size max_capture_size stream buf capture
          else (Ok (Some frame), stream, buf, capture)
      | (Ok None, buf) \<Rightarrow>
          (case stream of
             [] \<Rightarrow> (Ok None, [], buf, capture)
           | RecvError # stream \<Rightarrow> (Err IoTransport, stream, buf, capture)
           | RecvData bytes released # stream \<Rightarrow>
               (case capture of
                  None \<Rightarrow>
                    if \<not> released then (Err IoTransport, stream, buf, None)
                    else read_next_frame_impl max_frame_size max_capture_size stream (buf @ bytes) None
                | Some captured \<Rightarrow>
                    if length bytes > max_capture_size - length captured
                    then (Err (IoBail ''captured tunnel request body exceeded size limit''), stream, buf, Some captured)
                    else if \<not> released then (Err IoTransport, stream, buf, Some (captured @ bytes))
                    else read_next_frame_impl max_frame_size max_capture_size stream (buf @ bytes)
                           (Some (captured @ bytes)))))"
  by pat_completeness auto

termination
  by (relation "inv_image (less_than <*lex*> less_than) (\<lambda>(m, c, stream, buf, capture). (length stream, length buf))")
     (auto dest: decode_grpc_shorter [OF sym])

declare read_next_frame_impl.simps [simp del]

definition read_next_frame :: "recv_event list \<Rightarrow> bytes \<Rightarrow> nat \<Rightarrow> Frame option io_result \<times> recv_event list \<times> bytes" where
  "read_next_frame stream buf max_frame_size =
     (let (r, stream, buf, _) = read_next_frame_impl max_frame_size USIZE_MAX stream buf None in (r, stream, buf))"

definition read_next_frame_capturing ::
  "recv_event list \<Rightarrow> bytes \<Rightarrow> nat \<Rightarrow> bytes \<Rightarrow> nat \<Rightarrow> Frame option io_result \<times> recv_event list \<times> bytes \<times> bytes" where
  "read_next_frame_capturing stream buf max_frame_size capture max_capture_size =
     (let (r, stream, buf, c) = read_next_frame_impl max_frame_size max_capture_size stream buf (Some capture) in
      (r, stream, buf, case c of Some c \<Rightarrow> c | None \<Rightarrow> capture))"

function read_next_h2_frame :: "nat \<Rightarrow> recv_event list \<Rightarrow> bytes \<Rightarrow> Frame option io_result \<times> recv_event list \<times> bytes" where
  "read_next_h2_frame max_frame_size stream buf =
     (case decode_grpc_frame_from buf max_frame_size of
        (Err e, buf) \<Rightarrow> (Err (IoCore e), stream, buf)
      | (Panic, buf) \<Rightarrow> (Panic, stream, buf)
      | (Ok (Some frame), buf) \<Rightarrow>
          if frame_type frame = Padding then read_next_h2_frame max_frame_size stream buf
          else (Ok (Some frame), stream, buf)
      | (Ok None, buf) \<Rightarrow>
          (case stream of
             [] \<Rightarrow> (Ok None, [], buf)
           | RecvError # stream \<Rightarrow> (Err IoTransport, stream, buf)
           | RecvData bytes released # stream \<Rightarrow>
               if \<not> released then (Err IoTransport, stream, buf)
               else read_next_h2_frame max_frame_size stream (buf @ bytes)))"
  by pat_completeness auto

termination
  by (relation "inv_image (less_than <*lex*> less_than) (\<lambda>(m, stream, buf). (length stream, length buf))")
     (auto dest: decode_grpc_shorter [OF sym])

declare read_next_h2_frame.simps [simp del]

subsection \<open>Sending\<close>

definition error_frame :: "u64 \<Rightarrow> ErrorCode \<Rightarrow> Frame" where
  "error_frame fid code = Frame_new Error 0 fid (ErrorCode_encode code)"

record PaddingEmission =
  pe_padding_frames :: nat
  pe_padding_bytes :: nat
  pe_cover_traffic_padding_frames :: nat
  pe_cover_traffic_padding_bytes :: nat

definition PaddingEmission_default :: PaddingEmission where
  "PaddingEmission_default =
     \<lparr>pe_padding_frames = 0, pe_padding_bytes = 0, pe_cover_traffic_padding_frames = 0,
      pe_cover_traffic_padding_bytes = 0\<rparr>"

record PendingH2Send =
  ps_frames :: "bytes list"
  ps_end_stream :: bool
  ps_emission :: PaddingEmission

fun encode_cover_frames :: "Frame list \<Rightarrow> nat \<Rightarrow> bytes list \<Rightarrow> PaddingEmission \<Rightarrow> (bytes list \<times> PaddingEmission) result" where
  "encode_cover_frames [] max_frame_size frames emission = Ok (frames, emission)"
| "encode_cover_frames (f # fs) max_frame_size frames emission =
     and_then (encode_grpc_frame f max_frame_size) (\<lambda>bytes.
       encode_cover_frames fs max_frame_size (frames @ [bytes])
         (emission\<lparr>pe_cover_traffic_padding_frames := pe_cover_traffic_padding_frames emission + 1,
                   pe_cover_traffic_padding_bytes := pe_cover_traffic_padding_bytes emission + length (payload f)\<rparr>))"

definition prepare_frame_with_padding ::
  "'r filler \<Rightarrow> 'r \<Rightarrow> Frame \<Rightarrow> nat \<Rightarrow> bool \<Rightarrow> RuntimePadding \<Rightarrow> RuntimeCoverTraffic \<Rightarrow> PendingH2Send result \<times> 'r" where
  "prepare_frame_with_padding fill r frame max_frame_size end_stream padding cover_traffic =
     (let (pad, r) = padding_frame fill r padding (frame_type frame) (length (payload frame)) max_frame_size;
          (cover, r') = padding_frames fill r cover_traffic (frame_type frame) (length (payload frame)) max_frame_size in
      (and_then (case pad of
                   None \<Rightarrow> Ok ([], PaddingEmission_default)
                 | Some f \<Rightarrow> and_then (encode_grpc_frame f max_frame_size) (\<lambda>bytes.
                     Ok ([bytes], PaddingEmission_default\<lparr>pe_padding_frames := 1, pe_padding_bytes := length (payload f)\<rparr>)))
         (\<lambda>(frames, emission).
       and_then (encode_cover_frames cover max_frame_size frames emission) (\<lambda>(frames, emission).
       and_then (encode_grpc_frame frame max_frame_size) (\<lambda>bytes.
         Ok \<lparr>ps_frames = frames @ [bytes], ps_end_stream = end_stream, ps_emission = emission\<rparr>))), r'))"

text \<open>What the stream answers to \<open>wait_h2_capacity\<close>: room for some bytes, an error (of the wait or of the
\<open>send_data\<close> that follows it), or no answer before the stall timeout. A send that is still waiting when the answers run out has not returned.\<close>

datatype capacity_event = Capacity nat | CapacityError | CapacityStall

fun send_bytes_loop ::
  "capacity_event list \<Rightarrow> bytes \<Rightarrow> bool \<Rightarrow> unit io_result option \<times> (bytes \<times> bool) list" where
  "send_bytes_loop caps [] end_stream = (Some (Ok ()), [])"
| "send_bytes_loop [] (b # bs) end_stream = (None, [])"
| "send_bytes_loop (CapacityError # caps) (b # bs) end_stream = (Some (Err IoTransport), [])"
| "send_bytes_loop (CapacityStall # caps) (b # bs) end_stream = (Some (Err IoStall), [])"
| "send_bytes_loop (Capacity n # caps) (b # bs) end_stream =
     (if n = 0 then send_bytes_loop caps (b # bs) end_stream
      else
        let chunk_len = min n (length (b # bs)); chunk = take chunk_len (b # bs); rest = drop chunk_len (b # bs);
            (r, chunks) = send_bytes_loop caps rest end_stream in
        (r, (chunk, end_stream \<and> rest = []) # chunks))"

definition send_bytes_with_capacity ::
  "capacity_event list \<Rightarrow> bytes \<Rightarrow> bool \<Rightarrow> unit io_result option \<times> (bytes \<times> bool) list" where
  "send_bytes_with_capacity caps bytes end_stream =
     (if bytes = [] then (Some (Ok ()), [(bytes, end_stream)]) else send_bytes_loop caps bytes end_stream)"

text \<open>\<open>H2Sender::send_frame\<close> of the client: the messages it hands to the stream, each with its end-of-stream flag.\<close>

fun encode_all :: "(Frame \<times> bool) list \<Rightarrow> nat \<Rightarrow> (bytes \<times> bool) list result" where
  "encode_all [] m = Ok []"
| "encode_all ((f, e) # fs) m =
     and_then (encode_grpc_frame f m) (\<lambda>b. and_then (encode_all fs m) (\<lambda>bs. Ok ((b, e) # bs)))"

fun with_padding ::
  "'r filler \<Rightarrow> 'r \<Rightarrow> RuntimePadding \<Rightarrow> RuntimeCoverTraffic \<Rightarrow> nat \<Rightarrow> bool \<Rightarrow> Frame list \<Rightarrow> (Frame \<times> bool) list \<times> 'r" where
  "with_padding fill r padding cover m end_stream [] = ([], r)"
| "with_padding fill r padding cover m end_stream (f # fs) =
     (let (pad, r) = padding_frame fill r padding (frame_type f) (length (payload f)) m;
          (cov, r) = padding_frames fill r cover (frame_type f) (length (payload f)) m;
          (rest, r) = with_padding fill r padding cover m end_stream fs in
      (map (\<lambda>p. (p, False)) ((case pad of Some p \<Rightarrow> [p] | None \<Rightarrow> []) @ cov) @ [(f, end_stream \<and> fs = [])] @ rest, r))"

definition client_send_frame ::
  "'r filler \<Rightarrow> 'r \<Rightarrow> Frame \<Rightarrow> bool \<Rightarrow> RuntimeBatcher \<Rightarrow> RuntimePadding \<Rightarrow> RuntimeCoverTraffic \<Rightarrow> nat
   \<Rightarrow> (bytes \<times> bool) list result \<times> RuntimeBatcher \<times> 'r" where
  "client_send_frame fill r frame end_stream batcher padding cover_traffic max_frame_size =
     (let (frames, batcher, _) = prepare_outgoing_frames frame batcher padding;
          (out, r) = with_padding fill r padding cover_traffic max_frame_size end_stream frames in
      (encode_all out max_frame_size, batcher, r))"

subsection \<open>What is sent\<close>

lemma send_bytes_loop_chunks:
  assumes "send_bytes_loop caps bytes e = (r, chunks)"
  shows "(r = Some (Ok ()) \<longrightarrow> concat (map fst chunks) = bytes) \<and> prefix (concat (map fst chunks)) bytes
    \<and> (\<forall>c \<in> set chunks. fst c \<noteq> []) \<and> (\<forall>c \<in> set (butlast chunks). \<not> snd c) \<and> r \<noteq> Some Panic"
  using assms
proof (induction caps bytes e arbitrary: r chunks rule: send_bytes_loop.induct)
  case (5 n caps b bs e)
  show ?case
  proof (cases "n = 0")
    case True
    with 5 show ?thesis by simp
  next
    case False
    let ?k = "min n (length (b # bs))"
    obtain r' cs where rest: "send_bytes_loop caps (drop ?k (b # bs)) e = (r', cs)" by fastforce
    with "5.prems" False have c: "r = r'" "chunks = (take ?k (b # bs), e \<and> drop ?k (b # bs) = []) # cs"
      by (simp_all add: Let_def)
    note ih = "5.IH"(2) [OF False refl refl refl rest]
    have "take ?k (b # bs) \<noteq> []" using False by (cases n) auto
    moreover have "cs \<noteq> [] \<Longrightarrow> drop ?k (b # bs) \<noteq> []"
    proof
      assume "cs \<noteq> []" "drop ?k (b # bs) = []"
      with rest show False by (cases caps) (auto split: capacity_event.splits)
    qed
    moreover have "prefix (take ?k (b # bs) @ concat (map fst cs)) (b # bs)"
      using ih by (metis append_take_drop_id same_prefix_prefix)
    ultimately show ?thesis using ih c
      by (cases cs) (auto simp del: take_Cons' drop_Cons' min_less_iff_conj)
  qed
qed auto

text \<open>The wire image of a frame behind its padding.\<close>

definition padded :: "nat \<Rightarrow> Frame \<Rightarrow> bytes list \<Rightarrow> bool" where
  "padded m f bs = (\<exists>pads. bs = map grpc_bytes (pads @ [f]) \<and> (\<forall>p \<in> set pads. frame_type p = Padding \<and> grpc_ok m p))"

lemma padding_grpc_ok: "padding_upto m p \<Longrightarrow> m \<le> MAX_NEGOTIATED_FRAME_SIZE \<Longrightarrow> frame_type p = Padding \<and> grpc_ok m p"
  by (simp add: padding_upto_def grpc_ok_def FRAME_HEADER_LEN_def MAX_NEGOTIATED_FRAME_SIZE_def USIZE_MAX_def)

lemma padding_frame_ok:
  assumes "fill_ok fill" "m \<le> MAX_NEGOTIATED_FRAME_SIZE" "padding_frame fill r p ft n m = (Some f, r')"
  shows "frame_type f = Padding \<and> grpc_ok m f"
  by (rule padding_grpc_ok [OF padding_upto_mono [OF padding_frame_upto(1) [OF assms(1,3)]] assms(2)]) simp

lemma padding_frames_ok:
  assumes "fill_ok fill" "m \<le> MAX_NEGOTIATED_FRAME_SIZE" "f \<in> set (fst (padding_frames fill r c ft n m))"
  shows "frame_type f = Padding \<and> grpc_ok m f"
proof -
  obtain plan :: CoverTrafficPlan where "padding_upto (min (ct_frame_payload_bytes plan) (min (ct_max_bytes_per_window plan) m)) f"
    by (rule padding_frames_upto [OF assms(1,3)])
  then have "padding_upto m f" by (rule padding_upto_mono) (simp add: min_le_iff_disj)
  then show ?thesis by (rule padding_grpc_ok [OF _ assms(2)])
qed

lemma encode_cover_frames_ok:
  "\<forall>f \<in> set fs. grpc_ok m f \<Longrightarrow>
     \<exists>em. encode_cover_frames fs m frames emission = Ok (frames @ map grpc_bytes fs, em)"
proof (induction fs arbitrary: frames emission)
  case (Cons f fs)
  then show ?case
    using Cons.IH [of "frames @ [grpc_bytes f]"] by (auto simp: encode_grpc_frame_ok)
qed simp

lemma prepare_frame_padded:
  assumes "fill_ok fill" "m \<le> MAX_NEGOTIATED_FRAME_SIZE" "grpc_ok m f"
  obtains ps r' where "prepare_frame_with_padding fill r f m e p c = (Ok ps, r')" "padded m f (ps_frames ps)"
    "ps_end_stream ps = e"
proof -
  obtain pad r1 where a: "padding_frame fill r p (frame_type f) (length (payload f)) m = (pad, r1)" by fastforce
  obtain cov r2 where b: "padding_frames fill r1 c (frame_type f) (length (payload f)) m = (cov, r2)" by fastforce
  define pads where "pads = (case pad of Some q \<Rightarrow> [q] | None \<Rightarrow> []) @ cov"
  have cov: "\<forall>q \<in> set cov. frame_type q = Padding \<and> grpc_ok m q" 
    using padding_frames_ok [OF assms(1,2), where r = r1 and c = c and ft = "frame_type f" and n = "length (payload f)"] b
    by simp
  have pad: "frame_type q = Padding \<and> grpc_ok m q" if "pad = Some q" for q
    using padding_frame_ok [OF assms(1,2)] a that by blast
  have "\<exists>em. fst (prepare_frame_with_padding fill r f m e p c)
      = Ok \<lparr>ps_frames = map grpc_bytes (pads @ [f]), ps_end_stream = e, ps_emission = em\<rparr>"
  proof (cases pad)
    case None
    obtain em where "encode_cover_frames cov m [] PaddingEmission_default = Ok (map grpc_bytes cov, em)"
      using encode_cover_frames_ok [of cov m "[]"] cov by fastforce
    then show ?thesis
      using a b None assms(3) by (simp add: prepare_frame_with_padding_def Let_def encode_grpc_frame_ok pads_def)
  next
    case (Some q)
    let ?em = "PaddingEmission_default\<lparr>pe_padding_frames := 1, pe_padding_bytes := length (payload q)\<rparr>"
    obtain em where "encode_cover_frames cov m [grpc_bytes q] ?em = Ok (grpc_bytes q # map grpc_bytes cov, em)"
      using encode_cover_frames_ok [of cov m "[grpc_bytes q]" ?em] cov by fastforce
    then show ?thesis
      using a b Some pad [OF Some] assms(3)
      by (simp add: prepare_frame_with_padding_def Let_def encode_grpc_frame_ok pads_def)
  qed
  moreover have "\<forall>q \<in> set pads. frame_type q = Padding \<and> grpc_ok m q"
    using cov pad by (auto simp: pads_def split: option.splits)
  ultimately show ?thesis using that unfolding padded_def by (metis PendingH2Send.select_convs(1,2) prod.collapse)
qed

subsection \<open>What is read back\<close>

definition data_events :: "bytes list \<Rightarrow> recv_event list" where
  "data_events chunks = map (\<lambda>c. RecvData c True) chunks"

lemma data_events_simps [simp]:
  "data_events [] = []" "data_events (c # cs) = RecvData c True # data_events cs"
  by (simp_all add: data_events_def)

text \<open>One call skips the padding and returns the frame, whatever the chunk boundaries.\<close>

lemma read_next_h2_frame_padded:
  assumes "\<forall>p \<in> set pads. frame_type p = Padding \<and> grpc_ok m p" "grpc_ok m f" "frame_type f \<noteq> Padding"
    and "buf @ concat chunks = concat (map grpc_bytes (pads @ [f])) @ rest"
  shows "\<exists>chunks' buf'. read_next_h2_frame m (data_events chunks) buf = (Ok (Some f), data_events chunks', buf')
     \<and> buf' @ concat chunks' = rest"
  using assms(1,4)
proof (induction "length chunks + length pads" arbitrary: chunks pads buf rule: less_induct)
  case less
  define x where "x = (case pads of [] \<Rightarrow> f | p # _ \<Rightarrow> p)"
  define more where "more = concat (map grpc_bytes (case pads of [] \<Rightarrow> [] | _ # ps \<Rightarrow> ps @ [f])) @ rest"
  have x: "grpc_ok m x" using less.prems(1) assms(2) by (auto simp: x_def split: list.splits)
  have split: "buf @ concat chunks = grpc_bytes x @ more" using less.prems(2) by (auto simp: x_def more_def split: list.splits)
  show ?case
  proof (cases rule: grpc_codec.step_cases [OF x split])
    case 1
    then obtain c cs where c: "chunks = c # cs" by (cases chunks) auto
    have "\<exists>chunks' buf'. read_next_h2_frame m (data_events cs) (buf @ c) = (Ok (Some f), data_events chunks', buf')
        \<and> buf' @ concat chunks' = rest"
      using less.hyps [of cs pads "buf @ c"] less.prems c by simp
    then show ?thesis using 1(2) c by (simp add: read_next_h2_frame.simps [of m _ buf])
  next
    case (2 r)
    show ?thesis
    proof (cases pads)
      case Nil
      then have "x = f" "more = rest" by (simp_all add: x_def more_def)
      moreover from this 2(2) assms(3)
      have "read_next_h2_frame m (data_events chunks) buf = (Ok (Some f), data_events chunks, r)"
        by (simp add: read_next_h2_frame.simps [of m _ buf])
      ultimately show ?thesis using 2(3) by blast
    next
      case (Cons p ps)
      then have xp: "x = p" "frame_type p = Padding" using less.prems(1) by (simp_all add: x_def)
      have "\<exists>chunks' buf'. read_next_h2_frame m (data_events chunks) r = (Ok (Some f), data_events chunks', buf')
          \<and> buf' @ concat chunks' = rest"
        using less.hyps [of chunks ps r] less.prems(1) Cons 2(3) by (simp add: more_def)
      then show ?thesis using 2(2) xp by (simp add: read_next_h2_frame.simps [of m _ buf])
    qed
  qed
qed

text \<open>A call that returns a frame takes bytes off, so asking again and again comes to an end.\<close>

fun event_bytes :: "recv_event \<Rightarrow> nat" where
  "event_bytes (RecvData b ok) = length b"
| "event_bytes RecvError = 0"

lemma read_next_h2_frame_shorter:
  "read_next_h2_frame m stream buf = (Ok (Some f), stream', buf') \<Longrightarrow>
     length buf' + sum_list (map event_bytes stream') < length buf + sum_list (map event_bytes stream)"
proof (induction m stream buf rule: read_next_h2_frame.induct)
  case (1 m stream buf)
  have err: ?case if "decode_grpc_frame_from buf m = (Err e, b)" for e b
    using "1.prems" that by (simp add: read_next_h2_frame.simps [of m _ buf])
  have panic: ?case if "decode_grpc_frame_from buf m = (Panic, buf)"
    using "1.prems" that by (simp add: read_next_h2_frame.simps [of m _ buf])
  have wait: ?case if dec: "decode_grpc_frame_from buf m = (Ok None, buf)"
  proof (cases stream)
    case (Cons ev s)
    show ?thesis
    proof (cases "\<exists>c. ev = RecvData c True")
      case True
      then obtain c where ev: "ev = RecvData c True" by blast
      then have "read_next_h2_frame m s (buf @ c) = (Ok (Some f), stream', buf')"
        using "1.prems" Cons dec by (simp add: read_next_h2_frame.simps [of m _ buf])
      from "1.IH"(1) [OF dec [symmetric] refl refl Cons ev _ this] Cons ev show ?thesis by simp
    next
      case False
      then show ?thesis
        using "1.prems" Cons dec
        by (cases ev) (auto simp: read_next_h2_frame.simps [of m _ buf] split: if_splits)
    qed
  qed (use "1.prems" dec in \<open>simp add: read_next_h2_frame.simps [of m _ buf]\<close>)
  show ?case
  proof (cases rule: decode_grpc_outcomes [of buf m])
    case (frame g r)
    have l: "length r < length buf" using decode_grpc_shorter [OF frame(3)] .
    show ?thesis
    proof (cases "frame_type g = Padding")
      case True
      then have "read_next_h2_frame m stream r = (Ok (Some f), stream', buf')"
        using "1.prems" frame(3) by (simp add: read_next_h2_frame.simps [of m _ buf])
      from "1.IH"(2) [OF frame(3) [symmetric] refl refl True this] l show ?thesis by simp
    next
      case False
      then show ?thesis using "1.prems" frame(3) l by (auto simp: read_next_h2_frame.simps [of m _ buf])
    qed
  qed (fact wait, fact err, rule panic)
qed

function read_all_h2 :: "nat \<Rightarrow> recv_event list \<Rightarrow> bytes \<Rightarrow> Frame list \<times> Frame option io_result" where
  "read_all_h2 m stream buf =
     (case read_next_h2_frame m stream buf of
        (Ok (Some f), stream', buf') \<Rightarrow> (let (fs, r) = read_all_h2 m stream' buf' in (f # fs, r))
      | (r, _, _) \<Rightarrow> ([], r))"
  by pat_completeness auto

termination
  by (relation "measure (\<lambda>(m, stream, buf). length buf + sum_list (map event_bytes stream))")
     (auto dest: read_next_h2_frame_shorter [OF sym])

declare read_all_h2.simps [simp del]

lemma read_all_next:
  "read_next_h2_frame m s b = (Ok (Some f), s', b') \<Longrightarrow>
     read_all_h2 m s b = (f # fst (read_all_h2 m s' b'), snd (read_all_h2 m s' b'))"
  by (simp add: read_all_h2.simps [of m s b] case_prod_beta Let_def)

lemma read_all_cong:
  "read_next_h2_frame m s b = read_next_h2_frame m s' b' \<Longrightarrow> read_all_h2 m s b = read_all_h2 m s' b'"
  by (simp add: read_all_h2.simps [of m s b] read_all_h2.simps [of m s' b'])

text \<open>A pass of the loop that does not return changes nothing about what will be read.\<close>

lemma read_all_pass:
  "decode_grpc_frame_from b m = (Ok (Some p), b') \<Longrightarrow> frame_type p = Padding \<Longrightarrow> read_all_h2 m s b = read_all_h2 m s b'"
  "decode_grpc_frame_from b m = (Ok None, b) \<Longrightarrow> read_all_h2 m (RecvData c True # s) b = read_all_h2 m s (b @ c)"
  by (rule read_all_cong, simp add: read_next_h2_frame.simps [of m _ b])+

lemma read_next_h2_frame_not_Panic:
  "FRAME_HEADER_LEN + m \<le> USIZE_MAX \<Longrightarrow> fst (read_next_h2_frame m stream buf) \<noteq> Panic"
proof (induction m stream buf rule: read_next_h2_frame.induct)
  case (1 m stream buf)
  show ?case
  proof (cases rule: decode_grpc_outcomes [of buf m])
    case waits
    then show ?thesis using "1.IH"(1) [OF waits [symmetric] refl refl] "1.prems"
      by (auto simp: read_next_h2_frame.simps [of m _ buf] split: list.splits recv_event.splits)
  next
    case (frame f r)
    note d = frame(3)
    show ?thesis using d "1.IH"(2) [OF d [symmetric] refl refl] "1.prems"
      by (simp add: read_next_h2_frame.simps [of m _ buf])
  next
    case (fails e r)
    then show ?thesis by (simp add: read_next_h2_frame.simps [of m _ buf])
  qed (use "1.prems" in simp)
qed

lemma read_impl_is_h2:
  "read_next_frame_impl m c stream buf None = (let (r, s, b) = read_next_h2_frame m stream buf in (r, s, b, None))"
proof (induction m stream buf rule: read_next_h2_frame.induct)
  case (1 m stream buf)
  have err: ?case if "decode_grpc_frame_from buf m = (Err e, b)" for e b
    using that by (simp add: read_next_h2_frame.simps [of m _ buf] read_next_frame_impl.simps [of m _ _ buf])
  have panic: ?case if "decode_grpc_frame_from buf m = (Panic, buf)"
    using that by (simp add: read_next_h2_frame.simps [of m _ buf] read_next_frame_impl.simps [of m _ _ buf])
  have wait: ?case if dec: "decode_grpc_frame_from buf m = (Ok None, buf)"
  proof (cases stream)
    case Nil
    with dec show ?thesis by (simp add: read_next_h2_frame.simps [of m _ buf] read_next_frame_impl.simps [of m _ _ buf])
  next
    case (Cons ev s)
    then show ?thesis
      using dec "1.IH"(1) [OF dec [symmetric] refl refl Cons]
      by (cases ev) (simp_all add: read_next_h2_frame.simps [of m _ buf] read_next_frame_impl.simps [of m _ _ buf])
  qed
  show ?case
  proof (cases rule: decode_grpc_outcomes [of buf m])
    case (frame g r)
    note d = frame(3)
    show ?thesis using d "1.IH"(2) [OF d [symmetric] refl refl]
      by (simp add: read_next_h2_frame.simps [of m _ buf] read_next_frame_impl.simps [of m _ _ buf])
  qed (fact wait, fact err, rule panic)
qed

lemma read_next_frame_is_h2: "read_next_frame stream buf m = read_next_h2_frame m stream buf"
  by (simp add: read_next_frame_def read_impl_is_h2 case_prod_beta Let_def)

text \<open>What the server and the client write for a sequence of frames.\<close>

fun server_wire :: "'r filler \<Rightarrow> 'r \<Rightarrow> nat \<Rightarrow> RuntimePadding \<Rightarrow> RuntimeCoverTraffic \<Rightarrow> Frame list \<Rightarrow> bytes result" where
  "server_wire fill r m p c [] = Ok []"
| "server_wire fill r m p c (f # fs) =
     (let (ps, r) = prepare_frame_with_padding fill r f m False p c in
      and_then ps (\<lambda>ps. and_then (server_wire fill r m p c fs) (\<lambda>w. Ok (concat (ps_frames ps) @ w))))"

fun client_wire ::
  "'r filler \<Rightarrow> 'r \<Rightarrow> nat \<Rightarrow> RuntimeBatcher \<Rightarrow> RuntimePadding \<Rightarrow> RuntimeCoverTraffic \<Rightarrow> Frame list \<Rightarrow> bytes result" where
  "client_wire fill r m b p c [] = Ok []"
| "client_wire fill r m b p c (f # fs) =
     (let (ms, b, r) = client_send_frame fill r f False b p c m in
      and_then ms (\<lambda>ms. and_then (client_wire fill r m b p c fs) (\<lambda>w. Ok (concat (map fst ms) @ w))))"

lemma encode_all_ok: "\<forall>f \<in> set fs. grpc_ok m (fst f) \<Longrightarrow> encode_all fs m = Ok (map (\<lambda>(f, e). (grpc_bytes f, e)) fs)"
  by (induction fs m rule: encode_all.induct) (auto simp: encode_grpc_frame_ok)

lemma client_send_frame_padded:
  assumes "fill_ok fill" "m \<le> MAX_NEGOTIATED_FRAME_SIZE" "grpc_ok m f" "rb_pending b = []"
  obtains ms b' r' where "client_send_frame fill r f e b p c m = (Ok ms, b', r')" "padded m f (map fst ms)"
    "rb_pending b' = []"
proof -
  obtain b' t where prep: "prepare_outgoing_frames f b p = ([f], b', t)" "rb_pending b' = []"
    using prepare_outgoing_frames_single [OF assms(4), of f p] by (cases "prepare_outgoing_frames f b p") auto
  obtain pad r1 where a: "padding_frame fill r p (frame_type f) (length (payload f)) m = (pad, r1)" by fastforce
  obtain cov r2 where c: "padding_frames fill r1 c (frame_type f) (length (payload f)) m = (cov, r2)" by fastforce
  define pads where "pads = (case pad of Some q \<Rightarrow> [q] | None \<Rightarrow> []) @ cov"
  have cov: "\<forall>q \<in> set cov. frame_type q = Padding \<and> grpc_ok m q"
    using padding_frames_ok [OF assms(1,2), where r = r1 and c = c and ft = "frame_type f" and n = "length (payload f)"] c
    by simp
  have pad: "frame_type q = Padding \<and> grpc_ok m q" if "pad = Some q" for q
    using padding_frame_ok [OF assms(1,2)] a that by blast
  have pads: "\<forall>q \<in> set pads. frame_type q = Padding \<and> grpc_ok m q"
    using cov pad by (auto simp: pads_def split: option.splits)
  let ?out = "map (\<lambda>p. (p, False)) pads @ [(f, e)]"
  have "with_padding fill r p c m e [f] = (?out, r2)" using a c by (simp add: pads_def)
  moreover have "encode_all ?out m = Ok (map (\<lambda>(f, e). (grpc_bytes f, e)) ?out)"
    by (rule encode_all_ok) (use pads assms(3) in auto)
  ultimately have "client_send_frame fill r f e b p c m = (Ok (map (\<lambda>(f, e). (grpc_bytes f, e)) ?out), b', r2)"
    using prep(1) by (simp add: client_send_frame_def)
  moreover have "padded m f (map fst (map (\<lambda>(f, e). (grpc_bytes f, e)) ?out))"
    unfolding padded_def using pads by (intro exI [of _ pads]) (simp add: case_prod_beta comp_def)
  ultimately show ?thesis using prep(2) that by blast
qed

text \<open>A byte stream that is a sequence of padded frames is read back as these frames.\<close>

lemma read_all_padded:
  assumes "list_all2 (padded m) fs bss" "\<forall>f \<in> set fs. grpc_ok m f \<and> frame_type f \<noteq> Padding"
    and "buf @ concat chunks = concat (concat bss)"
  shows "read_all_h2 m (data_events chunks) buf = (fs, Ok None)"
  using assms
proof (induction fs bss arbitrary: buf chunks rule: list_all2_induct)
  case Nil
  then have "buf = []" "concat chunks = []" by simp_all
  then have "read_next_h2_frame m (data_events chunks) [] = (Ok None, [], [])"
  proof (induction chunks)
    case Nil
    then show ?case by (simp add: read_next_h2_frame.simps [of m "[]"] decode_grpc_frame_from_def GRPC_MESSAGE_HEADER_LEN_def)
  next
    case (Cons c cs)
    then show ?case
      by (subst read_next_h2_frame.simps) (simp add: decode_grpc_frame_from_def GRPC_MESSAGE_HEADER_LEN_def)
  qed
  with \<open>buf = []\<close> show ?case by (simp add: read_all_h2.simps [of m _ "[]"])
next
  case (Cons f fs bs bss)
  from Cons.hyps(1) obtain pads where pads: "bs = map grpc_bytes (pads @ [f])"
      "\<forall>p \<in> set pads. frame_type p = Padding \<and> grpc_ok m p" by (auto simp: padded_def)
  obtain chunks' buf' where r: "read_next_h2_frame m (data_events chunks) buf = (Ok (Some f), data_events chunks', buf')"
      "buf' @ concat chunks' = concat (concat bss)"
    using read_next_h2_frame_padded [OF pads(2), of f buf chunks "concat (concat bss)"] Cons.prems pads(1) by auto
  then show ?case using Cons.IH [OF _ r(2)] Cons.prems(1) by (simp add: read_all_h2.simps [of m _ buf])
qed

lemma server_wire_padded:
  assumes "fill_ok fill" "m \<le> MAX_NEGOTIATED_FRAME_SIZE" "\<forall>f \<in> set fs. grpc_ok m f"
  shows "\<exists>bss. server_wire fill r m p c fs = Ok (concat (concat bss)) \<and> list_all2 (padded m) fs bss"
  using assms(3)
proof (induction fs arbitrary: r)
  case (Cons f fs)
  obtain ps r' where ps: "prepare_frame_with_padding fill r f m False p c = (Ok ps, r')" "padded m f (ps_frames ps)"
    using prepare_frame_padded [OF assms(1,2)] Cons.prems by (metis list.set_intros(1))
  obtain bss where "server_wire fill r' m p c fs = Ok (concat (concat bss))" "list_all2 (padded m) fs bss"
    using Cons by auto
  with ps show ?case by (intro exI [of _ "ps_frames ps # bss"]) simp
qed auto

lemma client_wire_padded:
  assumes "fill_ok fill" "m \<le> MAX_NEGOTIATED_FRAME_SIZE" "\<forall>f \<in> set fs. grpc_ok m f" "rb_pending b = []"
  shows "\<exists>bss. client_wire fill r m b p c fs = Ok (concat (concat bss)) \<and> list_all2 (padded m) fs bss"
  using assms(3,4)
proof (induction fs arbitrary: r b)
  case (Cons f fs)
  obtain ms b' r' where ms: "client_send_frame fill r f False b p c m = (Ok ms, b', r')" "padded m f (map fst ms)"
      "rb_pending b' = []"
    using client_send_frame_padded [OF assms(1,2)] Cons.prems by (metis list.set_intros(1))
  obtain bss where "client_wire fill r' m b' p c fs = Ok (concat (concat bss))" "list_all2 (padded m) fs bss"
    using Cons.IH [OF _ ms(3)] Cons.prems(1) by auto
  with ms show ?case by (intro exI [of _ "map fst ms # bss"]) simp
qed auto

text \<open>C15. Frames survive padding and chunking, in both directions. Whatever the shaping and cover traffic settings and
the padding bytes, and however the transport cuts the body into chunks: what the server writes for a sequence of
frames, and what the client writes for it with an empty batcher, encodes without error and is read back by repeated
calls as exactly that sequence, followed by the end of the stream; and the two sides read with the same function.\<close>

theorem frames_survive_padding:
  assumes "fill_ok fill" "m \<le> MAX_NEGOTIATED_FRAME_SIZE"
    and "\<forall>f \<in> set fs. length (payload f) \<le> m \<and> frame_type f \<noteq> Padding"
  shows "(\<exists>wire. server_wire fill r m p c fs = Ok wire
           \<and> (\<forall>chunks. concat chunks = wire \<longrightarrow> read_all_h2 m (data_events chunks) [] = (fs, Ok None)))
     \<and> (\<exists>wire. client_wire fill r m (RuntimeBatcher_from_config mode cfg) p c fs = Ok wire
           \<and> (\<forall>chunks. concat chunks = wire \<longrightarrow> read_all_h2 m (data_events chunks) [] = (fs, Ok None)))
     \<and> read_next_frame stream buf m = read_next_h2_frame m stream buf"
proof -
  have ok: "\<forall>f \<in> set fs. grpc_ok m f"
    using assms(2,3) by (auto simp: grpc_ok_def FRAME_HEADER_LEN_def MAX_NEGOTIATED_FRAME_SIZE_def USIZE_MAX_def)
  have read: "read_all_h2 m (data_events chunks) [] = (fs, Ok None)"
    if "list_all2 (padded m) fs bss" "concat chunks = concat (concat bss)" for bss chunks
    using read_all_padded [OF that(1), of "[]" chunks] that(2) ok assms(3) by simp
  show ?thesis
    using server_wire_padded [OF assms(1,2) ok, of r p c] read read_next_frame_is_h2
      client_wire_padded [OF assms(1,2) ok batcher_new_inv(2), of r mode cfg p c] by blast
qed

theorem frames_survive_padding_witness:
  "let fs = [Frame_new TcpData 0 1 [1, 2, 3], Frame_new TcpFin 0 1 []];
       p = \<lparr>rp_enabled = True, rp_policy = BudgetedPaddingPolicy_new PadPrivate (ShapingBounds_from example_shaping)\<rparr>;
       c = RuntimeCoverTraffic_from_config Private example_shaping in
   (\<exists>wire. server_wire zero_fill () 65536 p c fs = Ok wire
      \<and> (\<forall>chunks. concat chunks = wire \<longrightarrow> read_all_h2 65536 (data_events chunks) [] = (fs, Ok None)))"
proof -
  let ?fs = "[Frame_new TcpData 0 1 [1, 2, 3], Frame_new TcpFin 0 1 []]"
  have "\<forall>f \<in> set ?fs. length (payload f) \<le> 65536 \<and> frame_type f \<noteq> Padding" by (simp add: Frame_new_def)
  from frames_survive_padding [OF zero_fill_ok _ this] show ?thesis
    by (simp add: Let_def MAX_NEGOTIATED_FRAME_SIZE_def del: server_wire.simps)
qed

subsection \<open>What is captured\<close>

fun event_data :: "recv_event \<Rightarrow> bytes" where
  "event_data (RecvData b ok) = b"
| "event_data RecvError = []"

text \<open>The capture grows by exactly the chunks taken off the stream, and never past its limit; only the chunk that
would pass the limit is taken off and not captured.\<close>

lemma read_capture:
  assumes "read_next_frame_impl m cmax stream buf (Some cap) = (r, stream', buf', c)" "length cap \<le> cmax"
  shows "\<exists>k cap'. c = Some cap' \<and> length cap' \<le> cmax \<and> k \<le> length stream
     \<and> cap' = cap @ concat (map event_data (take k stream))
     \<and> (r = Err (IoBail ''captured tunnel request body exceeded size limit'')
          \<and> cmax < length cap + length (concat (map event_data (take (Suc k) stream)))
        \<or> stream' = drop k stream)"
  using assms
proof (induction m cmax stream buf "Some cap" arbitrary: cap rule: read_next_frame_impl.induct)
  case (1 m cmax stream buf)
  have err: ?case if "decode_grpc_frame_from buf m = (Err e, b)" for e b
    using "1.prems" that
    by (auto simp: read_next_frame_impl.simps [of m _ _ buf] intro!: exI [of _ 0])
  have panic: ?case if "decode_grpc_frame_from buf m = (Panic, buf)"
    using "1.prems" that
    by (auto simp: read_next_frame_impl.simps [of m _ _ buf] intro!: exI [of _ 0])
  have wait: ?case if dec: "decode_grpc_frame_from buf m = (Ok None, buf)"
  proof (cases stream)
    case Nil
    with dec "1.prems" show ?thesis
      by (auto simp: read_next_frame_impl.simps [of m _ _ buf] intro!: exI [of _ 0])
  next
    case (Cons ev s)
    show ?thesis
    proof (cases ev)
      case RecvError
      with Cons dec "1.prems" show ?thesis
        by (auto simp: read_next_frame_impl.simps [of m _ _ buf] intro!: exI [of _ 1])
    next
      case (RecvData bs ok)
      consider "length bs > cmax - length cap" | "length bs \<le> cmax - length cap" "\<not> ok" | "length bs \<le> cmax - length cap" ok
        by linarith
      then show ?thesis
      proof cases
        case 1
        with Cons RecvData dec "1.prems" show ?thesis
          by (auto simp: read_next_frame_impl.simps [of m _ _ buf] intro!: exI [of _ 0])
      next
        case 2
        with Cons RecvData dec "1.prems" show ?thesis
          by (auto simp: read_next_frame_impl.simps [of m _ _ buf] intro!: exI [of _ 1])
      next
        case 3
        then have "read_next_frame_impl m cmax s (buf @ bs) (Some (cap @ bs)) = (r, stream', buf', c)"
          using Cons RecvData dec "1.prems"(1) by (simp add: read_next_frame_impl.simps [of m _ _ buf])
        moreover have "length (cap @ bs) \<le> cmax" using 3(1) "1.prems"(2) by simp
        ultimately obtain k cap' where "c = Some cap'" "length cap' \<le> cmax" "k \<le> length s"
            "cap' = (cap @ bs) @ concat (map event_data (take k s))"
            "r = Err (IoBail ''captured tunnel request body exceeded size limit'')
              \<and> cmax < length (cap @ bs) + length (concat (map event_data (take (Suc k) s))) \<or> stream' = drop k s"
          using "1.hyps"(1) [OF dec [symmetric] refl refl Cons RecvData refl] 3 by (auto simp only: not_less)
        then show ?thesis using Cons RecvData by (intro exI [of _ "Suc k"] exI [of _ cap']) auto
      qed
    qed
  qed
  show ?case
  proof (cases rule: decode_grpc_outcomes [of buf m])
    case (frame g b)
    note d = frame(3)
    show ?thesis
    proof (cases "frame_type g = Padding")
      case True
      then have "read_next_frame_impl m cmax stream b (Some cap) = (r, stream', buf', c)"
        using "1.prems"(1) d by (simp add: read_next_frame_impl.simps [of m _ _ buf])
      from "1.hyps"(2) [OF d [symmetric] refl refl True this "1.prems"(2)] show ?thesis .
    next
      case False
      then show ?thesis using "1.prems" d
        by (auto simp: read_next_frame_impl.simps [of m _ _ buf] intro!: exI [of _ 0])
    qed
  qed (fact wait, fact err, rule panic)
qed

end
