(* ===== verification/Relay.thy ===== *)
theory Relay
  imports Frame_IO
begin

text \<open>
  The server's relay between a tunnel stream and its TCP target, \<open>relay_halves_and_tunnel\<close> of
  \<open>maverick-server/src/relay.rs\<close>. Every turn of its \<open>select!\<close> loop lets one enabled branch complete;
  which one, and with what, is up to the scheduler, the target and the HTTP/2 library. A branch is
  an event here, \<open>relay_step\<close> is the body of the branch under its guard (\<open>None\<close> when the guard
  forbids it), and a run is any sequence of enabled events. The futures of branches that lose are
  dropped, or kept for the next turn in the case of a write to the target. Two of them leave something
  behind: the read of the tunnel has put chunks into the buffer (\<open>PartialRead\<close>), the write has handed
  some of its bytes to the target (\<open>WriteSome\<close>). \<open>RoomError\<close> is a failure of the send window or of
  the DATA frame itself. The rate limiter and the timers only delay.

  \<open>sent\<close> is what went out as DATA, \<open>written\<close> what the target took; \<open>from_target\<close> and \<open>frames_in\<close>
  record what the two ends delivered so far.
\<close>

record 'r RelayPolicy =
  ry_fill :: "'r filler"
  ry_padding :: RuntimePadding
  ry_cover_traffic :: RuntimeCoverTraffic
  ry_max_frame_size :: nat
  ry_flow_id :: u64

record 'r Relay =
  rl_rng :: 'r
  rl_target_write :: bool
  rl_pending_target_write :: "bytes option"
  rl_client_eof :: bool
  rl_target_eof :: bool
  rl_response_ended :: bool
  rl_pending_send :: "PendingH2Send option"
  rl_recv_stream :: "recv_event list"
  rl_recv_buf :: bytes
  rl_sent :: bytes
  rl_trailers :: bool
  rl_written :: bytes
  rl_shutdown :: bool
  rl_emissions :: "PaddingEmission list"
  rl_from_target :: bytes
  rl_frames_in :: "Frame list"

datatype relay_event =
    IdleTimeout
  | WriteSome nat
  | WriteDone
  | WriteFailed
  | Room nat bool
  | RoomError
  | TargetRead bytes
  | TargetReadError
  | TunnelRead
  | PartialRead

datatype 'r relay_next = Continue "'r Relay" | Return "unit io_result" "'r Relay"

definition relay_start :: "'r \<Rightarrow> recv_event list \<Rightarrow> bytes \<Rightarrow> 'r Relay" where
  "relay_start r stream buf =
     \<lparr>rl_rng = r, rl_target_write = True, rl_pending_target_write = None, rl_client_eof = False,
      rl_target_eof = False, rl_response_ended = False, rl_pending_send = None, rl_recv_stream = stream,
      rl_recv_buf = buf, rl_sent = [], rl_trailers = False, rl_written = [], rl_shutdown = False,
      rl_emissions = [], rl_from_target = [], rl_frames_in = []\<rparr>"

definition relay_done :: "'r Relay \<Rightarrow> bool" where
  "relay_done s = (rl_client_eof s \<and> rl_response_ended s)"

text \<open>The branch of the target's data: queue the frame with its padding.\<close>

definition queue_frame :: "'r RelayPolicy \<Rightarrow> Frame \<Rightarrow> bool \<Rightarrow> 'r Relay \<Rightarrow> 'r relay_next" where
  "queue_frame y frame end_stream s =
     (case prepare_frame_with_padding (ry_fill y) (rl_rng s) frame (ry_max_frame_size y) end_stream
             (ry_padding y) (ry_cover_traffic y) of
        (Ok ps, r) \<Rightarrow> Continue (s\<lparr>rl_rng := r, rl_pending_send := Some ps\<rparr>)
      | (Err e, r) \<Rightarrow> Return (Err (IoCore e)) (s\<lparr>rl_rng := r\<rparr>)
      | (Panic, r) \<Rightarrow> Return Panic (s\<lparr>rl_rng := r\<rparr>))"

definition target_read :: "'r RelayPolicy \<Rightarrow> bytes \<Rightarrow> 'r Relay \<Rightarrow> 'r relay_next" where
  "target_read y data s =
     (if data = []
      then queue_frame y (Frame_new TcpFin 0 (ry_flow_id y) []) True (s\<lparr>rl_target_eof := True\<rparr>)
      else queue_frame y (Frame_new TcpData 0 (ry_flow_id y) data) False
             (s\<lparr>rl_from_target := rl_from_target s @ data\<rparr>))"

text \<open>The branch of the send window: write one chunk of the message in front, and close the response with its
trailers behind the last message of a terminal frame.\<close>

definition send_chunk :: "nat \<Rightarrow> bool \<Rightarrow> 'r Relay \<Rightarrow> 'r relay_next" where
  "send_chunk capacity trailers_ok s =
     (if capacity = 0 then Continue s
      else case rl_pending_send s of
        None \<Rightarrow> Return Panic s
      | Some pending \<Rightarrow>
          (case ps_frames pending of
             [] \<Rightarrow> Return Panic s
           | front # rest \<Rightarrow>
               let n = min capacity (length front);
                   frames = (if drop n front = [] then rest else drop n front # rest);
                   s = s\<lparr>rl_sent := rl_sent s @ take n front\<rparr> in
               if frames \<noteq> [] then Continue (s\<lparr>rl_pending_send := Some (pending\<lparr>ps_frames := frames\<rparr>)\<rparr>)
               else
                 let s = s\<lparr>rl_pending_send := None, rl_emissions := rl_emissions s @ [ps_emission pending]\<rparr> in
                 if \<not> ps_end_stream pending then Continue s
                 else if \<not> trailers_ok then Return (Err IoTransport) s
                 else Continue (s\<lparr>rl_trailers := True, rl_response_ended := True\<rparr>)))"

text \<open>The branch of the tunnel: what a frame of the client does.\<close>

definition tunnel_frame :: "'r RelayPolicy \<Rightarrow> Frame option \<Rightarrow> 'r Relay \<Rightarrow> 'r relay_next" where
  "tunnel_frame y f s =
     (case f of
        None \<Rightarrow> if rl_target_write s then Return (Ok ()) (s\<lparr>rl_shutdown := True\<rparr>) else Return Panic s
      | Some frame \<Rightarrow>
          let s = s\<lparr>rl_frames_in := rl_frames_in s @ [frame]\<rparr> in
          if flow_id frame \<noteq> ry_flow_id y then Continue s
          else if frame_type frame = TcpData then
            (if rl_target_write s
             then Continue (s\<lparr>rl_target_write := False, rl_pending_target_write := Some (payload frame)\<rparr>)
             else Return Panic s)
          else if frame_type frame \<in> {TcpFin, CloseFlow} then
            (if rl_target_write s then Continue (s\<lparr>rl_shutdown := True, rl_client_eof := True\<rparr>) else Return Panic s)
          else if frame_type frame = TcpReset then
            (if rl_target_write s then Return (Ok ()) (s\<lparr>rl_shutdown := True\<rparr>) else Return Panic s)
          else Continue s)"

definition tunnel_read :: "'r RelayPolicy \<Rightarrow> 'r Relay \<Rightarrow> 'r relay_next" where
  "tunnel_read y s =
     (case read_next_frame (rl_recv_stream s) (rl_recv_buf s) (ry_max_frame_size y) of
        (Ok f, stream, buf) \<Rightarrow> tunnel_frame y f (s\<lparr>rl_recv_stream := stream, rl_recv_buf := buf\<rparr>)
      | (Err e, stream, buf) \<Rightarrow> Return (Err e) (s\<lparr>rl_recv_stream := stream, rl_recv_buf := buf\<rparr>)
      | (Panic, stream, buf) \<Rightarrow> Return Panic (s\<lparr>rl_recv_stream := stream, rl_recv_buf := buf\<rparr>))"

text \<open>One pass of the read loop that did not complete the branch.\<close>

definition partial_read :: "'r RelayPolicy \<Rightarrow> 'r Relay \<Rightarrow> 'r Relay option" where
  "partial_read y s =
     (case decode_grpc_frame_from (rl_recv_buf s) (ry_max_frame_size y) of
        (Ok (Some frame), buf) \<Rightarrow>
          if frame_type frame = Padding then Some (s\<lparr>rl_recv_buf := buf\<rparr>) else None
      | (Ok None, buf) \<Rightarrow>
          (case rl_recv_stream s of
             RecvData bytes True # stream \<Rightarrow> Some (s\<lparr>rl_recv_stream := stream, rl_recv_buf := buf @ bytes\<rparr>)
           | _ \<Rightarrow> None)
      | _ \<Rightarrow> None)"

definition relay_step :: "'r RelayPolicy \<Rightarrow> relay_event \<Rightarrow> 'r Relay \<Rightarrow> 'r relay_next option" where
  "relay_step y ev s =
     (if relay_done s then None
      else case ev of
        IdleTimeout \<Rightarrow>
          if rl_pending_target_write s \<noteq> None then None
          else Some (Return (if rl_pending_send s \<noteq> None then Err IoStall else Ok ()) s)
      | WriteSome n \<Rightarrow>
          (case rl_pending_target_write s of
             None \<Rightarrow> None
           | Some data \<Rightarrow> Some (Continue (s\<lparr>rl_pending_target_write := Some (drop n data),
                                           rl_written := rl_written s @ take n data\<rparr>)))
      | WriteDone \<Rightarrow>
          (case rl_pending_target_write s of
             None \<Rightarrow> None
           | Some data \<Rightarrow> Some (Continue (s\<lparr>rl_target_write := True, rl_pending_target_write := None,
                                           rl_written := rl_written s @ data\<rparr>)))
      | WriteFailed \<Rightarrow>
          if rl_pending_target_write s = None then None else Some (Return (Err IoTransport) s)
      | Room n trailers_ok \<Rightarrow> if rl_pending_send s = None then None else Some (send_chunk n trailers_ok s)
      | RoomError \<Rightarrow> if rl_pending_send s = None then None else Some (Return (Err IoTransport) s)
      | TargetRead data \<Rightarrow>
          if rl_pending_send s \<noteq> None \<or> rl_target_eof s \<or> 16 * 1024 < length data then None
          else Some (target_read y data s)
      | TargetReadError \<Rightarrow>
          if rl_pending_send s \<noteq> None \<or> rl_target_eof s then None else Some (Return (Err IoTransport) s)
      | TunnelRead \<Rightarrow>
          if rl_client_eof s \<or> rl_pending_target_write s \<noteq> None then None else Some (tunnel_read y s)
      | PartialRead \<Rightarrow>
          if rl_client_eof s \<or> rl_pending_target_write s \<noteq> None then None
          else map_option Continue (partial_read y s))"

text \<open>The states of a run that is still in the loop, and the ways a run ends.\<close>

inductive relay_reaches :: "'r RelayPolicy \<Rightarrow> 'r Relay \<Rightarrow> 'r Relay \<Rightarrow> bool" for y s where
  start: "relay_reaches y s s"
| turn: "relay_reaches y s s' \<Longrightarrow> relay_step y ev s' = Some (Continue s'') \<Longrightarrow> relay_reaches y s s''"

inductive relay_returns :: "'r RelayPolicy \<Rightarrow> 'r Relay \<Rightarrow> unit io_result \<Rightarrow> 'r Relay \<Rightarrow> bool" for y s where
  branch: "relay_reaches y s s' \<Longrightarrow> relay_step y ev s' = Some (Return r s'') \<Longrightarrow> relay_returns y s r s''"
| loop_end: "relay_reaches y s s' \<Longrightarrow> relay_done s' \<Longrightarrow> relay_returns y s (Ok ()) s'"

subsection \<open>Towards the client\<close>

definition policy_ok :: "'r RelayPolicy \<Rightarrow> bool" where
  "policy_ok y = (fill_ok (ry_fill y) \<and> 16 * 1024 \<le> ry_max_frame_size y \<and> ry_max_frame_size y \<le> MAX_NEGOTIATED_FRAME_SIZE)"

definition unsent :: "'r Relay \<Rightarrow> bytes" where
  "unsent s = (case rl_pending_send s of None \<Rightarrow> [] | Some ps \<Rightarrow> concat (ps_frames ps))"

text \<open>The frames for the data read from the target, and the terminal frame once it ended.\<close>

definition target_frames :: "u64 \<Rightarrow> bytes list \<Rightarrow> bool \<Rightarrow> Frame list" where
  "target_frames fid datas eof =
     map (Frame_new TcpData 0 fid) datas @ (if eof then [Frame_new TcpFin 0 fid []] else [])"

definition out_inv :: "'r RelayPolicy \<Rightarrow> 'r Relay \<Rightarrow> bool" where
  "out_inv y s =
     ((\<exists>datas bss. list_all2 (padded (ry_max_frame_size y)) (target_frames (ry_flow_id y) datas (rl_target_eof s)) bss
         \<and> concat datas = rl_from_target s \<and> (\<forall>d \<in> set datas. length d \<le> 16 * 1024)
         \<and> rl_sent s @ unsent s = concat (concat bss))
      \<and> (\<forall>ps. rl_pending_send s = Some ps \<longrightarrow>
           ps_frames ps \<noteq> [] \<and> [] \<notin> set (ps_frames ps) \<and> ps_end_stream ps = rl_target_eof s)
      \<and> rl_trailers s = rl_response_ended s
      \<and> rl_response_ended s = (rl_target_eof s \<and> rl_pending_send s = None))"

text \<open>What holds of the response however the relay ends: a beginning of the frames for the data read from the
target, and all of them with the terminal frame when the trailers went out.\<close>

definition out_final :: "'r RelayPolicy \<Rightarrow> 'r Relay \<Rightarrow> bool" where
  "out_final y s =
     (\<exists>datas bss. list_all2 (padded (ry_max_frame_size y)) (target_frames (ry_flow_id y) datas (rl_target_eof s)) bss
         \<and> concat datas = rl_from_target s \<and> (\<forall>d \<in> set datas. length d \<le> 16 * 1024)
         \<and> prefix (rl_sent s) (concat (concat bss))
         \<and> (rl_trailers s \<longrightarrow> rl_target_eof s \<and> rl_sent s = concat (concat bss)))"

lemma out_inv_final: "out_inv y s \<Longrightarrow> out_final y s"
  unfolding out_inv_def out_final_def by (fastforce simp: unsent_def intro: prefixI [OF sym])

lemma padded_nonempty: "padded m f bs \<Longrightarrow> bs \<noteq> [] \<and> [] \<notin> set bs"
proof -
  assume "padded m f bs"
  moreover have "[] \<noteq> grpc_bytes g" for g using length_grpc_bytes [of g] by auto
  ultimately show ?thesis by (auto simp: padded_def)
qed

lemma queue_frame_ok:
  assumes "policy_ok y" "grpc_ok (ry_max_frame_size y) f"
  obtains ps r where "queue_frame y f e s = Continue (s\<lparr>rl_rng := r, rl_pending_send := Some ps\<rparr>)"
    "padded (ry_max_frame_size y) f (ps_frames ps)" "ps_end_stream ps = e"
proof -
  have a: "fill_ok (ry_fill y)" "ry_max_frame_size y \<le> MAX_NEGOTIATED_FRAME_SIZE" using assms(1) by (simp_all add: policy_ok_def)
  obtain ps r where "prepare_frame_with_padding (ry_fill y) (rl_rng s) f (ry_max_frame_size y) e (ry_padding y)
      (ry_cover_traffic y) = (Ok ps, r)" "padded (ry_max_frame_size y) f (ps_frames ps)" "ps_end_stream ps = e"
    by (rule prepare_frame_padded [OF a assms(2)])
  then show ?thesis by (intro that [of ps r]) (simp_all add: queue_frame_def)
qed

lemma small_frame_ok:
  "policy_ok y \<Longrightarrow> length d \<le> 16 * 1024 \<Longrightarrow> grpc_ok (ry_max_frame_size y) (Frame_new t 0 fid d)"
  by (simp add: grpc_ok_def Frame_new_def policy_ok_def FRAME_HEADER_LEN_def MAX_NEGOTIATED_FRAME_SIZE_def USIZE_MAX_def)

lemma target_read_out:
  assumes "policy_ok y" "out_inv y s" "rl_pending_send s = None" "\<not> rl_target_eof s" "length d \<le> 16 * 1024"
  shows "\<exists>s'. target_read y d s = Continue s' \<and> out_inv y s'"
proof -
  let ?f = "if d = [] then Frame_new TcpFin 0 (ry_flow_id y) [] else Frame_new TcpData 0 (ry_flow_id y) d"
  let ?s = "if d = [] then s\<lparr>rl_target_eof := True\<rparr> else s\<lparr>rl_from_target := rl_from_target s @ d\<rparr>"
  have t: "target_read y d s = queue_frame y ?f (d = []) ?s" by (simp add: target_read_def)
  have "grpc_ok (ry_max_frame_size y) ?f" using small_frame_ok [OF assms(1)] assms(5) by simp
  then obtain ps r where q: "queue_frame y ?f (d = []) ?s = Continue (?s\<lparr>rl_rng := r, rl_pending_send := Some ps\<rparr>)"
      "padded (ry_max_frame_size y) ?f (ps_frames ps)" "ps_end_stream ps = (d = [])"
    by (rule queue_frame_ok [OF assms(1), of _ "d = []" ?s])
  from assms(2) obtain datas bss where i:
      "list_all2 (padded (ry_max_frame_size y)) (target_frames (ry_flow_id y) datas False) bss"
      "concat datas = rl_from_target s" "\<forall>d \<in> set datas. length d \<le> 16 * 1024" "rl_sent s @ unsent s = concat (concat bss)"
    using assms(4) by (auto simp: out_inv_def)
  have n: "unsent s = []" "rl_response_ended s = False" "rl_trailers s = False"
    using assms(2-4) by (auto simp: unsent_def out_inv_def)
  have frames: "target_frames (ry_flow_id y) (if d = [] then datas else datas @ [d]) (d = [])
      = target_frames (ry_flow_id y) datas False @ [?f]"
    by (simp add: target_frames_def)
  have pairs: "list_all2 (padded (ry_max_frame_size y))
      (target_frames (ry_flow_id y) (if d = [] then datas else datas @ [d]) (d = [])) (bss @ [ps_frames ps])"
    unfolding frames using i(1) q(2) by (simp add: list_all2_appendI)
  have "out_inv y (?s\<lparr>rl_rng := r, rl_pending_send := Some ps\<rparr>)"
    unfolding out_inv_def
    using pairs i(2-4) n q(3) padded_nonempty [OF q(2)] assms(4,5)
    by (auto simp: unsent_def intro!: exI [of _ "if d = [] then datas else datas @ [d]"] exI [of _ "bss @ [ps_frames ps]"])
  with t q(1) show ?thesis by auto
qed

lemma send_chunk_out:
  assumes "out_inv y s" "rl_pending_send s \<noteq> None"
  shows "(\<exists>s'. send_chunk n ok s = Continue s' \<and> out_inv y s') \<or> (\<exists>s'. send_chunk n ok s = Return (Err IoTransport) s' \<and> out_final y s')"
proof (cases "n = 0")
  case True
  with assms show ?thesis by (simp add: send_chunk_def)
next
  case False
  from assms obtain ps where ps: "rl_pending_send s = Some ps" by auto
  with assms(1) have inv: "ps_frames ps \<noteq> []" "[] \<notin> set (ps_frames ps)" "ps_end_stream ps = rl_target_eof s"
      "rl_response_ended s = False" "rl_trailers s = False"
    by (auto simp: out_inv_def)
  then obtain front rest where fr: "ps_frames ps = front # rest" "front \<noteq> []" "[] \<notin> set rest" by (cases "ps_frames ps") auto
  let ?k = "min n (length front)"
  let ?frames = "if drop ?k front = [] then rest else drop ?k front # rest"
  have bytes: "take ?k front @ concat ?frames = concat (ps_frames ps)" using fr by auto
  from assms(1) obtain datas bss where i:
      "list_all2 (padded (ry_max_frame_size y)) (target_frames (ry_flow_id y) datas (rl_target_eof s)) bss"
      "concat datas = rl_from_target s" "\<forall>d \<in> set datas. length d \<le> 16 * 1024" "rl_sent s @ unsent s = concat (concat bss)"
    by (auto simp: out_inv_def)
  have out: "rl_sent s @ take ?k front @ concat ?frames = concat (concat bss)"
    using i(4) ps unfolding bytes by (simp add: unsent_def)
  have ne: "[] \<notin> set ?frames" using fr by auto
  show ?thesis
  proof (cases "?frames = []")
    case True
    then have sent: "rl_sent s @ take ?k front = concat (concat bss)" using out by simp
    show ?thesis
      using True False ps fr sent i(1-3) inv(3)
      by (cases "ps_end_stream ps"; cases ok)
         (auto simp: send_chunk_def Let_def out_inv_def out_final_def unsent_def inv(4,5) intro!: exI [of _ datas] exI [of _ bss])
  next
    case more: False
    then have "send_chunk n ok s = Continue (s\<lparr>rl_sent := rl_sent s @ take ?k front, rl_pending_send := Some (ps\<lparr>ps_frames := ?frames\<rparr>)\<rparr>)"
      using False ps fr by (simp add: send_chunk_def Let_def)
    moreover have "out_inv y (s\<lparr>rl_sent := rl_sent s @ take ?k front, rl_pending_send := Some (ps\<lparr>ps_frames := ?frames\<rparr>)\<rparr>)"
      unfolding out_inv_def using i(1-3) out inv more ne
      by (intro conjI exI [of _ datas] exI [of _ bss]) (simp_all add: unsent_def)
    ultimately show ?thesis by blast
  qed
qed

text \<open>The fields each direction works on.\<close>

definition in_part :: "'r Relay \<Rightarrow> bool \<times> bytes option \<times> bool \<times> recv_event list \<times> bytes \<times> bytes \<times> bool \<times> Frame list" where
  "in_part s = (rl_target_write s, rl_pending_target_write s, rl_client_eof s, rl_recv_stream s, rl_recv_buf s,
     rl_written s, rl_shutdown s, rl_frames_in s)"

definition out_part :: "'r Relay \<Rightarrow> bool \<times> bool \<times> PendingH2Send option \<times> bytes \<times> bool \<times> bytes" where
  "out_part s = (rl_target_eof s, rl_response_ended s, rl_pending_send s, rl_sent s, rl_trailers s, rl_from_target s)"

fun next_state :: "'r relay_next \<Rightarrow> 'r Relay" where
  "next_state (Continue s) = s"
| "next_state (Return r s) = s"

lemma out_inv_part: "out_part s = out_part s' \<Longrightarrow> out_inv y s = out_inv y s'"
  by (simp add: out_part_def out_inv_def unsent_def)

lemma queue_frame_in: "in_part (next_state (queue_frame y f e s)) = in_part s"
  by (simp add: queue_frame_def in_part_def split: prod.splits outcome.splits)

lemma target_read_in: "in_part (next_state (target_read y d s)) = in_part s"
  by (simp add: target_read_def queue_frame_in) (simp add: in_part_def)

lemma send_chunk_in: "in_part (next_state (send_chunk n ok s)) = in_part s"
  by (auto simp: send_chunk_def Let_def in_part_def split: option.splits list.splits)

lemma tunnel_frame_out: "out_part (next_state (tunnel_frame y f s)) = out_part s"
  by (auto simp: tunnel_frame_def Let_def out_part_def split: option.splits)

lemma tunnel_read_out: "out_part (next_state (tunnel_read y s)) = out_part s"
  by (auto simp: tunnel_read_def tunnel_frame_out split: prod.splits outcome.splits) (simp_all add: out_part_def)

lemma partial_read_out: "partial_read y s = Some s' \<Longrightarrow> out_part s' = out_part s"
  by (auto simp: partial_read_def out_part_def split: prod.splits outcome.splits option.splits list.splits
      recv_event.splits bool.splits if_splits)

subsection \<open>Towards the target\<close>

definition of_flow :: "u64 \<Rightarrow> FrameType set \<Rightarrow> Frame \<Rightarrow> bool" where
  "of_flow fid ts f = (flow_id f = fid \<and> frame_type f \<in> ts)"

text \<open>The data the frames of a flow carry.\<close>

definition carried :: "u64 \<Rightarrow> Frame list \<Rightarrow> bytes" where
  "carried fid fs = concat (map payload (filter (of_flow fid {TcpData}) fs))"

definition unwritten :: "'r Relay \<Rightarrow> bytes" where
  "unwritten s = (case rl_pending_target_write s of None \<Rightarrow> [] | Some d \<Rightarrow> d)"

text \<open>\<open>allf\<close> is everything the client's body holds, as read from the start.\<close>

definition in_inv :: "'r RelayPolicy \<Rightarrow> Frame list \<Rightarrow> 'r Relay \<Rightarrow> bool" where
  "in_inv y allf s =
     (rl_target_write s = (rl_pending_target_write s = None)
      \<and> allf = rl_frames_in s @ fst (read_all_h2 (ry_max_frame_size y) (rl_recv_stream s) (rl_recv_buf s))
      \<and> rl_written s @ unwritten s = carried (ry_flow_id y) (rl_frames_in s)
      \<and> rl_client_eof s = (\<exists>f \<in> set (rl_frames_in s). of_flow (ry_flow_id y) {TcpFin, CloseFlow} f)
      \<and> rl_shutdown s = rl_client_eof s \<and> (rl_client_eof s \<longrightarrow> rl_pending_target_write s = None)
      \<and> (\<forall>f \<in> set (butlast (rl_frames_in s)). \<not> of_flow (ry_flow_id y) {TcpFin, CloseFlow} f))"

lemma in_inv_part: "in_part s = in_part s' \<Longrightarrow> in_inv y a s = in_inv y a s'"
  by (simp add: in_part_def in_inv_def unwritten_def)

lemma carried_snoc: "carried fid (fs @ [f]) = carried fid fs @ (if of_flow fid {TcpData} f then payload f else [])"
  by (simp add: carried_def)

text \<open>What a returning read of the tunnel leaves behind: a frame in front of the rest.\<close>

lemma tunnel_frame_in:
  assumes "rl_pending_target_write s = None" "rl_target_write s" "\<not> rl_client_eof s" "\<not> rl_shutdown s"
    and "allf = rl_frames_in s @ f # fst (read_all_h2 (ry_max_frame_size y) (rl_recv_stream s) (rl_recv_buf s))"
    and "rl_written s = carried (ry_flow_id y) (rl_frames_in s)"
    and "\<forall>g \<in> set (rl_frames_in s). \<not> of_flow (ry_flow_id y) {TcpFin, CloseFlow} g"
  shows "(\<exists>s'. tunnel_frame y (Some f) s = Continue s' \<and> in_inv y allf s')
    \<or> tunnel_frame y (Some f) s = Return (Ok ()) (s\<lparr>rl_frames_in := rl_frames_in s @ [f], rl_shutdown := True\<rparr>)
       \<and> of_flow (ry_flow_id y) {TcpReset} f"
proof -
  consider "flow_id f \<noteq> ry_flow_id y" | "flow_id f = ry_flow_id y" "frame_type f = TcpData"
    | "flow_id f = ry_flow_id y" "frame_type f \<in> {TcpFin, CloseFlow}" | "flow_id f = ry_flow_id y" "frame_type f = TcpReset"
    | "flow_id f = ry_flow_id y" "frame_type f \<notin> {TcpData, TcpFin, CloseFlow, TcpReset}" by blast
  then show ?thesis
    by cases (use assms in \<open>auto simp: tunnel_frame_def Let_def in_inv_def unwritten_def carried_snoc of_flow_def\<close>)
qed

lemma tunnel_read_in:
  assumes "in_inv y allf s" "rl_pending_target_write s = None" "\<not> rl_client_eof s" "policy_ok y"
  shows "(\<exists>s'. tunnel_read y s = Continue s' \<and> in_inv y allf s')
    \<or> (\<exists>r s'. tunnel_read y s = Return r s' \<and> r \<noteq> Panic \<and> prefix (rl_written s') (carried (ry_flow_id y) allf) \<and> \<not> rl_client_eof s')"
proof -
  let ?m = "ry_max_frame_size y"
  obtain r st b where rd: "read_next_h2_frame ?m (rl_recv_stream s) (rl_recv_buf s) = (r, st, b)" by (metis prod.collapse)
  have np: "r \<noteq> Panic" using read_next_h2_frame_not_Panic [OF frame_limit_fits(1), of ?m "rl_recv_stream s" "rl_recv_buf s"] assms(4) rd
    by (simp add: policy_ok_def)
  have w: "rl_target_write s" "\<not> rl_shutdown s" "rl_written s = carried (ry_flow_id y) (rl_frames_in s)"
      "\<forall>g \<in> set (rl_frames_in s). \<not> of_flow (ry_flow_id y) {TcpFin, CloseFlow} g"
      "allf = rl_frames_in s @ fst (read_all_h2 ?m (rl_recv_stream s) (rl_recv_buf s))"
    using assms by (auto simp: in_inv_def unwritten_def)
  have pre: "prefix (rl_written s) (carried (ry_flow_id y) allf)" using w(3,5) by (simp add: carried_def)
  show ?thesis
  proof (cases r)
    case (Ok fo)
    show ?thesis
    proof (cases fo)
      case None
      with Ok rd w pre assms(3) show ?thesis by (simp add: tunnel_read_def read_next_frame_is_h2 tunnel_frame_def)
    next
      case (Some f)
      let ?s = "s\<lparr>rl_recv_stream := st, rl_recv_buf := b\<rparr>"
      have "allf = rl_frames_in ?s @ f # fst (read_all_h2 ?m (rl_recv_stream ?s) (rl_recv_buf ?s))"
        using w(5) read_all_next [OF rd [unfolded Ok Some]] by simp
      from tunnel_frame_in [of ?s, OF _ _ _ _ this] assms w pre
      show ?thesis using rd Ok Some by (auto simp: tunnel_read_def read_next_frame_is_h2)
    qed
  next
    case (Err e)
    with rd pre assms(3) show ?thesis by (simp add: tunnel_read_def read_next_frame_is_h2)
  qed (use np in simp)
qed

lemma partial_read_in:
  assumes "in_inv y allf s" "partial_read y s = Some s'"
  shows "in_inv y allf s'"
proof -
  let ?m = "ry_max_frame_size y"
  have "\<exists>st b. s' = s\<lparr>rl_recv_stream := st, rl_recv_buf := b\<rparr>
    \<and> read_all_h2 ?m st b = read_all_h2 ?m (rl_recv_stream s) (rl_recv_buf s)"
  proof (cases rule: decode_grpc_outcomes [of "rl_recv_buf s" ?m])
    case waits
    then obtain c st where "rl_recv_stream s = RecvData c True # st"
        "s' = s\<lparr>rl_recv_stream := st, rl_recv_buf := rl_recv_buf s @ c\<rparr>"
      using assms(2) by (auto simp: partial_read_def split: list.splits recv_event.splits bool.splits)
    with read_all_pass(2) [OF waits] show ?thesis by (intro exI [of _ st] exI [of _ "rl_recv_buf s @ c"]) simp
  next
    case (frame f r)
    then have "frame_type f = Padding" "s' = s\<lparr>rl_recv_buf := r\<rparr>"
      using assms(2) by (auto simp: partial_read_def split: if_splits)
    with read_all_pass(1) [OF frame(3)] show ?thesis by (intro exI [of _ "rl_recv_stream s"] exI [of _ r]) simp
  next
    case (fails e r)
    then show ?thesis using assms(2) by (simp add: partial_read_def)
  next
    case overflows
    then show ?thesis using assms(2) by (simp add: partial_read_def)
  qed
  then show ?thesis using assms(1) by (auto simp: in_inv_def unwritten_def)
qed

subsection \<open>Whole runs\<close>

text \<open>What holds of the target's side however the relay ends: it got a beginning of what the client's frames carry,
and all of it up to the closing frame once that was read.\<close>

definition in_final :: "'r RelayPolicy \<Rightarrow> Frame list \<Rightarrow> 'r Relay \<Rightarrow> bool" where
  "in_final y allf s =
     (prefix (rl_written s) (carried (ry_flow_id y) allf)
      \<and> (rl_client_eof s \<longrightarrow>
           rl_written s = carried (ry_flow_id y) (takeWhile (\<lambda>f. \<not> of_flow (ry_flow_id y) {TcpFin, CloseFlow} f) allf)))"

lemma in_inv_prefix:
  assumes "in_inv y allf s"
  shows "prefix (rl_written s) (carried (ry_flow_id y) allf)"
proof -
  from assms obtain g where "allf = rl_frames_in s @ g" "rl_written s @ unwritten s = carried (ry_flow_id y) (rl_frames_in s)"
    by (auto simp: in_inv_def)
  then have "carried (ry_flow_id y) allf = rl_written s @ unwritten s @ carried (ry_flow_id y) g" by (simp add: carried_def)
  then show ?thesis by simp
qed

text \<open>A target that was told of the end has all the data in front of the client's closing frame.\<close>

lemma carried_until_close:
  assumes "in_inv y allf s" "rl_client_eof s"
  shows "rl_written s = carried (ry_flow_id y) (takeWhile (\<lambda>f. \<not> of_flow (ry_flow_id y) {TcpFin, CloseFlow} f) allf)"
proof -
  let ?P = "\<lambda>f. \<not> of_flow (ry_flow_id y) {TcpFin, CloseFlow} f"
  from assms obtain g where g: "allf = rl_frames_in s @ g" "rl_written s = carried (ry_flow_id y) (rl_frames_in s)"
      "\<exists>f \<in> set (rl_frames_in s). \<not> ?P f" "\<forall>f \<in> set (butlast (rl_frames_in s)). ?P f"
    by (auto simp: in_inv_def unwritten_def)
  then have ne: "rl_frames_in s \<noteq> []" by auto
  then obtain pre l where pl: "rl_frames_in s = pre @ [l]" by (metis append_butlast_last_id)
  then have "\<forall>f \<in> set pre. ?P f" "\<not> ?P l" using g(3,4) by auto
  then have "takeWhile ?P allf = pre" "\<not> of_flow (ry_flow_id y) {TcpData} l"
    using g(1) pl by (auto simp: takeWhile_append2 of_flow_def)
  then show ?thesis using g(2) pl by (simp add: carried_snoc)
qed

lemma in_inv_final: "in_inv y allf s \<Longrightarrow> in_final y allf s"
  using in_inv_prefix carried_until_close unfolding in_final_def by blast

definition relay_ok :: "'r RelayPolicy \<Rightarrow> Frame list \<Rightarrow> 'r relay_next \<Rightarrow> bool" where
  "relay_ok y allf n =
     (case n of
        Continue s \<Rightarrow> out_inv y s \<and> in_inv y allf s
      | Return r s \<Rightarrow> r \<noteq> Panic \<and> out_final y s \<and> in_final y allf s)"

lemma relay_ok_Return: "out_inv y s \<Longrightarrow> in_inv y allf s \<Longrightarrow> r \<noteq> Panic \<Longrightarrow> relay_ok y allf (Return r s)"
  by (simp add: relay_ok_def out_inv_final in_inv_final)

lemma target_read_ok:
  assumes "policy_ok y" "out_inv y s" "in_inv y allf s" "rl_pending_send s = None" "\<not> rl_target_eof s" "length d \<le> 16 * 1024"
  shows "relay_ok y allf (target_read y d s)"
proof -
  have inv: "in_inv y allf (next_state (target_read y d s))" using target_read_in [of y d s] assms(3) in_inv_part by blast
  show ?thesis using target_read_out [OF assms(1,2,4-6)] inv by (auto simp: relay_ok_def)
qed

lemma send_chunk_ok:
  assumes "out_inv y s" "in_inv y allf s" "rl_pending_send s \<noteq> None"
  shows "relay_ok y allf (send_chunk n ok s)"
proof -
  have inv: "in_inv y allf (next_state (send_chunk n ok s))" using send_chunk_in [of n ok s] assms(2) in_inv_part by blast
  show ?thesis using send_chunk_out [OF assms(1,3), of n ok] inv by (auto simp: relay_ok_def in_inv_final)
qed

lemma tunnel_read_ok:
  assumes "policy_ok y" "out_inv y s" "in_inv y allf s" "rl_pending_target_write s = None" "\<not> rl_client_eof s"
  shows "relay_ok y allf (tunnel_read y s)"
proof -
  have inv: "out_inv y (next_state (tunnel_read y s))" using tunnel_read_out [of y s] assms(2) out_inv_part by blast
  show ?thesis using tunnel_read_in [OF assms(3-5,1)] inv by (auto simp: relay_ok_def out_inv_final in_final_def)
qed

lemma write_ok:
  assumes "out_inv y s" "in_inv y allf s" "rl_pending_target_write s = Some d"
  shows "relay_ok y allf (Continue (s\<lparr>rl_pending_target_write := Some (drop n d), rl_written := rl_written s @ take n d\<rparr>))"
    and "relay_ok y allf (Continue (s\<lparr>rl_target_write := True, rl_pending_target_write := None, rl_written := rl_written s @ d\<rparr>))"
proof -
  have o: "out_inv y (s\<lparr>rl_target_write := w, rl_pending_target_write := p, rl_written := x\<rparr>)"
      "out_inv y (s\<lparr>rl_pending_target_write := p, rl_written := x\<rparr>)" for w p x
    using assms(1) by (simp_all add: out_inv_def unsent_def)
  show "relay_ok y allf (Continue (s\<lparr>rl_pending_target_write := Some (drop n d), rl_written := rl_written s @ take n d\<rparr>))"
    using assms(2,3) o by (auto simp: relay_ok_def in_inv_def unwritten_def)
  show "relay_ok y allf (Continue (s\<lparr>rl_target_write := True, rl_pending_target_write := None, rl_written := rl_written s @ d\<rparr>))"
    using assms(2,3) o by (auto simp: relay_ok_def in_inv_def unwritten_def)
qed

lemma relay_step_ok:
  assumes "policy_ok y" "out_inv y s" "in_inv y allf s" "relay_step y ev s = Some n"
  shows "relay_ok y allf n"
proof (cases ev)
  case PartialRead
  then obtain s' where "partial_read y s = Some s'" "n = Continue s'"
    using assms(4) by (auto simp: relay_step_def split: if_splits)
  moreover from this have "out_inv y s'" using partial_read_out assms(2) out_inv_part by blast
  ultimately show ?thesis using partial_read_in [OF assms(3)] by (simp add: relay_ok_def)
qed (use assms(4) in \<open>auto simp: relay_step_def split: if_splits option.splits
      intro!: relay_ok_Return [OF assms(2,3)] target_read_ok [OF assms(1-3)] send_chunk_ok [OF assms(2,3)]
        tunnel_read_ok [OF assms(1-3)] write_ok [OF assms(2,3)]\<close>)

lemma relay_start_ok:
  "out_inv y (relay_start r stream buf)
   \<and> in_inv y (fst (read_all_h2 (ry_max_frame_size y) stream buf)) (relay_start r stream buf)"
  by (auto simp: out_inv_def in_inv_def relay_start_def unsent_def unwritten_def target_frames_def carried_def
      intro!: exI [of _ "[]"])

lemma relay_reaches_ok:
  assumes "relay_reaches y (relay_start r stream buf) s" "policy_ok y"
  shows "out_inv y s \<and> in_inv y (fst (read_all_h2 (ry_max_frame_size y) stream buf)) s"
  using assms(1)
proof induction
  case start
  show ?case by (rule relay_start_ok)
next
  case (turn s' ev s'')
  with relay_step_ok [OF assms(2), of s' _ ev "Continue s''"] show ?case by (auto simp: relay_ok_def)
qed

lemma relay_returns_ok:
  assumes "relay_returns y (relay_start r stream buf) res s" "policy_ok y"
  shows "res \<noteq> Panic \<and> out_final y s \<and> in_final y (fst (read_all_h2 (ry_max_frame_size y) stream buf)) s"
  using assms(1)
proof cases
  case (branch s' ev)
  from relay_step_ok [OF assms(2) _ _ branch(2)] relay_reaches_ok [OF branch(1) assms(2)]
  show ?thesis by (auto simp: relay_ok_def)
next
  case loop_end
  from relay_reaches_ok [OF loop_end(2) assms(2)] show ?thesis using loop_end(1) by (simp add: out_inv_final in_inv_final)
qed

lemma out_final_read:
  assumes "out_final y s" "policy_ok y"
  shows "\<exists>datas wire. concat datas = rl_from_target s \<and> prefix (rl_sent s) wire
     \<and> (\<forall>chunks. concat chunks = wire \<longrightarrow>
           read_all_h2 (ry_max_frame_size y) (data_events chunks) [] = (target_frames (ry_flow_id y) datas (rl_target_eof s), Ok None))
     \<and> (rl_trailers s \<longrightarrow> rl_target_eof s \<and> rl_sent s = wire)"
proof -
  from assms(1) obtain datas bss where b:
      "list_all2 (padded (ry_max_frame_size y)) (target_frames (ry_flow_id y) datas (rl_target_eof s)) bss"
      "concat datas = rl_from_target s" "\<forall>d \<in> set datas. length d \<le> 16 * 1024" "prefix (rl_sent s) (concat (concat bss))"
      "rl_trailers s \<longrightarrow> rl_target_eof s \<and> rl_sent s = concat (concat bss)"
    by (auto simp: out_final_def)
  have "\<forall>f \<in> set (target_frames (ry_flow_id y) datas (rl_target_eof s)). grpc_ok (ry_max_frame_size y) f \<and> frame_type f \<noteq> Padding"
    using b(3) small_frame_ok [OF assms(2)] by (auto simp: target_frames_def) (simp_all add: Frame_new_def)
  with read_all_padded [OF b(1), of "[]"] b show ?thesis
    by (intro exI [of _ datas] exI [of _ "concat (concat bss)"]) auto
qed

text \<open>C7. The relay is faithful in both directions, under every interleaving of its branches. However the run ends, it did
not panic; what went out to the client is a beginning of a byte stream that, in any chunking, reads back as the
data frames holding exactly what the target delivered, in order, and as that whole stream with the terminal frame when
the response got its trailers; the target got a beginning of what the client's data frames of this flow carry, and
once the client closed its half, exactly the data in front of the closing frame.\<close>

theorem relay_faithful:
  assumes "policy_ok y" "relay_returns y (relay_start r stream buf) res s"
  shows "res \<noteq> Panic
     \<and> (\<exists>datas wire. concat datas = rl_from_target s \<and> prefix (rl_sent s) wire
          \<and> (\<forall>chunks. concat chunks = wire \<longrightarrow>
                read_all_h2 (ry_max_frame_size y) (data_events chunks) []
                  = (target_frames (ry_flow_id y) datas (rl_target_eof s), Ok None))
          \<and> (rl_trailers s \<longrightarrow> rl_target_eof s \<and> rl_sent s = wire))
     \<and> in_final y (fst (read_all_h2 (ry_max_frame_size y) stream buf)) s"
  using relay_returns_ok [OF assms(2,1)] out_final_read [OF _ assms(1)] by blast

text \<open>A run given by its events.\<close>

fun relay_run :: "'r RelayPolicy \<Rightarrow> relay_event list \<Rightarrow> 'r Relay \<Rightarrow> 'r Relay option" where
  "relay_run y [] s = Some s"
| "relay_run y (ev # evs) s = (case relay_step y ev s of Some (Continue s') \<Rightarrow> relay_run y evs s' | _ \<Rightarrow> None)"

lemma relay_run_reaches: "relay_run y evs s = Some s' \<Longrightarrow> relay_reaches y s0 s \<Longrightarrow> relay_reaches y s0 s'"
  by (induction y evs s rule: relay_run.induct) (auto split: option.splits relay_next.splits intro: turn)

definition example_relay :: "unit RelayPolicy" where
  "example_relay =
     \<lparr>ry_fill = zero_fill, ry_padding = RuntimePadding_disabled,
      ry_cover_traffic = RuntimeCoverTraffic_disabled, ry_max_frame_size = 65536, ry_flow_id = 1\<rparr>"

definition example_start :: "unit Relay" where
  "example_start = relay_start () (data_events [])
     (grpc_bytes (Frame_new TcpData 0 1 [1, 2, 3]) @ grpc_bytes (Frame_new TcpFin 0 1 []))"

lemma example_queue:
  "length d \<le> 16 * 1024 \<Longrightarrow>
   queue_frame example_relay (Frame_new t 0 1 d) e s = Continue (s\<lparr>rl_pending_send :=
     Some \<lparr>ps_frames = [grpc_bytes (Frame_new t 0 1 d)], ps_end_stream = e, ps_emission = PaddingEmission_default\<rparr>\<rparr>)"
  by (simp add: queue_frame_def prepare_frame_with_padding_def example_relay_def padding_frame_def padding_frames_def
      RuntimePadding_disabled_def RuntimeCoverTraffic_disabled_def cover_traffic_decision_def decision_rejected_def ShapingConfig_default_def
      encode_grpc_frame_ok grpc_ok_def Frame_new_def FRAME_HEADER_LEN_def USIZE_MAX_def)

lemma example_next:
  "length d \<le> 16 * 1024 \<Longrightarrow> t \<noteq> Padding \<Longrightarrow>
   read_next_frame stream (grpc_bytes (Frame_new t 0 1 d) @ rest) 65536 = (Ok (Some (Frame_new t 0 1 d)), stream, rest)"
  by (simp add: read_next_frame_is_h2 read_next_h2_frame.simps [of 65536 _ "grpc_bytes _ @ _"] decode_grpc_complete
      grpc_ok_def Frame_new_def FRAME_HEADER_LEN_def USIZE_MAX_def)

lemma example_run:
  "\<exists>s. relay_run example_relay
     [TargetRead [9], TunnelRead, Room 10 True, WriteSome 2, Room 100 True, TargetRead [], WriteDone, TunnelRead,
      Room 100 True] example_start = Some s
   \<and> relay_done s \<and> rl_written s = [1, 2, 3] \<and> rl_from_target s = [9] \<and> rl_trailers s"
proof -
  have c: "ry_max_frame_size example_relay = 65536" "ry_flow_id example_relay = 1" by (simp_all add: example_relay_def)
  show ?thesis
    using example_next [of "[]" TcpFin "[]" "[]"]
    by (simp add: relay_step_def relay_done_def example_start_def relay_start_def target_read_def example_queue c
        tunnel_read_def example_next tunnel_frame_def Let_def send_chunk_def length_grpc_bytes)
       (simp add: Frame_new_def length_grpc_bytes)
qed

theorem relay_faithful_witness:
  "\<exists>s. relay_returns example_relay example_start (Ok ()) s \<and> rl_written s = [1, 2, 3] \<and> rl_from_target s = [9]
     \<and> (\<exists>datas. concat datas = [9] \<and> (\<forall>chunks. concat chunks = rl_sent s \<longrightarrow>
           read_all_h2 65536 (data_events chunks) [] = (target_frames 1 datas True, Ok None)))"
proof -
  obtain s where s: "relay_reaches example_relay example_start s" "relay_done s" "rl_written s = [1, 2, 3]"
      "rl_from_target s = [9]" "rl_trailers s"
    using example_run relay_run_reaches [OF _ start] by blast
  have ret: "relay_returns example_relay example_start (Ok ()) s" by (rule loop_end [OF s(1,2)])
  have p: "policy_ok example_relay" by (simp add: policy_ok_def example_relay_def zero_fill_ok MAX_NEGOTIATED_FRAME_SIZE_def)
  have c: "ry_max_frame_size example_relay = 65536" "ry_flow_id example_relay = 1" by (simp_all add: example_relay_def)
  from relay_faithful [OF p ret [unfolded example_start_def]] s(4,5) c
  obtain datas where "concat datas = [9]" "\<forall>chunks. concat chunks = rl_sent s \<longrightarrow>
      read_all_h2 65536 (data_events chunks) [] = (target_frames 1 datas True, Ok None)" by auto
  with ret s(3,4) show ?thesis by blast
qed

end
