(* ===== verification/Target_Open.thy ===== *)
theory Target_Open
  imports Frame_IO Egress_Policy "HOL-Library.Multiset"
begin

text \<open>
  Reaching a target: name resolution under the egress policy, the race of connection attempts over the
  two address families, and the datagram relays, from \<open>maverick-server/src/relay.rs\<close>. The resolver and
  the sockets are the outside world: a lookup is an answer, a connection attempt ends by an event
  that names the attempt and its outcome, and the delay of the race is an event as well. \<open>cn_attempts\<close>
  records the addresses \<open>connect\<close> was called on, in order. A timeout is the absence of further events.
\<close>

datatype TargetOpenFailureKind =
    ResolutionTimeout
  | ResolutionFailure
  | EgressPolicyRejected
  | ConnectTimeout
  | ConnectFailure

datatype 'e io_failure = TargetSetEmpty | OsError 'e

record 'e TargetOpenFailure =
  tof_kind :: TargetOpenFailureKind
  tof_source :: "'e io_failure option"

definition TargetOpenFailure_new :: "TargetOpenFailureKind \<Rightarrow> 'e TargetOpenFailure" where
  "TargetOpenFailure_new kind = \<lparr>tof_kind = kind, tof_source = None\<rparr>"

definition with_source :: "TargetOpenFailureKind \<Rightarrow> 'e io_failure \<Rightarrow> 'e TargetOpenFailure" where
  "with_source kind source = \<lparr>tof_kind = kind, tof_source = Some source\<rparr>"

subsection \<open>Counters\<close>

definition TARGET_OPEN_LATENCY_BUCKETS_MS :: "nat list" where
  "TARGET_OPEN_LATENCY_BUCKETS_MS = [10, 25, 50, 100, 250, 500, 1000, 2500, 5000, 10000]"

definition TARGET_OPEN_LATENCY_BUCKET_COUNT :: nat where
  "TARGET_OPEN_LATENCY_BUCKET_COUNT = length TARGET_OPEN_LATENCY_BUCKETS_MS + 1"

record CumulativeLatencyMetric =
  lm_count :: u64
  lm_sum_ms :: u64
  lm_cumulative_buckets :: "u64 list"

definition CumulativeLatencyMetric_default :: CumulativeLatencyMetric where
  "CumulativeLatencyMetric_default =
     \<lparr>lm_count = 0, lm_sum_ms = 0, lm_cumulative_buckets = replicate TARGET_OPEN_LATENCY_BUCKET_COUNT 0\<rparr>"

text \<open>A duration is a number of nanoseconds.\<close>

definition record_latency :: "CumulativeLatencyMetric \<Rightarrow> nat \<Rightarrow> CumulativeLatencyMetric" where
  "record_latency m elapsed =
     (let elapsed_ms = min (elapsed div 1000000) (2 ^ 64 - 1);
          buckets = map2 (\<lambda>bound_ms b. if elapsed \<le> bound_ms * 1000000 then b + 1 else b)
                      TARGET_OPEN_LATENCY_BUCKETS_MS (lm_cumulative_buckets m) in
      \<lparr>lm_count = lm_count m + 1, lm_sum_ms = lm_sum_ms m + of_nat elapsed_ms,
       lm_cumulative_buckets = buckets @ [lm_cumulative_buckets m ! (TARGET_OPEN_LATENCY_BUCKET_COUNT - 1) + 1]\<rparr>)"

record TargetOpenMetricSinks =
  ts_resolution_timeouts :: u64
  ts_resolution_failures :: u64
  ts_connect_timeouts :: u64
  ts_connect_failures :: u64
  ts_resolution_latency :: CumulativeLatencyMetric
  ts_connect_latency :: CumulativeLatencyMetric

definition record_kind :: "TargetOpenMetricSinks \<Rightarrow> TargetOpenFailureKind \<Rightarrow> TargetOpenMetricSinks" where
  "record_kind t kind =
     (case kind of
        ResolutionTimeout \<Rightarrow> t\<lparr>ts_resolution_timeouts := ts_resolution_timeouts t + 1\<rparr>
      | ResolutionFailure \<Rightarrow> t\<lparr>ts_resolution_failures := ts_resolution_failures t + 1\<rparr>
      | EgressPolicyRejected \<Rightarrow> t
      | ConnectTimeout \<Rightarrow> t\<lparr>ts_connect_timeouts := ts_connect_timeouts t + 1\<rparr>
      | ConnectFailure \<Rightarrow> t\<lparr>ts_connect_failures := ts_connect_failures t + 1\<rparr>)"

text \<open>A bucket counts the durations within its bound, modulo the width of the counters.\<close>

lemma latency_bucket_count: "TARGET_OPEN_LATENCY_BUCKET_COUNT = 11" "length TARGET_OPEN_LATENCY_BUCKETS_MS = 10"
  by (simp_all add: TARGET_OPEN_LATENCY_BUCKET_COUNT_def TARGET_OPEN_LATENCY_BUCKETS_MS_def)

lemma record_latency_buckets:
  assumes "length (lm_cumulative_buckets m) = 11"
  shows "length (lm_cumulative_buckets (record_latency m d)) = 11"
    and "i < 10 \<Longrightarrow> lm_cumulative_buckets (record_latency m d) ! i
       = lm_cumulative_buckets m ! i + (if d \<le> TARGET_OPEN_LATENCY_BUCKETS_MS ! i * 1000000 then 1 else 0)"
    and "lm_cumulative_buckets (record_latency m d) ! 10 = lm_cumulative_buckets m ! 10 + 1"
  using assms by (simp_all add: record_latency_def Let_def nth_append latency_bucket_count)

lemma latency_metric_counts:
  defines "m ds \<equiv> foldl record_latency CumulativeLatencyMetric_default ds"
  shows "length (lm_cumulative_buckets (m ds)) = 11
     \<and> lm_count (m ds) = of_nat (length ds) \<and> lm_cumulative_buckets (m ds) ! 10 = of_nat (length ds)
     \<and> (\<forall>i < 10. lm_cumulative_buckets (m ds) ! i
           = of_nat (length (filter (\<lambda>d. d \<le> TARGET_OPEN_LATENCY_BUCKETS_MS ! i * 1000000) ds)))"
proof (induction ds rule: rev_induct)
  case Nil
  then show ?case by (simp add: m_def CumulativeLatencyMetric_default_def latency_bucket_count)
next
  case (snoc d ds)
  then have l: "length (lm_cumulative_buckets (m ds)) = 11" by simp
  have "m (ds @ [d]) = record_latency (m ds) d" by (simp add: m_def)
  with snoc record_latency_buckets [OF l, where d = d] show ?case by (simp add: record_latency_def Let_def)
qed

subsection \<open>Resolution\<close>

datatype 'e lookup = LookupOk "SocketAddr list" | LookupError 'e | LookupTimeout

definition resolve_allowed_addresses ::
  "'e lookup \<Rightarrow> ServerEgressPolicyConfig \<Rightarrow> (SocketAddr list, 'e TargetOpenFailure) outcome" where
  "resolve_allowed_addresses resolved egress =
     (case resolved of
        LookupOk addrs \<Rightarrow>
          if addrs = [] then Err (TargetOpenFailure_new ResolutionFailure)
          else
            let allowed = filter (\<lambda>addr. allows_ip egress (sa_ip addr)) addrs in
            fail_if (allowed = []) (TargetOpenFailure_new EgressPolicyRejected) (Ok allowed)
      | LookupError e \<Rightarrow> Err (with_source ResolutionFailure (OsError e))
      | LookupTimeout \<Rightarrow> Err (TargetOpenFailure_new ResolutionTimeout))"

definition first_allowed_addr ::
  "'e lookup \<Rightarrow> ServerEgressPolicyConfig \<Rightarrow> (SocketAddr, 'e TargetOpenFailure option) outcome" where
  "first_allowed_addr resolved egress =
     (case resolve_allowed_addresses resolved egress of
        Ok (addr # _) \<Rightarrow> Ok addr
      | Ok [] \<Rightarrow> Err None
      | Err e \<Rightarrow> Err (Some e)
      | Panic \<Rightarrow> Panic)"

subsection \<open>Connecting\<close>

record 'e connecting =
  cn_racing :: bool
  cn_pending :: "(nat \<times> SocketAddr) list"
  cn_in_flight :: "(nat \<times> SocketAddr) list"
  cn_errors :: "'e option list"
  cn_last_error :: "'e option"
  cn_attempts :: "SocketAddr list"

datatype 'e connect_event = Completed nat "'e option" | RaceDelay

datatype 'e connect_next =
    Trying "'e connecting"
  | Finished "(SocketAddr, 'e io_failure) outcome" "SocketAddr list"

fun is_ipv4 :: "SocketAddr \<Rightarrow> bool" where
  "is_ipv4 addr = (case sa_ip addr of V4 _ \<Rightarrow> True | V6 _ \<Rightarrow> False)"

text \<open>The candidates of the two families in turn.\<close>

fun alternate :: "'a list \<Rightarrow> 'a list \<Rightarrow> 'a list" where
  "alternate [] [] = []"
| "alternate (x # xs) [] = x # alternate xs []"
| "alternate [] (y # ys) = y # alternate [] ys"
| "alternate (x # xs) (y # ys) = x # y # alternate xs ys"

definition mixed_families :: "SocketAddr list \<Rightarrow> bool" where
  "mixed_families addrs = ((\<exists>a \<in> set addrs. is_ipv4 a) \<and> (\<exists>a \<in> set addrs. \<not> is_ipv4 a))"

definition connect_order :: "SocketAddr list \<Rightarrow> (nat \<times> SocketAddr) list" where
  "connect_order addrs =
     (if \<not> mixed_families addrs then enumerate 0 addrs
      else
        let first_is_ipv4 = is_ipv4 (hd addrs) in
        alternate (filter (\<lambda>(i, a). is_ipv4 a = first_is_ipv4) (enumerate 0 addrs))
                  (filter (\<lambda>(i, a). is_ipv4 a \<noteq> first_is_ipv4) (enumerate 0 addrs)))"

definition connect_target_addresses :: "SocketAddr list \<Rightarrow> 'e connect_next" where
  "connect_target_addresses addrs =
     (if addrs = [] then Finished (Err TargetSetEmpty) []
      else case connect_order addrs of
        [] \<Rightarrow> Finished Panic []
      | c # cs \<Rightarrow>
          Trying \<lparr>cn_racing = mixed_families addrs, cn_pending = cs, cn_in_flight = [c],
                  cn_errors = replicate (length addrs) None, cn_last_error = None, cn_attempts = [snd c]\<rparr>)"

definition launch :: "'e connecting \<Rightarrow> 'e connecting" where
  "launch s =
     (case cn_pending s of
        [] \<Rightarrow> s
      | c # cs \<Rightarrow> s\<lparr>cn_pending := cs, cn_in_flight := cn_in_flight s @ [c], cn_attempts := cn_attempts s @ [snd c]\<rparr>)"

definition race_check :: "'e connecting \<Rightarrow> 'e connect_next" where
  "race_check s =
     (if cn_in_flight s = [] \<and> cn_pending s = []
      then Finished (case cn_errors s of [] \<Rightarrow> Panic | es \<Rightarrow> (case last es of Some e \<Rightarrow> Err (OsError e) | None \<Rightarrow> Panic))
             (cn_attempts s)
      else Trying s)"

definition race_step :: "'e connect_event \<Rightarrow> 'e connecting \<Rightarrow> 'e connect_next option" where
  "race_step ev s =
     (case ev of
        Completed k res \<Rightarrow>
          if length (cn_in_flight s) \<le> k then None
          else
            let (i, addr) = cn_in_flight s ! k;
                s = s\<lparr>cn_in_flight := take k (cn_in_flight s) @ drop (Suc k) (cn_in_flight s)\<rparr> in
            (case res of
               None \<Rightarrow> Some (Finished (Ok addr) (cn_attempts s))
             | Some e \<Rightarrow>
                 if length (cn_errors s) \<le> i then Some (Finished Panic (cn_attempts s))
                 else Some (race_check (launch (s\<lparr>cn_errors := (cn_errors s)[i := Some e]\<rparr>))))
      | RaceDelay \<Rightarrow>
          if cn_in_flight s = [] \<or> cn_pending s \<noteq> [] \<and> length (cn_in_flight s) < 2
          then Some (race_check (launch s)) else None)"

definition sequential_step :: "'e connect_event \<Rightarrow> 'e connecting \<Rightarrow> 'e connect_next option" where
  "sequential_step ev s =
     (case (ev, cn_in_flight s) of
        (Completed 0 None, [(_, addr)]) \<Rightarrow> Some (Finished (Ok addr) (cn_attempts s))
      | (Completed 0 (Some e), [_]) \<Rightarrow>
          let s = s\<lparr>cn_last_error := Some e, cn_in_flight := []\<rparr> in
          if cn_pending s = []
          then Some (Finished (case cn_last_error s of Some e \<Rightarrow> Err (OsError e) | None \<Rightarrow> Panic) (cn_attempts s))
          else Some (Trying (launch s))
      | _ \<Rightarrow> None)"

definition connect_step :: "'e connect_event \<Rightarrow> 'e connecting \<Rightarrow> 'e connect_next option" where
  "connect_step ev s = (if cn_racing s then race_step ev s else sequential_step ev s)"

fun run_connect :: "'e connect_event list \<Rightarrow> 'e connect_next \<Rightarrow> 'e connect_next option" where
  "run_connect [] n = Some n"
| "run_connect (ev # evs) (Trying s) =
     (case connect_step ev s of None \<Rightarrow> None | Some n \<Rightarrow> run_connect evs n)"
| "run_connect (ev # evs) (Finished r as) = None"

definition connect_with_timeout ::
  "'e connect_next \<Rightarrow> (SocketAddr, 'e TargetOpenFailure) outcome \<times> SocketAddr list" where
  "connect_with_timeout n =
     (case n of
        Finished (Ok addr) as \<Rightarrow> (Ok addr, as)
      | Finished (Err e) as \<Rightarrow> (Err (with_source ConnectFailure e), as)
      | Finished Panic as \<Rightarrow> (Panic, as)
      | Trying s \<Rightarrow> (Err (TargetOpenFailure_new ConnectTimeout), cn_attempts s))"

text \<open>\<open>open_target_inner\<close> with the lookup's answer, the events of the connection attempts, and the time the two parts
took; \<open>None\<close> when the events are not possible.\<close>

definition open_target_inner ::
  "'e lookup \<Rightarrow> 'e connect_event list \<Rightarrow> nat \<Rightarrow> nat \<Rightarrow> ServerEgressPolicyConfig \<Rightarrow> TargetOpenMetricSinks option
   \<Rightarrow> ((SocketAddr, 'e TargetOpenFailure) outcome \<times> TargetOpenMetricSinks option \<times> SocketAddr list) option" where
  "open_target_inner resolved evs resolution_elapsed connect_elapsed egress metrics =
     (case resolve_allowed_addresses resolved egress of
        Panic \<Rightarrow> Some (Panic, metrics, [])
      | Err failure \<Rightarrow>
          if evs \<noteq> [] then None
          else Some (Err failure, map_option (\<lambda>m. record_kind m (tof_kind failure)) metrics, [])
      | Ok addrs \<Rightarrow>
          (case run_connect evs (connect_target_addresses addrs) of
             None \<Rightarrow> None
           | Some n \<Rightarrow>
               let metrics = map_option (\<lambda>m. m\<lparr>ts_resolution_latency :=
                     record_latency (ts_resolution_latency m) resolution_elapsed\<rparr>) metrics in
               (case connect_with_timeout n of
                  (Ok addr, as) \<Rightarrow>
                    Some (Ok addr, map_option (\<lambda>m. m\<lparr>ts_connect_latency :=
                       record_latency (ts_connect_latency m) connect_elapsed\<rparr>) metrics, as)
                | (Err failure, as) \<Rightarrow> Some (Err failure, map_option (\<lambda>m. record_kind m (tof_kind failure)) metrics, as)
                | (Panic, as) \<Rightarrow> Some (Panic, metrics, as))))"

subsection \<open>Datagrams\<close>

text \<open>A datagram socket bound for its target: \<open>None\<close> when binding, connecting, sending or receiving fails or times out.
The receive buffer holds 65535 bytes.\<close>

type_synonym udp_socket = "SocketAddr \<Rightarrow> bytes \<Rightarrow> bytes option"

definition relay_dns_query ::
  "'e lookup \<Rightarrow> udp_socket \<Rightarrow> ServerEgressPolicyConfig \<Rightarrow> bytes \<Rightarrow> bytes option \<times> SocketAddr list" where
  "relay_dns_query resolved socket egress query =
     (case first_allowed_addr resolved egress of
        Ok upstream \<Rightarrow> (map_option (take 65535) (socket upstream query), [upstream])
      | _ \<Rightarrow> (None, []))"

definition relay_udp_packet ::
  "'e lookup \<Rightarrow> udp_socket \<Rightarrow> ServerEgressPolicyConfig \<Rightarrow> UdpPacketPayload
   \<Rightarrow> UdpPacketPayload option \<times> SocketAddr list" where
  "relay_udp_packet resolved socket egress packet =
     (case first_allowed_addr resolved egress of
        Ok target \<Rightarrow>
          (map_option (\<lambda>reply. UdpPacketPayload_new (up_target packet) (up_port packet) (take 65535 reply))
             (socket target (up_data packet)), [target])
      | _ \<Rightarrow> (None, []))"

subsection \<open>The order of the attempts\<close>

lemma mset_alternate: "mset (alternate xs ys) = mset xs + mset ys"
  by (induction xs ys rule: alternate.induct) simp_all

lemma mset_connect_order: "mset (connect_order addrs) = mset (enumerate 0 addrs)"
proof -
  have "(\<lambda>(i, a). is_ipv4 a \<noteq> v) = (\<lambda>x. \<not> (\<lambda>(i, a). is_ipv4 a = v) x)" for v by auto
  then show ?thesis
    by (simp add: connect_order_def Let_def mset_alternate del: is_ipv4.simps)
qed

lemma connect_order_props:
  "distinct (connect_order addrs)" "length (connect_order addrs) = length addrs"
  "set (connect_order addrs) = set (enumerate 0 addrs)" "mset (map snd (connect_order addrs)) = mset addrs"
proof -
  show "distinct (connect_order addrs)"
    using mset_connect_order [of addrs] distinct_enumerate [of 0 addrs] by (metis mset_eq_imp_distinct_iff)
  show "length (connect_order addrs) = length addrs" using mset_connect_order [of addrs] by (metis size_mset length_enumerate)
  show "set (connect_order addrs) = set (enumerate 0 addrs)" using mset_connect_order [of addrs] by (metis set_mset_mset)
  show "mset (map snd (connect_order addrs)) = mset addrs" unfolding mset_map mset_connect_order by (simp flip: mset_map)
qed

lemma alternate_hd: "xs \<noteq> [] \<Longrightarrow> hd (alternate xs ys) = hd xs"
  by (cases xs; cases ys) simp_all

subsection \<open>The race\<close>

text \<open>The attempts so far are the beginning of the order; in a race, an attempt that is not in flight has left its
error. \<open>n\<close> counts the events.\<close>

definition conn_inv :: "SocketAddr list \<Rightarrow> nat \<Rightarrow> 'e connecting \<Rightarrow> bool" where
  "conn_inv addrs n s =
     (addrs \<noteq> [] \<and> cn_in_flight s \<noteq> [] \<and> length (cn_in_flight s) \<le> (if cn_racing s then 2 else 1)
      \<and> n + 2 * length (cn_pending s) + length (cn_in_flight s) < 2 * length addrs
      \<and> (\<exists>started. connect_order addrs = started @ cn_pending s \<and> cn_attempts s = map snd started
            \<and> set (cn_in_flight s) \<subseteq> set started
            \<and> (cn_racing s \<longrightarrow> (\<forall>c \<in> set started - set (cn_in_flight s). cn_errors s ! fst c \<noteq> None)))
      \<and> length (cn_errors s) = length addrs)"

definition conn_ok :: "SocketAddr list \<Rightarrow> nat \<Rightarrow> 'e connect_next \<Rightarrow> bool" where
  "conn_ok addrs n x =
     (case x of
        Trying s \<Rightarrow> conn_inv addrs n s
      | Finished r as \<Rightarrow>
          r \<noteq> Panic \<and> prefix as (map snd (connect_order addrs)) \<and> n \<le> 2 * length addrs
          \<and> (\<forall>a. r = Ok a \<longrightarrow> a \<in> set as) \<and> (\<forall>e. r = Err e \<longrightarrow> as = map snd (connect_order addrs)))"

lemma connect_start_ok: "conn_ok addrs 0 (connect_target_addresses addrs)"
proof (cases "connect_order addrs")
  case Nil
  then have "addrs = []" using connect_order_props(2) [of addrs] by simp
  with Nil show ?thesis by (simp add: conn_ok_def connect_target_addresses_def)
next
  case (Cons c cs)
  then have "length addrs = Suc (length cs)" using connect_order_props(2) [of addrs] by simp
  then show ?thesis
    using Cons by (auto simp: conn_ok_def connect_target_addresses_def conn_inv_def intro!: exI [of _ "[c]"])
qed

lemma launch_inv:
  assumes "connect_order addrs = started @ cn_pending s" "cn_attempts s = map snd started"
  obtains started' where "connect_order addrs = started' @ cn_pending (launch s)" "cn_attempts (launch s) = map snd started'"
    "set started' - set (cn_in_flight (launch s)) \<subseteq> set started - set (cn_in_flight s)"
    "set (cn_in_flight s) \<subseteq> set started \<Longrightarrow> set (cn_in_flight (launch s)) \<subseteq> set started'"
proof (cases "cn_pending s")
  case Nil
  with assms show ?thesis by (intro that [of started]) (simp_all add: launch_def)
next
  case (Cons c cs)
  with assms show ?thesis by (intro that [of "started @ [c]"]) (auto simp: launch_def)
qed

lemma launch_simps:
  "cn_racing (launch s) = cn_racing s" "cn_errors (launch s) = cn_errors s"
  "length (cn_in_flight (launch s)) = length (cn_in_flight s) + (if cn_pending s = [] then 0 else 1)"
  "length (cn_pending (launch s)) = length (cn_pending s) - 1"
  by (simp_all add: launch_def split: list.splits)

text \<open>After a completed attempt or a delay, and the launch of the next candidate.\<close>

lemma race_check_ok:
  assumes "addrs \<noteq> []" "cn_racing s" "connect_order addrs = started @ cn_pending s" "cn_attempts s = map snd started"
    and "set (cn_in_flight s) \<subseteq> set started" "\<forall>c \<in> set started - set (cn_in_flight s). cn_errors s ! fst c \<noteq> None"
    and "length (cn_errors s) = length addrs" "length (cn_in_flight s) \<le> 1" "cn_pending s \<noteq> [] \<or> n + length (cn_in_flight s) < 2 * length addrs"
    and "cn_pending s \<noteq> [] \<longrightarrow> n + 2 * length (cn_pending s) + length (cn_in_flight s) < Suc (2 * length addrs)"
  shows "conn_ok addrs n (race_check (launch s))"
proof -
  obtain started' where l: "connect_order addrs = started' @ cn_pending (launch s)" "cn_attempts (launch s) = map snd started'"
      "set started' - set (cn_in_flight (launch s)) \<subseteq> set started - set (cn_in_flight s)"
      "set (cn_in_flight (launch s)) \<subseteq> set started'"
    using launch_inv [OF assms(3,4)] assms(5) by metis
  show ?thesis
  proof (cases "cn_in_flight (launch s) = [] \<and> cn_pending (launch s) = []")
    case True
    then have all: "connect_order addrs = started'" using l(1) by simp
    let ?i = "length addrs - 1"
    have "(?i, addrs ! ?i) \<in> set started'"
      using connect_order_props(3) [of addrs] assms(1) all by (simp add: in_set_enumerate_eq)
    then have "(?i, addrs ! ?i) \<in> set started - set (cn_in_flight s)" using l(3) True by auto
    with assms(6) have "cn_errors s ! fst (?i, addrs ! ?i) \<noteq> None" by blast
    moreover have ne: "cn_errors s \<noteq> []" using assms(1,7) by auto
    ultimately obtain e where "last (cn_errors s) = Some e" using assms(7) by (auto simp: last_conv_nth [OF ne])
    moreover have "n \<le> 2 * length addrs" using assms(9,10) by auto
    ultimately show ?thesis
      using True all l(2) ne by (auto simp: conn_ok_def race_check_def launch_simps split: list.splits)
  next
    case False
    have "n + 2 * length (cn_pending (launch s)) + length (cn_in_flight (launch s)) < 2 * length addrs"
      using assms(9,10) by (cases "cn_pending s") (auto simp: launch_simps)
    moreover have "cn_in_flight (launch s) \<noteq> []"
      using False by (auto simp: launch_def split: list.splits)
    moreover have "length (cn_in_flight (launch s)) \<le> 2" using assms(8) by (simp add: launch_simps)
    ultimately show ?thesis
      using False l assms by (auto simp: conn_ok_def race_check_def conn_inv_def launch_simps intro!: exI [of _ started'])
  qed
qed

lemma conn_invD:
  assumes "conn_inv addrs n s"
  obtains started where "connect_order addrs = started @ cn_pending s" "cn_attempts s = map snd started"
    "set (cn_in_flight s) \<subseteq> set started" "addrs \<noteq> []" "cn_in_flight s \<noteq> []" "length (cn_errors s) = length addrs"
    "n + 2 * length (cn_pending s) + length (cn_in_flight s) < 2 * length addrs"
    "length (cn_in_flight s) \<le> (if cn_racing s then 2 else 1)"
    "cn_racing s \<Longrightarrow> \<forall>c \<in> set started - set (cn_in_flight s). cn_errors s ! fst c \<noteq> None"
  using assms by (auto simp: conn_inv_def)

lemma conn_ok_connected:
  assumes "conn_inv addrs n s" "c \<in> set (cn_in_flight s)"
  shows "conn_ok addrs (Suc n) (Finished (Ok (snd c)) (cn_attempts s))"
  using assms by (auto simp: conn_inv_def conn_ok_def intro!: rev_image_eqI [of c])

lemma race_step_ok:
  assumes "conn_inv addrs n s" "cn_racing s" "race_step ev s = Some x"
  shows "conn_ok addrs (Suc n) x"
proof -
  from assms(1) obtain started where i: "connect_order addrs = started @ cn_pending s" "cn_attempts s = map snd started"
      "set (cn_in_flight s) \<subseteq> set started" "addrs \<noteq> []" "cn_in_flight s \<noteq> []" "length (cn_errors s) = length addrs"
      "n + 2 * length (cn_pending s) + length (cn_in_flight s) < 2 * length addrs" "length (cn_in_flight s) \<le> 2"
      "\<forall>c \<in> set started - set (cn_in_flight s). cn_errors s ! fst c \<noteq> None"
    using assms(2) by (elim conn_invD) simp
  show ?thesis
  proof (cases ev)
    case RaceDelay
    with assms(3) i(5) have x: "x = race_check (launch s)" "cn_pending s \<noteq> []" "length (cn_in_flight s) \<le> 1"
      by (auto simp: race_step_def split: if_splits)
    show ?thesis unfolding x(1)
      by (rule race_check_ok [OF i(4) assms(2) i(1-3) i(9) i(6) x(3)]) (use x(2) i(7) in auto)
  next
    case (Completed k res)
    define fl where "fl = take k (cn_in_flight s) @ drop (Suc k) (cn_in_flight s)"
    obtain j a where ja: "cn_in_flight s ! k = (j, a)" by (cases "cn_in_flight s ! k")
    have k: "k < length (cn_in_flight s)" using assms(3) Completed by (auto simp: race_step_def split: if_splits)
    then have split: "cn_in_flight s = take k (cn_in_flight s) @ (j, a) # drop (Suc k) (cn_in_flight s)"
      using ja id_take_nth_drop [OF k] by simp
    then have fl: "set (cn_in_flight s) = insert (j, a) (set fl)" "length (cn_in_flight s) = Suc (length fl)"
      unfolding fl_def by (metis list.set(2) set_append Un_insert_right, metis length_append length_Cons add_Suc_right)
    have "(j, a) \<in> set (connect_order addrs)" using i(1,3) fl(1) by auto
    then have j: "j < length addrs" by (simp add: connect_order_props(3) in_set_enumerate_eq)
    show ?thesis
    proof (cases res)
      case None
      with Completed assms(3) k ja have "x = Finished (Ok a) (cn_attempts s)" by (auto simp: race_step_def Let_def)
      with conn_ok_connected [OF assms(1), of "(j, a)"] fl(1) show ?thesis by simp
    next
      case (Some e)
      let ?s = "s\<lparr>cn_in_flight := fl, cn_errors := (cn_errors s)[j := Some e]\<rparr>"
      have x: "x = race_check (launch ?s)" using Completed Some assms(3) k ja j i(6) by (auto simp: race_step_def Let_def fl_def)
      have "\<forall>c \<in> set started - set fl. (cn_errors s)[j := Some e] ! fst c \<noteq> None"
        using i(9) fl(1) j i(6) by (auto simp: nth_list_update)
      then show ?thesis unfolding x
        by (intro race_check_ok [where started = started]) (use i fl assms(2) in auto)
    qed
  qed
qed

lemma sequential_step_ok:
  assumes "conn_inv addrs n s" "\<not> cn_racing s" "sequential_step ev s = Some x"
  shows "conn_ok addrs (Suc n) x"
proof -
  from assms(1) obtain started where i: "connect_order addrs = started @ cn_pending s" "cn_attempts s = map snd started"
      "set (cn_in_flight s) \<subseteq> set started" "addrs \<noteq> []" "cn_in_flight s \<noteq> []" "length (cn_errors s) = length addrs"
      "n + 2 * length (cn_pending s) + length (cn_in_flight s) < 2 * length addrs" "length (cn_in_flight s) \<le> 1"
    using assms(2) by (elim conn_invD) simp
  then obtain c where c: "cn_in_flight s = [c]" by (cases "cn_in_flight s") auto
  obtain res where ev: "ev = Completed 0 res"
    using assms(3) c by (cases ev) (auto simp: sequential_step_def split: nat.splits option.splits)
  show ?thesis
  proof (cases res)
    case None
    with ev c assms(3) have "x = Finished (Ok (snd c)) (cn_attempts s)" by (cases c) (auto simp: sequential_step_def)
    with conn_ok_connected [OF assms(1), of c] c show ?thesis by simp
  next
    case (Some e)
    show ?thesis
    proof (cases "cn_pending s")
      case Nil
      with Some ev c assms(3) have "x = Finished (Err (OsError e)) (cn_attempts s)" by (cases c) (auto simp: sequential_step_def)
      with i c Nil show ?thesis by (auto simp: conn_ok_def)
    next
      case (Cons p ps)
      with Some ev c assms(3) have "x = Trying (launch (s\<lparr>cn_last_error := Some e, cn_in_flight := []\<rparr>))"
        by (cases c) (auto simp: sequential_step_def)
      with i c Cons assms(2) show ?thesis
        by (auto simp: conn_ok_def conn_inv_def launch_def intro!: exI [of _ "started @ [p]"])
    qed
  qed
qed

lemma run_connect_ok:
  "run_connect evs x = Some y \<Longrightarrow> conn_ok addrs n x \<Longrightarrow> conn_ok addrs (n + length evs) y"
proof (induction evs x arbitrary: n rule: run_connect.induct)
  case (2 ev evs s)
  then obtain z where z: "connect_step ev s = Some z" "run_connect evs z = Some y" by (auto split: option.splits)
  have "conn_ok addrs (Suc n) z"
    using 2(3) z(1) race_step_ok sequential_step_ok
    by (auto simp: conn_ok_def [of addrs n] connect_step_def split: if_splits)
  with 2(1) [OF z, of "Suc n"] show ?case by simp
qed simp_all

subsection \<open>Only allowed targets\<close>

definition allowed_targets :: "'e lookup \<Rightarrow> ServerEgressPolicyConfig \<Rightarrow> SocketAddr list" where
  "allowed_targets resolved egress =
     (case resolved of LookupOk addrs \<Rightarrow> filter (\<lambda>addr. allows_ip egress (sa_ip addr)) addrs | _ \<Rightarrow> [])"

lemma resolve_allowed_cases:
  obtains "resolve_allowed_addresses resolved egress = Ok (allowed_targets resolved egress)" "allowed_targets resolved egress \<noteq> []"
  | f where "resolve_allowed_addresses resolved egress = Err f" "tof_kind f \<notin> {ConnectTimeout, ConnectFailure}"
      "allowed_targets resolved egress = []"
proof (cases "allowed_targets resolved egress = []")
  case True
  then have "\<exists>f. resolve_allowed_addresses resolved egress = Err f \<and> tof_kind f \<notin> {ConnectTimeout, ConnectFailure}"
    by (cases resolved) (auto simp: resolve_allowed_addresses_def allowed_targets_def Let_def fail_if_def
        TargetOpenFailure_new_def with_source_def)
  with True show ?thesis using that(2) by blast
next
  case False
  then have "resolve_allowed_addresses resolved egress = Ok (allowed_targets resolved egress)"
    by (cases resolved) (auto simp: resolve_allowed_addresses_def allowed_targets_def Let_def fail_if_def)
  with False show ?thesis using that(1) by blast
qed

lemma first_allowed_cases:
  obtains a where "first_allowed_addr resolved egress = Ok a" "a \<in> set (allowed_targets resolved egress)"
  | f where "first_allowed_addr resolved egress = Err (Some f)"
proof (cases rule: resolve_allowed_cases [of resolved egress])
  case 1
  then show ?thesis
    by (cases "allowed_targets resolved egress") (auto simp: first_allowed_addr_def intro: that)
qed (auto simp: first_allowed_addr_def intro: that)

lemma datagrams_allowed:
  "set (snd (relay_udp_packet resolved socket egress packet)) \<subseteq> set (allowed_targets resolved egress)"
  "set (snd (relay_dns_query resolved socket egress query)) \<subseteq> set (allowed_targets resolved egress)"
  by (cases rule: first_allowed_cases [of resolved egress]; simp add: relay_udp_packet_def relay_dns_query_def)+

lemma allowed_targets_allowed: "a \<in> set (allowed_targets resolved egress) \<Longrightarrow> allows_ip egress (sa_ip a)"
  by (auto simp: allowed_targets_def split: lookup.splits)

lemma prefix_mset: "prefix as bs \<Longrightarrow> mset as \<subseteq># mset bs"
  by (auto simp: prefix_def)

lemma open_target_connects:
  assumes "open_target_inner resolved evs rt ct egress m = Some (res, m', attempts)"
  defines "allowed \<equiv> allowed_targets resolved egress"
  shows "res \<noteq> Panic \<and> prefix attempts (map snd (connect_order allowed)) \<and> (\<forall>a. res = Ok a \<longrightarrow> a \<in> set attempts)
     \<and> (\<forall>f. res = Err f \<and> tof_kind f = ConnectFailure \<longrightarrow> attempts = map snd (connect_order allowed))
     \<and> length evs \<le> 2 * length allowed"
proof (cases rule: resolve_allowed_cases [of resolved egress])
  case 1
  then obtain n where n: "run_connect evs (connect_target_addresses allowed) = Some n"
    using assms by (auto simp: open_target_inner_def split: option.splits)
  have ok: "conn_ok allowed (length evs) n" using run_connect_ok [OF n connect_start_ok] by simp
  show ?thesis
  proof (cases n)
    case (Trying s)
    then have "attempts = cn_attempts s" "res = Err (TargetOpenFailure_new ConnectTimeout)"
      using assms(1) 1 n by (auto simp: open_target_inner_def connect_with_timeout_def Let_def allowed_def)
    with ok Trying show ?thesis
      by (auto simp: conn_ok_def conn_inv_def TargetOpenFailure_new_def)
  next
    case (Finished r as)
    then show ?thesis
      using assms(1) 1 n ok
      by (cases r) (auto simp: open_target_inner_def connect_with_timeout_def Let_def allowed_def conn_ok_def)
  qed
next
  case (2 f)
  then show ?thesis using assms by (auto simp: open_target_inner_def split: if_splits)
qed

text \<open>C8. The server reaches out only to addresses the egress policy allows. Whatever the resolver answers and however the
connection attempts end: the addresses a connection is tried on are, in the order of the race and each at most as
often as it was resolved, resolved addresses the policy allows; a connection that is returned is one of them; a
failure to connect is reported only after every allowed address was tried; opening a target neither panics nor runs
on after two events per address. The same holds for the datagrams of the UDP and DNS relays.\<close>

theorem targets_reached_are_allowed:
  assumes "open_target_inner resolved evs rt ct egress m = Some (res, m', attempts)"
  shows "res \<noteq> Panic
     \<and> prefix attempts (map snd (connect_order (allowed_targets resolved egress)))
     \<and> mset attempts \<subseteq># mset (allowed_targets resolved egress)
     \<and> (\<forall>a. res = Ok a \<longrightarrow> a \<in> set attempts)
     \<and> (\<forall>f. res = Err f \<and> tof_kind f = ConnectFailure \<longrightarrow> mset attempts = mset (allowed_targets resolved egress))
     \<and> length evs \<le> 2 * length (allowed_targets resolved egress)
     \<and> (\<forall>a \<in> set attempts \<union> set (snd (relay_udp_packet resolved socket egress packet))
              \<union> set (snd (relay_dns_query resolved socket egress query)). allows_ip egress (sa_ip a))"
proof -
  note c = open_target_connects [OF assms]
  have sub: "mset attempts \<subseteq># mset (allowed_targets resolved egress)"
    using c prefix_mset connect_order_props(4) by metis
  then have "set attempts \<subseteq> set (allowed_targets resolved egress)" by (metis set_mset_mono set_mset_mset)
  then have "\<forall>a \<in> set attempts \<union> set (snd (relay_udp_packet resolved socket egress packet))
      \<union> set (snd (relay_dns_query resolved socket egress query)). allows_ip egress (sa_ip a)"
    using datagrams_allowed [of resolved socket egress] allowed_targets_allowed by blast
  with c sub connect_order_props(4) show ?thesis by metis
qed

definition example_v4 :: SocketAddr where "example_v4 = \<lparr>sa_ip = V4 0x08080808, sa_port = 443\<rparr>"
definition example_v6 :: SocketAddr where
  "example_v6 = \<lparr>sa_ip = V6 (six_to_four_ip (replicate 10 5) 0x08080808), sa_port = 443\<rparr>"

definition example_answer :: "nat lookup" where
  "example_answer = LookupOk [example_v4, \<lparr>sa_ip = V4 0x7f000001, sa_port = 443\<rparr>, example_v6]"

lemma example_allowed: "allowed_targets example_answer ServerEgressPolicyConfig_default = [example_v4, example_v6]"
proof -
  have v: "allows_ip ServerEgressPolicyConfig_default (V4 0x7f000001) = False"
    "allows_ip ServerEgressPolicyConfig_default (V4 0x08080808) = True"
    by (simp_all add: allows_ipv4_table egress_table4_def in_prefix_def ip4_def ServerEgressPolicyConfig_default_def)
  moreover have "allows_ip ServerEgressPolicyConfig_default (V6 (six_to_four_ip (replicate 10 5) 0x08080808))"
    using v(2) embedded_simps by (simp add: allows_ipv6_table allows_ipv4_table)
  ultimately show ?thesis
    by (simp add: allowed_targets_def example_answer_def example_v4_def example_v6_def)
qed

theorem targets_reached_are_allowed_witness:
  "open_target_inner example_answer [RaceDelay, Completed 0 (Some 5), Completed 0 None] 5 5 ServerEgressPolicyConfig_default None
     = Some (Ok example_v6, None, [example_v4, example_v6])
   \<and> allows_ip ServerEgressPolicyConfig_default (sa_ip example_v6)
   \<and> prefix [example_v4, example_v6] (map snd (connect_order [example_v4, example_v6]))"
proof -
  have run: "open_target_inner example_answer [RaceDelay, Completed 0 (Some 5), Completed 0 None] 5 5
      ServerEgressPolicyConfig_default None = Some (Ok example_v6, None, [example_v4, example_v6])"
    by (cases rule: resolve_allowed_cases [of example_answer ServerEgressPolicyConfig_default])
       (simp_all add: example_allowed open_target_inner_def connect_target_addresses_def connect_order_def mixed_families_def
         example_v4_def example_v6_def connect_step_def race_step_def race_check_def launch_def connect_with_timeout_def Let_def)
  from targets_reached_are_allowed [OF run]
  have "prefix [example_v4, example_v6] (map snd (connect_order [example_v4, example_v6]))"
      "\<forall>a \<in> set [example_v4, example_v6]. allows_ip ServerEgressPolicyConfig_default (sa_ip a)"
    unfolding example_allowed by blast+
  with run show ?thesis by simp
qed

end
