(* ===== verification/Auth_Gate.thy ===== *)
theory Auth_Gate
  imports Mav_Net "HOL-Library.AList"
begin

text \<open>
  The tracker of failed authentications per address, \<open>AuthFailureTracker\<close> of
  \<open>maverick-server/src/auth_gate.rs\<close>. An
  \<open>Instant\<close> and a \<open>Duration\<close> are natural numbers of nanoseconds (\<open>duration_since\<close> gives zero
  for a later instant, as subtraction of naturals does); the hash map of windows is an
  association list with distinct keys.
\<close>

subsection \<open>Failed authentications\<close>

record AuthFailureWindow =
  fw_started_at :: nat
  fw_failures :: u32

record AuthFailureTracker =
  ft_windows :: "(IpAddr \<times> AuthFailureWindow) list"

datatype AuthFailureDecision = AllowFallback | RateLimited

definition AuthFailureTracker_default :: AuthFailureTracker where
  "AuthFailureTracker_default = \<lparr>ft_windows = []\<rparr>"

definition prune_expired :: "AuthFailureTracker \<Rightarrow> nat \<Rightarrow> nat \<Rightarrow> AuthFailureTracker" where
  "prune_expired t now window =
     t\<lparr>ft_windows := filter (\<lambda>(_, e). now - fw_started_at e < window) (ft_windows t)\<rparr>"

definition record_failure ::
  "AuthFailureTracker \<Rightarrow> IpAddr \<Rightarrow> nat \<Rightarrow> nat \<Rightarrow> u32 \<Rightarrow> nat \<Rightarrow> AuthFailureDecision \<times> AuthFailureTracker" where
  "record_failure t0 peer_ip now window max_failures_per_window max_entries =
     (let t = prune_expired t0 now window in
      if map_of (ft_windows t) peer_ip = None \<and> length (ft_windows t) \<ge> max_entries then (RateLimited, t)
      else
        let entry = (case map_of (ft_windows t) peer_ip of
                       Some e \<Rightarrow> e | None \<Rightarrow> \<lparr>fw_started_at = now, fw_failures = 0\<rparr>);
            entry = (if now - fw_started_at entry \<ge> window
                     then \<lparr>fw_started_at = now, fw_failures = 0\<rparr> else entry) in
        if fw_failures entry \<ge> max_failures_per_window
        then (RateLimited, t\<lparr>ft_windows := AList.update peer_ip entry (ft_windows t)\<rparr>)
        else (AllowFallback, t\<lparr>ft_windows := AList.update peer_ip
                (entry\<lparr>fw_failures := (if fw_failures entry = -1 then -1 else fw_failures entry + 1)\<rparr>)
                (ft_windows t)\<rparr>))"

text \<open>A sequence of failures, each an address and the instant of the call.\<close>

fun run_failures :: "AuthFailureTracker \<Rightarrow> nat \<Rightarrow> u32 \<Rightarrow> nat \<Rightarrow> (IpAddr \<times> nat) list
    \<Rightarrow> AuthFailureDecision list \<times> AuthFailureTracker" where
  "run_failures t window maxf maxe [] = ([], t)"
| "run_failures t window maxf maxe ((ip, now) # calls) =
     (let (d, t') = record_failure t ip now window maxf maxe;
          (ds, t'') = run_failures t' window maxf maxe calls in (d # ds, t''))"

text \<open>How many of the calls for one address, at instants in a span, were let through.\<close>

definition allowed_in :: "IpAddr \<Rightarrow> nat \<Rightarrow> nat \<Rightarrow> AuthFailureDecision list \<Rightarrow> (IpAddr \<times> nat) list \<Rightarrow> nat" where
  "allowed_in ip from width ds calls =
     length (filter (\<lambda>(d, i, now). d = AllowFallback \<and> i = ip \<and> from \<le> now \<and> now < from + width) (zip ds calls))"

definition tracker_ok :: "nat \<Rightarrow> AuthFailureTracker \<Rightarrow> bool" where
  "tracker_ok maxe t = (distinct (map fst (ft_windows t)) \<and> length (ft_windows t) \<le> maxe)"

lemma length_update:
  "distinct (map fst al) \<Longrightarrow>
     length (AList.update k v al) = (if map_of al k = None then Suc (length al) else length al)"
  by (induction al) auto

lemma prune_ok: "tracker_ok maxe t \<Longrightarrow> tracker_ok maxe (prune_expired t now w)"
  by (auto simp: tracker_ok_def prune_expired_def distinct_map_filter intro: order_trans [OF length_filter_le])

lemma record_failure_ok:
  assumes "tracker_ok maxe t" "record_failure t ip now w maxf maxe = (d, t')"
  shows "tracker_ok maxe t'"
proof -
  have p: "tracker_ok maxe (prune_expired t now w)" using assms(1) by (rule prune_ok)
  then show ?thesis
    using assms(2)
    by (auto simp: record_failure_def Let_def tracker_ok_def length_update distinct_update split: if_splits option.splits)
qed

text \<open>The live window of an address at an instant.\<close>

definition live :: "AuthFailureTracker \<Rightarrow> nat \<Rightarrow> nat \<Rightarrow> IpAddr \<Rightarrow> AuthFailureWindow option" where
  "live t now w ip = map_of (ft_windows (prune_expired t now w)) ip"

lemma live_eq:
  assumes "distinct (map fst (ft_windows t))"
  shows "live t now w ip =
     (case map_of (ft_windows t) ip of
        Some e \<Rightarrow> if now - fw_started_at e < w then Some e else None | None \<Rightarrow> None)"
  using assms
proof (cases t)
  case (fields al)
  have "distinct (map fst al) \<Longrightarrow> map_of (filter (\<lambda>(_, e). now - fw_started_at e < w) al) ip =
     (case map_of al ip of
        Some e \<Rightarrow> if now - fw_started_at e < w then Some e else None | None \<Rightarrow> None)"
  proof (induction al)
    case (Cons a al)
    have "map_of (filter P al) ip = None" if "ip \<notin> fst ` set al" for P
      using that by (auto simp: map_of_eq_None_iff)
    with Cons show ?case by (auto split: option.splits)
  qed simp
  then show ?thesis using assms fields by (simp add: live_def prune_expired_def)
qed

text \<open>What one call does to the live window of an address.\<close>

lemma record_failure_live:
  assumes "tracker_ok maxe t" "record_failure t ip now w maxf maxe = (d, t')" "0 < w"
  shows "d = AllowFallback \<Longrightarrow> unat maxf > (case live t now w ip of Some e \<Rightarrow> unat (fw_failures e) | None \<Rightarrow> 0)"
    and "d = AllowFallback \<Longrightarrow> map_of (ft_windows t') ip =
       Some (case live t now w ip of Some e \<Rightarrow> e\<lparr>fw_failures := fw_failures e + 1\<rparr>
             | None \<Rightarrow> \<lparr>fw_started_at = now, fw_failures = 1\<rparr>)"
    and "d = RateLimited \<Longrightarrow> live t now w ip = Some e \<Longrightarrow> map_of (ft_windows t') ip = Some e"
    and "d = RateLimited \<Longrightarrow> live t now w ip = None \<Longrightarrow>
       map_of (ft_windows t') ip = None
       \<or> maxf = 0 \<and> map_of (ft_windows t') ip = Some \<lparr>fw_started_at = now, fw_failures = 0\<rparr>"
    and "ip' \<noteq> ip \<Longrightarrow> map_of (ft_windows t') ip' = live t now w ip'"
proof -
  let ?p = "prune_expired t now w"
  have dist: "distinct (map fst (ft_windows t))" using assms(1) by (simp add: tracker_ok_def)
  have fresh: "now - fw_started_at e < w" if "live t now w ip = Some e" for e
    using that live_eq [OF dist, of now w ip] by (auto split: option.splits if_splits)
  have top: "f \<noteq> -1" if "f < maxf" for f :: u32 using that word_order.extremum_strict [of f] by auto
  note d = assms(2) [unfolded record_failure_def Let_def]
  note lv = live_def [of t now w]
  show "d = AllowFallback \<Longrightarrow> unat maxf > (case live t now w ip of Some e \<Rightarrow> unat (fw_failures e) | None \<Rightarrow> 0)"
    using d assms(3) fresh
    by (auto simp: lv not_le word_less_nat_alt split: if_splits option.splits)
  show "d = AllowFallback \<Longrightarrow> map_of (ft_windows t') ip =
       Some (case live t now w ip of Some e \<Rightarrow> e\<lparr>fw_failures := fw_failures e + 1\<rparr>
             | None \<Rightarrow> \<lparr>fw_started_at = now, fw_failures = 1\<rparr>)"
    using d assms(3) fresh top
    by (auto simp: lv not_le update_conv' split: if_splits option.splits)
  show "d = RateLimited \<Longrightarrow> live t now w ip = Some e \<Longrightarrow> map_of (ft_windows t') ip = Some e"
    using d assms(3) fresh by (auto simp: lv update_conv' split: if_splits option.splits)
  show "d = RateLimited \<Longrightarrow> live t now w ip = None \<Longrightarrow>
       map_of (ft_windows t') ip = None
       \<or> maxf = 0 \<and> map_of (ft_windows t') ip = Some \<lparr>fw_started_at = now, fw_failures = 0\<rparr>"
    using d assms(3) by (auto simp: lv update_conv' split: if_splits option.splits)
  show "ip' \<noteq> ip \<Longrightarrow> map_of (ft_windows t') ip' = live t now w ip'"
    using d by (auto simp: lv update_conv' split: if_splits option.splits)
qed

lemma unat_add_one:
  fixes f m :: u32
  assumes "unat f < unat m"
  shows "unat (f + 1) = Suc (unat f)"
proof -
  have "unat m < 2 ^ LENGTH(32)" by (rule unsigned_less)
  with assms show ?thesis by (simp add: unat_word_ariths)
qed

text \<open>How many more calls of an address can still be let through in a span that starts at \<open>from\<close>.\<close>

definition allowance :: "nat \<Rightarrow> nat \<Rightarrow> AuthFailureWindow option \<Rightarrow> nat" where
  "allowance from maxf w =
     (case w of None \<Rightarrow> maxf
      | Some e \<Rightarrow> (maxf - unat (fw_failures e)) + (if from \<le> fw_started_at e then 0 else maxf))"

text \<open>Every window was opened by a failure it counts.\<close>

definition counted :: "u32 \<Rightarrow> AuthFailureTracker \<Rightarrow> bool" where
  "counted maxf t = (\<forall>ip e. map_of (ft_windows t) ip = Some e \<longrightarrow> maxf = 0 \<or> fw_failures e \<noteq> 0)"

lemma allowance_le:
  assumes "counted maxf t"
  shows "allowance from (unat maxf) (map_of (ft_windows t) ip) \<le> 2 * unat maxf - 1"
proof (cases "map_of (ft_windows t) ip")
  case (Some e)
  have "unat maxf = 0 \<or> 1 \<le> unat (fw_failures e)"
    using assms Some by (auto simp: counted_def Suc_le_eq unat_gt_0)
  then show ?thesis using Some by (auto simp: allowance_def)
qed (simp add: allowance_def)

lemma counted_step:
  assumes "tracker_ok maxe t" "counted maxf t" "record_failure t ip now w maxf maxe = (d, t')" "0 < w"
  shows "counted maxf t'"
proof -
  note step = record_failure_live [OF assms(1,3,4)]
  have sub: "map_of (ft_windows t) i = Some e" if "live t now w i = Some e" for i e
    using that assms(1) by (auto simp: live_eq tracker_ok_def split: option.splits if_splits)
  have nz: "f + 1 \<noteq> 0" if "unat f < unat maxf" for f :: u32
    using unat_add_one [OF that] by auto
  have "maxf = 0 \<or> fw_failures e \<noteq> 0" if e: "map_of (ft_windows t') i = Some e" for i e
  proof (cases "i = ip")
    case False
    with e step(5) have "map_of (ft_windows t) i = Some e" by (intro sub) simp
    with assms(2) show ?thesis by (simp add: counted_def)
  next
    case True
    show ?thesis
    proof (cases d; cases "live t now w ip")
      fix e' assume "d = AllowFallback" "live t now w ip = Some e'"
      then show ?thesis using e True step(1,2) nz by auto
    next
      fix e' assume "d = RateLimited" "live t now w ip = Some e'"
      then have "map_of (ft_windows t) ip = Some e" using e True step(3) sub by simp
      with assms(2) show ?thesis by (simp add: counted_def)
    qed (use e True step(2,4) in auto)
  qed
  then show ?thesis by (simp add: counted_def)
qed

lemma allowance_expire:
  assumes "tracker_ok maxe t" "from \<le> now" "now < from + w"
  shows "allowance from maxf (live t now w ip) \<le> allowance from maxf (map_of (ft_windows t) ip)"
  using assms by (auto simp: live_eq tracker_ok_def allowance_def split: option.splits)

lemma allowance_step:
  assumes "tracker_ok maxe t" "record_failure t ip now w maxf maxe = (d, t')" "from \<le> now" "now < from + w"
  shows "(if d = AllowFallback \<and> ip = ip0 then 1 else 0) + allowance from (unat maxf) (map_of (ft_windows t') ip0)
     \<le> allowance from (unat maxf) (map_of (ft_windows t) ip0)"
proof -
  have w: "0 < w" using assms(3,4) by simp
  note step = record_failure_live [OF assms(1,2) w]
  note expire = allowance_expire [OF assms(1,3,4), of "unat maxf" ip0]
  note inc = unat_add_one [of _ maxf]
  show ?thesis
  proof (cases "ip = ip0")
    case False
    with step(5) [of ip0] expire show ?thesis by simp
  next
    case True
    have "(if d = AllowFallback then 1 else 0) + allowance from (unat maxf) (map_of (ft_windows t') ip)
       \<le> allowance from (unat maxf) (live t now w ip)"
    proof (cases d; cases "live t now w ip")
      fix e assume *: "d = AllowFallback" "live t now w ip = Some e"
      then show ?thesis using step(1,2) inc [of "fw_failures e"] by (simp add: allowance_def)
    next
      assume *: "d = AllowFallback" "live t now w ip = None"
      then show ?thesis using step(1,2) assms(3) by (simp add: allowance_def)
    next
      fix e assume *: "d = RateLimited" "live t now w ip = Some e"
      then show ?thesis using step(3) by simp
    next
      assume *: "d = RateLimited" "live t now w ip = None"
      then show ?thesis using step(4) assms(3) by (auto simp: allowance_def)
    qed
    with True expire show ?thesis by simp
  qed
qed

lemma allowed_in_Cons:
  "allowed_in ip0 from w (d # ds) ((ip, now) # calls) =
     (if d = AllowFallback \<and> ip = ip0 \<and> from \<le> now \<and> now < from + w then 1 else 0) + allowed_in ip0 from w ds calls"
  by (simp add: allowed_in_def)

lemma allowed_in_late:
  assumes "\<forall>c \<in> set calls. from + w \<le> snd c"
  shows "allowed_in ip0 from w ds calls = 0"
proof -
  have "\<not> (case x of (d, i, now) \<Rightarrow> d = AllowFallback \<and> i = ip0 \<and> from \<le> now \<and> now < from + w)"
    if "x \<in> set (zip ds calls)" for x
  proof -
    obtain d i now where x: "x = (d, i, now)" by (cases x)
    then have "(i, now) \<in> set calls" using that by (auto dest: set_zip_rightD)
    with assms have "from + w \<le> now" by force
    with x show ?thesis by simp
  qed
  then show ?thesis unfolding allowed_in_def by (simp add: filter_empty_conv)
qed

lemma allowed_in_span:
  assumes "tracker_ok maxe t" "sorted (map snd calls)" "\<forall>c \<in> set calls. from \<le> snd c"
  shows "allowed_in ip0 from w (fst (run_failures t w maxf maxe calls)) calls
     \<le> allowance from (unat maxf) (map_of (ft_windows t) ip0)"
  using assms
proof (induction calls arbitrary: t)
  case (Cons c calls)
  obtain ip now where c: "c = (ip, now)" by (cases c)
  obtain d t' where r: "record_failure t ip now w maxf maxe = (d, t')" by fastforce
  show ?case
  proof (cases "now < from + w")
    case True
    have "allowed_in ip0 from w (fst (run_failures t' w maxf maxe calls)) calls
        \<le> allowance from (unat maxf) (map_of (ft_windows t') ip0)"
      using Cons.IH [OF record_failure_ok [OF Cons.prems(1) r]] Cons.prems(2,3) by simp
    with allowance_step [OF Cons.prems(1) r _ True, of ip0] Cons.prems(3) True c r show ?thesis
      by (simp add: Let_def case_prod_beta allowed_in_Cons split: if_splits)
  next
    case False
    then have "\<forall>x \<in> set (c # calls). from + w \<le> snd x" using Cons.prems(2) c by auto
    then show ?thesis by (simp add: allowed_in_late)
  qed
qed (simp add: allowed_in_def)

lemma allowed_in_le:
  assumes "tracker_ok maxe t" "sorted (map snd calls)" "counted maxf t" "0 < w"
  shows "allowed_in ip0 from w (fst (run_failures t w maxf maxe calls)) calls \<le> 2 * unat maxf - 1"
  using assms
proof (induction calls arbitrary: t)
  case (Cons c calls)
  obtain ip now where c: "c = (ip, now)" by (cases c)
  obtain d t' where r: "record_failure t ip now w maxf maxe = (d, t')" by fastforce
  show ?case
  proof (cases "from \<le> now")
    case True
    then have "\<forall>x \<in> set (c # calls). from \<le> snd x" using Cons.prems(2) c by auto
    from order_trans [OF allowed_in_span [OF Cons.prems(1,2) this] allowance_le [OF Cons.prems(3)]] show ?thesis .
  next
    case False
    then show ?thesis using Cons.IH [OF record_failure_ok [OF Cons.prems(1) r] _ counted_step [OF Cons.prems(1,3) r]]
        Cons.prems(2,4) c r
      by (simp add: Let_def case_prod_beta allowed_in_Cons)
  qed
qed (simp add: allowed_in_def)

lemma run_failures_ok:
  "tracker_ok maxe t \<Longrightarrow> tracker_ok maxe (snd (run_failures t w maxf maxe calls))"
proof (induction calls arbitrary: t)
  case (Cons c calls)
  obtain d t' where r: "record_failure t (fst c) (snd c) w maxf maxe = (d, t')" by fastforce
  then show ?case using Cons.IH [OF record_failure_ok [OF Cons.prems r]]
    by (cases c) (simp add: Let_def case_prod_beta)
qed simp

text \<open>C24. The limiter of failed authentications. Under a clock that does not go back, whatever
the addresses and instants of the failures: the tracker never holds more addresses than
configured, and in every span as long as the window an address is let through less than twice
the configured number of times (the windows are fixed, so one may end and the next begin inside
the span).\<close>

theorem auth_failures_limited:
  assumes "sorted (map snd calls)" "0 < window"
  shows "allowed_in ip from window
           (fst (run_failures AuthFailureTracker_default window maxf maxe calls)) calls \<le> 2 * unat maxf - 1
     \<and> length (ft_windows (snd (run_failures AuthFailureTracker_default window maxf maxe calls))) \<le> maxe"
proof -
  have "tracker_ok maxe AuthFailureTracker_default" "counted maxf AuthFailureTracker_default"
    by (simp_all add: tracker_ok_def counted_def AuthFailureTracker_default_def)
  with allowed_in_le [OF this(1) assms(1) this(2) assms(2)] run_failures_ok [OF this(1)] show ?thesis
    by (simp add: tracker_ok_def)
qed

text \<open>The bound is attained: with two failures allowed per window of ten, three of the calls at 1, 9, 11 and 12
fall into the span from 9 and are let through.\<close>

theorem auth_failures_limited_witness:
  "let calls = [(V4 7, 1), (V4 7, 9), (V4 7, 11), (V4 7, 12), (V4 7, 13)];
       ds = fst (run_failures AuthFailureTracker_default 10 2 4 calls) in
   ds = [AllowFallback, AllowFallback, AllowFallback, AllowFallback, RateLimited]
   \<and> allowed_in (V4 7) 9 10 ds calls \<le> 2 * unat (2 :: u32) - 1 \<and> allowed_in (V4 7) 9 10 ds calls = 3"
proof -
  let ?calls = "[(V4 7, 1), (V4 7, 9), (V4 7, 11), (V4 7, 12), (V4 7, 13)]"
  have ds: "fst (run_failures AuthFailureTracker_default 10 2 4 ?calls)
      = [AllowFallback, AllowFallback, AllowFallback, AllowFallback, RateLimited]"
    by (simp add: AuthFailureTracker_default_def record_failure_def prune_expired_def Let_def word_le_nat_alt)
  have "allowed_in (V4 7) 9 10 (fst (run_failures AuthFailureTracker_default 10 2 4 ?calls)) ?calls
      \<le> 2 * unat (2 :: u32) - 1"
    using auth_failures_limited [of ?calls 10 "V4 7" 9 2 4] by simp
  then show ?thesis unfolding Let_def ds by (simp add: allowed_in_def)
qed

end
