(* ===== verification/Tunnel_Session.thy ===== *)
theory Tunnel_Session
  imports Server_Auth Relay Target_Open Auth_Gate
begin

text \<open>
  One tunnel request at the server, from \<open>maverick-server/src/server.rs\<close>: \<open>handle_request\<close>,
  \<open>handle_tunnel\<close> and the handlers it ends in, with the rejection to the fallback site. What happens
  outside is given by answers: the body of the request as the HTTP/2 library delivers it, the fate
  of every send, the resolver, the sockets, the deadlines, the permits taken by other requests, and
  the relay as one of its possible runs. What the request does is recorded as a trace of actions:
  frames, the answers of the site, addresses reached, and changes of counters and permits.
\<close>

datatype metric =
    AuthenticatedSessions
  | UnauthenticatedRejections
  | AuthRateLimitRejections
  | FallbackRequests
  | FallbackOverloadRejections
  | ActiveFallbacks
  | ActivePreAuth
  | ActiveFlows
  | FlowLimitRejections
  | TcpFlows
  | DnsQueries

record http_response =
  hr_status :: nat
  hr_headers :: "(bytes \<times> bytes) list"
  hr_body :: bytes

record http_request =
  rq_method :: bytes
  rq_path_and_query :: bytes
  rq_path :: bytes
  rq_headers :: "(bytes \<times> bytes) list"
  rq_body :: "recv_event list"

text \<open>\<open>Count\<close> and \<open>Uncount\<close> of an \<open>Active\<close> counter go with taking and dropping its permit.\<close>

datatype 'r action =
    Count metric
  | Uncount metric
  | Head200
  | Sent Frame
  | Shaped PaddingEmission
  | Trailers
  | ResponseHead nat "(bytes \<times> bytes) list"
  | ResponseBody bytes
  | Resolved bytes
  | Reached SocketAddr
  | Relayed "'r Relay"

record ('r, 'e) session =
  ss_rng :: 'r
  ss_recv :: "recv_event list"
  ss_buf :: bytes
  ss_sends :: "unit io_result list"
  ss_lookups :: "(bytes \<Rightarrow> 'e lookup) list"
  ss_datagrams :: "bytes option list"
  ss_failures :: AuthFailureTracker
  ss_targets :: TargetOpenMetricSinks
  ss_trace :: "'r action list"

type_synonym ('r, 'e, 'a) step = "('r, 'e) session \<Rightarrow> 'a io_result \<times> ('r, 'e) session"

record ('r, 'e) world =
  wd_crypto :: Crypto
  wd_hash :: "bytes \<Rightarrow> nat"
  wd_os :: "'r os_rng"
  wd_fill :: "'r filler"
  wd_now_unix :: i64
  wd_instant :: nat
  wd_peer :: IpAddr
  wd_binding :: "TlsChannelBinding option"
  wd_first_deadline :: "nat option"
  wd_open_deadline :: bool
  wd_udp_deadline :: "nat option"
  wd_flows_in_use :: "bytes \<Rightarrow> nat"
  wd_fallbacks_in_use :: nat
  wd_site :: "bytes \<Rightarrow> bytes \<Rightarrow> (bytes \<times> bytes) list \<Rightarrow> bytes \<Rightarrow> http_response option"
  wd_connects :: "'e connect_event list"
  wd_elapsed :: "nat \<times> nat"
  wd_relay :: "'r RelayPolicy \<Rightarrow> 'r Relay \<Rightarrow> unit io_result \<times> 'r Relay"

subsection \<open>Steps\<close>

definition ret :: "'a \<Rightarrow> ('r, 'e, 'a) step" where
  "ret a s = (Ok a, s)"

definition fails :: "io_error \<Rightarrow> ('r, 'e, 'a) step" where
  "fails e s = (Err e, s)"

definition bind_step :: "('r, 'e, 'a) step \<Rightarrow> ('a \<Rightarrow> ('r, 'e, 'b) step) \<Rightarrow> ('r, 'e, 'b) step" where
  "bind_step m k s = (case m s of (Ok a, s') \<Rightarrow> k a s' | (Err e, s') \<Rightarrow> (Err e, s') | (Panic, s') \<Rightarrow> (Panic, s'))"

definition emit :: "'r action \<Rightarrow> ('r, 'e, unit) step" where
  "emit a s = (Ok (), s\<lparr>ss_trace := ss_trace s @ [a]\<rparr>)"

text \<open>A guard that is dropped when the block it is held in is left, however it is left.\<close>

definition guarded :: "('r, 'e, 'a) step \<Rightarrow> 'r action \<Rightarrow> ('r, 'e, 'a) step" where
  "guarded m a s = (let (r, s') = m s in (r, s'\<lparr>ss_trace := ss_trace s' @ [a]\<rparr>))"

definition of_result :: "'a result \<Rightarrow> ('r, 'e, 'a) step" where
  "of_result r s = (map_err IoCore r, s)"

text \<open>The answer of the HTTP/2 library to one send; a send without an answer has stalled.\<close>

definition transport :: "'r action list \<Rightarrow> ('r, 'e, unit) step" where
  "transport as s =
     (case ss_sends s of
        [] \<Rightarrow> (Err IoStall, s)
      | Ok _ # rest \<Rightarrow> (Ok (), s\<lparr>ss_sends := rest, ss_trace := ss_trace s @ as\<rparr>)
      | Err e # rest \<Rightarrow> (Err e, s\<lparr>ss_sends := rest\<rparr>)
      | Panic # rest \<Rightarrow> (Err IoTransport, s\<lparr>ss_sends := rest\<rparr>))"

text \<open>The answers of the resolver, one function of the name for each lookup.\<close>

definition lookup_host :: "bytes \<Rightarrow> ('r, 'e, 'e lookup) step" where
  "lookup_host authority s =
     (let s = s\<lparr>ss_trace := ss_trace s @ [Resolved authority]\<rparr> in
      case ss_lookups s of [] \<Rightarrow> (Ok LookupTimeout, s) | l # ls \<Rightarrow> (Ok (l authority), s\<lparr>ss_lookups := ls\<rparr>))"

definition next_datagram :: "('r, 'e, bytes option) step" where
  "next_datagram s = (case ss_datagrams s of [] \<Rightarrow> (Ok None, s) | d # ds \<Rightarrow> (Ok d, s\<lparr>ss_datagrams := ds\<rparr>))"

fun emit_all :: "'r action list \<Rightarrow> ('r, 'e, unit) step" where
  "emit_all [] = ret ()"
| "emit_all (a # as) = bind_step (emit a) (\<lambda>_. emit_all as)"

subsection \<open>Sending\<close>

definition send_frame :: "nat \<Rightarrow> Frame \<Rightarrow> ('r, 'e, unit) step" where
  "send_frame max_frame_size frame =
     bind_step (of_result (encode_grpc_frame frame max_frame_size)) (\<lambda>_. transport [Sent frame])"

fun send_frames :: "nat \<Rightarrow> Frame list \<Rightarrow> ('r, 'e, unit) step" where
  "send_frames max_frame_size [] = ret ()"
| "send_frames max_frame_size (f # fs) = bind_step (send_frame max_frame_size f) (\<lambda>_. send_frames max_frame_size fs)"

definition send_frame_with_padding ::
  "'r filler \<Rightarrow> Frame \<Rightarrow> nat \<Rightarrow> RuntimePadding \<Rightarrow> RuntimeCoverTraffic \<Rightarrow> ('r, 'e, PaddingEmission) step" where
  "send_frame_with_padding fill frame max_frame_size padding cover_traffic s =
     (let (pad, r) = padding_frame fill (ss_rng s) padding (frame_type frame) (length (payload frame)) max_frame_size;
          (cover, r) = padding_frames fill r cover_traffic (frame_type frame) (length (payload frame)) max_frame_size;
          pads = (case pad of None \<Rightarrow> [] | Some f \<Rightarrow> [f]) in
      bind_step (send_frames max_frame_size (pads @ cover @ [frame])) (\<lambda>_. ret
        \<lparr>pe_padding_frames = length pads, pe_padding_bytes = sum_list (map (length \<circ> payload) pads),
         pe_cover_traffic_padding_frames = length cover,
         pe_cover_traffic_padding_bytes = sum_list (map (length \<circ> payload) cover)\<rparr>) (s\<lparr>ss_rng := r\<rparr>))"

definition server_padding :: "ServerConfig \<Rightarrow> RuntimePadding result" where
  "server_padding c = RuntimePadding_from_config (ms_mode_default (scf_maverick c)) (sad_shaping (scf_advanced c))"

definition server_cover_traffic :: "ServerConfig \<Rightarrow> RuntimeCoverTraffic" where
  "server_cover_traffic c = RuntimeCoverTraffic_from_config (ms_mode_default (scf_maverick c)) (sad_shaping (scf_advanced c))"

definition send_h2_server_frame ::
  "('r, 'e) world \<Rightarrow> ServerConfig \<Rightarrow> Frame \<Rightarrow> bool \<Rightarrow> ('r, 'e, unit) step" where
  "send_h2_server_frame w c frame end_stream =
     bind_step (of_result (server_padding c)) (\<lambda>padding.
     bind_step (send_frame_with_padding (wd_fill w) frame (unat (sad_max_frame_size (scf_advanced c))) padding
        (server_cover_traffic c)) (\<lambda>padding_bytes.
     bind_step (emit (Shaped padding_bytes)) (\<lambda>_.
     if end_stream then transport [Trailers] else ret ())))"

definition send_error :: "('r, 'e) world \<Rightarrow> ServerConfig \<Rightarrow> u64 \<Rightarrow> ErrorCode \<Rightarrow> bool \<Rightarrow> ('r, 'e, unit) step" where
  "send_error w c fid code end_stream = send_h2_server_frame w c (error_frame fid code) end_stream"

subsection \<open>The fallback site\<close>

definition MAX_FALLBACK_REQUEST_BODY_BYTES :: nat where
  "MAX_FALLBACK_REQUEST_BODY_BYTES = 1024 * 1024"

definition text_response :: "nat \<Rightarrow> string \<Rightarrow> http_response" where
  "text_response status body =
     \<lparr>hr_status = status, hr_headers = [(ascii ''content-type'', ascii ''text/plain; charset=utf-8'')], hr_body = ascii body\<rparr>"

definition fallback_bad_gateway_response :: http_response where
  "fallback_bad_gateway_response = text_response 502 ''Bad Gateway''"

definition send_response :: "http_response \<Rightarrow> ('r, 'e, unit) step" where
  "send_response response =
     bind_step (transport [ResponseHead (hr_status response) (hr_headers response)]) (\<lambda>_.
       if hr_body response = [] then ret () else transport [ResponseBody (hr_body response)])"

definition send_fallback_overload :: "('r, 'e, unit) step" where
  "send_fallback_overload = send_response (text_response 503 ''Service unavailable'')"

definition send_fallback_with_body ::
  "('r, 'e) world \<Rightarrow> ServerConfig \<Rightarrow> bytes \<Rightarrow> bytes \<Rightarrow> (bytes \<times> bytes) list \<Rightarrow> bytes \<Rightarrow> ('r, 'e, unit) step" where
  "send_fallback_with_body w c method path headers request_body =
     (if unat (sad_fallback_max_concurrent (scf_advanced c)) \<le> wd_fallbacks_in_use w
      then bind_step (emit (Count FallbackOverloadRejections)) (\<lambda>_. send_fallback_overload)
      else
        bind_step (emit (Count ActiveFallbacks)) (\<lambda>_.
        guarded (bind_step (emit (Count FallbackRequests)) (\<lambda>_.
          send_response (case wd_site w method path headers request_body of
             Some response \<Rightarrow> response
           | None \<Rightarrow> fallback_bad_gateway_response))) (Uncount ActiveFallbacks)))"

definition record_auth_failure :: "('r, 'e) world \<Rightarrow> ServerConfig \<Rightarrow> ('r, 'e, AuthFailureDecision) step" where
  "record_auth_failure w c s =
     (let (decision, failures) = record_failure (ss_failures s) (wd_peer w) (wd_instant w)
            (unat (sad_auth_failure_window_secs (scf_advanced c)) * 1000000000)
            (sad_max_auth_failures_per_window (scf_advanced c))
            (unat (sad_auth_failure_cache_max_entries (scf_advanced c)));
          s = s\<lparr>ss_failures := failures\<rparr> in
      if decision = RateLimited then bind_step (emit (Count AuthRateLimitRejections)) (\<lambda>_. ret decision) s
      else ret decision s)"

definition reject_to_fallback ::
  "('r, 'e) world \<Rightarrow> ServerConfig \<Rightarrow> bytes \<Rightarrow> bytes \<Rightarrow> (bytes \<times> bytes) list \<Rightarrow> bytes \<Rightarrow> ('r, 'e, unit) step" where
  "reject_to_fallback w c method path headers request_body =
     bind_step (emit (Count UnauthenticatedRejections)) (\<lambda>_.
     bind_step (record_auth_failure w c) (\<lambda>decision.
     if decision = RateLimited \<and> \<not> stl_active_probe_resistance (sad_stealth (scf_advanced c)) then ret ()
     else send_fallback_with_body w c method path headers request_body))"

fun collect_fallback_request_body :: "recv_event list \<Rightarrow> bytes \<Rightarrow> bytes io_result" where
  "collect_fallback_request_body [] body = Ok body"
| "collect_fallback_request_body (RecvError # stream) body = Err IoTransport"
| "collect_fallback_request_body (RecvData chunk released # stream) body =
     (if length body + length chunk > MAX_FALLBACK_REQUEST_BODY_BYTES
      then Err (IoBail ''fallback request body exceeded size limit'')
      else if \<not> released then Err IoTransport
      else collect_fallback_request_body stream (body @ chunk))"

subsection \<open>Users\<close>

record UserPolicy =
  upl_flow_limit :: nat
  upl_rate_limit :: "u64 option"

definition ServerPolicies_from_config :: "ServerConfig \<Rightarrow> (bytes \<times> UserPolicy) list" where
  "ServerPolicies_from_config c =
     map (\<lambda>user. (uc_id user,
        \<lparr>upl_flow_limit = unat (max (case uc_max_concurrent_flows user of
             Some n \<Rightarrow> n | None \<Rightarrow> ms_max_concurrent_flows_per_user (scf_maverick c)) 1),
         upl_rate_limit = map_option bytes_per_second (uc_rate_limit user)\<rparr>))
       (filter uc_enabled (scf_users c))"

text \<open>Collected into a map: a later entry replaces an earlier one.\<close>

definition for_user :: "(bytes \<times> UserPolicy) list \<Rightarrow> bytes \<Rightarrow> UserPolicy option" where
  "for_user users user_id = map_of (rev users) user_id"

definition with_flow_permit ::
  "('r, 'e) world \<Rightarrow> ServerConfig \<Rightarrow> bytes \<Rightarrow> UserPolicy \<Rightarrow> u64 \<Rightarrow> ('r, 'e, unit) step \<Rightarrow> ('r, 'e, unit) step" where
  "with_flow_permit w c user_id policy fid body =
     (if wd_flows_in_use w user_id < upl_flow_limit policy
      then bind_step (emit (Count ActiveFlows)) (\<lambda>_. guarded body (Uncount ActiveFlows))
      else bind_step (emit (Count FlowLimitRejections)) (\<lambda>_. send_error w c fid FlowLimitExceeded True))"

subsection \<open>Datagrams and names\<close>

definition exchange_udp :: "ServerConfig \<Rightarrow> UdpPacketPayload \<Rightarrow> ('r, 'e, UdpPacketPayload option) step" where
  "exchange_udp c packet =
     bind_step (lookup_host (to_authority (up_target packet) (up_port packet))) (\<lambda>l. bind_step next_datagram (\<lambda>d.
       let (reply, reached) = relay_udp_packet l (\<lambda>_ _. d) (sad_egress (scf_advanced c)) packet in
       bind_step (emit_all (map Reached reached)) (\<lambda>_. ret reply)))"

text \<open>\<open>handle_udp_packet\<close> ends the response, \<open>send_udp_packet_response\<close> does not.\<close>

definition answer_udp_packet :: "('r, 'e) world \<Rightarrow> ServerConfig \<Rightarrow> Frame \<Rightarrow> bool \<Rightarrow> ('r, 'e, unit) step" where
  "answer_udp_packet w c frame end_stream =
     (case UdpPacketPayload_decode (payload frame) of
        Ok packet \<Rightarrow>
          bind_step (exchange_udp c packet) (\<lambda>reply.
          case reply of
            Some response \<Rightarrow>
              bind_step (of_result (UdpPacketPayload_encode response)) (\<lambda>bytes.
              send_h2_server_frame w c (Frame_new UdpPacket 0 (flow_id frame) bytes) end_stream)
          | None \<Rightarrow> send_error w c (flow_id frame) TargetConnectFailed end_stream)
      | _ \<Rightarrow> send_error w c (flow_id frame) ProtocolError end_stream)"

definition handle_udp_packet :: "('r, 'e) world \<Rightarrow> ServerConfig \<Rightarrow> Frame \<Rightarrow> ('r, 'e, unit) step" where
  "handle_udp_packet w c frame = answer_udp_packet w c frame True"

definition send_udp_packet_response :: "('r, 'e) world \<Rightarrow> ServerConfig \<Rightarrow> Frame \<Rightarrow> ('r, 'e, unit) step" where
  "send_udp_packet_response w c frame = answer_udp_packet w c frame False"

definition udp_idle_timeout_ms :: "Frame \<Rightarrow> ServerConfig \<Rightarrow> u64 io_result" where
  "udp_idle_timeout_ms frame c =
     and_then (map_err IoCore (OpenUdpPayload_decode (payload frame))) (\<lambda>requested.
       fail_if (idle_timeout_ms requested = 0) (IoBail ''UDP idle timeout must be non-zero'')
       (Ok (min (idle_timeout_ms requested) (sad_udp_idle_timeout_ms (scf_advanced c)))))"

text \<open>The loop of a UDP flow over the frames its reads return, up to the one that ends it; the sends in between do not
touch the body of the request. The deadline counts the reads that return before it fires.\<close>

fun udp_flow_loop ::
  "('r, 'e) world \<Rightarrow> ServerConfig \<Rightarrow> u64 \<Rightarrow> nat option \<Rightarrow> Frame list \<Rightarrow> Frame option io_result \<Rightarrow> ('r, 'e, unit) step" where
  "udp_flow_loop w c fid deadline [] end =
     (if deadline = Some 0 then send_h2_server_frame w c (Frame_new CloseFlow 0 fid []) True
      else case end of Ok _ \<Rightarrow> ret () | Err e \<Rightarrow> fails e | Panic \<Rightarrow> (\<lambda>s. (Panic, s)))"
| "udp_flow_loop w c fid deadline (frame # frames) end =
     (if deadline = Some 0 then send_h2_server_frame w c (Frame_new CloseFlow 0 fid []) True
      else if frame_type frame = CloseFlow then transport [Trailers]
      else bind_step
        (if frame_type frame \<noteq> UdpPacket then send_error w c (flow_id frame) ProtocolError False
         else send_udp_packet_response w c frame)
        (\<lambda>_. udp_flow_loop w c fid (map_option (\<lambda>n. n - 1) deadline) frames end))"

definition handle_udp_flow :: "('r, 'e) world \<Rightarrow> ServerConfig \<Rightarrow> Frame \<Rightarrow> ('r, 'e, unit) step" where
  "handle_udp_flow w c frame =
     (case udp_idle_timeout_ms frame c of
        Ok _ \<Rightarrow>
          bind_step (send_h2_server_frame w c (Frame_new WindowUpdate 0 (flow_id frame) []) False) (\<lambda>_ s.
            let (frames, end) = read_all_h2 (unat (sad_max_frame_size (scf_advanced c))) (ss_recv s) (ss_buf s) in
            udp_flow_loop w c (flow_id frame) (wd_udp_deadline w) frames end s)
      | _ \<Rightarrow> send_error w c (flow_id frame) ProtocolError True)"

definition handle_dns_query :: "('r, 'e) world \<Rightarrow> ServerConfig \<Rightarrow> Frame \<Rightarrow> ('r, 'e, unit) step" where
  "handle_dns_query w c frame =
     bind_step (emit (Count DnsQueries)) (\<lambda>_.
     case scf_dns c of
       None \<Rightarrow> send_error w c (flow_id frame) InternalError True
     | Some dns \<Rightarrow>
         bind_step (lookup_host (sdns_upstream dns)) (\<lambda>l. bind_step next_datagram (\<lambda>d.
           let (reply, reached) = relay_dns_query l (\<lambda>_ _. d) (sad_egress (scf_advanced c)) (payload frame) in
           bind_step (emit_all (map Reached reached)) (\<lambda>_.
           case reply of
             Some response \<Rightarrow> send_h2_server_frame w c (Frame_new DnsResponse 0 (flow_id frame) response) True
           | None \<Rightarrow> send_error w c (flow_id frame) InternalError True))))"

subsection \<open>The tunnel\<close>

text \<open>A script of connection events that is not possible counts as a failure to connect.\<close>

definition target_metrics :: "('r, 'e, TargetOpenMetricSinks) step" where
  "target_metrics s = (Ok (ss_targets s), s)"

definition record_targets :: "TargetOpenMetricSinks option \<Rightarrow> ('r, 'e, unit) step" where
  "record_targets m s = (Ok (), case m of Some m \<Rightarrow> s\<lparr>ss_targets := m\<rparr> | None \<Rightarrow> s)"

definition open_target :: "('r, 'e) world \<Rightarrow> ServerConfig \<Rightarrow> OpenTcpPayload \<Rightarrow> ('r, 'e, SocketAddr option) step" where
  "open_target w c open =
     bind_step (lookup_host (to_authority (ot_target open) (ot_port open))) (\<lambda>l.
     bind_step target_metrics (\<lambda>targets.
       case open_target_inner l (wd_connects w) (fst (wd_elapsed w)) (snd (wd_elapsed w)) (sad_egress (scf_advanced c))
              (Some targets) of
         None \<Rightarrow> ret None
       | Some (res, metrics, attempts) \<Rightarrow>
           bind_step (record_targets metrics) (\<lambda>_.
           bind_step (emit_all (map Reached attempts)) (\<lambda>_.
           ret (to_option res)))))"

definition relay_target_and_tunnel :: "('r, 'e) world \<Rightarrow> ServerConfig \<Rightarrow> u64 \<Rightarrow> ('r, 'e, unit) step" where
  "relay_target_and_tunnel w c fid =
     bind_step (of_result (server_padding c)) (\<lambda>padding s.
       let (r, relay) = wd_relay w
             \<lparr>ry_fill = wd_fill w, ry_padding = padding, ry_cover_traffic = server_cover_traffic c,
              ry_max_frame_size = unat (sad_max_frame_size (scf_advanced c)), ry_flow_id = fid\<rparr>
             (relay_start (ss_rng s) (ss_recv s) (ss_buf s)) in
       (r, s\<lparr>ss_trace := ss_trace s @ [Relayed relay]\<rparr>))"

definition handle_open_tcp :: "('r, 'e) world \<Rightarrow> ServerConfig \<Rightarrow> Frame \<Rightarrow> OpenTcpPayload \<Rightarrow> ('r, 'e, unit) step" where
  "handle_open_tcp w c frame open =
     bind_step (open_target w c open) (\<lambda>target.
     case target of
       None \<Rightarrow> send_error w c (flow_id frame) TargetConnectFailed True
     | Some _ \<Rightarrow>
         bind_step (emit (Count TcpFlows)) (\<lambda>_.
         bind_step (send_h2_server_frame w c (Frame_new WindowUpdate 0 (flow_id frame) []) False) (\<lambda>_.
         relay_target_and_tunnel w c (flow_id frame))))"

definition handle_open_frame ::
  "('r, 'e) world \<Rightarrow> ServerConfig \<Rightarrow> bytes \<Rightarrow> UserPolicy \<Rightarrow> Frame \<Rightarrow> ('r, 'e, unit) step" where
  "handle_open_frame w c user_id policy open_frame =
     (let fid = flow_id open_frame; permit = with_flow_permit w c user_id policy fid in
      if frame_type open_frame = DnsQuery then permit (handle_dns_query w c open_frame)
      else if frame_type open_frame = OpenUdp then permit (handle_udp_flow w c open_frame)
      else if frame_type open_frame = UdpPacket then permit (handle_udp_packet w c open_frame)
      else if frame_type open_frame \<noteq> OpenTcp then send_error w c fid ProtocolError True
      else case OpenTcpPayload_decode (payload open_frame) of
        Ok open \<Rightarrow> permit (handle_open_tcp w c open_frame open)
      | _ \<Rightarrow> send_error w c fid ProtocolError True)"

definition read_frame :: "nat \<Rightarrow> ('r, 'e, Frame option) step" where
  "read_frame max_frame_size s =
     (let (r, recv, buf) = read_next_frame (ss_recv s) (ss_buf s) max_frame_size in
      (r, s\<lparr>ss_recv := recv, ss_buf := buf\<rparr>))"

definition make_server_hello :: "('r, 'e) world \<Rightarrow> ServerConfig \<Rightarrow> AuthenticatedClientHello \<Rightarrow> ('r, 'e, bytes) step" where
  "make_server_hello w c a s =
     (let (payload, r) = server_hello_payload (wd_crypto w) (wd_os w) (ss_rng s) a (sad_max_frame_size (scf_advanced c))
            (case uc_max_concurrent_flows (cm_user (ah_credential a)) of
               Some n \<Rightarrow> n | None \<Rightarrow> ms_max_concurrent_flows_per_user (scf_maverick c)) (wd_binding w) in
      of_result payload (s\<lparr>ss_rng := r\<rparr>))"

definition serve_authenticated ::
  "('r, 'e) world \<Rightarrow> ServerConfig \<Rightarrow> AuthenticatedClientHello \<Rightarrow> ('r, 'e, unit) step" where
  "serve_authenticated w c a =
     (let user_id = uc_id (cm_user (ah_credential a)) in
      bind_step (emit (Uncount ActivePreAuth)) (\<lambda>_.
      bind_step (emit (Count AuthenticatedSessions)) (\<lambda>_.
      case for_user (ServerPolicies_from_config c) user_id of
        None \<Rightarrow> fails (IoBail ''missing authenticated user policy'')
      | Some policy \<Rightarrow>
          bind_step (transport [Head200]) (\<lambda>_.
          bind_step (make_server_hello w c a) (\<lambda>hello.
          bind_step (send_h2_server_frame w c (Frame_new ServerHello 0 0 hello) False) (\<lambda>_.
          if wd_open_deadline w then send_error w c 0 ProtocolError True
          else bind_step (read_frame (unat (sad_max_frame_size (scf_advanced c)))) (\<lambda>frame.
            case frame of
              None \<Rightarrow> send_error w c 0 ProtocolError True
            | Some open_frame \<Rightarrow> handle_open_frame w c user_id policy open_frame)))))))"

text \<open>The first frame, read under the deadline of unauthenticated requests; when the deadline fires, so many chunks
of the body have arrived.\<close>

definition read_first_frame ::
  "('r, 'e) world \<Rightarrow> ServerConfig \<Rightarrow> http_request \<Rightarrow> Frame option io_result option \<times> recv_event list \<times> bytes \<times> bytes" where
  "read_first_frame w c request =
     (let arrived = (case wd_first_deadline w of None \<Rightarrow> rq_body request | Some n \<Rightarrow> take n (rq_body request));
          (r, recv, buf, captured) = read_next_frame_capturing arrived [] (unat (sad_max_frame_size (scf_advanced c))) []
            MAX_FALLBACK_REQUEST_BODY_BYTES in
      (if wd_first_deadline w = None then Some r else None, recv, buf, captured))"

definition authenticate_first ::
  "('r, 'e) world \<Rightarrow> ServerState \<Rightarrow> Frame option io_result option \<Rightarrow> AuthenticatedClientHello option result \<times> ServerState" where
  "authenticate_first w st first =
     (case first of
        Some (Ok (Some frame)) \<Rightarrow>
          if frame_type frame = ClientHello
          then authenticate_tunnel_frame (wd_crypto w) (wd_hash w) frame st (wd_now_unix w) (wd_binding w)
          else (Ok None, st)
      | _ \<Rightarrow> (Ok None, st))"

definition handle_tunnel ::
  "('r, 'e) world \<Rightarrow> ServerState \<Rightarrow> http_request \<Rightarrow> ('r, 'e) session
   \<Rightarrow> (unit io_result \<times> ('r, 'e) session) \<times> ServerState" where
  "handle_tunnel w st request s =
     (let c = st_config st; (first, recv, buf, fallback_body) = read_first_frame w c request;
          s = s\<lparr>ss_recv := recv, ss_buf := buf\<rparr> in
      case authenticate_first w st first of
        (Ok (Some authenticated), st) \<Rightarrow> (serve_authenticated w c authenticated s, st)
      | (Panic, st) \<Rightarrow> ((Panic, s), st)
      | (_, st) \<Rightarrow>
          (guarded (reject_to_fallback w c (rq_method request) (rq_path_and_query request) (rq_headers request) fallback_body)
             (Uncount ActivePreAuth) s, st))"

definition handle_request ::
  "('r, 'e) world \<Rightarrow> ServerState \<Rightarrow> http_request \<Rightarrow> ('r, 'e) session
   \<Rightarrow> (unit io_result \<times> ('r, 'e) session) \<times> ServerState" where
  "handle_request w st request s =
     (if rq_method request = ascii ''POST'' \<and> rq_path request = ms_tunnel_path (scf_maverick (st_config st))
      then handle_tunnel w st request s
      else
        (guarded (case collect_fallback_request_body (rq_body request) [] of
            Ok body \<Rightarrow> send_fallback_with_body w (st_config st) (rq_method request) (rq_path_and_query request)
               (rq_headers request) body
          | Err e \<Rightarrow> fails e
          | Panic \<Rightarrow> (\<lambda>s. (Panic, s))) (Uncount ActivePreAuth) s, st))"

subsection \<open>The protocol of a request\<close>

text \<open>
  What a request may do, as an automaton over its actions. Before it is authenticated it can only
  go to the site. Afterwards the hello of the server comes first; addresses are reached, and data is
  sent, only while a flow permit is held, and only addresses the egress policy allows; nothing is sent
  behind the trailers.
\<close>

datatype phase = Arrived | AtSite | SiteClosed | Admitted | Authenticated | Greeted | Ended | InFlow | FlowEnded | Closed

definition count_phase :: "phase \<Rightarrow> metric \<Rightarrow> phase option" where
  "count_phase q m = map_of
     [((Arrived, UnauthenticatedRejections), AtSite), ((AtSite, AuthRateLimitRejections), AtSite),
      ((AtSite, FallbackOverloadRejections), AtSite), ((AtSite, ActiveFallbacks), AtSite),
      ((AtSite, FallbackRequests), AtSite), ((Admitted, AuthenticatedSessions), Authenticated),
      ((Greeted, FlowLimitRejections), Greeted), ((Greeted, ActiveFlows), InFlow),
      ((InFlow, DnsQueries), InFlow), ((InFlow, TcpFlows), InFlow)] (q, m)"

definition uncount_phase :: "phase \<Rightarrow> metric \<Rightarrow> phase option" where
  "uncount_phase q m = map_of
     [((Arrived, ActivePreAuth), Admitted), ((AtSite, ActiveFallbacks), AtSite), ((AtSite, ActivePreAuth), SiteClosed),
      ((InFlow, ActiveFlows), Closed), ((FlowEnded, ActiveFlows), Closed)] (q, m)"

definition frame_phase :: "phase \<Rightarrow> FrameType \<Rightarrow> phase option" where
  "frame_phase q t =
     (if q = Authenticated \<and> t = ServerHello then Some Greeted
      else if q = Authenticated \<and> t = Padding \<or> q = Greeted \<and> t \<in> {Padding, Error}
        \<or> q = InFlow \<and> t \<in> {Padding, Error, UdpPacket, CloseFlow, WindowUpdate, DnsResponse} then Some q
      else None)"

definition trailer_phase :: "phase \<Rightarrow> phase option" where
  "trailer_phase q = map_of [(Greeted, Ended), (InFlow, FlowEnded)] q"

fun phase_step :: "ServerEgressPolicyConfig \<Rightarrow> phase \<Rightarrow> 'r action \<Rightarrow> phase option" where
  "phase_step g q (Count m) = count_phase q m"
| "phase_step g q (Uncount m) = uncount_phase q m"
| "phase_step g q Head200 = (if q = Authenticated then Some q else None)"
| "phase_step g q (Sent f) = frame_phase q (frame_type f)"
| "phase_step g q (Shaped e) = (if q \<in> {Greeted, InFlow} then Some q else None)"
| "phase_step g q Trailers = trailer_phase q"
| "phase_step g q (ResponseHead st hs) = (if q = AtSite then Some q else None)"
| "phase_step g q (ResponseBody b) = (if q = AtSite then Some q else None)"
| "phase_step g q (Resolved n) = (if q = InFlow then Some q else None)"
| "phase_step g q (Reached a) = (if q = InFlow \<and> allows_ip g (sa_ip a) then Some q else None)"
| "phase_step g q (Relayed r) = (if q = InFlow then Some FlowEnded else None)"

fun run_phases :: "ServerEgressPolicyConfig \<Rightarrow> phase \<Rightarrow> 'r action list \<Rightarrow> phase option" where
  "run_phases g q [] = Some q"
| "run_phases g q (a # as) = (case phase_step g q a of None \<Rightarrow> None | Some q' \<Rightarrow> run_phases g q' as)"

lemma run_phases_append: "run_phases g q as = Some q' \<Longrightarrow> run_phases g q (as @ bs) = run_phases g q' bs"
  by (induction g q as rule: run_phases.induct) (auto split: option.splits)

text \<open>A step taken in a phase follows the protocol and ends as described.\<close>

definition moves ::
  "ServerEgressPolicyConfig \<Rightarrow> phase \<Rightarrow> ('r, 'e, 'a) step \<Rightarrow> ('a io_result \<Rightarrow> phase \<Rightarrow> bool) \<Rightarrow> bool" where
  "moves g q m Q =
     (\<forall>s. \<exists>tr q'. ss_trace (snd (m s)) = ss_trace s @ tr \<and> run_phases g q tr = Some q' \<and> Q (fst (m s)) q')"

lemma movesI:
  "(\<And>s. \<exists>tr q'. ss_trace (snd (m s)) = ss_trace s @ tr \<and> run_phases g q tr = Some q' \<and> Q (fst (m s)) q') \<Longrightarrow> moves g q m Q"
  by (simp add: moves_def)

lemma moves_bind:
  assumes "moves g q m P" "\<And>a q'. P (Ok a) q' \<Longrightarrow> moves g q' (k a) Q"
    and "\<And>e q'. P (Err e) q' \<Longrightarrow> Q (Err e) q'" "\<And>q'. P Panic q' \<Longrightarrow> Q Panic q'"
  shows "moves g q (bind_step m k) Q"
proof (rule movesI)
  fix s
  obtain r s1 where m: "m s = (r, s1)" by (cases "m s")
  from assms(1) obtain tr q' where 1: "ss_trace s1 = ss_trace s @ tr" "run_phases g q tr = Some q'" "P r q'"
    unfolding moves_def using m by (metis fst_conv snd_conv)
  show "\<exists>tr q'. ss_trace (snd (bind_step m k s)) = ss_trace s @ tr \<and> run_phases g q tr = Some q'
      \<and> Q (fst (bind_step m k s)) q'"
  proof (cases r)
    case (Ok a)
    from assms(2) [OF 1(3) [unfolded Ok]] obtain tr2 q2 where "ss_trace (snd (k a s1)) = ss_trace s1 @ tr2"
        "run_phases g q' tr2 = Some q2" "Q (fst (k a s1)) q2" unfolding moves_def by blast
    then show ?thesis using m Ok 1 by (intro exI [of _ "tr @ tr2"] exI [of _ q2]) (simp add: bind_step_def run_phases_append)
  next
    case (Err e)
    then show ?thesis using m 1 assms(3) by (intro exI [of _ tr] exI [of _ q']) (simp add: bind_step_def)
  next
    case Panic
    then show ?thesis using m 1 assms(4) by (intro exI [of _ tr] exI [of _ q']) (simp add: bind_step_def)
  qed
qed

lemma moves_state: "(\<And>s. moves g q (F s) Q) \<Longrightarrow> moves g q (\<lambda>s. F s s) Q"
  unfolding moves_def by blast

lemma moves_weaken: "moves g q m P \<Longrightarrow> (\<And>r q'. P r q' \<Longrightarrow> Q r q') \<Longrightarrow> moves g q m Q"
  unfolding moves_def by blast

lemma moves_quiet: "(\<And>s. ss_trace (snd (m s)) = ss_trace s) \<Longrightarrow> (\<And>s. Q (fst (m s)) q) \<Longrightarrow> moves g q m Q"
  unfolding moves_def by (intro allI exI [of _ "[]"] exI [of _ q]) simp

lemma moves_ret: "Q (Ok a) q \<Longrightarrow> moves g q (ret a) Q"
  by (rule moves_quiet) (simp_all add: ret_def)

lemma moves_fails: "Q (Err e) q \<Longrightarrow> moves g q (fails e) Q"
  by (rule moves_quiet) (simp_all add: fails_def)

lemma moves_emit: "phase_step g q a = Some q' \<Longrightarrow> Q (Ok ()) q' \<Longrightarrow> moves g q (emit a) Q"
  by (rule movesI) (auto simp: emit_def)

lemma moves_guarded:
  assumes "moves g q m (\<lambda>r q'. \<exists>q''. phase_step g q' a = Some q'' \<and> Q r q'')"
  shows "moves g q (guarded m a) Q"
proof (rule movesI)
  fix s
  from assms obtain tr q' q'' where "ss_trace (snd (m s)) = ss_trace s @ tr" "run_phases g q tr = Some q'"
      "phase_step g q' a = Some q''" "Q (fst (m s)) q''" unfolding moves_def by blast
  then show "\<exists>tr q'. ss_trace (snd (guarded m a s)) = ss_trace s @ tr \<and> run_phases g q tr = Some q'
      \<and> Q (fst (guarded m a s)) q'"
    by (intro exI [of _ "tr @ [a]"] exI [of _ q'']) (simp add: guarded_def case_prod_beta Let_def run_phases_append)
qed

lemma moves_transport:
  assumes "run_phases g q as = Some q'" "Q (Ok ()) q'" "\<And>e. Q (Err e) q"
  shows "moves g q (transport as) Q"
proof (rule movesI)
  fix s :: "('a, 'b) session"
  consider rest where "ss_sends s = Ok () # rest"
    | e where "fst (transport as s) = Err e" "ss_trace (snd (transport as s)) = ss_trace s"
    by (cases "ss_sends s"; cases "hd (ss_sends s)") (auto simp: transport_def)
  then show "\<exists>tr q'. ss_trace (snd (transport as s)) = ss_trace s @ tr \<and> run_phases g q tr = Some q'
      \<and> Q (fst (transport as s)) q'"
  proof cases
    case 1
    then show ?thesis using assms(1,2) by (intro exI [of _ as] exI [of _ q']) (simp add: transport_def)
  next
    case 2
    then show ?thesis using assms(3) by (intro exI [of _ "[]"] exI [of _ q]) simp
  qed
qed

text \<open>The phase after a success, and the phases an error or an unwinding panic can leave behind.\<close>

fun ends :: "phase \<Rightarrow> phase set \<Rightarrow> 'a io_result \<Rightarrow> phase \<Rightarrow> bool" where
  "ends q E (Ok _) x = (x = q)"
| "ends q E (Err _) x = (x \<in> E)"
| "ends q E Panic x = (x \<in> E)"

lemma ends_mono: "ends q E r x \<Longrightarrow> E \<subseteq> E' \<Longrightarrow> ends q E' r x"
  by (cases r) auto

lemma ends_self [simp]: "ends q {q} r q"
  by (cases r) simp_all

lemma moves_bind_ends:
  assumes "moves g q m (ends q1 E)" "\<And>a. moves g q1 (k a) (ends q2 E')" "E \<subseteq> E'"
  shows "moves g q (bind_step m k) (ends q2 E')"
  by (rule moves_bind [OF assms(1)]) (use assms(2,3) in auto)

lemma moves_of_result: "moves g q (of_result r) (ends q {q})"
  by (rule moves_quiet; cases r) (simp_all add: of_result_def)

lemma moves_send_frame:
  assumes "frame_phase q (frame_type f) = Some q'"
  shows "moves g q (send_frame m f) (ends q' {q})"
  unfolding send_frame_def
  by (rule moves_bind_ends [OF moves_of_result]) (use assms in \<open>auto intro!: moves_transport\<close>)

lemma moves_send_frames:
  assumes "\<forall>p \<in> set pads. frame_phase q (frame_type p) = Some q" "frame_phase q (frame_type f) = Some q'"
  shows "moves g q (send_frames m (pads @ [f])) (ends q' {q})"
  using assms(1)
proof (induction pads)
  case Nil
  show ?case unfolding append_Nil send_frames.simps
    by (rule moves_bind_ends [OF moves_send_frame [OF assms(2)]]) (auto intro: moves_ret)
next
  case (Cons p pads)
  then have p: "frame_phase q (frame_type p) = Some q" by simp
  show ?case unfolding append_Cons send_frames.simps
    by (rule moves_bind_ends [OF moves_send_frame [OF p]]) (use Cons in auto)
qed

lemma padding_frame_type: "padding_frame fill r p ft n m = (Some f, r') \<Longrightarrow> frame_type f = Padding"
  by (auto simp: padding_frame_def Let_def Frame_new_def split: if_splits prod.splits)

lemma next_padding_frame_type: "next_padding_frame fill r e = (Some f, e', r') \<Longrightarrow> frame_type f = Padding"
  by (auto simp: next_padding_frame_def Let_def Frame_new_def split: if_splits prod.splits)

lemma padding_frames_type: "f \<in> set (fst (padding_frames fill r c ft n m)) \<Longrightarrow> frame_type f = Padding"
  by (auto simp: padding_frames_def Let_def split: if_splits option.splits prod.splits dest: next_padding_frame_type)

lemma moves_send_padded:
  assumes "frame_phase q Padding = Some q" "frame_phase q (frame_type f) = Some q'"
  shows "moves g q (send_frame_with_padding fill f m padding cover) (ends q' {q})"
proof (rule movesI)
  fix s :: "('a, 'b) session"
  obtain pad r where p: "padding_frame fill (ss_rng s) padding (frame_type f) (length (payload f)) m = (pad, r)"
    by (rule prod.exhaust)
  obtain cov r' where c: "padding_frames fill r cover (frame_type f) (length (payload f)) m = (cov, r')"
    by (rule prod.exhaust)
  define pads where "pads = (case pad of None \<Rightarrow> [] | Some f \<Rightarrow> [f])"
  have 1: "\<forall>x \<in> set pads. frame_type x = Padding"
    using padding_frame_type p by (cases pad) (auto simp: pads_def)
  have "\<forall>x \<in> set cov. frame_type x = Padding" using padding_frames_type [of _ fill r cover] c by (metis fst_conv)
  with 1 assms(1) have ph: "\<forall>x \<in> set (pads @ cov). frame_phase q (frame_type x) = Some q" by auto
  define e where "e = \<lparr>pe_padding_frames = length pads, pe_padding_bytes = sum_list (map (length \<circ> payload) pads),
     pe_cover_traffic_padding_frames = length cov, pe_cover_traffic_padding_bytes = sum_list (map (length \<circ> payload) cov)\<rparr>"
  let ?m = "bind_step (send_frames m ((pads @ cov) @ [f])) (\<lambda>_. ret e) :: ('a, 'b, PaddingEmission) step"
  have "moves g q ?m (ends q' {q})"
    by (rule moves_bind_ends [OF moves_send_frames [OF ph assms(2)]]) (auto intro: moves_ret)
  then have "\<exists>tr x. ss_trace (snd (?m (s\<lparr>ss_rng := r'\<rparr>))) = ss_trace (s\<lparr>ss_rng := r'\<rparr>) @ tr
      \<and> run_phases g q tr = Some x \<and> ends q' {q} (fst (?m (s\<lparr>ss_rng := r'\<rparr>))) x" unfolding moves_def by blast
  then show "\<exists>tr x. ss_trace (snd (send_frame_with_padding fill f m padding cover s)) = ss_trace s @ tr
      \<and> run_phases g q tr = Some x \<and> ends q' {q} (fst (send_frame_with_padding fill f m padding cover s)) x"
    by (simp add: send_frame_with_padding_def p c pads_def [symmetric] e_def [symmetric] Let_def)
qed

lemma moves_send:
  assumes "frame_phase q Padding = Some q" "frame_phase q (frame_type f) = Some q'" "q' \<in> {Greeted, InFlow}"
  shows "moves g q (send_h2_server_frame w c f False) (ends q' {q, q'})"
    and "trailer_phase q' = Some q'' \<Longrightarrow> moves g q (send_h2_server_frame w c f True) (ends q'' {q, q'})"
proof -
  have e: "moves g q' (emit (Shaped x)) (ends q' {})" for x
    by (rule moves_emit) (use assms(3) in auto)
  have t: "moves g q' (transport [Trailers]) (ends q'' {q'})" if "trailer_phase q' = Some q''"
    by (rule moves_transport) (use that in auto)
  show "moves g q (send_h2_server_frame w c f False) (ends q' {q, q'})"
    unfolding send_h2_server_frame_def
    by (intro moves_bind_ends [OF moves_of_result] moves_bind_ends [OF moves_send_padded [OF assms(1,2)]] moves_bind_ends [OF e])
       (auto intro: moves_ret)
  show "moves g q (send_h2_server_frame w c f True) (ends q'' {q, q'})" if "trailer_phase q' = Some q''"
    unfolding send_h2_server_frame_def
    by (intro moves_bind_ends [OF moves_of_result] moves_bind_ends [OF moves_send_padded [OF assms(1,2)]] moves_bind_ends [OF e])
       (auto intro: moves_weaken [OF t [OF that]] elim: ends_mono)
qed

lemma moves_flow_send:
  assumes "frame_type f \<in> {Padding, Error, UdpPacket, CloseFlow, WindowUpdate, DnsResponse}"
  shows "moves g InFlow (send_h2_server_frame w c f e) (ends (if e then FlowEnded else InFlow) {InFlow})"
proof -
  have f: "frame_phase InFlow Padding = Some InFlow" "frame_phase InFlow (frame_type f) = Some InFlow"
    using assms by (auto simp: frame_phase_def)
  show ?thesis
    using moves_send(1) [OF f, of g w c] moves_send(2) [OF f, of FlowEnded g w c] by (cases e) (simp_all add: trailer_phase_def)
qed

lemma moves_send_error:
  "moves g InFlow (send_error w c fid code e) (ends (if e then FlowEnded else InFlow) {InFlow})"
  "moves g Greeted (send_error w c fid code True) (ends Ended {Greeted})"
proof -
  have t: "frame_type (error_frame fid code) = Error" by (simp add: error_frame_def Frame_new_def)
  show "moves g InFlow (send_error w c fid code e) (ends (if e then FlowEnded else InFlow) {InFlow})"
    unfolding send_error_def by (rule moves_flow_send) (simp add: t)
  have f: "frame_phase Greeted Padding = Some Greeted" "frame_phase Greeted (frame_type (error_frame fid code)) = Some Greeted"
    by (simp_all add: frame_phase_def t)
  show "moves g Greeted (send_error w c fid code True) (ends Ended {Greeted})"
    using moves_send(2) [OF f, of Ended g w c] by (simp add: send_error_def trailer_phase_def)
qed

lemma moves_reached:
  "\<forall>a \<in> set as. allows_ip g (sa_ip a) \<Longrightarrow> moves g InFlow (emit_all (map Reached as)) (ends InFlow {InFlow})"
proof (induction as)
  case Nil
  show ?case by (auto intro: moves_ret)
next
  case (Cons a as)
  then have e: "moves g InFlow (emit (Reached a)) (ends InFlow {InFlow})" by (intro moves_emit) simp_all
  show ?case unfolding list.map emit_all.simps by (rule moves_bind_ends [OF e]) (use Cons in auto)
qed

lemma moves_next: "moves g InFlow (lookup_host n) (ends InFlow {InFlow})" "moves g q next_datagram (ends q {q})"
  by (rule movesI, simp add: lookup_host_def Let_def split: list.split)
     (rule moves_quiet; simp add: next_datagram_def split: list.splits)

lemma moves_exchange_udp: "moves (sad_egress (scf_advanced c)) InFlow (exchange_udp c packet) (ends InFlow {InFlow})"
proof -
  have "moves (sad_egress (scf_advanced c)) InFlow
      (let (reply, reached) = relay_udp_packet l (\<lambda>_ _. d) (sad_egress (scf_advanced c)) packet in
       bind_step (emit_all (map Reached reached)) (\<lambda>_. ret reply)) (ends InFlow {InFlow})" for l :: "'e lookup" and d
    unfolding Let_def case_prod_beta
    by (rule moves_bind_ends [OF moves_reached])
       (use datagrams_allowed(1) allowed_targets_allowed in \<open>blast, auto intro: moves_ret\<close>)
  then show ?thesis unfolding exchange_udp_def
    by (intro moves_bind_ends [OF moves_next(1)] moves_bind_ends [OF moves_next(2)]) auto
qed

lemma moves_answer_udp:
  "moves (sad_egress (scf_advanced c)) InFlow (answer_udp_packet w c frame e) (ends (if e then FlowEnded else InFlow) {InFlow})"
proof -
  have "moves (sad_egress (scf_advanced c)) InFlow
      (case reply of
         Some response \<Rightarrow>
           bind_step (of_result (UdpPacketPayload_encode response)) (\<lambda>bytes.
             send_h2_server_frame w c (Frame_new UdpPacket 0 (flow_id frame) bytes) e)
       | None \<Rightarrow> send_error w c (flow_id frame) TargetConnectFailed e) (ends (if e then FlowEnded else InFlow) {InFlow})" for reply
    by (cases reply) (auto simp: Frame_new_def intro!: moves_send_error moves_bind_ends [OF moves_of_result] moves_flow_send
        simp del: if_True if_False split del: if_split)
  then show ?thesis unfolding answer_udp_packet_def
    by (auto intro!: moves_bind_ends [OF moves_exchange_udp] moves_send_error(1) split: outcome.splits
        simp del: if_True if_False split del: if_split)
qed

text \<open>What the work under a flow permit may leave behind.\<close>

definition flow_done :: "'a io_result \<Rightarrow> phase \<Rightarrow> bool" where
  "flow_done r x = (x \<in> {InFlow, FlowEnded})"

lemma ends_flow_done: "ends (if e then FlowEnded else InFlow) {InFlow} r x \<Longrightarrow> flow_done r x"
  by (cases r) (auto simp: flow_done_def)

lemma moves_bind_flow:
  assumes "moves g q m (ends InFlow {InFlow})" "\<And>a. moves g InFlow (k a) flow_done"
  shows "moves g q (bind_step m k) flow_done"
  by (rule moves_bind [OF assms(1)]) (use assms(2) in \<open>auto simp: flow_done_def\<close>)

lemma moves_flow_count:
  "m \<in> {DnsQueries, TcpFlows} \<Longrightarrow> moves g InFlow (emit (Count m)) (ends InFlow {InFlow})"
  by (rule moves_emit) (auto simp: count_phase_def)

lemmas moves_flow_ends =
  moves_weaken [OF moves_send_error(1) ends_flow_done] moves_weaken [OF moves_flow_send ends_flow_done]
  moves_weaken [OF moves_answer_udp ends_flow_done]

lemma moves_udp_turn:
  assumes "frame_type frame \<noteq> CloseFlow \<Longrightarrow> moves (sad_egress (scf_advanced c)) InFlow rest flow_done"
  shows "moves (sad_egress (scf_advanced c)) InFlow
     (if frame_type frame = CloseFlow then transport [Trailers]
      else bind_step
        (if frame_type frame \<noteq> UdpPacket then send_error w c (flow_id frame) ProtocolError False
         else send_udp_packet_response w c frame) (\<lambda>_. rest)) flow_done"
proof (cases "frame_type frame = CloseFlow")
  case True
  show ?thesis unfolding if_P [OF True]
    by (rule moves_transport [where q' = FlowEnded]) (simp_all add: trailer_phase_def flow_done_def)
next
  case False
  show ?thesis unfolding if_not_P [OF False]
  proof (rule moves_bind_flow [OF _ assms [OF False]])
    show "moves (sad_egress (scf_advanced c)) InFlow
        (if frame_type frame \<noteq> UdpPacket then send_error w c (flow_id frame) ProtocolError False
         else send_udp_packet_response w c frame) (ends InFlow {InFlow})"
      using moves_send_error(1) [of _ w c _ _ False] moves_answer_udp [of c w frame False]
      by (simp add: send_udp_packet_response_def)
  qed
qed

lemma moves_udp_flow_loop:
  "moves (sad_egress (scf_advanced c)) InFlow (udp_flow_loop w c fid deadline frames end) flow_done"
proof (induction frames arbitrary: deadline)
  case Nil
  show ?case
  proof (cases "deadline = Some 0")
    case True
    then show ?thesis by (simp add: moves_flow_ends(2) Frame_new_def)
  next
    case False
    show ?thesis unfolding udp_flow_loop.simps if_not_P [OF False]
      by (rule moves_quiet; cases "end") (simp_all add: ret_def fails_def flow_done_def)
  qed
next
  case (Cons frame frames)
  show ?case
  proof (cases "deadline = Some 0")
    case True
    then show ?thesis by (simp add: moves_flow_ends(2) Frame_new_def)
  next
    case False
    show ?thesis unfolding udp_flow_loop.simps if_not_P [OF False] by (rule moves_udp_turn) (rule Cons)
  qed
qed

lemma moves_window_update:
  "moves g InFlow (send_h2_server_frame w c (Frame_new WindowUpdate 0 fid []) False) (ends InFlow {InFlow})"
  using moves_flow_send [of "Frame_new WindowUpdate 0 fid []" g w c False] by (simp add: Frame_new_def)

lemma moves_udp_flow: "moves (sad_egress (scf_advanced c)) InFlow (handle_udp_flow w c frame) flow_done"
proof -
  have "moves (sad_egress (scf_advanced c)) InFlow (\<lambda>s. let (frames, end) =
      read_all_h2 (unat (sad_max_frame_size (scf_advanced c))) (ss_recv s) (ss_buf s) in
      udp_flow_loop w c (flow_id frame) (wd_udp_deadline w) frames end s) flow_done"
    unfolding Let_def case_prod_beta
    by (rule moves_state [where F = "\<lambda>s. udp_flow_loop w c (flow_id frame) (wd_udp_deadline w)
          (fst (read_all_h2 (unat (sad_max_frame_size (scf_advanced c))) (ss_recv s) (ss_buf s)))
          (snd (read_all_h2 (unat (sad_max_frame_size (scf_advanced c))) (ss_recv s) (ss_buf s)))"])
       (rule moves_udp_flow_loop)
  then show ?thesis unfolding handle_udp_flow_def
    by (auto intro!: moves_bind_flow [OF moves_window_update] moves_flow_ends(1) split: outcome.splits)
qed

lemma moves_dns: "moves (sad_egress (scf_advanced c)) InFlow (handle_dns_query w c frame) flow_done"
proof -
  let ?g = "sad_egress (scf_advanced c)"
  have a: "moves ?g InFlow (case reply of
             Some response \<Rightarrow> send_h2_server_frame w c (Frame_new DnsResponse 0 (flow_id frame) response) True
           | None \<Rightarrow> send_error w c (flow_id frame) InternalError True) flow_done" for reply
    by (cases reply) (auto simp: Frame_new_def intro!: moves_flow_ends)
  have "moves ?g InFlow (let (reply, reached) = relay_dns_query l (\<lambda>_ _. d) ?g (payload frame) in
      bind_step (emit_all (map Reached reached)) (\<lambda>_. case reply of
             Some response \<Rightarrow> send_h2_server_frame w c (Frame_new DnsResponse 0 (flow_id frame) response) True
           | None \<Rightarrow> send_error w c (flow_id frame) InternalError True)) flow_done" for l :: "'b lookup" and d
    unfolding Let_def case_prod_beta
    by (rule moves_bind_flow [OF moves_reached]) (use datagrams_allowed(2) allowed_targets_allowed a in blast)+
  then show ?thesis unfolding handle_dns_query_def
    by (auto intro!: moves_bind_flow [OF moves_flow_count] moves_bind_flow [OF moves_next(1)] moves_bind_flow [OF moves_next(2)]
        moves_flow_ends(1) split: option.splits)
qed

lemma attempts_allowed:
  assumes "open_target_inner l evs rt ct g m = Some (res, m', attempts)"
  shows "\<forall>a \<in> set attempts. allows_ip g (sa_ip a)"
proof -
  have "set attempts \<subseteq> set (allowed_targets l g)"
    using open_target_connects [OF assms] connect_order_props(4) [of "allowed_targets l g"]
    by (metis mset_eq_setD set_mono_prefix)
  then show ?thesis using allowed_targets_allowed by blast
qed

lemma moves_targets: "moves g q target_metrics (ends q {q})" "moves g q (record_targets m) (ends q {q})"
  by (rule moves_quiet; simp add: target_metrics_def record_targets_def split: option.splits)+

lemma moves_open_target: "moves (sad_egress (scf_advanced c)) InFlow (open_target w c open) (ends InFlow {InFlow})"
  unfolding open_target_def
  by (intro moves_bind_ends [OF moves_next(1)] moves_bind_ends [OF moves_targets(1)])
     (auto split: option.split dest!: attempts_allowed
       intro!: moves_ret moves_bind_ends [OF moves_targets(2)] moves_bind_ends [OF moves_reached])

lemma moves_relay: "moves g InFlow (relay_target_and_tunnel w c fid) flow_done"
proof -
  have "moves g InFlow (\<lambda>s. let (r, relay) = wd_relay w
             \<lparr>ry_fill = wd_fill w, ry_padding = padding, ry_cover_traffic = server_cover_traffic c,
              ry_max_frame_size = unat (sad_max_frame_size (scf_advanced c)), ry_flow_id = fid\<rparr>
             (relay_start (ss_rng s) (ss_recv s) (ss_buf s)) in
       (r, s\<lparr>ss_trace := ss_trace s @ [Relayed relay]\<rparr>)) flow_done" for padding
    by (rule movesI) (simp add: flow_done_def Let_def case_prod_beta)
  then show ?thesis unfolding relay_target_and_tunnel_def by (intro moves_bind_flow [OF moves_of_result])
qed

lemma moves_open_tcp: "moves (sad_egress (scf_advanced c)) InFlow (handle_open_tcp w c frame open) flow_done"
  unfolding handle_open_tcp_def
  by (rule moves_bind_flow [OF moves_open_target])
     (auto split: option.split intro!: moves_flow_ends(1) moves_bind_flow [OF moves_flow_count]
        moves_bind_flow [OF moves_window_update] moves_relay)

lemma moves_udp_packet: "moves (sad_egress (scf_advanced c)) InFlow (handle_udp_packet w c frame) flow_done"
  unfolding handle_udp_packet_def by (rule moves_flow_ends(3))

text \<open>The data an opening frame carries along is decoded and not used.\<close>

lemma open_tcp_ignores_initial_data:
  "handle_open_tcp w c frame (request\<lparr>ot_initial_data := d\<rparr>) = handle_open_tcp w c frame request"
  by (simp add: handle_open_tcp_def open_target_def)

text \<open>A flow permit is given back however the work under it ends.\<close>

definition greeted_done :: "'a io_result \<Rightarrow> phase \<Rightarrow> bool" where
  "greeted_done r x = (x \<in> {Greeted, Ended, Closed})"

lemma moves_greeted_error: "moves g Greeted (send_error w c fid code True) greeted_done"
  by (rule moves_weaken [OF moves_send_error(2)]) (auto simp: greeted_done_def elim: ends.elims)

lemma moves_flow_permit:
  assumes "moves g InFlow body flow_done"
  shows "moves g Greeted (with_flow_permit w c user_id policy fid body) greeted_done"
proof -
  have c: "moves g Greeted (emit (Count ActiveFlows)) (ends InFlow {})"
      "moves g Greeted (emit (Count FlowLimitRejections)) (ends Greeted {})"
    by (rule moves_emit; simp add: count_phase_def)+
  have "moves g InFlow (guarded body (Uncount ActiveFlows)) greeted_done"
    by (rule moves_guarded, rule moves_weaken [OF assms]) (auto simp: flow_done_def greeted_done_def uncount_phase_def)
  then show ?thesis
    unfolding with_flow_permit_def
    by (auto intro!: moves_bind [OF c(1)] moves_bind [OF c(2)] moves_greeted_error)
qed

lemma moves_open_frame:
  "moves (sad_egress (scf_advanced c)) Greeted (handle_open_frame w c user_id policy frame) greeted_done"
  unfolding handle_open_frame_def Let_def
  by (auto split: outcome.split intro!: moves_flow_permit moves_greeted_error moves_dns moves_udp_flow moves_udp_packet moves_open_tcp)

definition served_done :: "'a io_result \<Rightarrow> phase \<Rightarrow> bool" where
  "served_done r x = (x \<in> {Authenticated, Greeted, Ended, Closed})"

lemma moves_bind_served:
  assumes "moves g q m (ends q1 E)" "\<And>a. moves g q1 (k a) served_done" "E \<subseteq> {Authenticated, Greeted}"
  shows "moves g q (bind_step m k) served_done"
  by (rule moves_bind [OF assms(1)]) (use assms(2,3) in \<open>auto simp: served_done_def\<close>)

lemma moves_serve: "moves (sad_egress (scf_advanced c)) Arrived (serve_authenticated w c a) served_done"
proof -
  let ?g = "sad_egress (scf_advanced c)"
  have e: "moves ?g Arrived (emit (Uncount ActivePreAuth)) (ends Admitted {})"
      "moves ?g Admitted (emit (Count AuthenticatedSessions)) (ends Authenticated {})"
    by (rule moves_emit; simp add: count_phase_def uncount_phase_def)+
  have h: "moves ?g Authenticated (transport [Head200]) (ends Authenticated {Authenticated})"
    by (rule moves_transport) auto
  have m: "moves ?g Authenticated (make_server_hello w c a) (ends Authenticated {Authenticated})"
    by (rule moves_quiet) (simp_all add: make_server_hello_def of_result_def Let_def case_prod_beta)
  have s: "moves ?g Authenticated (send_h2_server_frame w c (Frame_new ServerHello 0 0 x) False) (ends Greeted {Authenticated, Greeted})" for x
    by (rule moves_send(1)) (simp_all add: frame_phase_def Frame_new_def)
  have r: "moves ?g Greeted (read_frame n) (ends Greeted {Greeted})" for n
    by (rule moves_quiet) (simp_all add: read_frame_def Let_def case_prod_beta)
  have o: "moves ?g Greeted (send_error w c 0 ProtocolError True) served_done"
      "moves ?g Greeted (handle_open_frame w c u pol f) served_done" for u pol f
    by (rule moves_weaken [OF moves_greeted_error] moves_weaken [OF moves_open_frame]; auto simp: greeted_done_def served_done_def)+
  have f: "moves ?g Authenticated (fails x) served_done" for x by (rule moves_fails) (simp add: served_done_def)
  show ?thesis
    unfolding serve_authenticated_def Let_def
    by (intro moves_bind_served [OF e(1)] moves_bind_served [OF e(2)])
       (auto split: option.split intro!: f moves_bind_served [OF h] moves_bind_served [OF m] moves_bind_served [OF s]
          moves_bind_served [OF r] o)
qed

lemma moves_site:
  "moves g AtSite (send_fallback_with_body w c method path headers body) (ends AtSite {AtSite})"
proof -
  have e: "moves g AtSite (emit (Count m)) (ends AtSite {AtSite})"
    if "m \<in> {AuthRateLimitRejections, FallbackOverloadRejections, ActiveFallbacks, FallbackRequests}" for m
    by (rule moves_emit) (use that in \<open>auto simp: count_phase_def\<close>)
  have t: "moves g AtSite (transport [a]) (ends AtSite {AtSite})" if "a = ResponseHead st hs \<or> a = ResponseBody b" for a st hs b
    by (rule moves_transport [where q' = AtSite]) (use that in auto)
  have r: "moves g AtSite (send_response x) (ends AtSite {AtSite})" for x
    unfolding send_response_def by (intro moves_bind_ends [OF t]) (auto intro!: moves_ret t)
  have gd: "moves g AtSite (guarded m (Uncount ActiveFallbacks)) (ends AtSite {AtSite})"
    if "moves g AtSite m (ends AtSite {AtSite})" for m
    by (rule moves_guarded, rule moves_weaken [OF that]) (auto simp: uncount_phase_def elim!: ends.elims)
  show ?thesis
    unfolding send_fallback_with_body_def send_fallback_overload_def
    by (auto intro!: moves_bind_ends [OF e] r gd)
qed

lemma moves_reject:
  "moves g Arrived (guarded (reject_to_fallback w c method path headers body) (Uncount ActivePreAuth)) (\<lambda>r x. x = SiteClosed)"
proof -
  have e: "moves g Arrived (emit (Count UnauthenticatedRejections)) (ends AtSite {})"
    by (rule moves_emit) (simp_all add: count_phase_def)
  have f: "moves g AtSite (record_auth_failure w c) (ends AtSite {AtSite})"
    by (rule movesI)
       (auto simp: record_auth_failure_def Let_def case_prod_beta bind_step_def emit_def ret_def count_phase_def)
  have "moves g Arrived (reject_to_fallback w c method path headers body) (ends AtSite {AtSite})"
    unfolding reject_to_fallback_def
    by (intro moves_bind_ends [OF e] moves_bind_ends [OF f]) (auto intro!: moves_ret moves_site)
  then show ?thesis
    by (rule moves_guarded [OF moves_weaken]) (auto simp: uncount_phase_def elim!: ends.elims)
qed

subsection \<open>What the protocol gives\<close>

lemma run_phases_reached: "run_phases g q tr = Some q' \<Longrightarrow> Reached a \<in> set tr \<Longrightarrow> allows_ip g (sa_ip a)"
  by (induction g q tr rule: run_phases.induct) (auto split: option.splits if_splits)

fun at_site :: "'r action \<Rightarrow> bool" where
  "at_site (Count m) = (m \<notin> {AuthenticatedSessions, ActiveFlows, TcpFlows, DnsQueries})"
| "at_site (Uncount m) = (m \<noteq> ActiveFlows)"
| "at_site (ResponseHead st hs) = True"
| "at_site (ResponseBody b) = True"
| "at_site a = False"

lemma phase_step_site:
  "phase_step g q a = Some q' \<Longrightarrow> q' \<in> {Arrived, AtSite, SiteClosed} \<Longrightarrow> q \<in> {Arrived, AtSite, SiteClosed} \<and> at_site a"
  by (cases a; cases q) (auto simp: count_phase_def uncount_phase_def frame_phase_def trailer_phase_def split: if_splits)

lemma run_phases_site:
  "run_phases g q tr = Some SiteClosed \<Longrightarrow> q \<in> {Arrived, AtSite, SiteClosed} \<and> list_all at_site tr"
proof (induction g q tr rule: run_phases.induct)
  case (2 g q a as)
  then obtain q' where q': "phase_step g q a = Some q'" "run_phases g q' as = Some SiteClosed" by (auto split: option.splits)
  with 2 have "q' \<in> {Arrived, AtSite, SiteClosed}" "list_all at_site as" by auto
  with phase_step_site [OF q'(1)] show ?case by simp
qed simp

definition holds_flow :: "phase \<Rightarrow> nat" where
  "holds_flow q = (if q \<in> {InFlow, FlowEnded} then 1 else 0)"

lemma phase_step_flow:
  "phase_step g q a = Some q' \<Longrightarrow>
     (if a = Count ActiveFlows then 1 else 0) + holds_flow q = (if a = Uncount ActiveFlows then 1 else 0) + holds_flow q'"
  by (cases a; cases q)
     (auto simp: holds_flow_def count_phase_def uncount_phase_def frame_phase_def trailer_phase_def split: if_splits)

lemma run_phases_flow:
  "run_phases g q tr = Some q' \<Longrightarrow>
     count_list tr (Count ActiveFlows) + holds_flow q = count_list tr (Uncount ActiveFlows) + holds_flow q'"
proof (induction g q tr rule: run_phases.induct)
  case (2 g q a as)
  then obtain x where x: "phase_step g q a = Some x" "run_phases g x as = Some q'" by (auto split: option.splits)
  with 2 phase_step_flow [OF x(1)] show ?case by (auto split: if_splits)
qed simp

lemma authenticate_first_Ok: "server_ok st \<Longrightarrow> \<exists>a. fst (authenticate_first w st first) = Ok a"
proof -
  assume "server_ok st"
  then have ne: "st_replay st \<noteq> []" by (simp add: server_ok_def sharded_inv_def)
  have "\<exists>a. fst (authenticate_tunnel_frame K hash frame st now b) = Ok a" for K hash frame now b
    using sharded_check_not_Panic [OF ne]
    by (auto simp: authenticate_tunnel_frame_def Let_def case_prod_beta split: option.splits outcome.splits)
  then show ?thesis by (auto simp: authenticate_first_def split: option.splits outcome.splits)
qed

lemma handle_tunnel_moves:
  assumes "server_ok st"
    and "authenticate_first w st (fst (read_first_frame w (st_config st) request)) = (auth, st1)"
  defines "g \<equiv> sad_egress (scf_advanced (st_config st))"
  shows "\<exists>tr q. ss_trace (snd (fst (handle_tunnel w st request s))) = ss_trace s @ tr \<and> run_phases g Arrived tr = Some q
     \<and> snd (handle_tunnel w st request s) = st1
     \<and> (auth = Ok None \<and> q = SiteClosed \<or> (\<exists>a. auth = Ok (Some a)) \<and> q \<in> {Authenticated, Greeted, Ended, Closed})"
proof -
  obtain first recv buf body where f: "read_first_frame w (st_config st) request = (first, recv, buf, body)" by (metis prod.collapse)
  have np: "\<exists>a. auth = Ok a" using authenticate_first_Ok [OF assms(1), of w first] assms(2) f by simp
  let ?s = "s\<lparr>ss_recv := recv, ss_buf := buf\<rparr>"
  consider a where "auth = Ok (Some a)" | "auth = Ok None" using np by fastforce
  then show ?thesis
  proof cases
    case (1 a)
    from moves_serve [of "st_config st" w a] obtain tr q where
      "ss_trace (snd (serve_authenticated w (st_config st) a ?s)) = ss_trace ?s @ tr" "run_phases g Arrived tr = Some q"
      "served_done (fst (serve_authenticated w (st_config st) a ?s)) q" unfolding moves_def g_def by blast
    then show ?thesis using 1 f assms(2) by (intro exI [of _ tr] exI [of _ q]) (simp add: handle_tunnel_def served_done_def)
  next
    case 2
    let ?m = "guarded (reject_to_fallback w (st_config st) (rq_method request) (rq_path_and_query request) (rq_headers request) body)
        (Uncount ActivePreAuth)"
    from moves_reject obtain tr where "ss_trace (snd (?m ?s)) = ss_trace ?s @ tr" "run_phases g Arrived tr = Some SiteClosed"
      unfolding moves_def by metis
    then show ?thesis using 2 f assms(2) by (intro exI [of _ tr] exI [of _ SiteClosed]) (auto simp: handle_tunnel_def)
  qed
qed

text \<open>C4. A tunnel request follows the protocol of its phases, whatever the peer, the transport, the resolver and the targets
do. A request that does not authenticate only ever reaches the fallback site: no hello, no frame, no address. A request
that does authenticate is greeted by the server hello before anything else; addresses are reached only under a flow permit
and only if the egress policy allows them; nothing follows the trailers; and every flow permit taken is given back.\<close>

theorem tunnel_request_protocol:
  assumes "server_ok st" "handle_tunnel w st request s = ((res, s'), st')"
    and "authenticate_first w st (fst (read_first_frame w (st_config st) request)) = (auth, st1)"
  shows "\<exists>tr q. ss_trace s' = ss_trace s @ tr
     \<and> run_phases (sad_egress (scf_advanced (st_config st))) Arrived tr = Some q \<and> st' = st1
     \<and> (auth = Ok None \<and> q = SiteClosed \<and> list_all at_site tr
        \<or> (\<exists>a. auth = Ok (Some a)) \<and> q \<in> {Authenticated, Greeted, Ended, Closed})
     \<and> (\<forall>addr. Reached addr \<in> set tr \<longrightarrow> allows_ip (sad_egress (scf_advanced (st_config st))) (sa_ip addr))
     \<and> count_list tr (Count ActiveFlows) = count_list tr (Uncount ActiveFlows)"
proof -
  from handle_tunnel_moves [OF assms(1,3), of s] assms(2) obtain tr q where t: "ss_trace s' = ss_trace s @ tr"
      "run_phases (sad_egress (scf_advanced (st_config st))) Arrived tr = Some q" "st' = st1"
      "auth = Ok None \<and> q = SiteClosed \<or> (\<exists>a. auth = Ok (Some a)) \<and> q \<in> {Authenticated, Greeted, Ended, Closed}"
    by auto
  have "holds_flow q = 0" using t(4) by (auto simp: holds_flow_def)
  then have "count_list tr (Count ActiveFlows) = count_list tr (Uncount ActiveFlows)"
    using run_phases_flow [OF t(2)] by (simp add: holds_flow_def)
  with t run_phases_reached [OF t(2)] run_phases_site show ?thesis by blast
qed

text \<open>What is handed to the site for a rejected tunnel request is a beginning of its body, of bounded length.\<close>

lemma captured_body:
  assumes "read_first_frame w c request = (first, recv, buf, body)"
  shows "length body \<le> MAX_FALLBACK_REQUEST_BODY_BYTES \<and> prefix body (concat (map event_data (rq_body request)))"
proof -
  define arrived where "arrived = (case wd_first_deadline w of None \<Rightarrow> rq_body request | Some n \<Rightarrow> take n (rq_body request))"
  obtain r recv' buf' cap where i: "read_next_frame_impl (unat (sad_max_frame_size (scf_advanced c)))
      MAX_FALLBACK_REQUEST_BODY_BYTES arrived [] (Some []) = (r, recv', buf', cap)" by (metis prod.collapse)
  from read_capture [OF this] obtain k cap' where k: "cap = Some cap'" "length cap' \<le> MAX_FALLBACK_REQUEST_BODY_BYTES"
      "cap' = concat (map event_data (take k arrived))" by auto
  have body: "body = cap'"
    using assms i k(1) by (simp add: read_first_frame_def read_next_frame_capturing_def arrived_def [symmetric] Let_def)
  obtain n where "take k arrived = take n (rq_body request)"
    by (cases "wd_first_deadline w") (auto simp: arrived_def take_take)
  moreover have "prefix (concat (map event_data (take n (rq_body request)))) (concat (map event_data (rq_body request)))"
    by (metis append_take_drop_id concat_append map_append prefixI)
  ultimately show ?thesis using k body by simp
qed

subsection \<open>What a probe sees\<close>

fun is_response :: "'r action \<Rightarrow> bool" where
  "is_response (ResponseHead st hs) = True"
| "is_response (ResponseBody b) = True"
| "is_response Head200 = True"
| "is_response (Sent f) = True"
| "is_response Trailers = True"
| "is_response a = False"

text \<open>A step that depends on the session only through the answers to its sends.\<close>

definition sends_only :: "('r, 'e, 'a) step \<Rightarrow> bool" where
  "sends_only m = (\<exists>f. \<forall>s. m s = (case f (ss_sends s) of (r, rest, tr) \<Rightarrow>
      (r, s\<lparr>ss_sends := rest, ss_trace := ss_trace s @ tr\<rparr>)))"

lemma sends_onlyI:
  "(\<And>s. m s = (fst (f (ss_sends s)), s\<lparr>ss_sends := fst (snd (f (ss_sends s))), ss_trace := ss_trace s @ snd (snd (f (ss_sends s)))\<rparr>))
   \<Longrightarrow> sends_only m"
  unfolding sends_only_def case_prod_beta by blast

lemma sends_only_trace: "sends_only m \<Longrightarrow> \<exists>tr. ss_trace (snd (m s)) = ss_trace s @ tr"
  by (auto simp: sends_only_def case_prod_beta)

lemma sends_only_ret: "sends_only (ret a)"
  by (rule sends_onlyI [where f = "\<lambda>x. (Ok a, x, [])"]) (simp add: ret_def)

lemma sends_only_emit: "sends_only (emit a)"
  by (rule sends_onlyI [where f = "\<lambda>x. (Ok (), x, [a])"]) (simp add: emit_def)

lemma sends_only_transport: "sends_only (transport as)"
  by (rule sends_onlyI [where f = "\<lambda>x. case x of [] \<Rightarrow> (Err IoStall, [], []) | Ok _ # rest \<Rightarrow> (Ok (), rest, as)
        | Err e # rest \<Rightarrow> (Err e, rest, []) | Panic # rest \<Rightarrow> (Err IoTransport, rest, [])"])
     (simp add: transport_def split: list.split outcome.split)

lemma sends_only_bind:
  assumes "sends_only m" "\<And>a. sends_only (k a)"
  shows "sends_only (bind_step m k)"
proof -
  from assms(1) obtain f where f: "\<And>s. m s = (case f (ss_sends s) of (r, rest, tr) \<Rightarrow>
      (r, s\<lparr>ss_sends := rest, ss_trace := ss_trace s @ tr\<rparr>))" unfolding sends_only_def by blast
  from assms(2) obtain h where h: "\<And>a s. k a s = (case h a (ss_sends s) of (r, rest, tr) \<Rightarrow>
      (r, s\<lparr>ss_sends := rest, ss_trace := ss_trace s @ tr\<rparr>))" unfolding sends_only_def by metis
  show ?thesis
    by (rule sends_onlyI [where f = "\<lambda>x. case f x of (Ok a, rest, tr) \<Rightarrow> (case h a rest of (r, rest', tr') \<Rightarrow> (r, rest', tr @ tr'))
          | (Err e, rest, tr) \<Rightarrow> (Err e, rest, tr) | (Panic, rest, tr) \<Rightarrow> (Panic, rest, tr)"])
       (simp add: bind_step_def f h split: prod.split outcome.split)
qed

lemma sends_only_guarded:
  assumes "sends_only m" shows "sends_only (guarded m a)"
proof -
  from assms obtain f where f: "\<And>s. m s = (case f (ss_sends s) of (r, rest, tr) \<Rightarrow>
      (r, s\<lparr>ss_sends := rest, ss_trace := ss_trace s @ tr\<rparr>))" unfolding sends_only_def by blast
  show ?thesis
    by (rule sends_onlyI [where f = "\<lambda>x. case f x of (r, rest, tr) \<Rightarrow> (r, rest, tr @ [a])"])
       (simp add: guarded_def f split: prod.split)
qed

lemma sends_only_site: "sends_only (send_fallback_with_body w c method path headers body)"
  unfolding send_fallback_with_body_def send_fallback_overload_def send_response_def
  by (auto intro!: sends_only_bind sends_only_emit sends_only_transport sends_only_guarded sends_only_ret)

text \<open>The same server with its tunnel at another path.\<close>

definition elsewhere :: "ServerState \<Rightarrow> bytes \<Rightarrow> ServerState" where
  "elsewhere st p = st\<lparr>st_config := (st_config st)\<lparr>scf_maverick := (scf_maverick (st_config st))\<lparr>ms_tunnel_path := p\<rparr>\<rparr>\<rparr>"

lemma site_elsewhere:
  "send_fallback_with_body w (st_config (elsewhere st p)) = send_fallback_with_body w (st_config st)"
  by (intro ext) (simp add: elsewhere_def send_fallback_with_body_def)

lemma record_auth_failure_quiet:
  "\<exists>d tr t. record_auth_failure w c s = (Ok d, s\<lparr>ss_failures := t, ss_trace := ss_trace s @ tr\<rparr>) \<and> filter is_response tr = []"
proof -
  obtain d t where "record_failure (ss_failures s) (wd_peer w) (wd_instant w)
      (unat (sad_auth_failure_window_secs (scf_advanced c)) * 1000000000) (sad_max_auth_failures_per_window (scf_advanced c))
      (unat (sad_auth_failure_cache_max_entries (scf_advanced c))) = (d, t)" by (metis prod.collapse)
  then show ?thesis
    by (cases "d = RateLimited")
       (auto simp: record_auth_failure_def bind_step_def emit_def ret_def intro!: exI [of _ t]
         intro: exI [of _ "[]"] exI [of _ "[Count AuthRateLimitRejections]"])
qed

lemma reject_answers_like_site:
  assumes "stl_active_probe_resistance (sad_stealth (scf_advanced c))" "ss_sends s = ss_sends s0"
  shows "\<exists>r tr tr0. fst (guarded (reject_to_fallback w c method path headers body) a s) = r
     \<and> ss_trace (snd (guarded (reject_to_fallback w c method path headers body) a s)) = ss_trace s @ tr
     \<and> fst (guarded (send_fallback_with_body w c method path headers body) a s0) = r
     \<and> ss_trace (snd (guarded (send_fallback_with_body w c method path headers body) a s0)) = ss_trace s0 @ tr0
     \<and> filter is_response tr = filter is_response tr0"
proof -
  obtain f where f: "\<And>s. send_fallback_with_body w c method path headers body s = (case f (ss_sends s) of (r, rest, tr) \<Rightarrow>
      (r, s\<lparr>ss_sends := rest, ss_trace := ss_trace s @ tr\<rparr>))" using sends_only_site unfolding sends_only_def by blast
  obtain r rest tr where fr: "f (ss_sends s0) = (r, rest, tr)" by (metis prod.collapse)
  let ?s = "s\<lparr>ss_trace := ss_trace s @ [Count UnauthenticatedRejections]\<rparr>"
  obtain d tr1 t where q: "record_auth_failure w c ?s = (Ok d, ?s\<lparr>ss_failures := t, ss_trace := ss_trace ?s @ tr1\<rparr>)"
      "filter is_response tr1 = []" using record_auth_failure_quiet by blast
  show ?thesis
    using q fr assms
    by (intro exI [of _ r] exI [of _ "Count UnauthenticatedRejections # tr1 @ tr @ [a]"] exI [of _ "tr @ [a]"])
       (simp add: guarded_def reject_to_fallback_def bind_step_def [of "emit _"] bind_step_def [of "record_auth_failure w c"]
          emit_def f)
qed

text \<open>C5. A probe learns nothing from the tunnel path. With active probe resistance, a request to the tunnel path that does not
authenticate, and whose body was read to its end, gets exactly the answer the server gives when its tunnel is at
another path: the same response head and body in the same order, and the same outcome when the transport fails.\<close>

theorem probes_see_the_site:
  assumes "stl_active_probe_resistance (sad_stealth (scf_advanced (st_config st)))"
    and "read_first_frame w (st_config st) request = (first, recv, buf, body)"
    and "fst (authenticate_first w st first) = Ok None"
    and "collect_fallback_request_body (rq_body request) [] = Ok body" "p \<noteq> rq_path request"
    and "handle_request w st request s = ((r1, s1), st1)" "handle_request w (elsewhere st p) request s = ((r2, s2), st2)"
  shows "r1 = r2 \<and> (\<exists>tr1 tr2. ss_trace s1 = ss_trace s @ tr1 \<and> ss_trace s2 = ss_trace s @ tr2
     \<and> filter is_response tr1 = filter is_response tr2)"
proof -
  let ?site = "guarded (send_fallback_with_body w (st_config st) (rq_method request) (rq_path_and_query request)
      (rq_headers request) body) (Uncount ActivePreAuth)"
  have p: "ms_tunnel_path (scf_maverick (st_config (elsewhere st p))) = p" by (simp add: elsewhere_def)
  have 2: "?site s = (r2, s2)" using assms(4,5,7) by (simp add: handle_request_def p site_elsewhere)
  show ?thesis
  proof (cases "rq_method request = ascii ''POST'' \<and> rq_path request = ms_tunnel_path (scf_maverick (st_config st))")
    case True
    have 1: "guarded (reject_to_fallback w (st_config st) (rq_method request) (rq_path_and_query request) (rq_headers request) body)
        (Uncount ActivePreAuth) (s\<lparr>ss_recv := recv, ss_buf := buf\<rparr>) = (r1, s1)"
      using True assms(2,3,6) by (cases "authenticate_first w st first") (simp add: handle_request_def handle_tunnel_def)
    from reject_answers_like_site [OF assms(1), of "s\<lparr>ss_recv := recv, ss_buf := buf\<rparr>" s w "rq_method request"
        "rq_path_and_query request" "rq_headers request" body "Uncount ActivePreAuth", unfolded 1 2]
    show ?thesis by auto
  next
    case False
    then have "?site s = (r1, s1)" using assms(4,6) by (auto simp: handle_request_def)
    moreover have "\<exists>tr. ss_trace (snd (?site s)) = ss_trace s @ tr"
      by (rule sends_only_trace [OF sends_only_guarded [OF sends_only_site]])
    ultimately show ?thesis using 2 by auto
  qed
qed

subsection \<open>Examples\<close>

definition example_world :: "(unit, unit) world" where
  "example_world =
     \<lparr>wd_crypto = example_crypto, wd_hash = (\<lambda>_. 0), wd_os = (\<lambda>r n. (Some (replicate n 0), r)), wd_fill = zero_fill,
      wd_now_unix = 100, wd_instant = 0, wd_peer = V4 0x08080808, wd_binding = None, wd_first_deadline = None,
      wd_open_deadline = False, wd_udp_deadline = None, wd_flows_in_use = (\<lambda>_. 0), wd_fallbacks_in_use = 0,
      wd_site = (\<lambda>_ _ _ body. Some (text_response 200 ''welcome'')), wd_connects = [], wd_elapsed = (0, 0),
      wd_relay = (\<lambda>_ s. (Ok (), s))\<rparr>"

definition example_session :: "(unit, unit) session" where
  "example_session =
     \<lparr>ss_rng = (), ss_recv = [], ss_buf = [], ss_sends = [Ok (), Ok ()], ss_lookups = [], ss_datagrams = [],
      ss_failures = AuthFailureTracker_default,
      ss_targets = \<lparr>ts_resolution_timeouts = 0, ts_resolution_failures = 0, ts_connect_timeouts = 0, ts_connect_failures = 0,
        ts_resolution_latency = CumulativeLatencyMetric_default, ts_connect_latency = CumulativeLatencyMetric_default\<rparr>,
      ss_trace = []\<rparr>"

definition example_request :: "bytes list \<Rightarrow> http_request" where
  "example_request chunks =
     \<lparr>rq_method = ascii ''POST'', rq_path_and_query = ascii ''/'', rq_path = ascii ''/'', rq_headers = [],
      rq_body = data_events chunks\<rparr>"

lemma example_first_hello:
  assumes "grpc_ok (unat (sad_max_frame_size (scf_advanced c))) f" "frame_type f \<noteq> Padding" "length (grpc_bytes f) \<le> 1024 * 1024"
  shows "fst (read_first_frame example_world c (example_request [grpc_bytes f])) = Some (Ok (Some f))"
  using assms decode_grpc_complete [OF assms(1), of "[]"]
  by (simp add: read_first_frame_def example_world_def example_request_def read_next_frame_capturing_def
      read_next_frame_impl.simps [of _ _ "[RecvData _ _]"] read_next_frame_impl.simps [of _ _ _ "grpc_bytes _"]
      decode_grpc_frame_from_def [of "[]"] GRPC_MESSAGE_HEADER_LEN_def MAX_FALLBACK_REQUEST_BODY_BYTES_def)

lemma example_state_ok: "server_ok (example_state v2_off)"
  by (rule server_state_ok [OF example_server_state])

theorem tunnel_request_protocol_witness:
  "let st = example_state v2_off;
       request = example_request [grpc_bytes (Frame_new ClientHello 0 0 (ClientHello_encode example_hello))];
       s' = snd (fst (handle_tunnel example_world st request example_session)) in
   \<exists>q. run_phases (sad_egress (scf_advanced (st_config st))) Arrived (ss_trace s') = Some q
      \<and> q \<in> {Authenticated, Greeted, Ended, Closed}"
proof -
  let ?st = "example_state v2_off" and ?f = "Frame_new ClientHello 0 0 (ClientHello_encode example_hello)"
  let ?request = "example_request [grpc_bytes ?f]"
  have "length (hmac_sha256 example_crypto k m) = 32" for k m using example_crypto_ok by (simp add: crypto_ok_def)
  then have len: "length (ClientHello_encode example_hello) \<le> 1024"
    by (simp add: ClientHello_encode_def example_hello_def Let_def put_string_def)
  have size: "unat (sad_max_frame_size (scf_advanced (st_config ?st))) = 65536"
    by (simp add: example_state_def example_server_config_def ServerAdvancedConfig_default_def default_max_frame_size_def
        DEFAULT_MAX_FRAME_SIZE_def)
  have first: "fst (read_first_frame example_world (st_config ?st) ?request) = Some (Ok (Some ?f))"
    by (rule example_first_hello) (use len in \<open>simp_all add: size grpc_ok_def Frame_new_def length_grpc_bytes FRAME_HEADER_LEN_def USIZE_MAX_def\<close>)
  obtain a st1 where "authenticate_tunnel_frame example_crypto (\<lambda>_. 0) ?f ?st 100 None = (Ok (Some a), st1)"
    using example_accepted by blast
  then have auth: "authenticate_first example_world ?st (fst (read_first_frame example_world (st_config ?st) ?request)) = (Ok (Some a), st1)"
    unfolding first by (simp add: authenticate_first_def example_world_def Frame_new_def)
  obtain r s' st' where h: "handle_tunnel example_world ?st ?request example_session = ((r, s'), st')" by (metis prod.collapse)
  from tunnel_request_protocol [OF example_state_ok h auth] h show ?thesis
    by (auto simp: Let_def example_session_def)
qed

theorem probes_see_the_site_witness:
  "let st = example_state v2_off; request = example_request [];
       s1 = snd (fst (handle_request example_world st request example_session));
       s2 = snd (fst (handle_request example_world (elsewhere st [0x2F, 0x78]) request example_session)) in
   filter is_response (ss_trace s1) = filter is_response (ss_trace s2)
   \<and> filter is_response (ss_trace s1) \<noteq> []"
proof -
  let ?st = "example_state v2_off" and ?request = "example_request []" and ?c = "st_config (example_state v2_off)"
  have first: "read_first_frame example_world ?c ?request = (Some (Ok None), [], [], [])"
    by (simp add: read_first_frame_def example_world_def example_request_def read_next_frame_capturing_def
        read_next_frame_impl.simps [of _ _ "[]"] decode_grpc_frame_from_def GRPC_MESSAGE_HEADER_LEN_def)
  have auth: "fst (authenticate_first example_world ?st (Some (Ok None))) = Ok None" by (simp add: authenticate_first_def)
  have apr: "stl_active_probe_resistance (sad_stealth (scf_advanced ?c))"
    by (simp add: example_state_def example_server_config_def ServerAdvancedConfig_default_def StealthConfig_default_def)
  have body: "collect_fallback_request_body (rq_body ?request) [] = Ok []" "[0x2F, 0x78] \<noteq> rq_path ?request"
    by (simp_all add: example_request_def ascii_def)
  obtain r1 s1 st1 where 1: "handle_request example_world ?st ?request example_session = ((r1, s1), st1)" by (metis prod.collapse)
  obtain r2 s2 st2 where 2: "handle_request example_world (elsewhere ?st [0x2F, 0x78]) ?request example_session = ((r2, s2), st2)"
    by (metis prod.collapse)
  have "0 < unat (sad_fallback_max_concurrent (scf_advanced ?c))"
    by (simp add: example_state_def example_server_config_def ServerAdvancedConfig_default_def default_fallback_max_concurrent_def)
  then have site: "ResponseBody (ascii ''welcome'') \<in>
      set (ss_trace (snd (send_fallback_with_body example_world ?c m q hs b example_session)))" for m q hs b
    by (simp add: send_fallback_with_body_def guarded_def bind_step_def emit_def example_world_def send_response_def
        transport_def example_session_def text_response_def ascii_def)
  have "ResponseBody (ascii ''welcome'') \<in> set (ss_trace s2)"
  proof -
    have "ms_tunnel_path (scf_maverick (st_config (elsewhere ?st [0x2F, 0x78]))) = [0x2F, 0x78]" by (simp add: elsewhere_def)
    then have "s2 = snd (guarded (send_fallback_with_body example_world ?c (rq_method ?request) (rq_path_and_query ?request)
        (rq_headers ?request) []) (Uncount ActivePreAuth) example_session)"
      using 2 body by (simp add: handle_request_def site_elsewhere split: if_splits)
    with site show ?thesis by (simp add: guarded_def case_prod_beta)
  qed
  then have "filter is_response (ss_trace s2) \<noteq> []" by (auto simp: filter_empty_conv intro: bexI [rotated])
  with probes_see_the_site [OF apr first auth body 1 2] 1 2 show ?thesis by (auto simp: Let_def example_session_def)
qed

end
