(* ===== verification/Mav_Tasks.thy ===== *)
theory Mav_Tasks
  imports Mav_Prelude
begin

text \<open>
  Tasks that share state. The program runs many tasks on the same counters and behind the same
  mutexes; an interleaving model keeps the tasks as a list of program points, and one step moves one
  task. This theory holds what such models share: how often a predicate holds among the tasks and how a
  move changes that number, who owns a mutex, and the saturating counters of the metrics.
\<close>

subsection \<open>Counting tasks\<close>

definition count_tasks :: "('t \<Rightarrow> bool) \<Rightarrow> 't list \<Rightarrow> nat" where
  "count_tasks P ts = length (filter P ts)"

lemma count_update:
  "i < length ts \<Longrightarrow>
     count_tasks P (ts[i := p]) + of_bool (P (ts ! i)) = count_tasks P ts + of_bool (P p)"
proof (induction ts arbitrary: i)
  case (Cons t ts)
  then show ?case by (cases i) (auto simp: count_tasks_def)
qed simp

lemma count_ge: "i < length ts \<Longrightarrow> of_bool (P (ts ! i)) \<le> count_tasks P ts"
  using count_update [of i ts P "ts ! i"] by (auto simp: count_tasks_def length_filter_conv_card card_gt_0_iff Suc_le_eq)

lemma count_le_length: "count_tasks P ts \<le> length ts"
  by (simp add: count_tasks_def)

lemma count_move:
  "i < length ts \<Longrightarrow> count_tasks P (ts[i := q]) = count_tasks P ts + of_bool (P q) - of_bool (P (ts ! i))"
  using count_update [of i ts P q] by simp

lemma count_zero: "count_tasks P ts = 0 \<longleftrightarrow> (\<forall>t \<in> set ts. \<not> P t)"
  by (simp add: count_tasks_def filter_empty_conv)

lemma count_replicate: "\<not> P t \<Longrightarrow> count_tasks P (replicate n t) = 0"
  by (simp add: count_tasks_def)

text \<open>A move that keeps a task out of, or inside, the counted set keeps the number.\<close>

lemma count_same: "i < length ts \<Longrightarrow> P q = P (ts ! i) \<Longrightarrow> count_tasks P (ts[i := q]) = count_tasks P ts"
  using count_update [of i ts P q] by simp

subsection \<open>Owners of a mutex\<close>

text \<open>The owner of the mutex is the task at a point inside a critical section.\<close>

definition owner_ok :: "('t \<Rightarrow> bool) \<Rightarrow> nat option \<Rightarrow> 't list \<Rightarrow> bool" where
  "owner_ok has_lock own ts = (\<forall>j. own = Some j \<longleftrightarrow> j < length ts \<and> has_lock (ts ! j))"

locale task_mutex =
  fixes has_lock :: "'t \<Rightarrow> bool" and outside :: 't
  assumes outside_free: "\<not> has_lock outside"
begin

lemma owner_start: "owner_ok has_lock None (replicate n outside)"
  using outside_free by (simp add: owner_ok_def)

lemma owner_stay:
  "owner_ok has_lock own ts \<Longrightarrow> i < length ts \<Longrightarrow> has_lock q = has_lock (ts ! i) \<Longrightarrow>
     owner_ok has_lock own (ts[i := q])"
  by (simp add: owner_ok_def nth_list_update)

lemma owner_take:
  assumes "owner_ok has_lock None ts" "i < length ts" "has_lock q"
  shows "owner_ok has_lock (Some i) (ts[i := q])"
  using assms by (auto simp: owner_ok_def nth_list_update)

lemma owner_unique:
  assumes "owner_ok has_lock own ts" "i < length ts" "has_lock (ts ! i)" "j < length ts" "has_lock (ts ! j)"
  shows "i = j"
proof -
  have "own = Some i" "own = Some j" using assms unfolding owner_ok_def by blast+
  then show ?thesis by simp
qed

lemma owner_drop:
  assumes "owner_ok has_lock own ts" "i < length ts" "has_lock (ts ! i)" "\<not> has_lock q"
  shows "owner_ok has_lock None (ts[i := q])"
  using assms(2,4) owner_unique [OF assms(1-3)] by (auto simp: owner_ok_def nth_list_update)

lemma owner_none: "owner_ok has_lock own ts \<Longrightarrow> (\<And>t. t \<in> set ts \<Longrightarrow> \<not> has_lock t) \<Longrightarrow> own = None"
  unfolding owner_ok_def by (metis not_None_eq nth_mem)

end

subsection \<open>Saturating counters\<close>

definition U32_MAX :: nat where
  "U32_MAX = 4294967295"

definition U64_MAX :: nat where
  "U64_MAX = 18446744073709551615"

definition saturating_add :: "nat \<Rightarrow> nat \<Rightarrow> nat \<Rightarrow> nat" where
  "saturating_add limit a b = min (a + b) limit"

lemma saturating_add_exact [simp]: "a + b \<le> limit \<Longrightarrow> saturating_add limit a b = a + b"
  by (simp add: saturating_add_def)

end
