(* ===== verification/Connection_Limit.thy ===== *)
theory Connection_Limit
  imports Mav_Net Mav_Tasks
begin

text \<open>
  The connection limits and the stream counter of \<open>maverick-server/src/auth_gate.rs\<close>. The limits
  are shared by all connection tasks: an atomic counter and a map under a mutex. Their operations
  are modelled twice: as the functions a single caller sees, and as the interleaving of any number
  of tasks in which one step is one access to the atomic counter, one acquisition of the mutex or
  one critical section. A panic inside a critical section would poison the mutex; there is none, so
  the lock has two states. \<open>compare_exchange_weak\<close> may fail although the counter has the expected
  value, so its failing branch has no guard.
\<close>

record ConnectionLimitTracker =
  cl_global_limit :: nat
  cl_per_source_limit :: nat
  cl_global_count :: nat
  cl_source_counts :: "IpAddr \<rightharpoonup> nat"

datatype ConnectionLimitRejection = GlobalLimit | PerSourceLimit

definition ConnectionLimitTracker_new :: "nat \<Rightarrow> nat \<Rightarrow> ConnectionLimitTracker" where
  "ConnectionLimitTracker_new global_limit per_source_limit =
     \<lparr>cl_global_limit = max global_limit 1, cl_per_source_limit = max per_source_limit 1,
      cl_global_count = 0, cl_source_counts = Map.empty\<rparr>"

text \<open>The atomic operations on a \<open>usize\<close> wrap around.\<close>

definition fetch_add_usize :: "nat \<Rightarrow> nat" where
  "fetch_add_usize n = (n + 1) mod 2 ^ 64"

definition fetch_sub_usize :: "nat \<Rightarrow> nat" where
  "fetch_sub_usize n = (n + 2 ^ 64 - 1) mod 2 ^ 64"

text \<open>The counter of active streams: one guard per stream, entered on creation and left on drop.\<close>

record ActiveStreamTracker =
  as_count :: nat

definition active_count :: "ActiveStreamTracker \<Rightarrow> nat" where
  "active_count t = as_count t"

definition stream_enter :: "ActiveStreamTracker \<Rightarrow> ActiveStreamTracker" where
  "stream_enter t = t\<lparr>as_count := fetch_add_usize (as_count t)\<rparr>"

definition stream_leave :: "ActiveStreamTracker \<Rightarrow> ActiveStreamTracker" where
  "stream_leave t = t\<lparr>as_count := fetch_sub_usize (as_count t)\<rparr>"

definition try_enter_global :: "ConnectionLimitTracker \<Rightarrow> (unit, ConnectionLimitRejection) outcome \<times> ConnectionLimitTracker" where
  "try_enter_global t =
     (let current = cl_global_count t in
      if current \<ge> cl_global_limit t then (Err GlobalLimit, t)
      else (Ok (), t\<lparr>cl_global_count := current + 1\<rparr>))"

text \<open>The critical section of \<open>try_enter\<close>: \<open>entry(peer_ip).or_insert(0)\<close>, the comparison with the limit
and, below it, the increment.\<close>

definition source_count :: "ConnectionLimitTracker \<Rightarrow> IpAddr \<Rightarrow> nat" where
  "source_count t ip = (case cl_source_counts t ip of Some n \<Rightarrow> n | None \<Rightarrow> 0)"

definition enter_source :: "ConnectionLimitTracker \<Rightarrow> IpAddr \<Rightarrow> bool \<times> ConnectionLimitTracker" where
  "enter_source t ip =
     (let n = source_count t ip in
      if n \<ge> cl_per_source_limit t then (False, t\<lparr>cl_source_counts := (cl_source_counts t)(ip \<mapsto> n)\<rparr>)
      else (True, t\<lparr>cl_source_counts := (cl_source_counts t)(ip \<mapsto> n + 1)\<rparr>))"

definition drop_global :: "ConnectionLimitTracker \<Rightarrow> ConnectionLimitTracker" where
  "drop_global t = t\<lparr>cl_global_count := fetch_sub_usize (cl_global_count t)\<rparr>"

definition try_enter ::
  "ConnectionLimitTracker \<Rightarrow> IpAddr \<Rightarrow> (IpAddr, ConnectionLimitRejection) outcome \<times> ConnectionLimitTracker" where
  "try_enter t peer_ip =
     (case try_enter_global t of
        (Ok _, t) \<Rightarrow>
          (case enter_source t peer_ip of
             (True, t) \<Rightarrow> (Ok peer_ip, t)
           | (False, t) \<Rightarrow> (Err PerSourceLimit, drop_global t))
      | (Err e, t) \<Rightarrow> (Err e, t)
      | (Panic, t) \<Rightarrow> (Panic, t))"

text \<open>The critical section of \<open>leave\<close>.\<close>

definition leave_source :: "ConnectionLimitTracker \<Rightarrow> IpAddr \<Rightarrow> ConnectionLimitTracker" where
  "leave_source t ip =
     (case cl_source_counts t ip of
        None \<Rightarrow> t
      | Some n \<Rightarrow> t\<lparr>cl_source_counts := (cl_source_counts t)(ip := (if n - 1 = 0 then None else Some (n - 1)))\<rparr>)"

definition leave :: "ConnectionLimitTracker \<Rightarrow> IpAddr \<Rightarrow> ConnectionLimitTracker" where
  "leave t peer_ip = leave_source (drop_global t) peer_ip"

subsection \<open>Connection tasks\<close>

text \<open>Where a connection task is. \<open>Holding\<close> owns a guard; dropping it calls \<open>leave\<close>.\<close>

datatype task =
    Idle
  | Loaded IpAddr nat
  | Counted IpAddr
  | Checking IpAddr
  | Rejecting IpAddr
  | Holding IpAddr
  | Leaving IpAddr
  | Releasing IpAddr

record gate =
  gt_tracker :: ConnectionLimitTracker
  gt_owner :: "nat option"
  gt_tasks :: "task list"

definition gate_new :: "nat \<Rightarrow> nat \<Rightarrow> nat \<Rightarrow> gate" where
  "gate_new global_limit per_source_limit n =
     \<lparr>gt_tracker = ConnectionLimitTracker_new global_limit per_source_limit, gt_owner = None,
      gt_tasks = replicate n Idle\<rparr>"

text \<open>Task \<open>i\<close> goes to \<open>p\<close> and leaves the tracker \<open>t\<close> and the owner \<open>own\<close> of the mutex behind.\<close>

definition move :: "gate \<Rightarrow> nat \<Rightarrow> task \<Rightarrow> ConnectionLimitTracker \<Rightarrow> nat option \<Rightarrow> gate" where
  "move g i p t own = \<lparr>gt_tracker = t, gt_owner = own, gt_tasks = (gt_tasks g)[i := p]\<rparr>"

definition at_task :: "gate \<Rightarrow> nat \<Rightarrow> task \<Rightarrow> bool" where
  "at_task g i p = (i < length (gt_tasks g) \<and> gt_tasks g ! i = p)"

inductive gate_step :: "gate \<Rightarrow> gate \<Rightarrow> bool" where
  load: "at_task g i Idle \<Longrightarrow>
    gate_step g (move g i (Loaded ip (cl_global_count (gt_tracker g))) (gt_tracker g) (gt_owner g))"
| full: "at_task g i (Loaded ip current) \<Longrightarrow> current \<ge> cl_global_limit (gt_tracker g) \<Longrightarrow>
    gate_step g (move g i Idle (gt_tracker g) (gt_owner g))"
| exchange: "at_task g i (Loaded ip current) \<Longrightarrow> current < cl_global_limit (gt_tracker g) \<Longrightarrow>
    cl_global_count (gt_tracker g) = current \<Longrightarrow>
    gate_step g (move g i (Counted ip) ((gt_tracker g)\<lparr>cl_global_count := current + 1\<rparr>) (gt_owner g))"
| retry: "at_task g i (Loaded ip current) \<Longrightarrow> current < cl_global_limit (gt_tracker g) \<Longrightarrow>
    gate_step g (move g i (Loaded ip (cl_global_count (gt_tracker g))) (gt_tracker g) (gt_owner g))"
| lock: "at_task g i (Counted ip) \<Longrightarrow> gt_owner g = None \<Longrightarrow>
    gate_step g (move g i (Checking ip) (gt_tracker g) (Some i))"
| admit: "at_task g i (Checking ip) \<Longrightarrow> enter_source (gt_tracker g) ip = (True, t) \<Longrightarrow>
    gate_step g (move g i (Holding ip) t None)"
| refuse: "at_task g i (Checking ip) \<Longrightarrow> enter_source (gt_tracker g) ip = (False, t) \<Longrightarrow>
    gate_step g (move g i (Rejecting ip) t (gt_owner g))"
| unwind: "at_task g i (Rejecting ip) \<Longrightarrow>
    gate_step g (move g i Idle (drop_global (gt_tracker g)) None)"
| drop: "at_task g i (Holding ip) \<Longrightarrow>
    gate_step g (move g i (Leaving ip) (drop_global (gt_tracker g)) (gt_owner g))"
| lock_leave: "at_task g i (Leaving ip) \<Longrightarrow> gt_owner g = None \<Longrightarrow>
    gate_step g (move g i (Releasing ip) (gt_tracker g) (Some i))"
| release: "at_task g i (Releasing ip) \<Longrightarrow>
    gate_step g (move g i Idle (leave_source (gt_tracker g) ip) None)"

inductive_cases gate_stepE: "gate_step g g'"

subsection \<open>What the counters count\<close>

text \<open>The tasks the global counter counts, those the map counts for an address, and those that hold
the mutex.\<close>

fun has_slot :: "task \<Rightarrow> bool" where
  "has_slot (Counted ip) = True"
| "has_slot (Checking ip) = True"
| "has_slot (Rejecting ip) = True"
| "has_slot (Holding ip) = True"
| "has_slot _ = False"

fun has_source :: "IpAddr \<Rightarrow> task \<Rightarrow> bool" where
  "has_source ip (Holding ip') = (ip = ip')"
| "has_source ip (Leaving ip') = (ip = ip')"
| "has_source ip (Releasing ip') = (ip = ip')"
| "has_source ip _ = False"

fun has_lock :: "task \<Rightarrow> bool" where
  "has_lock (Checking ip) = True"
| "has_lock (Rejecting ip) = True"
| "has_lock (Releasing ip) = True"
| "has_lock _ = False"

definition as_entry :: "nat \<Rightarrow> nat option" where
  "as_entry k = (if k = 0 then None else Some k)"

interpretation source_lock: task_mutex has_lock Idle
  by unfold_locales simp

definition gate_inv :: "gate \<Rightarrow> bool" where
  "gate_inv g =
     (let t = gt_tracker g; ts = gt_tasks g in
      1 \<le> cl_global_limit t \<and> cl_global_limit t < 2 ^ 64 \<and> 1 \<le> cl_per_source_limit t
      \<and> cl_global_count t = count_tasks has_slot ts \<and> cl_global_count t \<le> cl_global_limit t
      \<and> (\<forall>ip. cl_source_counts t ip = as_entry (count_tasks (has_source ip) ts)
              \<and> count_tasks (has_source ip) ts \<le> cl_per_source_limit t)
      \<and> owner_ok has_lock (gt_owner g) ts)"

lemma count_goto:
  "at_task g i p \<Longrightarrow>
     count_tasks P ((gt_tasks g)[i := q]) = count_tasks P (gt_tasks g) + of_bool (P q) - of_bool (P p)"
  using count_update [of i "gt_tasks g" P q] by (auto simp: at_task_def)

lemma count_at: "at_task g i p \<Longrightarrow> P p \<Longrightarrow> 1 \<le> count_tasks P (gt_tasks g)"
  using count_ge [of i "gt_tasks g" P] by (auto simp: at_task_def)

lemma fetch_sub_usize: "1 \<le> n \<Longrightarrow> n < 2 ^ 64 \<Longrightarrow> fetch_sub_usize n = n - 1"
  by (simp add: fetch_sub_usize_def mod_if)

lemma fetch_add_usize: "n < 2 ^ 64 - 1 \<Longrightarrow> fetch_add_usize n = n + 1"
  by (simp add: fetch_add_usize_def)

text \<open>The counter of streams is the number of live guards: \<open>es\<close> lists what happened, the latest event
first, entering as \<open>True\<close>; a guard is left after it was entered.\<close>

fun live_streams :: "bool list \<Rightarrow> nat option" where
  "live_streams [] = Some 0"
| "live_streams (e # es) =
     (case live_streams es of None \<Rightarrow> None
      | Some n \<Rightarrow> if e then (if n + 1 < 2 ^ 64 then Some (n + 1) else None)
                  else (if 0 < n then Some (n - 1) else None))"

lemma active_streams_count:
  "live_streams es = Some n \<Longrightarrow>
     foldr (\<lambda>e t. if e then stream_enter t else stream_leave t) es \<lparr>as_count = 0\<rparr> = \<lparr>as_count = n\<rparr> \<and> n < 2 ^ 64"
  by (induction es arbitrary: n)
     (auto simp: stream_enter_def stream_leave_def fetch_add_usize fetch_sub_usize split: option.splits if_splits)

lemma gate_inv_new: "global_limit < 2 ^ 64 \<Longrightarrow> gate_inv (gate_new global_limit per_source_limit n)"
  by (auto simp: gate_inv_def gate_new_def ConnectionLimitTracker_new_def count_tasks_def as_entry_def owner_ok_def)

lemma gate_invD:
  assumes "gate_inv g"
  shows "1 \<le> cl_global_limit (gt_tracker g)" "cl_global_limit (gt_tracker g) < 2 ^ 64"
    "1 \<le> cl_per_source_limit (gt_tracker g)"
    "cl_global_count (gt_tracker g) = count_tasks has_slot (gt_tasks g)"
    "count_tasks has_slot (gt_tasks g) \<le> cl_global_limit (gt_tracker g)"
    "cl_source_counts (gt_tracker g) ip = as_entry (count_tasks (has_source ip) (gt_tasks g))"
    "count_tasks (has_source ip) (gt_tasks g) \<le> cl_per_source_limit (gt_tracker g)"
    "owner_ok has_lock (gt_owner g) (gt_tasks g)"
  using assms by (simp_all add: gate_inv_def Let_def)

lemma source_count_inv: "gate_inv g \<Longrightarrow> source_count (gt_tracker g) ip = count_tasks (has_source ip) (gt_tasks g)"
  by (simp add: source_count_def gate_invD(6) as_entry_def)

text \<open>The shape of every step: one task moves, and the counters and the lock follow it.\<close>

lemma gate_inv_move:
  assumes "gate_inv g" "at_task g i p"
    and "cl_global_limit t = cl_global_limit (gt_tracker g)" "cl_per_source_limit t = cl_per_source_limit (gt_tracker g)"
    and "cl_global_count t = count_tasks has_slot (gt_tasks g) + of_bool (has_slot q) - of_bool (has_slot p)"
    and "cl_global_count t \<le> cl_global_limit t"
    and "\<And>ip. cl_source_counts t ip =
      as_entry (count_tasks (has_source ip) (gt_tasks g) + of_bool (has_source ip q) - of_bool (has_source ip p))"
    and "\<And>ip. count_tasks (has_source ip) (gt_tasks g) + of_bool (has_source ip q) - of_bool (has_source ip p)
      \<le> cl_per_source_limit t"
    and "owner_ok has_lock own ((gt_tasks g)[i := q])"
  shows "gate_inv (move g i q t own)"
  using assms(3-) gate_invD(1-3) [OF assms(1)]
  by (simp add: gate_inv_def Let_def move_def count_goto [OF assms(2)])

text \<open>A step outside the critical sections does not touch the map, and one inside does not touch the
counter.\<close>

lemma gate_inv_counter:
  assumes "gate_inv g" "at_task g i p" "\<And>ip. has_source ip q = has_source ip p"
    and "c = count_tasks has_slot (gt_tasks g) + of_bool (has_slot q) - of_bool (has_slot p)"
    and "c \<le> cl_global_limit (gt_tracker g)" "owner_ok has_lock own ((gt_tasks g)[i := q])"
  shows "gate_inv (move g i q ((gt_tracker g)\<lparr>cl_global_count := c\<rparr>) own)"
  by (rule gate_inv_move [OF assms(1,2)]) (use assms(3-) gate_invD(6,7) [OF assms(1)] in simp_all)

lemma gate_inv_stay:
  assumes "gate_inv g" "at_task g i p" "\<And>ip. has_source ip q = has_source ip p" "has_slot q = has_slot p"
    and "owner_ok has_lock own ((gt_tasks g)[i := q])"
  shows "gate_inv (move g i q (gt_tracker g) own)"
proof -
  have "gate_inv (move g i q ((gt_tracker g)\<lparr>cl_global_count := cl_global_count (gt_tracker g)\<rparr>) own)"
    by (rule gate_inv_counter [OF assms(1-3)]) (use assms(4-) gate_invD(4,5) [OF assms(1)] in simp_all)
  then show ?thesis by simp
qed

lemma gate_inv_source:
  assumes "gate_inv g" "at_task g i p" "has_slot q = has_slot p" "has_source ip q \<noteq> has_source ip p"
    and "\<And>ip'. ip' \<noteq> ip \<Longrightarrow> \<not> has_source ip' q \<and> \<not> has_source ip' p"
    and "k = count_tasks (has_source ip) (gt_tasks g) + of_bool (has_source ip q) - of_bool (has_source ip p)"
    and "k \<le> cl_per_source_limit (gt_tracker g)" "owner_ok has_lock own ((gt_tasks g)[i := q])"
  shows "gate_inv (move g i q ((gt_tracker g)\<lparr>cl_source_counts := (cl_source_counts (gt_tracker g))(ip := as_entry k)\<rparr>) own)"
proof -
  have "count_tasks (has_source a) (gt_tasks g) + of_bool (has_source a q) - of_bool (has_source a p)
      \<le> cl_per_source_limit (gt_tracker g)" for a
    by (cases "a = ip") (use assms(5-7) gate_invD(7) [OF assms(1)] in simp_all)
  then show ?thesis
    by (intro gate_inv_move [OF assms(1,2)]) (use assms(3-) gate_invD(4-6) [OF assms(1)] in simp_all)
qed

lemma enter_source_True:
  assumes "gate_inv g" "enter_source (gt_tracker g) ip = (True, t)"
  shows "count_tasks (has_source ip) (gt_tasks g) < cl_per_source_limit (gt_tracker g)"
    "t = (gt_tracker g)\<lparr>cl_source_counts :=
       (cl_source_counts (gt_tracker g))(ip := as_entry (count_tasks (has_source ip) (gt_tasks g) + 1))\<rparr>"
  using assms(2) by (auto simp: enter_source_def Let_def source_count_inv [OF assms(1)] as_entry_def split: if_splits)

lemma enter_source_False:
  assumes "gate_inv g" "enter_source (gt_tracker g) ip = (False, t)"
  shows "t = gt_tracker g" "count_tasks (has_source ip) (gt_tasks g) = cl_per_source_limit (gt_tracker g)"
proof -
  let ?n = "count_tasks (has_source ip) (gt_tasks g)"
  have e: "cl_per_source_limit (gt_tracker g) \<le> ?n"
      "t = (gt_tracker g)\<lparr>cl_source_counts := (cl_source_counts (gt_tracker g))(ip \<mapsto> ?n)\<rparr>"
    using assms(2) by (auto simp: enter_source_def Let_def source_count_inv [OF assms(1)] split: if_splits)
  then show "?n = cl_per_source_limit (gt_tracker g)" using gate_invD(7) [OF assms(1)] by (simp add: antisym)
  have "cl_source_counts (gt_tracker g) ip = Some ?n"
    using e(1) gate_invD(3,6) [OF assms(1)] by (simp add: as_entry_def)
  then show "t = gt_tracker g" using e(2) by (simp add: map_upd_triv)
qed

lemma leave_source_inv:
  assumes "gate_inv g" "1 \<le> count_tasks (has_source ip) (gt_tasks g)"
  shows "leave_source (gt_tracker g) ip = (gt_tracker g)\<lparr>cl_source_counts :=
       (cl_source_counts (gt_tracker g))(ip := as_entry (count_tasks (has_source ip) (gt_tasks g) - 1))\<rparr>"
  using assms(2) by (auto simp: leave_source_def gate_invD(6) [OF assms(1)] as_entry_def)

lemma drop_global_inv:
  assumes "gate_inv g" "at_task g i p" "has_slot p"
  shows "drop_global (gt_tracker g) = (gt_tracker g)\<lparr>cl_global_count := count_tasks has_slot (gt_tasks g) - 1\<rparr>"
  using count_at [OF assms(2), of has_slot] assms(3) gate_invD(2,4,5) [OF assms(1)]
  by (simp add: drop_global_def fetch_sub_usize)

lemma gate_inv_step: "gate_step g g' \<Longrightarrow> gate_inv g \<Longrightarrow> gate_inv g'"
proof (induction rule: gate_step.induct)
  case (load g i ip)
  then show ?case by (intro gate_inv_stay source_lock.owner_stay) (auto simp: at_task_def gate_invD(8))
next
  case (full g i ip current)
  then show ?case by (intro gate_inv_stay source_lock.owner_stay) (auto simp: at_task_def gate_invD(8))
next
  case (exchange g i ip current)
  then show ?case by (intro gate_inv_counter source_lock.owner_stay) (auto simp: at_task_def gate_invD(4,8))
next
  case (retry g i ip current)
  then show ?case by (intro gate_inv_stay source_lock.owner_stay) (auto simp: at_task_def gate_invD(8))
next
  case (lock g i ip)
  then show ?case using gate_invD(8) [OF lock(3)] by (intro gate_inv_stay source_lock.owner_take) (auto simp: at_task_def)
next
  case (admit g i ip t)
  then show ?case using enter_source_True(1) [OF admit(3,2)] unfolding enter_source_True(2) [OF admit(3,2)]
    by (intro gate_inv_source source_lock.owner_drop [OF gate_invD(8) [OF admit(3)]]) (auto simp: at_task_def gate_invD(8))
next
  case (refuse g i ip t)
  then show ?case unfolding enter_source_False(1) [OF refuse(3,2)]
    by (intro gate_inv_stay source_lock.owner_stay) (auto simp: at_task_def gate_invD(8))
next
  case (unwind g i ip)
  then show ?case using gate_invD(5) [OF unwind(2)] unfolding drop_global_inv [OF unwind(2,1) has_slot.simps(3) [THEN iffD2, OF TrueI]]
    by (intro gate_inv_counter source_lock.owner_drop [OF gate_invD(8) [OF unwind(2)]]) (auto simp: at_task_def gate_invD(8))
next
  case (drop g i ip)
  then show ?case using gate_invD(5,7,8) [OF drop(2)] unfolding drop_global_inv [OF drop(2,1) has_slot.simps(4) [THEN iffD2, OF TrueI]]
    by (intro gate_inv_counter source_lock.owner_stay) (auto simp: at_task_def)
next
  case (lock_leave g i ip)
  then show ?case using gate_invD(8) [OF lock_leave(3)] by (intro gate_inv_stay source_lock.owner_take) (auto simp: at_task_def)
next
  case (release g i ip)
  have c: "1 \<le> count_tasks (has_source ip) (gt_tasks g)" using count_at [OF release(1), of "has_source ip"] by simp
  show ?case using release gate_invD(7) [OF release(2)] unfolding leave_source_inv [OF release(2) c]
    by (intro gate_inv_source source_lock.owner_drop [OF gate_invD(8) [OF release(2)]]) (auto simp: at_task_def intro: order_trans [OF diff_le_self])
qed

lemma gate_inv_reachable:
  assumes "gate_step\<^sup>*\<^sup>* g g'" "gate_inv g"
  shows "gate_inv g'"
  using assms by (induction rule: rtranclp_induct) (auto intro: gate_inv_step)

lemma limits_step:
  assumes "gate_step g g'"
  shows "cl_global_limit (gt_tracker g') = cl_global_limit (gt_tracker g)
    \<and> cl_per_source_limit (gt_tracker g') = cl_per_source_limit (gt_tracker g)
    \<and> length (gt_tasks g') = length (gt_tasks g)"
  using assms
  by (cases rule: gate_step.cases)
     (auto simp: move_def enter_source_def Let_def drop_global_def leave_source_def split: if_splits option.splits)

lemma limits_reachable:
  assumes "gate_step\<^sup>*\<^sup>* g g'"
  shows "cl_global_limit (gt_tracker g') = cl_global_limit (gt_tracker g)
    \<and> cl_per_source_limit (gt_tracker g') = cl_per_source_limit (gt_tracker g)
    \<and> length (gt_tasks g') = length (gt_tasks g)"
  using assms by (induction rule: rtranclp_induct) (auto dest: limits_step)

text \<open>The tasks that own a guard.\<close>

definition guards :: "gate \<Rightarrow> IpAddr list" where
  "guards g = List.map_filter (\<lambda>p. case p of Holding ip \<Rightarrow> Some ip | _ \<Rightarrow> None) (gt_tasks g)"

lemma guards_le: "length (guards g) \<le> count_tasks has_slot (gt_tasks g)"
proof -
  have "length (List.map_filter (\<lambda>p. case p of Holding ip \<Rightarrow> Some ip | _ \<Rightarrow> None) ts) \<le> count_tasks has_slot ts" for ts
    by (induction ts) (auto simp: count_tasks_def List.map_filter_simps split: task.splits)
  then show ?thesis by (simp add: guards_def)
qed

lemma guards_source_le: "count_list (guards g) ip \<le> count_tasks (has_source ip) (gt_tasks g)"
proof -
  have "count_list (List.map_filter (\<lambda>p. case p of Holding ip \<Rightarrow> Some ip | _ \<Rightarrow> None) ts) ip
      \<le> count_tasks (has_source ip) ts" for ts
    by (induction ts) (auto simp: count_tasks_def List.map_filter_simps split: task.splits)
  then show ?thesis by (simp add: guards_def)
qed

text \<open>C10. The connection limits hold under every interleaving of any number of connection tasks: never
more guards than the global limit, never more guards of one address than the limit per source; the atomic
counter is exactly the number of tasks that took a slot (so no decrement wraps around), and the map holds
exactly the addresses in use with their numbers (so it does not grow with addresses that left).\<close>

theorem connection_limits_hold:
  assumes "global_limit < 2 ^ 64"
    and "gate_step\<^sup>*\<^sup>* (gate_new global_limit per_source_limit n) g"
  shows "length (guards g) \<le> max global_limit 1 \<and> count_list (guards g) ip \<le> max per_source_limit 1
     \<and> cl_global_count (gt_tracker g) = count_tasks has_slot (gt_tasks g)
     \<and> cl_source_counts (gt_tracker g) ip = as_entry (count_tasks (has_source ip) (gt_tasks g))"
proof -
  have inv: "gate_inv g" by (rule gate_inv_reachable [OF assms(2) gate_inv_new [OF assms(1)]])
  have lim: "cl_global_limit (gt_tracker g) = max global_limit 1"
      "cl_per_source_limit (gt_tracker g) = max per_source_limit 1"
    using limits_reachable [OF assms(2)] by (simp_all add: gate_new_def ConnectionLimitTracker_new_def)
  show ?thesis
    using gate_invD(4-7) [OF inv] guards_le [of g] guards_source_le [of g ip] unfolding lim
    by (meson order_trans)
qed

subsection \<open>A lone caller\<close>

lemma move_move [simp]: "move (move g i p t own) i q t' own' = move g i q t' own'"
  by (simp add: move_def)

lemma move_sel [simp]: "gt_tracker (move g i p t own) = t" "gt_owner (move g i p t own) = own"
  by (simp_all add: move_def)

lemma at_move: "at_task g i p \<Longrightarrow> at_task (move g i q t own) i q"
  by (simp add: move_def at_task_def)

lemma move_same: "at_task g i p \<Longrightarrow> move g i p (gt_tracker g) (gt_owner g) = g"
  by (auto simp: move_def at_task_def)

lemma enter_global_steps:
  assumes "at_task g i (Loaded ip current)"
  shows "\<exists>g'. gate_step\<^sup>*\<^sup>* g g' \<and>
     g' = (if current \<ge> cl_global_limit (gt_tracker g) \<or> cl_global_count (gt_tracker g) \<ge> cl_global_limit (gt_tracker g)
           then move g i Idle (gt_tracker g) (gt_owner g)
           else move g i (Counted ip) (snd (try_enter_global (gt_tracker g))) (gt_owner g))"
proof (cases "current \<ge> cl_global_limit (gt_tracker g)")
  case True
  then show ?thesis using gate_step.full [OF assms] by auto
next
  case False
  let ?h = "move g i (Loaded ip (cl_global_count (gt_tracker g))) (gt_tracker g) (gt_owner g)"
  have at: "at_task ?h i (Loaded ip (cl_global_count (gt_tracker g)))" by (rule at_move [OF assms])
  have first: "gate_step g ?h" using gate_step.retry [OF assms] False by simp
  show ?thesis
  proof (cases "cl_global_count (gt_tracker g) \<ge> cl_global_limit (gt_tracker g)")
    case True
    then have "gate_step ?h (move g i Idle (gt_tracker g) (gt_owner g))" using gate_step.full [OF at] by simp
    with first True show ?thesis by (auto intro: converse_rtranclp_into_rtranclp)
  next
    case below: False
    then have "gate_step ?h (move g i (Counted ip) (snd (try_enter_global (gt_tracker g))) (gt_owner g))"
      using gate_step.exchange [OF at] by (simp add: try_enter_global_def Let_def)
    with first below False show ?thesis by (auto intro: converse_rtranclp_into_rtranclp)
  qed
qed

lemma try_enter_steps:
  assumes "at_task g i Idle" "gt_owner g = None" "try_enter (gt_tracker g) ip = (r, t)"
  shows "gate_step\<^sup>*\<^sup>* g (move g i (if r = Ok ip then Holding ip else Idle) t None)"
proof -
  let ?l = "move g i (Loaded ip (cl_global_count (gt_tracker g))) (gt_tracker g) (gt_owner g)"
  have l: "gate_step g ?l" by (rule gate_step.load [OF assms(1)])
  obtain u t' where eg: "try_enter_global (gt_tracker g) = (u, t')" by fastforce
  show ?thesis
  proof (cases "cl_global_count (gt_tracker g) \<ge> cl_global_limit (gt_tracker g)")
    case True
    then have "r = Err GlobalLimit" "t = gt_tracker g"
      using assms(3) by (auto simp: try_enter_def try_enter_global_def)
    then show ?thesis
      using l enter_global_steps [OF at_move [OF assms(1)], of ip "cl_global_count (gt_tracker g)" "gt_tracker g" "gt_owner g"]
        True assms(2) by (auto intro: converse_rtranclp_into_rtranclp)
  next
    case False
    let ?c = "move g i (Counted ip) t' None" and ?k = "move g i (Checking ip) t' (Some i)"
    have c: "gate_step\<^sup>*\<^sup>* g ?c"
      using l enter_global_steps [OF at_move [OF assms(1)], of ip "cl_global_count (gt_tracker g)" "gt_tracker g" "gt_owner g"]
        False assms(2) eg by (auto intro: converse_rtranclp_into_rtranclp)
    have k: "gate_step ?c ?k" using gate_step.lock [OF at_move [OF assms(1)], of ip t' None] by simp
    have u: "u = Ok ()" using eg False by (simp add: try_enter_global_def Let_def)
    obtain ok t'' where es: "enter_source t' ip = (ok, t'')" by fastforce
    have at: "at_task ?k i (Checking ip)" by (rule at_move [OF assms(1)])
    show ?thesis
    proof (cases ok)
      case True
      then have "gate_step ?k (move g i (Holding ip) t'' None)"
        using gate_step.admit [OF at] es by simp
      moreover have "r = Ok ip" "t = t''" using assms(3) eg u es True by (simp_all add: try_enter_def)
      ultimately show ?thesis using c k by (simp add: rtranclp.rtrancl_into_rtrancl)
    next
      case False
      let ?j = "move g i (Rejecting ip) t'' (Some i)"
      have "gate_step ?k ?j" using gate_step.refuse [OF at] es False by simp
      moreover have "gate_step ?j (move g i Idle (drop_global t'') None)"
        using gate_step.unwind [OF at_move [OF assms(1)], of ip t'' "Some i"] by simp
      moreover have "r = Err PerSourceLimit" "t = drop_global t''"
        using assms(3) eg u es False by (simp_all add: try_enter_def)
      ultimately show ?thesis using c k by (simp add: rtranclp.rtrancl_into_rtrancl)
    qed
  qed
qed

lemma leave_steps:
  assumes "at_task g i (Holding ip)" "gt_owner g = None"
  shows "gate_step\<^sup>*\<^sup>* g (move g i Idle (leave (gt_tracker g) ip) None)"
proof -
  let ?t = "drop_global (gt_tracker g)"
  let ?a = "move g i (Leaving ip) ?t None" and ?b = "move g i (Releasing ip) ?t (Some i)"
  have "gate_step g ?a" using gate_step.drop [OF assms(1)] assms(2) by simp
  moreover have "gate_step ?a ?b" using gate_step.lock_leave [OF at_move [OF assms(1)], of ip ?t None] by simp
  moreover have "gate_step ?b (move g i Idle (leave_source ?t ip) None)"
    using gate_step.release [OF at_move [OF assms(1)], of ip ?t "Some i"] by simp
  ultimately show ?thesis by (simp add: leave_def rtranclp.rtrancl_into_rtrancl)
qed

lemma try_enter_inv:
  assumes "gate_inv g"
  shows "fst (try_enter (gt_tracker g) ip) =
     (if cl_global_limit (gt_tracker g) \<le> count_tasks has_slot (gt_tasks g) then Err GlobalLimit
      else if cl_per_source_limit (gt_tracker g) \<le> count_tasks (has_source ip) (gt_tasks g) then Err PerSourceLimit
      else Ok ip)"
  using source_count_inv [OF assms, of ip]
  by (simp add: try_enter_def try_enter_global_def Let_def enter_source_def gate_invD(4) [OF assms] source_count_def)

text \<open>The functions a caller sees are what the interleaved steps compute when nobody interferes: from
every reachable state, a task that runs alone goes through \<open>try_enter\<close> to the state the function describes,
it is refused exactly when the slots of all connections, or those of its address, are taken, and dropping
its guard runs \<open>leave\<close>.\<close>

theorem connection_limit_lone_caller:
  assumes "global_limit < 2 ^ 64"
    and "gate_step\<^sup>*\<^sup>* (gate_new global_limit per_source_limit n) g" "gt_owner g = None"
  shows "(at_task g i Idle \<longrightarrow>
       gate_step\<^sup>*\<^sup>* g (move g i (if fst (try_enter (gt_tracker g) ip) = Ok ip then Holding ip else Idle)
                        (snd (try_enter (gt_tracker g) ip)) None))
     \<and> fst (try_enter (gt_tracker g) ip) =
         (if max global_limit 1 \<le> count_tasks has_slot (gt_tasks g) then Err GlobalLimit
          else if max per_source_limit 1 \<le> count_tasks (has_source ip) (gt_tasks g) then Err PerSourceLimit
          else Ok ip)
     \<and> (at_task g i (Holding ip) \<longrightarrow> gate_step\<^sup>*\<^sup>* g (move g i Idle (leave (gt_tracker g) ip) None))"
proof -
  have inv: "gate_inv g" by (rule gate_inv_reachable [OF assms(2) gate_inv_new [OF assms(1)]])
  have lim: "cl_global_limit (gt_tracker g) = max global_limit 1"
      "cl_per_source_limit (gt_tracker g) = max per_source_limit 1"
    using limits_reachable [OF assms(2)] by (simp_all add: gate_new_def ConnectionLimitTracker_new_def)
  show ?thesis
    using try_enter_steps [OF _ assms(3), of i ip] leave_steps [OF _ assms(3), of i ip] try_enter_inv [OF inv, of ip]
    unfolding lim by (cases "try_enter (gt_tracker g) ip") simp
qed

subsection \<open>The gate drains\<close>

fun remaining :: "task \<Rightarrow> nat" where
  "remaining Idle = 0"
| "remaining (Releasing ip) = 1"
| "remaining (Leaving ip) = 2"
| "remaining (Holding ip) = 3"
| "remaining (Rejecting ip) = 4"
| "remaining (Checking ip) = 5"
| "remaining (Counted ip) = 6"
| "remaining (Loaded ip current) = 7"

definition total_remaining :: "gate \<Rightarrow> nat" where
  "total_remaining g = sum_list (map remaining (gt_tasks g))"

lemma total_remaining_move:
  assumes "at_task g i p" "remaining q < remaining p"
  shows "total_remaining (move g i q t own) < total_remaining g"
proof -
  have "remaining p \<le> sum_list (map remaining (gt_tasks g))"
    using assms(1) by (auto simp: at_task_def intro!: member_le_sum_list)
  then show ?thesis
    using assms by (simp add: total_remaining_def move_def at_task_def map_update sum_list_update)
qed

text \<open>A task that is not idle, and that either holds the mutex or finds it free, comes closer to its end.\<close>

lemma task_progress:
  assumes "at_task g i p" "p \<noteq> Idle" "has_lock p \<or> gt_owner g = None"
  shows "\<exists>g'. gate_step\<^sup>*\<^sup>* g g' \<and> total_remaining g' < total_remaining g"
proof (cases "\<exists>ip current. p = Loaded ip current")
  case True
  then obtain ip current where p: "p = Loaded ip current" by blast
  obtain g' where "gate_step\<^sup>*\<^sup>* g g'"
      "g' = move g i Idle (gt_tracker g) (gt_owner g)
       \<or> g' = move g i (Counted ip) (snd (try_enter_global (gt_tracker g))) (gt_owner g)"
    using enter_global_steps [OF assms(1) [unfolded p]] by (auto split: if_splits)
  then show ?thesis using total_remaining_move [OF assms(1)] p by auto
next
  case False
  have step: "\<exists>q t own. gate_step g (move g i q t own) \<and> remaining q < remaining p"
  proof (cases p)
    case (Checking ip)
    obtain ok t where "enter_source (gt_tracker g) ip = (ok, t)" by fastforce
    with Checking assms(1) gate_step.admit gate_step.refuse show ?thesis by (cases ok) fastforce+
  qed (use assms False gate_step.lock gate_step.unwind gate_step.drop gate_step.lock_leave gate_step.release in fastforce)+
  then show ?thesis using total_remaining_move [OF assms(1)] by blast
qed

lemma gate_progress:
  assumes "gate_inv g" "\<exists>p \<in> set (gt_tasks g). p \<noteq> Idle"
  shows "\<exists>g'. gate_step\<^sup>*\<^sup>* g g' \<and> total_remaining g' < total_remaining g"
proof (cases "gt_owner g")
  case None
  with assms(2) show ?thesis using task_progress by (auto simp: at_task_def in_set_conv_nth)
next
  case (Some i)
  then have "at_task g i (gt_tasks g ! i)" "has_lock (gt_tasks g ! i)"
    using gate_invD(8) [OF assms(1)] by (auto simp: owner_ok_def at_task_def)
  then show ?thesis using task_progress [of g i "gt_tasks g ! i"] by (cases "gt_tasks g ! i") auto
qed

lemma gate_idle:
  assumes "gate_inv g" "\<forall>p \<in> set (gt_tasks g). p = Idle"
  shows "g = \<lparr>gt_tracker = (gt_tracker g)\<lparr>cl_global_count := 0, cl_source_counts := Map.empty\<rparr>,
               gt_owner = None, gt_tasks = replicate (length (gt_tasks g)) Idle\<rparr>"
proof -
  have ts: "gt_tasks g = replicate (length (gt_tasks g)) Idle" using assms(2) by (simp add: replicate_eqI)
  have z: "count_tasks P (gt_tasks g) = 0" if "\<not> P Idle" for P
  proof -
    have "filter P (gt_tasks g) = []" using that assms(2) by (intro filter_False) auto
    then show ?thesis by (simp add: count_tasks_def)
  qed
  have "cl_source_counts (gt_tracker g) = Map.empty"
    using gate_invD(6) [OF assms(1)] z by (intro ext) (simp add: as_entry_def)
  moreover have "cl_global_count (gt_tracker g) = 0" using gate_invD(4) [OF assms(1)] z by simp
  moreover have "gt_owner g \<noteq> Some i" for i
  proof
    assume "gt_owner g = Some i"
    then have "i < length (gt_tasks g)" "has_lock (gt_tasks g ! i)"
      using gate_invD(8) [OF assms(1)] unfolding owner_ok_def by blast+
    with assms(2) show False by (metis has_lock.simps(4) nth_mem)
  qed
  ultimately show ?thesis using ts by (cases g; cases "gt_owner g") simp_all
qed

text \<open>C22. No deadlock and no leak: from every state the tasks can reach, whatever was interleaved before,
some continuation lets every task finish, and then the tracker is as new, so that all slots are available
again.\<close>

theorem connection_limits_drain:
  assumes "global_limit < 2 ^ 64"
    and "gate_step\<^sup>*\<^sup>* (gate_new global_limit per_source_limit n) g"
  shows "gate_step\<^sup>*\<^sup>* g (gate_new global_limit per_source_limit n)"
  using assms(2)
proof (induction "total_remaining g" arbitrary: g rule: less_induct)
  case less
  have inv: "gate_inv g" by (rule gate_inv_reachable [OF less.prems gate_inv_new [OF assms(1)]])
  show ?case
  proof (cases "\<forall>p \<in> set (gt_tasks g). p = Idle")
    case True
    have "g = gate_new global_limit per_source_limit n"
      using gate_idle [OF inv True] limits_reachable [OF less.prems]
      by (cases "gt_tracker g") (simp add: gate_new_def ConnectionLimitTracker_new_def)
    then show ?thesis by simp
  next
    case False
    with gate_progress [OF inv] obtain g' where "gate_step\<^sup>*\<^sup>* g g'" "total_remaining g' < total_remaining g" by blast
    then show ?thesis using less.hyps [of g'] less.prems by (meson rtranclp_trans)
  qed
qed

subsection \<open>Witnesses\<close>

text \<open>Two tasks of one address at a gate with two slots, one per source: the first is inside, and the second
has taken a global slot and waits at the mutex.\<close>

definition example_gate :: gate where
  "example_gate = \<lparr>gt_tracker = \<lparr>cl_global_limit = 2, cl_per_source_limit = 1, cl_global_count = 2,
      cl_source_counts = [V4 7 \<mapsto> 1]\<rparr>, gt_owner = None, gt_tasks = [Holding (V4 7), Counted (V4 7)]\<rparr>"

lemma example_gate_reachable: "gate_step\<^sup>*\<^sup>* (gate_new 2 1 2) example_gate"
proof -
  let ?g = "gate_new 2 1 2"
  let ?t = "\<lparr>cl_global_limit = 2, cl_per_source_limit = 1, cl_global_count = 1, cl_source_counts = [V4 7 \<mapsto> 1]\<rparr>"
  let ?h = "move ?g 0 (Holding (V4 7)) ?t None"
  have "at_task ?g 0 Idle" "gt_owner ?g = None" by (simp_all add: at_task_def gate_new_def)
  moreover have "try_enter (gt_tracker ?g) (V4 7) = (Ok (V4 7), ?t)"
    by (simp add: gate_new_def ConnectionLimitTracker_new_def try_enter_def try_enter_global_def enter_source_def
        source_count_def Let_def)
  ultimately have a: "gate_step\<^sup>*\<^sup>* ?g ?h" using try_enter_steps [of ?g 0 "V4 7"] by simp
  have one: "at_task ?h 1 Idle" by (simp add: at_task_def gate_new_def move_def)
  have b: "gate_step ?h (move ?h 1 (Loaded (V4 7) 1) ?t None)" using gate_step.load [OF one, of "V4 7"] by simp
  have c: "gate_step (move ?h 1 (Loaded (V4 7) 1) ?t None) example_gate"
    using gate_step.exchange [OF at_move [OF one, of "Loaded (V4 7) 1" ?t None]]
    by (simp add: example_gate_def move_def gate_new_def eval_nat_numeral)
  from a b c show ?thesis by (meson rtranclp.rtrancl_into_rtrancl)
qed

theorem connection_limits_hold_witness:
  "gate_step\<^sup>*\<^sup>* (gate_new 2 1 2) example_gate \<and> length (guards example_gate) \<le> max 2 1
   \<and> count_list (guards example_gate) (V4 7) \<le> max 1 1
   \<and> cl_global_count (gt_tracker example_gate) = count_tasks has_slot (gt_tasks example_gate)
   \<and> cl_source_counts (gt_tracker example_gate) (V4 7)
      = as_entry (count_tasks (has_source (V4 7)) (gt_tasks example_gate))"
  using connection_limits_hold [OF _ example_gate_reachable, of "V4 7"] example_gate_reachable by simp

theorem connection_limit_lone_caller_witness:
  "gate_step\<^sup>*\<^sup>* (gate_new 2 1 2) example_gate \<and> gt_owner example_gate = None
   \<and> at_task example_gate 0 (Holding (V4 7))
   \<and> gate_step\<^sup>*\<^sup>* example_gate (move example_gate 0 Idle (leave (gt_tracker example_gate) (V4 7)) None)
   \<and> fst (try_enter (gt_tracker example_gate) (V4 7)) = Err GlobalLimit"
  using connection_limit_lone_caller [OF _ example_gate_reachable, of 0 "V4 7"] example_gate_reachable
  by (simp add: example_gate_def at_task_def count_tasks_def)

theorem connection_limits_drain_witness:
  "gate_step\<^sup>*\<^sup>* (gate_new 2 1 2) example_gate \<and> gate_step\<^sup>*\<^sup>* example_gate (gate_new 2 1 2)"
  using connection_limits_drain [OF _ example_gate_reachable] example_gate_reachable by simp

end
