(* ===== verification/Client_Pool.thy ===== *)
theory Client_Pool
  imports Mav_Tasks Auth_Hello
begin

text \<open>
  The pool of HTTP/2 connections of the client, \<open>maverick-client/src/connection_manager.rs\<close>. At most one
  connection is cached; every tunnel is a stream on it and holds a lease, which counts the stream until
  it is dropped. The operations on the state behind the mutex are functions; \<open>open_h2\<close>, \<open>acquire\<close> and
  \<open>checkout_or_connect\<close> are the program points of a task, and any number of tasks, the idle maintenance,
  the closing of connections and the shutdown are interleaved. A critical section of the state mutex is
  one step, since no task waits inside one; the gate that admits one task to connecting is held over
  several steps and has an owner.

  A connection's request handle \<open>'s\<close>, what connecting, readiness and the handshake of a tunnel return, and
  the firing of the timeouts are chosen by the environment as the event of a step. \<open>Instant\<close> and \<open>Duration\<close>
  are nanoseconds. A future may be dropped at each of its await points.
\<close>

definition MAX_READY_ATTEMPTS :: nat where
  "MAX_READY_ATTEMPTS = 2"

definition H2_DURATION_BUCKET_UPPER_BOUNDS_MS :: "nat list" where
  "H2_DURATION_BUCKET_UPPER_BOUNDS_MS = [10, 25, 50, 100, 250, 500, 1000, 2500, 5000, 10000]"

definition H2_DURATION_BUCKET_COUNT :: nat where
  "H2_DURATION_BUCKET_COUNT = length H2_DURATION_BUCKET_UPPER_BOUNDS_MS + 1"

datatype ObservedOuterTlsVersion = Tls12 | Tls13 | UnknownVersion

datatype ObservedOuterTlsGroup = X25519MlKem768 | X25519 | Secp256r1 | Secp384r1 | OtherOrUnknown

datatype pool_error = PoolBail string | PoolH2 string | PoolConnect string

abbreviation bump :: "nat \<Rightarrow> nat" where
  "bump n \<equiv> saturating_add U64_MAX n 1"

abbreviation bump_u32 :: "nat \<Rightarrow> nat" where
  "bump_u32 n \<equiv> saturating_add U32_MAX n 1"

subsection \<open>Duration histograms\<close>

record H2DurationHistogram =
  hh_count :: nat
  hh_sum_ms :: nat
  hh_buckets :: "nat list"

definition H2DurationHistogram_default :: H2DurationHistogram where
  "H2DurationHistogram_default = \<lparr>hh_count = 0, hh_sum_ms = 0, hh_buckets = replicate H2_DURATION_BUCKET_COUNT 0\<rparr>"

definition record_duration :: "H2DurationHistogram \<Rightarrow> nat \<Rightarrow> H2DurationHistogram" where
  "record_duration h elapsed =
     (let elapsed_ms = min (elapsed div 1000000) U64_MAX;
          buckets = map (\<lambda>(index, n). if index < length H2_DURATION_BUCKET_UPPER_BOUNDS_MS
                           \<and> elapsed_ms \<le> H2_DURATION_BUCKET_UPPER_BOUNDS_MS ! index then bump n else n)
                      (enumerate 0 (hh_buckets h));
          infinite_bucket = H2_DURATION_BUCKET_COUNT - 1
      in \<lparr>hh_count = bump (hh_count h), hh_sum_ms = saturating_add U64_MAX (hh_sum_ms h) elapsed_ms,
          hh_buckets = buckets[infinite_bucket := bump (buckets ! infinite_bucket)]\<rparr>)"

subsection \<open>The state behind the mutex\<close>

record 's H2TunnelRequestSender =
  ts_sender :: 's
  ts_channel_binding :: "TlsChannelBinding option"

record 's H2Connection =
  hc_transport :: "'s H2TunnelRequestSender"
  hc_closed :: bool
  hc_version :: ObservedOuterTlsVersion
  hc_group :: ObservedOuterTlsGroup

record 's CachedH2Connection =
  cc_generation :: nat
  cc_transport :: "'s H2TunnelRequestSender"
  cc_closed :: bool
  cc_active_streams :: nat
  cc_idle_since :: "nat option"

record 's H2ConnectionPoolState =
  hp_connection :: "'s CachedH2Connection option"
  hp_next_generation :: nat
  hp_connections_created :: nat
  hp_tls12 :: nat
  hp_tls13 :: nat
  hp_tls_unknown :: nat
  hp_group_x25519_mlkem768 :: nat
  hp_group_x25519 :: nat
  hp_group_secp256r1 :: nat
  hp_group_secp384r1 :: nat
  hp_group_other :: nat
  hp_streams_opened :: nat
  hp_streams_reused :: nat
  hp_reconnects :: nat
  hp_readiness_failures :: nat
  hp_stream_open_failures :: nat
  hp_handshake_timeouts :: nat
  hp_timeout_retirements :: nat
  hp_timeout_recoveries :: nat
  hp_idle_retirements :: nat
  hp_closed_retirements :: nat
  hp_runtime_stream_resets :: nat
  hp_runtime_send_stalls :: nat
  hp_connection_setup_duration_ms :: H2DurationHistogram
  hp_tunnel_open_duration_ms :: H2DurationHistogram
  hp_active_streams :: nat
  hp_shutdown :: bool

definition H2ConnectionPoolState_default :: "'s H2ConnectionPoolState" where
  "H2ConnectionPoolState_default =
     \<lparr>hp_connection = None, hp_next_generation = 0, hp_connections_created = 0,
      hp_tls12 = 0, hp_tls13 = 0, hp_tls_unknown = 0,
      hp_group_x25519_mlkem768 = 0, hp_group_x25519 = 0, hp_group_secp256r1 = 0, hp_group_secp384r1 = 0, hp_group_other = 0,
      hp_streams_opened = 0, hp_streams_reused = 0, hp_reconnects = 0, hp_readiness_failures = 0,
      hp_stream_open_failures = 0, hp_handshake_timeouts = 0, hp_timeout_retirements = 0, hp_timeout_recoveries = 0,
      hp_idle_retirements = 0, hp_closed_retirements = 0, hp_runtime_stream_resets = 0, hp_runtime_send_stalls = 0,
      hp_connection_setup_duration_ms = H2DurationHistogram_default,
      hp_tunnel_open_duration_ms = H2DurationHistogram_default, hp_active_streams = 0, hp_shutdown = False\<rparr>"

fun record_version :: "ObservedOuterTlsVersion \<Rightarrow> 's H2ConnectionPoolState \<Rightarrow> 's H2ConnectionPoolState" where
  "record_version Tls12 st = st\<lparr>hp_tls12 := bump (hp_tls12 st)\<rparr>"
| "record_version Tls13 st = st\<lparr>hp_tls13 := bump (hp_tls13 st)\<rparr>"
| "record_version UnknownVersion st = st\<lparr>hp_tls_unknown := bump (hp_tls_unknown st)\<rparr>"

fun record_group :: "ObservedOuterTlsGroup \<Rightarrow> 's H2ConnectionPoolState \<Rightarrow> 's H2ConnectionPoolState" where
  "record_group X25519MlKem768 st = st\<lparr>hp_group_x25519_mlkem768 := bump (hp_group_x25519_mlkem768 st)\<rparr>"
| "record_group X25519 st = st\<lparr>hp_group_x25519 := bump (hp_group_x25519 st)\<rparr>"
| "record_group Secp256r1 st = st\<lparr>hp_group_secp256r1 := bump (hp_group_secp256r1 st)\<rparr>"
| "record_group Secp384r1 st = st\<lparr>hp_group_secp384r1 := bump (hp_group_secp384r1 st)\<rparr>"
| "record_group OtherOrUnknown st = st\<lparr>hp_group_other := bump (hp_group_other st)\<rparr>"

definition record_installed_connection ::
  "ObservedOuterTlsVersion \<Rightarrow> ObservedOuterTlsGroup \<Rightarrow> 's H2ConnectionPoolState \<Rightarrow> 's H2ConnectionPoolState" where
  "record_installed_connection version kx_group st =
     (let next_connections_created = bump (hp_connections_created st) in
      if next_connections_created = hp_connections_created st then st
      else record_group kx_group (record_version version (st\<lparr>hp_connections_created := next_connections_created\<rparr>)))"

record 's H2Checkout =
  co_generation :: nat
  co_transport :: "'s H2TunnelRequestSender"

definition drop_closed :: "'s H2ConnectionPoolState \<Rightarrow> 's H2ConnectionPoolState" where
  "drop_closed st =
     (case hp_connection st of
        Some c \<Rightarrow> if cc_closed c
                  then st\<lparr>hp_connection := None, hp_closed_retirements := bump (hp_closed_retirements st)\<rparr> else st
      | None \<Rightarrow> st)"

definition checkout_cached ::
  "'s H2ConnectionPoolState \<Rightarrow> (pool_error + 's H2Checkout option) \<times> 's H2ConnectionPoolState" where
  "checkout_cached st =
     (if hp_shutdown st then (Inl (PoolBail ''H2 connection pool is shut down''), st)
      else
        let st = drop_closed st in
        case hp_connection st of
          None \<Rightarrow> (Inr None, st)
        | Some c \<Rightarrow>
            (Inr (Some \<lparr>co_generation = cc_generation c, co_transport = cc_transport c\<rparr>),
             st\<lparr>hp_connection := Some (c\<lparr>cc_active_streams := bump_u32 (cc_active_streams c), cc_idle_since := None\<rparr>),
                hp_active_streams := bump_u32 (hp_active_streams st),
                hp_streams_opened := bump (hp_streams_opened st),
                hp_streams_reused := bump (hp_streams_reused st)\<rparr>))"

definition install_and_checkout ::
  "'s H2Connection \<Rightarrow> 's H2ConnectionPoolState \<Rightarrow> (pool_error + 's H2Checkout) \<times> 's H2ConnectionPoolState" where
  "install_and_checkout connection st =
     (if hp_shutdown st then (Inl (PoolBail ''H2 connection pool is shut down''), st)
      else if hp_connection st \<noteq> None then (Inl (PoolBail ''H2 connection pool changed while connecting''), st)
      else
        let generation = bump (hp_next_generation st);
            st = st\<lparr>hp_next_generation := generation,
              hp_reconnects := (if hp_connections_created st > 0 then bump (hp_reconnects st) else hp_reconnects st)\<rparr>;
            st = record_installed_connection (hc_version connection) (hc_group connection) st
        in (Inr \<lparr>co_generation = generation, co_transport = hc_transport connection\<rparr>,
            st\<lparr>hp_streams_opened := bump (hp_streams_opened st),
               hp_active_streams := bump_u32 (hp_active_streams st),
               hp_connection := Some \<lparr>cc_generation = generation, cc_transport = hc_transport connection,
                 cc_closed = hc_closed connection, cc_active_streams = 1, cc_idle_since = None\<rparr>\<rparr>))"

definition drop_lease :: "nat \<Rightarrow> nat \<Rightarrow> 's H2ConnectionPoolState \<Rightarrow> 's H2ConnectionPoolState" where
  "drop_lease now generation st =
     (let st = st\<lparr>hp_active_streams := saturating_sub (hp_active_streams st) 1\<rparr> in
      case hp_connection st of
        None \<Rightarrow> st
      | Some c \<Rightarrow>
          if cc_generation c \<noteq> generation then st
          else
            let c = c\<lparr>cc_active_streams := saturating_sub (cc_active_streams c) 1\<rparr>;
                c = (if cc_active_streams c = 0 then c\<lparr>cc_idle_since := Some now\<rparr> else c)
            in st\<lparr>hp_connection := Some c\<rparr>)"

definition forget_generation :: "nat \<Rightarrow> 's H2ConnectionPoolState \<Rightarrow> 's H2ConnectionPoolState" where
  "forget_generation generation st =
     (case hp_connection st of
        Some c \<Rightarrow> if cc_generation c = generation then st\<lparr>hp_connection := None\<rparr> else st
      | None \<Rightarrow> st)"

definition invalidate_after_readiness_failure :: "nat \<Rightarrow> 's H2ConnectionPoolState \<Rightarrow> 's H2ConnectionPoolState" where
  "invalidate_after_readiness_failure generation st =
     forget_generation generation (st\<lparr>hp_readiness_failures := bump (hp_readiness_failures st)\<rparr>)"

definition invalidate_after_stream_open_failure :: "nat \<Rightarrow> 's H2ConnectionPoolState \<Rightarrow> 's H2ConnectionPoolState" where
  "invalidate_after_stream_open_failure generation st =
     forget_generation generation (st\<lparr>hp_stream_open_failures := bump (hp_stream_open_failures st)\<rparr>)"

definition retire_after_handshake_timeout_if_unshared ::
  "nat \<Rightarrow> 's H2ConnectionPoolState \<Rightarrow> bool \<times> 's H2ConnectionPoolState" where
  "retire_after_handshake_timeout_if_unshared generation st =
     (let st = st\<lparr>hp_handshake_timeouts := bump (hp_handshake_timeouts st)\<rparr>;
          should_retire = (case hp_connection st of
             Some c \<Rightarrow> cc_generation c = generation \<and> cc_active_streams c = 0 | None \<Rightarrow> False)
      in if should_retire
         then (True, st\<lparr>hp_connection := None, hp_timeout_retirements := bump (hp_timeout_retirements st)\<rparr>)
         else (False, st))"

definition record_timeout_recovery :: "'s H2ConnectionPoolState \<Rightarrow> 's H2ConnectionPoolState" where
  "record_timeout_recovery st = st\<lparr>hp_timeout_recoveries := bump (hp_timeout_recoveries st)\<rparr>"

definition record_connection_setup_duration :: "nat \<Rightarrow> 's H2ConnectionPoolState \<Rightarrow> 's H2ConnectionPoolState" where
  "record_connection_setup_duration elapsed st =
     st\<lparr>hp_connection_setup_duration_ms := record_duration (hp_connection_setup_duration_ms st) elapsed\<rparr>"

definition record_tunnel_open_duration :: "nat \<Rightarrow> 's H2ConnectionPoolState \<Rightarrow> 's H2ConnectionPoolState" where
  "record_tunnel_open_duration elapsed st =
     st\<lparr>hp_tunnel_open_duration_ms := record_duration (hp_tunnel_open_duration_ms st) elapsed\<rparr>"

definition record_runtime_stream_reset :: "'s H2ConnectionPoolState \<Rightarrow> 's H2ConnectionPoolState" where
  "record_runtime_stream_reset st = st\<lparr>hp_runtime_stream_resets := bump (hp_runtime_stream_resets st)\<rparr>"

definition record_runtime_send_stall :: "'s H2ConnectionPoolState \<Rightarrow> 's H2ConnectionPoolState" where
  "record_runtime_send_stall st = st\<lparr>hp_runtime_send_stalls := bump (hp_runtime_send_stalls st)\<rparr>"

definition pool_shutdown :: "'s H2ConnectionPoolState \<Rightarrow> 's H2ConnectionPoolState" where
  "pool_shutdown st = st\<lparr>hp_shutdown := True, hp_connection := None\<rparr>"

definition retire_inactive_connection :: "nat \<Rightarrow> nat \<Rightarrow> 's H2ConnectionPoolState \<Rightarrow> 's H2ConnectionPoolState" where
  "retire_inactive_connection now idle_timeout st =
     (case hp_connection st of
        None \<Rightarrow> st
      | Some c \<Rightarrow>
          if cc_closed c then st\<lparr>hp_connection := None, hp_closed_retirements := bump (hp_closed_retirements st)\<rparr>
          else
            let idle_elapsed = (case cc_idle_since c of Some idle_since \<Rightarrow> now - idle_since \<ge> idle_timeout | None \<Rightarrow> False)
            in if cc_active_streams c = 0 \<and> idle_elapsed
               then st\<lparr>hp_connection := None, hp_idle_retirements := bump (hp_idle_retirements st)\<rparr> else st)"

definition maintenance_interval :: "nat \<Rightarrow> nat" where
  "maintenance_interval idle_timeout = max 10000000 (min 1000000000 (idle_timeout div 2))"

record H2ConnectionPoolSnapshot =
  sn_connections_created :: nat
  sn_streams_opened :: nat
  sn_streams_reused :: nat
  sn_reconnects :: nat
  sn_readiness_failures :: nat
  sn_stream_open_failures :: nat
  sn_handshake_timeouts :: nat
  sn_timeout_retirements :: nat
  sn_timeout_recoveries :: nat
  sn_idle_retirements :: nat
  sn_closed_retirements :: nat
  sn_runtime_stream_resets :: nat
  sn_runtime_send_stalls :: nat
  sn_connection_setup_duration_ms :: H2DurationHistogram
  sn_tunnel_open_duration_ms :: H2DurationHistogram
  sn_active_streams :: nat
  sn_cached_connection :: bool
  sn_shutdown :: bool

definition pool_snapshot :: "'s H2ConnectionPoolState \<Rightarrow> H2ConnectionPoolSnapshot" where
  "pool_snapshot st =
     \<lparr>sn_connections_created = hp_connections_created st, sn_streams_opened = hp_streams_opened st,
      sn_streams_reused = hp_streams_reused st, sn_reconnects = hp_reconnects st,
      sn_readiness_failures = hp_readiness_failures st, sn_stream_open_failures = hp_stream_open_failures st,
      sn_handshake_timeouts = hp_handshake_timeouts st, sn_timeout_retirements = hp_timeout_retirements st,
      sn_timeout_recoveries = hp_timeout_recoveries st, sn_idle_retirements = hp_idle_retirements st,
      sn_closed_retirements = hp_closed_retirements st, sn_runtime_stream_resets = hp_runtime_stream_resets st,
      sn_runtime_send_stalls = hp_runtime_send_stalls st,
      sn_connection_setup_duration_ms = hp_connection_setup_duration_ms st,
      sn_tunnel_open_duration_ms = hp_tunnel_open_duration_ms st,
      sn_active_streams = hp_active_streams st, sn_cached_connection = (hp_connection st \<noteq> None),
      sn_shutdown = hp_shutdown st\<rparr>"

subsection \<open>The counters\<close>

definition checkout_of :: "'s CachedH2Connection \<Rightarrow> 's H2Checkout" where
  "checkout_of c = \<lparr>co_generation = cc_generation c, co_transport = cc_transport c\<rparr>"

text \<open>The counters reconcile with each other.\<close>

definition counters_ok :: "nat \<Rightarrow> 's H2ConnectionPoolState \<Rightarrow> bool" where
  "counters_ok k st =
     (let created = hp_connections_created st;
          cached = of_bool (hp_connection st \<noteq> None);
          retired = hp_idle_retirements st + hp_closed_retirements st + hp_timeout_retirements st in
      hp_next_generation st = created \<and> hp_streams_opened st = hp_streams_reused st + created
      \<and> hp_reconnects st = created - 1
      \<and> created = hp_tls12 st + hp_tls13 st + hp_tls_unknown st
      \<and> created = hp_group_x25519_mlkem768 st + hp_group_x25519 st + hp_group_secp256r1 st + hp_group_secp384r1 st
                  + hp_group_other st
      \<and> cached + retired \<le> created
      \<and> created \<le> cached + retired + hp_readiness_failures st + hp_stream_open_failures st + of_bool (hp_shutdown st)
      \<and> hp_timeout_retirements st \<le> hp_handshake_timeouts st
      \<and> hp_streams_opened st \<le> k \<and> hp_readiness_failures st \<le> k \<and> hp_stream_open_failures st \<le> k
      \<and> hp_handshake_timeouts st \<le> k)"


lemma bump_exact: "n < U64_MAX \<Longrightarrow> bump n = n + 1"
  by (simp add: saturating_add_def)

lemma bump_u32_exact: "n < U32_MAX \<Longrightarrow> bump_u32 n = n + 1"
  by (simp add: saturating_add_def)

lemma counters_le:
  assumes "counters_ok k st" "k < U64_MAX"
  shows "hp_connections_created st < U64_MAX" "hp_next_generation st < U64_MAX" "hp_streams_opened st < U64_MAX"
    "hp_streams_reused st < U64_MAX" "hp_reconnects st < U64_MAX" "hp_idle_retirements st < U64_MAX"
    "hp_closed_retirements st < U64_MAX" "hp_timeout_retirements st < U64_MAX" "hp_readiness_failures st < U64_MAX"
    "hp_stream_open_failures st < U64_MAX" "hp_handshake_timeouts st < U64_MAX"
    "hp_tls12 st < U64_MAX" "hp_tls13 st < U64_MAX" "hp_tls_unknown st < U64_MAX"
    "hp_group_x25519_mlkem768 st < U64_MAX" "hp_group_x25519 st < U64_MAX" "hp_group_secp256r1 st < U64_MAX"
    "hp_group_secp384r1 st < U64_MAX" "hp_group_other st < U64_MAX"
  using assms unfolding counters_ok_def Let_def by (elim conjE; linarith)+

lemmas bump_simps = bump_exact [OF counters_le(1)] bump_exact [OF counters_le(2)] bump_exact [OF counters_le(3)]
  bump_exact [OF counters_le(4)] bump_exact [OF counters_le(5)] bump_exact [OF counters_le(6)]
  bump_exact [OF counters_le(7)] bump_exact [OF counters_le(8)] bump_exact [OF counters_le(9)]
  bump_exact [OF counters_le(10)] bump_exact [OF counters_le(11)] bump_exact [OF counters_le(12)]
  bump_exact [OF counters_le(13)] bump_exact [OF counters_le(14)] bump_exact [OF counters_le(15)]
  bump_exact [OF counters_le(16)] bump_exact [OF counters_le(17)] bump_exact [OF counters_le(18)]
  bump_exact [OF counters_le(19)]

lemma counters_mono: "counters_ok k st \<Longrightarrow> k \<le> k' \<Longrightarrow> counters_ok k' st"
  by (auto simp: counters_ok_def Let_def)

text \<open>Forgetting the cached connection is accounted for by one of the counters.\<close>

lemma counters_clear:
  assumes "counters_ok k st" "k < U64_MAX" "hp_connection st = Some c"
  shows "counters_ok k (st\<lparr>hp_connection := None, hp_closed_retirements := bump (hp_closed_retirements st)\<rparr>)"
    "counters_ok k (st\<lparr>hp_connection := None, hp_idle_retirements := bump (hp_idle_retirements st)\<rparr>)"
    "\<not> hp_shutdown st \<Longrightarrow> counters_ok k (pool_shutdown st)"
    "counters_ok k (st\<lparr>hp_connection := Some c'\<rparr>)"
  using assms(1,3) unfolding bump_simps(6,7) [OF assms(1,2)]
  by (simp_all add: counters_ok_def Let_def pool_shutdown_def)

lemma counters_drop_closed:
  assumes "counters_ok k st" "k < U64_MAX"
  shows "counters_ok k (drop_closed st)"
  using assms counters_clear(1) [OF assms] by (cases "hp_connection st") (simp_all add: drop_closed_def)

lemma checkout_cached_cases:
  assumes "checkout_cached st = (r, st')"
  obtains (stopped) "hp_shutdown st" "r = Inl (PoolBail ''H2 connection pool is shut down'')" "st' = st"
  | (missing) "\<not> hp_shutdown st" "r = Inr None" "st' = drop_closed st" "hp_connection st' = None"
  | (cached) c where "\<not> hp_shutdown st" "hp_connection st = Some c" "r = Inr (Some (checkout_of c))"
      "st' = st\<lparr>hp_connection := Some (c\<lparr>cc_active_streams := bump_u32 (cc_active_streams c), cc_idle_since := None\<rparr>),
         hp_active_streams := bump_u32 (hp_active_streams st),
         hp_streams_opened := bump (hp_streams_opened st), hp_streams_reused := bump (hp_streams_reused st)\<rparr>"
proof (cases "hp_shutdown st")
  case True
  show ?thesis by (rule stopped) (use assms True in \<open>simp_all add: checkout_cached_def\<close>)
next
  case run: False
  show ?thesis
  proof (cases "hp_connection (drop_closed st)")
    case None
    show ?thesis by (rule missing) (use assms run None in \<open>simp_all add: checkout_cached_def Let_def\<close>)
  next
    case (Some c)
    have d: "drop_closed st = st"
    proof (rule ccontr)
      assume "drop_closed st \<noteq> st"
      then have "hp_connection (drop_closed st) = None" by (auto simp only: drop_closed_def split: option.splits if_splits) simp_all
      with Some show False by simp
    qed
    have c: "hp_connection st = Some c" using Some unfolding d .
    have "checkout_cached st = (Inr (Some (checkout_of c)),
        st\<lparr>hp_connection := Some (c\<lparr>cc_active_streams := bump_u32 (cc_active_streams c), cc_idle_since := None\<rparr>),
           hp_active_streams := bump_u32 (hp_active_streams st),
           hp_streams_opened := bump (hp_streams_opened st), hp_streams_reused := bump (hp_streams_reused st)\<rparr>)"
      by (simp add: checkout_cached_def d run c checkout_of_def)
    with assms show ?thesis by (intro cached [OF run c]) (simp_all only: prod.inject)
  qed
qed

lemma counters_checkout:
  assumes "counters_ok k st" "k < U64_MAX" "checkout_cached st = (r, st')"
  shows "counters_ok (Suc k) st'"
  using assms(3)
proof (cases rule: checkout_cached_cases)
  case stopped
  then show ?thesis using counters_mono [OF assms(1)] by simp
next
  case missing
  then show ?thesis using counters_mono [OF counters_drop_closed [OF assms(1,2)]] by simp
next
  case (cached c)
  then show ?thesis using assms(1) unfolding bump_simps(3,4) [OF assms(1,2)] by (simp add: counters_ok_def Let_def)
qed

lemma record_version_keeps [simp]:
  "hp_connection (record_version v st) = hp_connection st" "hp_shutdown (record_version v st) = hp_shutdown st"
  "hp_next_generation (record_version v st) = hp_next_generation st"
  "hp_connections_created (record_version v st) = hp_connections_created st"
  "hp_streams_opened (record_version v st) = hp_streams_opened st"
  "hp_streams_reused (record_version v st) = hp_streams_reused st"
  "hp_reconnects (record_version v st) = hp_reconnects st"
  "hp_readiness_failures (record_version v st) = hp_readiness_failures st"
  "hp_stream_open_failures (record_version v st) = hp_stream_open_failures st"
  "hp_handshake_timeouts (record_version v st) = hp_handshake_timeouts st"
  "hp_timeout_retirements (record_version v st) = hp_timeout_retirements st"
  "hp_idle_retirements (record_version v st) = hp_idle_retirements st"
  "hp_closed_retirements (record_version v st) = hp_closed_retirements st"
  "hp_active_streams (record_version v st) = hp_active_streams st"
  "hp_group_x25519_mlkem768 (record_version v st) = hp_group_x25519_mlkem768 st"
  "hp_group_x25519 (record_version v st) = hp_group_x25519 st"
  "hp_group_secp256r1 (record_version v st) = hp_group_secp256r1 st"
  "hp_group_secp384r1 (record_version v st) = hp_group_secp384r1 st"
  "hp_group_other (record_version v st) = hp_group_other st"
  by (cases v; simp)+

lemma record_group_keeps [simp]:
  "hp_connection (record_group g st) = hp_connection st" "hp_shutdown (record_group g st) = hp_shutdown st"
  "hp_next_generation (record_group g st) = hp_next_generation st"
  "hp_connections_created (record_group g st) = hp_connections_created st"
  "hp_streams_opened (record_group g st) = hp_streams_opened st"
  "hp_streams_reused (record_group g st) = hp_streams_reused st"
  "hp_reconnects (record_group g st) = hp_reconnects st"
  "hp_readiness_failures (record_group g st) = hp_readiness_failures st"
  "hp_stream_open_failures (record_group g st) = hp_stream_open_failures st"
  "hp_handshake_timeouts (record_group g st) = hp_handshake_timeouts st"
  "hp_timeout_retirements (record_group g st) = hp_timeout_retirements st"
  "hp_idle_retirements (record_group g st) = hp_idle_retirements st"
  "hp_closed_retirements (record_group g st) = hp_closed_retirements st"
  "hp_active_streams (record_group g st) = hp_active_streams st"
  "hp_tls12 (record_group g st) = hp_tls12 st" "hp_tls13 (record_group g st) = hp_tls13 st"
  "hp_tls_unknown (record_group g st) = hp_tls_unknown st"
  by (cases g; simp)+

definition version_sum :: "'s H2ConnectionPoolState \<Rightarrow> nat" where
  "version_sum st = hp_tls12 st + hp_tls13 st + hp_tls_unknown st"

definition group_sum :: "'s H2ConnectionPoolState \<Rightarrow> nat" where
  "group_sum st = hp_group_x25519_mlkem768 st + hp_group_x25519 st + hp_group_secp256r1 st + hp_group_secp384r1 st
     + hp_group_other st"

lemma record_version_sum: "version_sum st < U64_MAX \<Longrightarrow> version_sum (record_version v st) = version_sum st + 1"
  by (cases v) (simp_all add: version_sum_def)

lemma record_group_sum: "group_sum st < U64_MAX \<Longrightarrow> group_sum (record_group g st) = group_sum st + 1"
  by (cases g) (simp_all add: group_sum_def)

lemma version_group_sums:
  "counters_ok k st \<Longrightarrow> version_sum st = hp_connections_created st"
  "counters_ok k st \<Longrightarrow> group_sum st = hp_connections_created st"
  by (simp_all add: counters_ok_def Let_def version_sum_def group_sum_def)

lemma install_cases:
  assumes "install_and_checkout connection st = (r, st')"
  obtains (stopped) "hp_shutdown st" "r = Inl (PoolBail ''H2 connection pool is shut down'')" "st' = st"
  | (occupied) "\<not> hp_shutdown st" "hp_connection st \<noteq> None"
      "r = Inl (PoolBail ''H2 connection pool changed while connecting'')" "st' = st"
  | (installed) st1 where "\<not> hp_shutdown st" "hp_connection st = None"
      "r = Inr \<lparr>co_generation = bump (hp_next_generation st), co_transport = hc_transport connection\<rparr>"
      "st1 = record_installed_connection (hc_version connection) (hc_group connection)
         (st\<lparr>hp_next_generation := bump (hp_next_generation st),
             hp_reconnects := (if hp_connections_created st > 0 then bump (hp_reconnects st) else hp_reconnects st)\<rparr>)"
      "st' = st1\<lparr>hp_streams_opened := bump (hp_streams_opened st1), hp_active_streams := bump_u32 (hp_active_streams st1),
         hp_connection := Some \<lparr>cc_generation = bump (hp_next_generation st), cc_transport = hc_transport connection,
           cc_closed = hc_closed connection, cc_active_streams = 1, cc_idle_since = None\<rparr>\<rparr>"
proof (cases "hp_shutdown st")
  case True
  show ?thesis by (rule stopped) (use assms True in \<open>simp_all add: install_and_checkout_def\<close>)
next
  case run: False
  show ?thesis
  proof (cases "hp_connection st = None")
    case False
    show ?thesis by (rule occupied) (use assms run False in \<open>simp_all add: install_and_checkout_def\<close>)
  next
    case True
    show ?thesis
      by (rule installed [OF run True _ refl])
         (use assms in \<open>simp_all only: install_and_checkout_def run True Let_def prod.inject simp_thms if_True if_False\<close>)
  qed
qed

lemma record_installed_connection_exact:
  assumes "hp_connections_created st < U64_MAX"
  shows "record_installed_connection v g st =
     record_group g (record_version v (st\<lparr>hp_connections_created := hp_connections_created st + 1\<rparr>))"
  using assms by (simp add: record_installed_connection_def saturating_add_def)

lemma counters_sums:
  "counters_ok k st \<longleftrightarrow>
     (let created = hp_connections_created st;
          cached = of_bool (hp_connection st \<noteq> None);
          retired = hp_idle_retirements st + hp_closed_retirements st + hp_timeout_retirements st in
      hp_next_generation st = created \<and> hp_streams_opened st = hp_streams_reused st + created
      \<and> hp_reconnects st = created - 1 \<and> version_sum st = created \<and> group_sum st = created
      \<and> cached + retired \<le> created
      \<and> created \<le> cached + retired + hp_readiness_failures st + hp_stream_open_failures st + of_bool (hp_shutdown st)
      \<and> hp_timeout_retirements st \<le> hp_handshake_timeouts st
      \<and> hp_streams_opened st \<le> k \<and> hp_readiness_failures st \<le> k \<and> hp_stream_open_failures st \<le> k
      \<and> hp_handshake_timeouts st \<le> k)"
  by (auto simp: counters_ok_def Let_def version_sum_def group_sum_def)

lemma sums_update [simp]:
  "version_sum (record_group g st) = version_sum st" "group_sum (record_version v st) = group_sum st"
  "version_sum (st\<lparr>hp_connections_created := n\<rparr>) = version_sum st" "group_sum (st\<lparr>hp_connections_created := n\<rparr>) = group_sum st"
  "version_sum (st\<lparr>hp_next_generation := n, hp_reconnects := m\<rparr>) = version_sum st"
  "group_sum (st\<lparr>hp_next_generation := n, hp_reconnects := m\<rparr>) = group_sum st"
  "version_sum (st\<lparr>hp_streams_opened := n, hp_active_streams := m, hp_connection := c\<rparr>) = version_sum st"
  "group_sum (st\<lparr>hp_streams_opened := n, hp_active_streams := m, hp_connection := c\<rparr>) = group_sum st"
  by (simp_all add: version_sum_def group_sum_def)

lemma counters_install:
  assumes "counters_ok k st" "k < U64_MAX" "install_and_checkout connection st = (r, st')"
  shows "counters_ok (Suc k) st'"
  using assms(3)
proof (cases rule: install_cases)
  case (installed st1)
  let ?s = "st\<lparr>hp_next_generation := hp_next_generation st + 1,
       hp_reconnects := (if hp_connections_created st > 0 then hp_reconnects st + 1 else hp_reconnects st)\<rparr>"
  let ?v = "record_version (hc_version connection) (?s\<lparr>hp_connections_created := hp_connections_created st + 1\<rparr>)"
  have st1: "st1 = record_group (hc_group connection) ?v"
    using installed(4) record_installed_connection_exact [of ?s "hc_version connection" "hc_group connection"]
    unfolding bump_simps(2,5) [OF assms(1,2)] by (simp add: counters_le(1) [OF assms(1,2)])
  have "version_sum st < U64_MAX" "group_sum st < U64_MAX"
    using version_group_sums [OF assms(1)] counters_le(1) [OF assms(1,2)] by simp_all
  then have "version_sum st1 = version_sum st + 1" "group_sum st1 = group_sum st + 1"
    unfolding st1 by (simp_all add: record_version_sum record_group_sum)
  moreover have "hp_streams_opened st1 = hp_streams_opened st" unfolding st1 by simp
  ultimately show ?thesis
    using assms(1) installed(1,2) bump_simps(3) [OF assms(1,2)]
    unfolding installed(5) by (simp add: counters_sums Let_def st1)
qed (use counters_mono [OF assms(1)] in simp_all)

lemma counters_drop_lease: "counters_ok k st \<Longrightarrow> counters_ok k (drop_lease now g st)"
  by (cases "hp_connection st") (simp_all add: drop_lease_def counters_ok_def Let_def)

lemma counters_forget:
  assumes "counters_ok k st" "k < U64_MAX"
  shows "counters_ok (Suc k) (invalidate_after_readiness_failure g st)"
    "counters_ok (Suc k) (invalidate_after_stream_open_failure g st)"
  using assms(1)
  unfolding invalidate_after_readiness_failure_def invalidate_after_stream_open_failure_def bump_simps(9,10) [OF assms]
  by (cases "hp_connection st"; simp add: forget_generation_def counters_ok_def Let_def)+

definition idle_on :: "nat \<Rightarrow> 's H2ConnectionPoolState \<Rightarrow> bool" where
  "idle_on g st = (\<exists>c. hp_connection st = Some c \<and> cc_generation c = g \<and> cc_active_streams c = 0)"

lemma retire_eq:
  "retire_after_handshake_timeout_if_unshared g st =
     (if idle_on g st
      then (True, st\<lparr>hp_connection := None, hp_handshake_timeouts := bump (hp_handshake_timeouts st),
                     hp_timeout_retirements := bump (hp_timeout_retirements st)\<rparr>)
      else (False, st\<lparr>hp_handshake_timeouts := bump (hp_handshake_timeouts st)\<rparr>))"
  by (cases "hp_connection st") (simp_all add: retire_after_handshake_timeout_if_unshared_def idle_on_def Let_def)

lemma counters_retire:
  assumes "counters_ok k st" "k < U64_MAX" "retire_after_handshake_timeout_if_unshared g st = (b, st')"
  shows "counters_ok (Suc k) st'"
proof -
  have "counters_ok (Suc k) (snd (retire_after_handshake_timeout_if_unshared g st))"
    using assms(1) unfolding retire_eq bump_simps(8,11) [OF assms(1,2)]
    by (cases "idle_on g st") (auto simp add: idle_on_def counters_ok_def Let_def)
  then show ?thesis using assms(3) by simp
qed

lemma counters_inactive:
  assumes "counters_ok k st" "k < U64_MAX"
  shows "counters_ok k (retire_inactive_connection now idle st)"
  using assms(1) counters_clear(1,2) [OF assms]
  by (cases "hp_connection st") (simp_all add: retire_inactive_connection_def Let_def)

lemma counters_records:
  assumes "counters_ok k st"
  shows "counters_ok k (record_connection_setup_duration d st)" "counters_ok k (record_tunnel_open_duration d st)"
    "counters_ok k (record_timeout_recovery st)" "counters_ok k (record_runtime_stream_reset st)"
    "counters_ok k (record_runtime_send_stall st)"
  using assms
  by (simp_all add: record_connection_setup_duration_def record_tunnel_open_duration_def record_timeout_recovery_def
      record_runtime_stream_reset_def record_runtime_send_stall_def counters_ok_def Let_def)

lemma counters_shutdown:
  assumes "counters_ok k st" "k < U64_MAX" "hp_shutdown st \<Longrightarrow> hp_connection st = None"
  shows "counters_ok k (pool_shutdown st)"
proof (cases "hp_connection st")
  case None
  then show ?thesis using assms(1) by (cases "hp_shutdown st") (simp_all add: counters_ok_def Let_def pool_shutdown_def)
next
  case (Some c)
  then show ?thesis using counters_clear(3) [OF assms(1,2)] assms(3) by auto
qed

subsection \<open>What the operations do to the cached connection\<close>

lemma drop_closed_view:
  "hp_connection (drop_closed st) = None \<or> hp_connection (drop_closed st) = hp_connection st"
  "hp_active_streams (drop_closed st) = hp_active_streams st"
  "hp_next_generation (drop_closed st) = hp_next_generation st" "hp_shutdown (drop_closed st) = hp_shutdown st"
  by (cases "hp_connection st"; simp add: drop_closed_def)+

lemma forget_view:
  "hp_connection (forget_generation g st) = None \<or> hp_connection (forget_generation g st) = hp_connection st"
  "hp_active_streams (forget_generation g st) = hp_active_streams st"
  "hp_next_generation (forget_generation g st) = hp_next_generation st"
  "hp_shutdown (forget_generation g st) = hp_shutdown st"
  by (cases "hp_connection st"; simp add: forget_generation_def)+

lemma invalidate_view:
  assumes "f = invalidate_after_readiness_failure g \<or> f = invalidate_after_stream_open_failure g"
  shows "hp_connection (f st) = None \<or> hp_connection (f st) = hp_connection st"
    "hp_active_streams (f st) = hp_active_streams st" "hp_next_generation (f st) = hp_next_generation st"
    "hp_shutdown (f st) = hp_shutdown st"
  using assms forget_view [of g "st\<lparr>hp_readiness_failures := bump (hp_readiness_failures st)\<rparr>"]
    forget_view [of g "st\<lparr>hp_stream_open_failures := bump (hp_stream_open_failures st)\<rparr>"]
  by (auto simp: invalidate_after_readiness_failure_def invalidate_after_stream_open_failure_def)

lemma retire_view:
  assumes "retire_after_handshake_timeout_if_unshared g st = (b, st')"
  shows "hp_connection st' = None \<or> hp_connection st' = hp_connection st"
    "hp_active_streams st' = hp_active_streams st" "hp_next_generation st' = hp_next_generation st"
    "hp_shutdown st' = hp_shutdown st"
  using assms by (cases "idle_on g st"; simp add: retire_eq; elim conjE; hypsubst; simp)+

lemma inactive_view:
  "hp_connection (retire_inactive_connection now idle st) = None
     \<or> hp_connection (retire_inactive_connection now idle st) = hp_connection st"
  "hp_active_streams (retire_inactive_connection now idle st) = hp_active_streams st"
  "hp_next_generation (retire_inactive_connection now idle st) = hp_next_generation st"
  "hp_shutdown (retire_inactive_connection now idle st) = hp_shutdown st"
  by (cases "hp_connection st"; simp add: retire_inactive_connection_def Let_def)+

lemma drop_lease_view:
  "hp_active_streams (drop_lease now g st) = hp_active_streams st - 1"
  "hp_next_generation (drop_lease now g st) = hp_next_generation st" "hp_shutdown (drop_lease now g st) = hp_shutdown st"
  "hp_connection (drop_lease now g st) =
     (case hp_connection st of None \<Rightarrow> None
      | Some c \<Rightarrow> Some (if cc_generation c \<noteq> g then c
          else c\<lparr>cc_active_streams := cc_active_streams c - 1,
                 cc_idle_since := (if cc_active_streams c - 1 = 0 then Some now else cc_idle_since c)\<rparr>))"
  by (cases "hp_connection st"; simp add: drop_lease_def Let_def saturating_sub_def)+

lemma record_view:
  assumes "f \<in> {record_connection_setup_duration d, record_tunnel_open_duration d, record_timeout_recovery,
      record_runtime_stream_reset, record_runtime_send_stall}"
  shows "hp_connection (f st) = hp_connection st" "hp_active_streams (f st) = hp_active_streams st"
    "hp_next_generation (f st) = hp_next_generation st" "hp_shutdown (f st) = hp_shutdown st"
  using assms
  by (auto simp: record_connection_setup_duration_def record_tunnel_open_duration_def record_timeout_recovery_def
      record_runtime_stream_reset_def record_runtime_send_stall_def)

subsection \<open>Histograms are cumulative\<close>

definition millis :: "nat \<Rightarrow> nat" where
  "millis elapsed = min (elapsed div 1000000) U64_MAX"

definition histogram_of :: "nat list \<Rightarrow> H2DurationHistogram" where
  "histogram_of ds = foldl record_duration H2DurationHistogram_default ds"

text \<open>Bucket \<open>i\<close> counts the durations up to its bound, the last one all of them.\<close>

definition counts_durations :: "nat list \<Rightarrow> H2DurationHistogram \<Rightarrow> bool" where
  "counts_durations ds h =
     (hh_count h = length ds
      \<and> hh_buckets h = map (\<lambda>b. length (filter (\<lambda>d. millis d \<le> b) ds)) H2_DURATION_BUCKET_UPPER_BOUNDS_MS @ [length ds])"

lemma histogram_counts:
  assumes "length ds \<le> U64_MAX"
  shows "counts_durations ds (histogram_of ds)"
  using assms
proof (induction ds rule: rev_induct)
  case Nil
  show ?case
    by (simp add: counts_durations_def histogram_of_def H2DurationHistogram_default_def H2_DURATION_BUCKET_COUNT_def
        H2_DURATION_BUCKET_UPPER_BOUNDS_MS_def eval_nat_numeral)
next
  case (snoc d ds)
  have le: "length (filter P ds) < U64_MAX" for P by (rule le_less_trans [OF length_filter_le]) (use snoc.prems in simp)
  have up: "saturating_add U64_MAX (length (filter P ds)) (Suc 0) = Suc (length (filter P ds))" for P
    using le [of P] by (simp add: saturating_add_def)
  have IH: "counts_durations ds (histogram_of ds)" using snoc by simp
  then show ?case
    using snoc.prems
    by (simp add: counts_durations_def histogram_of_def record_duration_def Let_def millis_def [symmetric] up
        H2_DURATION_BUCKET_COUNT_def H2_DURATION_BUCKET_UPPER_BOUNDS_MS_def enumerate_eq_zip)
qed

end
