(* ===== verification/Pool_Tasks.thy ===== *)
theory Pool_Tasks
  imports Client_Pool
begin

text \<open>
  Opening tunnels through the pool of \<open>Client_Pool\<close>: the program points of \<open>ClientTunnelPool::open_h2\<close>,
  \<open>H2ConnectionManager::acquire\<close> and \<open>checkout_or_connect\<close> as states of a task, the interleaving of any
  number of such tasks with the idle maintenance, closing connections and the shutdown, and what holds in
  every state that can be reached.
\<close>

subsection \<open>Tasks that open tunnels\<close>

text \<open>The local variables of a call of \<open>open_h2\<close> and of the \<open>acquire\<close> it is in.\<close>

record open_call =
  oc_attempt :: nat
  oc_timeout_recovery_pending :: bool
  oc_last_error :: "pool_error option"
  oc_started_at :: nat
  oc_try :: nat
  oc_try_error :: "pool_error option"

definition new_call :: open_call where
  "new_call = \<lparr>oc_attempt = 0, oc_timeout_recovery_pending = False, oc_last_error = None, oc_started_at = 0,
     oc_try = 0, oc_try_error = None\<rparr>"

text \<open>Where a task is: at the head of the loop of \<open>open_h2\<close>, at the head of the loop of \<open>acquire\<close>, at the
points of \<open>checkout_or_connect\<close>, waiting for readiness, in the handshake of the tunnel, or behind it.
\<open>DroppingLease\<close> drops a lease and \<open>Unlocking\<close> the guard of the gate before the task goes on.\<close>

datatype 's opener =
    Resting
  | Attempting open_call
  | Trying open_call
  | WaitingGate open_call
  | Rechecking open_call
  | ConnectingH2 open_call nat
  | Recording open_call nat "'s H2Connection"
  | Installing open_call "'s H2Connection"
  | Readying open_call "'s H2Checkout"
  | Unready open_call "'s H2Checkout"
  | OpeningTunnel open_call "'s H2Checkout"
  | Opened open_call "'s H2Checkout"
  | Recovered "'s H2Checkout"
  | TunnelOpen "'s H2Checkout"
  | Retiring open_call nat pool_error
  | StreamFailed open_call nat
  | DroppingLease "'s H2Checkout" "'s opener"
  | Unlocking "'s opener"
  | Returned pool_error

datatype 's pool_event =
    Go
  | Elapsed
  | Cancel
  | Connected "'s H2Connection"
  | ConnectFailed string
  | IsReady
  | NotReady
  | HandshakeDone
  | HandshakeStalled
  | HandshakeH2Error
  | HandshakeFailed string
  | StreamReset
  | SendStall

definition or_error :: "pool_error option \<Rightarrow> string \<Rightarrow> pool_error" where
  "or_error e msg = (case e of Some e \<Rightarrow> e | None \<Rightarrow> PoolBail msg)"

definition begin_attempt :: "nat \<Rightarrow> open_call \<Rightarrow> 's opener" where
  "begin_attempt now c =
     (if oc_attempt c < MAX_READY_ATTEMPTS
      then Trying (c\<lparr>oc_started_at := now, oc_try := 0, oc_try_error := None\<rparr>)
      else Returned (or_error (oc_last_error c) ''pooled H2 stream open failed''))"

definition begin_try :: "open_call \<Rightarrow> 's H2ConnectionPoolState \<Rightarrow> 's opener \<times> 's H2ConnectionPoolState" where
  "begin_try c st =
     (if oc_try c < MAX_READY_ATTEMPTS then
        case checkout_cached st of
          (Inr (Some co), st) \<Rightarrow> (Readying c co, st)
        | (Inr None, st) \<Rightarrow> (WaitingGate c, st)
        | (Inl e, st) \<Rightarrow> (Returned e, st)
      else (Returned (or_error (oc_try_error c) ''pooled H2 stream acquisition failed''), st))"

definition recheck :: "nat \<Rightarrow> open_call \<Rightarrow> 's H2ConnectionPoolState \<Rightarrow> 's opener \<times> 's H2ConnectionPoolState" where
  "recheck now c st =
     (case checkout_cached st of
        (Inr (Some co), st) \<Rightarrow> (Unlocking (Readying c co), st)
      | (Inr None, st) \<Rightarrow> (ConnectingH2 c now, st)
      | (Inl e, st) \<Rightarrow> (Unlocking (Returned e), st))"

definition install :: "open_call \<Rightarrow> 's H2Connection \<Rightarrow> 's H2ConnectionPoolState \<Rightarrow> 's opener \<times> 's H2ConnectionPoolState" where
  "install c connection st =
     (case install_and_checkout connection st of
        (Inr co, st) \<Rightarrow> (Unlocking (Readying c co), st)
      | (Inl e, st) \<Rightarrow> (Unlocking (Returned e), st))"

definition retire :: "open_call \<Rightarrow> nat \<Rightarrow> pool_error \<Rightarrow> 's H2ConnectionPoolState \<Rightarrow> 's opener \<times> 's H2ConnectionPoolState" where
  "retire c generation err st =
     (let (retired, st) = retire_after_handshake_timeout_if_unshared generation st in
      if retired \<and> oc_attempt c + 1 < MAX_READY_ATTEMPTS
      then (Attempting (c\<lparr>oc_attempt := oc_attempt c + 1, oc_timeout_recovery_pending := True, oc_last_error := Some err\<rparr>), st)
      else (Returned err, st))"

definition next_attempt :: "open_call \<Rightarrow> pool_error \<Rightarrow> 's opener" where
  "next_attempt c err = Attempting (c\<lparr>oc_attempt := oc_attempt c + 1, oc_last_error := Some err\<rparr>)"

definition next_try :: "open_call \<Rightarrow> pool_error \<Rightarrow> 's opener" where
  "next_try c err = Trying (c\<lparr>oc_try := oc_try c + 1, oc_try_error := Some err\<rparr>)"

text \<open>What a task does on an event; \<open>None\<close> where the event cannot happen.\<close>

definition opener_next ::
  "nat \<Rightarrow> 's pool_event \<Rightarrow> 's opener \<Rightarrow> 's H2ConnectionPoolState \<Rightarrow> ('s opener \<times> 's H2ConnectionPoolState) option" where
  "opener_next now ev t st =
     (case t of
        Resting \<Rightarrow> (case ev of Go \<Rightarrow> Some (Attempting new_call, st) | _ \<Rightarrow> None)
      | Attempting c \<Rightarrow> (case ev of Go \<Rightarrow> Some (begin_attempt now c, st) | _ \<Rightarrow> None)
      | Trying c \<Rightarrow> (case ev of Go \<Rightarrow> Some (begin_try c st) | _ \<Rightarrow> None)
      | WaitingGate c \<Rightarrow>
          (case ev of Elapsed \<Rightarrow> Some (Returned (PoolBail ''waiting for pooled H2 connection timed out''), st)
           | Cancel \<Rightarrow> Some (Resting, st) | _ \<Rightarrow> None)
      | Rechecking c \<Rightarrow> (case ev of Go \<Rightarrow> Some (recheck now c st) | _ \<Rightarrow> None)
      | ConnectingH2 c started \<Rightarrow>
          (case ev of Connected connection \<Rightarrow> Some (Recording c started connection, st)
           | ConnectFailed msg \<Rightarrow> Some (Unlocking (Returned (PoolConnect msg)), st)
           | Cancel \<Rightarrow> Some (Unlocking Resting, st) | _ \<Rightarrow> None)
      | Recording c started connection \<Rightarrow>
          (case ev of Go \<Rightarrow> Some (Installing c connection, record_connection_setup_duration (now - started) st) | _ \<Rightarrow> None)
      | Installing c connection \<Rightarrow> (case ev of Go \<Rightarrow> Some (install c connection st) | _ \<Rightarrow> None)
      | Readying c co \<Rightarrow>
          (case ev of IsReady \<Rightarrow> Some (OpeningTunnel c co, st)
           | NotReady \<Rightarrow> Some (Unready c co, st)
           | Elapsed \<Rightarrow> Some (DroppingLease co (Returned (PoolBail ''pooled H2 stream acquisition timed out'')), st)
           | Cancel \<Rightarrow> Some (DroppingLease co Resting, st) | _ \<Rightarrow> None)
      | Unready c co \<Rightarrow>
          (case ev of Go \<Rightarrow> Some (DroppingLease co (next_try c (PoolH2 ''pooled H2 connection closed'')),
              invalidate_after_readiness_failure (co_generation co) st) | _ \<Rightarrow> None)
      | OpeningTunnel c co \<Rightarrow>
          (case ev of HandshakeDone \<Rightarrow> Some (Opened c co, st)
           | HandshakeStalled \<Rightarrow>
               Some (DroppingLease co (Retiring c (co_generation co) (PoolBail ''pooled H2 tunnel handshake timed out'')), st)
           | HandshakeH2Error \<Rightarrow> Some (DroppingLease co (StreamFailed c (co_generation co)), st)
           | HandshakeFailed msg \<Rightarrow> Some (DroppingLease co (Returned (PoolBail msg)), st)
           | Elapsed \<Rightarrow>
               Some (DroppingLease co (Retiring c (co_generation co) (PoolBail ''pooled H2 tunnel handshake timed out'')), st)
           | Cancel \<Rightarrow> Some (DroppingLease co Resting, st) | _ \<Rightarrow> None)
      | Opened c co \<Rightarrow>
          (case ev of Go \<Rightarrow> Some (if oc_timeout_recovery_pending c then Recovered co else TunnelOpen co,
              record_tunnel_open_duration (now - oc_started_at c) st) | _ \<Rightarrow> None)
      | Recovered co \<Rightarrow> (case ev of Go \<Rightarrow> Some (TunnelOpen co, record_timeout_recovery st) | _ \<Rightarrow> None)
      | TunnelOpen co \<Rightarrow>
          (case ev of Go \<Rightarrow> Some (DroppingLease co Resting, st)
           | StreamReset \<Rightarrow> Some (TunnelOpen co, record_runtime_stream_reset st)
           | SendStall \<Rightarrow> Some (TunnelOpen co, record_runtime_send_stall st) | _ \<Rightarrow> None)
      | Retiring c generation err \<Rightarrow> (case ev of Go \<Rightarrow> Some (retire c generation err st) | _ \<Rightarrow> None)
      | StreamFailed c generation \<Rightarrow>
          (case ev of Go \<Rightarrow> Some (next_attempt c (PoolH2 ''pooled H2 stream open failed''),
              invalidate_after_stream_open_failure generation st) | _ \<Rightarrow> None)
      | DroppingLease co k \<Rightarrow> (case ev of Go \<Rightarrow> Some (k, drop_lease now (co_generation co) st) | _ \<Rightarrow> None)
      | Unlocking k \<Rightarrow> None
      | Returned e \<Rightarrow> (case ev of Go \<Rightarrow> Some (Resting, st) | _ \<Rightarrow> None))"

text \<open>The pool with its tasks, the owner of the gate and the clock. \<open>sy_made\<close> lists, for the statements
only, the connections that were installed.\<close>

record 's pool_system =
  sy_state :: "'s H2ConnectionPoolState"
  sy_gate :: "nat option"
  sy_tasks :: "'s opener list"
  sy_clock :: nat
  sy_made :: "'s H2Checkout list"

definition pool_new :: "nat \<Rightarrow> 's pool_system" where
  "pool_new n = \<lparr>sy_state = H2ConnectionPoolState_default, sy_gate = None, sy_tasks = replicate n Resting,
     sy_clock = 0, sy_made = []\<rparr>"

definition made :: "'s opener \<Rightarrow> 's opener \<Rightarrow> 's H2Checkout list" where
  "made t t' = (case t of Installing c connection \<Rightarrow> (case t' of Unlocking (Readying c co) \<Rightarrow> [co] | _ \<Rightarrow> []) | _ \<Rightarrow> [])"

datatype actor = Task nat | World

inductive pool_step :: "nat \<Rightarrow> 's pool_system \<Rightarrow> actor \<Rightarrow> 's pool_system \<Rightarrow> bool" for idle_timeout where
  act: "i < length (sy_tasks y) \<Longrightarrow> opener_next (sy_clock y) ev (sy_tasks y ! i) (sy_state y) = Some (t, st) \<Longrightarrow>
    pool_step idle_timeout y (Task i) (y\<lparr>sy_state := st, sy_tasks := (sy_tasks y)[i := t],
      sy_made := made (sy_tasks y ! i) t @ sy_made y\<rparr>)"
| lock: "i < length (sy_tasks y) \<Longrightarrow> sy_tasks y ! i = WaitingGate c \<Longrightarrow> sy_gate y = None \<Longrightarrow>
    pool_step idle_timeout y (Task i) (y\<lparr>sy_gate := Some i, sy_tasks := (sy_tasks y)[i := Rechecking c]\<rparr>)"
| unlock: "i < length (sy_tasks y) \<Longrightarrow> sy_tasks y ! i = Unlocking t \<Longrightarrow>
    pool_step idle_timeout y (Task i) (y\<lparr>sy_gate := None, sy_tasks := (sy_tasks y)[i := t]\<rparr>)"
| tick: "pool_step idle_timeout y World (y\<lparr>sy_clock := sy_clock y + d\<rparr>)"
| close: "hp_connection (sy_state y) = Some c \<Longrightarrow>
    pool_step idle_timeout y World (y\<lparr>sy_state := (sy_state y)\<lparr>hp_connection := Some (c\<lparr>cc_closed := True\<rparr>)\<rparr>\<rparr>)"
| maintain: "pool_step idle_timeout y World
    (y\<lparr>sy_state := retire_inactive_connection (sy_clock y) idle_timeout (sy_state y)\<rparr>)"
| stop: "pool_step idle_timeout y World (y\<lparr>sy_state := pool_shutdown (sy_state y)\<rparr>)"

text \<open>Runs of a given number of steps.\<close>

inductive pool_run :: "nat \<Rightarrow> 's pool_system \<Rightarrow> nat \<Rightarrow> 's pool_system \<Rightarrow> bool" for idle_timeout y where
  run_start: "pool_run idle_timeout y 0 y"
| run_step: "pool_run idle_timeout y k y' \<Longrightarrow> pool_step idle_timeout y' a y'' \<Longrightarrow> pool_run idle_timeout y (Suc k) y''"

subsection \<open>What the pool keeps\<close>

text \<open>The lease a task owns, the points at which it owns the gate, and those at which it makes a
connection.\<close>

fun lease_of :: "'s opener \<Rightarrow> 's H2Checkout option" where
  "lease_of (Readying c co) = Some co"
| "lease_of (Unready c co) = Some co"
| "lease_of (OpeningTunnel c co) = Some co"
| "lease_of (Opened c co) = Some co"
| "lease_of (Recovered co) = Some co"
| "lease_of (TunnelOpen co) = Some co"
| "lease_of (DroppingLease co k) = Some co"
| "lease_of (Unlocking k) = lease_of k"
| "lease_of _ = None"

fun makes_connection :: "'s opener \<Rightarrow> bool" where
  "makes_connection (ConnectingH2 c started) = True"
| "makes_connection (Recording c started connection) = True"
| "makes_connection (Installing c connection) = True"
| "makes_connection _ = False"

fun has_gate :: "'s opener \<Rightarrow> bool" where
  "has_gate (Rechecking c) = True"
| "has_gate (Unlocking k) = True"
| "has_gate t = makes_connection t"

definition holds_lease :: "'s opener \<Rightarrow> bool" where
  "holds_lease t = (lease_of t \<noteq> None)"

definition on_generation :: "nat \<Rightarrow> 's opener \<Rightarrow> bool" where
  "on_generation g t = (\<exists>co. lease_of t = Some co \<and> co_generation co = g)"

text \<open>The loops of a call are within their bounds, and what follows a drop or an unlock owns nothing
that was given back.\<close>

fun opener_ok :: "'s opener \<Rightarrow> bool" where
  "opener_ok (Attempting c) = (oc_attempt c \<le> 2)"
| "opener_ok (Trying c) = (oc_attempt c < 2 \<and> oc_try c \<le> 2)"
| "opener_ok (WaitingGate c) = (oc_attempt c < 2 \<and> oc_try c < 2)"
| "opener_ok (Rechecking c) = (oc_attempt c < 2 \<and> oc_try c < 2)"
| "opener_ok (ConnectingH2 c started) = (oc_attempt c < 2 \<and> oc_try c < 2)"
| "opener_ok (Recording c started connection) = (oc_attempt c < 2 \<and> oc_try c < 2)"
| "opener_ok (Installing c connection) = (oc_attempt c < 2 \<and> oc_try c < 2)"
| "opener_ok (Readying c co) = (oc_attempt c < 2 \<and> oc_try c < 2)"
| "opener_ok (Unready c co) = (oc_attempt c < 2 \<and> oc_try c < 2)"
| "opener_ok (OpeningTunnel c co) = (oc_attempt c < 2 \<and> oc_try c < 2)"
| "opener_ok (Retiring c g err) = (oc_attempt c < 2)"
| "opener_ok (StreamFailed c g) = (oc_attempt c < 2)"
| "opener_ok (DroppingLease co k) = (opener_ok k \<and> lease_of k = None \<and> \<not> has_gate k)"
| "opener_ok (Unlocking k) = (opener_ok k \<and> \<not> has_gate k)"
| "opener_ok _ = True"

interpretation connect_gate: task_mutex has_gate Resting
  by unfold_locales simp

lemma connecting_has_gate: "makes_connection t \<Longrightarrow> has_gate t"
  by (cases t) simp_all

text \<open>The streams counted for the pool and for the cached connection are the leases that are alive; a
connection is idle exactly when no lease of its generation is.\<close>

definition streams_ok :: "'s CachedH2Connection option \<Rightarrow> nat \<Rightarrow> 's opener list \<Rightarrow> bool" where
  "streams_ok conn active ts =
     (active = count_tasks holds_lease ts \<and>
      (\<forall>c. conn = Some c \<longrightarrow> cc_active_streams c = count_tasks (on_generation (cc_generation c)) ts
         \<and> (cc_idle_since c = None \<longleftrightarrow> 0 < cc_active_streams c)))"

text \<open>Generations number the installed connections, and leases are leases of them.\<close>

definition generations_ok :: "'s CachedH2Connection option \<Rightarrow> nat \<Rightarrow> 's H2Checkout list \<Rightarrow> 's opener list \<Rightarrow> bool" where
  "generations_ok conn g mk ts =
     (map co_generation mk = rev [1..<Suc g] \<and> (\<forall>t \<in> set ts. \<forall>co. lease_of t = Some co \<longrightarrow> co \<in> set mk)
      \<and> (\<forall>c. conn = Some c \<longrightarrow> checkout_of c \<in> set mk))"

definition tasks_ok :: "'s CachedH2Connection option \<Rightarrow> bool \<Rightarrow> nat option \<Rightarrow> 's opener list \<Rightarrow> bool" where
  "tasks_ok conn stopped gate ts =
     ((\<forall>t \<in> set ts. opener_ok t) \<and> owner_ok has_gate gate ts
      \<and> ((\<exists>t \<in> set ts. makes_connection t) \<longrightarrow> conn = None) \<and> (stopped \<longrightarrow> conn = None) \<and> length ts \<le> U32_MAX)"

definition pool_inv :: "nat \<Rightarrow> 's pool_system \<Rightarrow> bool" where
  "pool_inv k y =
     (let st = sy_state y; conn = hp_connection st; ts = sy_tasks y in
      streams_ok conn (hp_active_streams st) ts \<and> generations_ok conn (hp_next_generation st) (sy_made y) ts
      \<and> tasks_ok conn (hp_shutdown st) (sy_gate y) ts \<and> counters_ok k st)"

subsection \<open>Moves of one task\<close>

lemma lease_preds:
  "lease_of q = lease_of t \<Longrightarrow> holds_lease q = holds_lease t \<and> on_generation g q = on_generation g t"
  "lease_of q = Some co \<Longrightarrow> holds_lease q \<and> (on_generation g q \<longleftrightarrow> g = co_generation co)"
  "lease_of q = None \<Longrightarrow> \<not> holds_lease q \<and> \<not> on_generation g q"
  by (auto simp: holds_lease_def on_generation_def)

lemma streams_clear: "streams_ok conn a ts \<Longrightarrow> streams_ok None a ts"
  by (simp add: streams_ok_def)

lemma streams_keep:
  assumes "streams_ok conn a ts" "i < length ts" "lease_of q = lease_of (ts ! i)"
  shows "streams_ok conn a (ts[i := q])"
  using assms(1) lease_preds(1) [OF assms(3)] by (simp add: streams_ok_def count_same [OF assms(2)])

lemma streams_reuse:
  assumes "streams_ok (Some c) a ts" "i < length ts" "lease_of (ts ! i) = None" "lease_of q = Some (checkout_of c)"
  shows "streams_ok (Some (c\<lparr>cc_active_streams := cc_active_streams c + 1, cc_idle_since := None\<rparr>)) (a + 1) (ts[i := q])"
  using assms(1) lease_preds(2) [OF assms(4)] lease_preds(3) [OF assms(3)]
  by (simp add: streams_ok_def count_move [OF assms(2)] checkout_of_def)

lemma streams_install:
  assumes "streams_ok conn a ts" "i < length ts" "lease_of (ts ! i) = None" "lease_of q = Some (checkout_of c)"
    and "\<forall>t \<in> set ts. \<not> on_generation (cc_generation c) t" "cc_active_streams c = 1" "cc_idle_since c = None"
  shows "streams_ok (Some c) (a + 1) (ts[i := q])"
proof -
  have "count_tasks (on_generation (cc_generation c)) ts = 0" using assms(5) by (simp add: count_zero)
  then show ?thesis
    using assms(1,6,7) lease_preds(2) [OF assms(4)] lease_preds(3) [OF assms(3)]
    by (simp add: streams_ok_def count_move [OF assms(2)] checkout_of_def)
qed

lemma streams_drop:
  assumes "streams_ok (hp_connection st) (hp_active_streams st) ts" "i < length ts"
    and "lease_of (ts ! i) = Some co" "lease_of q = None"
  shows "streams_ok (hp_connection (drop_lease now (co_generation co) st))
     (hp_active_streams (drop_lease now (co_generation co) st)) (ts[i := q])"
proof (cases "hp_connection st")
  case None
  then show ?thesis
    using assms(1) lease_preds(2) [OF assms(3)] lease_preds(3) [OF assms(4)]
    by (simp add: streams_ok_def drop_lease_view count_move [OF assms(2)])
next
  case (Some c)
  have "on_generation (co_generation co) (ts ! i)" using lease_preds(2) [OF assms(3)] by simp
  then have "0 < count_tasks (on_generation (co_generation co)) ts"
    using count_ge [OF assms(2), of "on_generation (co_generation co)"] by simp
  then show ?thesis
    using assms(1) Some lease_preds(2) [OF assms(3)] lease_preds(3) [OF assms(4)]
    by (auto simp: streams_ok_def drop_lease_view count_move [OF assms(2)])
qed

lemma generations_move:
  assumes "generations_ok conn g mk ts" "i < length ts"
    and "\<And>co. lease_of q = Some co \<Longrightarrow> co \<in> set mk"
    and "\<And>c. conn' = Some c \<Longrightarrow> checkout_of c \<in> set mk"
  shows "generations_ok conn' g mk (ts[i := q])"
  using assms set_update_subset_insert [of ts i q] unfolding generations_ok_def by blast

lemma generations_install:
  assumes "generations_ok conn g mk ts" "i < length ts" "lease_of q = Some co" "co_generation co = g + 1" "checkout_of c = co"
  shows "generations_ok (Some c) (g + 1) (co # mk) (ts[i := q])"
proof -
  have "map co_generation (co # mk) = rev [1..<Suc (g + 1)]" using assms(1,4) by (simp add: generations_ok_def)
  then show ?thesis using assms set_update_subset_insert [of ts i q] unfolding generations_ok_def by fastforce
qed

lemma generation_fresh:
  assumes "generations_ok conn g mk ts" "t \<in> set ts"
  shows "\<not> on_generation (g + 1) t"
proof
  assume "on_generation (g + 1) t"
  then obtain co where co: "co \<in> set mk" "co_generation co = g + 1"
    using assms unfolding on_generation_def generations_ok_def by blast
  then have "g + 1 \<in> set (map co_generation mk)" by force
  moreover have "map co_generation mk = rev [1..<Suc g]" using assms(1) unfolding generations_ok_def by blast
  ultimately have "g + 1 \<in> set (rev [1..<Suc g])" by (simp only:)
  then show False unfolding set_rev set_upt by simp
qed

lemma tasks_move:
  assumes "tasks_ok conn stopped gate ts" "i < length ts" "opener_ok q" "owner_ok has_gate gate' (ts[i := q])"
    and "conn' \<noteq> None \<Longrightarrow> \<not> stopped' \<and> (\<forall>t \<in> set (ts[i := q]). \<not> makes_connection t)"
  shows "tasks_ok conn' stopped' gate' (ts[i := q])"
  using assms set_update_subset_insert [of ts i q] unfolding tasks_ok_def by (cases conn') auto

text \<open>Only the owner of the gate makes a connection.\<close>

lemma connecting_alone:
  assumes "tasks_ok conn stopped gate ts" "i < length ts" "has_gate (ts ! i)" "\<not> makes_connection q"
  shows "\<forall>t \<in> set (ts[i := q]). \<not> makes_connection t"
proof
  fix t
  assume "t \<in> set (ts[i := q])"
  then obtain j where j: "j < length ts" "t = (if j = i then q else ts ! j)"
    by (auto simp: in_set_conv_nth nth_list_update split: if_splits)
  show "\<not> makes_connection t"
  proof (cases "j = i")
    case False
    then have "\<not> has_gate (ts ! j)"
      using connect_gate.owner_unique [of gate ts i j] assms j(1) by (auto simp: tasks_ok_def)
    then show ?thesis using j False connecting_has_gate by auto
  qed (use j assms(4) in simp)
qed

lemma not_connecting_update:
  "\<forall>t \<in> set ts. \<not> makes_connection t \<Longrightarrow> \<not> makes_connection q \<Longrightarrow> \<forall>t \<in> set (ts[i := q]). \<not> makes_connection t"
  using set_update_subset_insert [of ts i q] by auto

subsection \<open>The kinds of steps of a task\<close>

text \<open>A quiet step keeps the leases and the connection, except that it may forget the connection.\<close>

definition forgets :: "'s H2ConnectionPoolState \<Rightarrow> 's H2ConnectionPoolState \<Rightarrow> bool" where
  "forgets st st' =
     ((hp_connection st' = None \<or> hp_connection st' = hp_connection st) \<and> hp_active_streams st' = hp_active_streams st
      \<and> hp_next_generation st' = hp_next_generation st \<and> hp_shutdown st' = hp_shutdown st)"

definition quiet :: "'s opener \<Rightarrow> 's H2ConnectionPoolState \<Rightarrow> 's opener \<Rightarrow> 's H2ConnectionPoolState \<Rightarrow> bool" where
  "quiet t st t' st' =
     (forgets st st' \<and> lease_of t' = lease_of t \<and> has_gate t' = has_gate t \<and> made t t' = []
      \<and> (makes_connection t' \<longrightarrow> makes_connection t \<or> hp_connection st' = None) \<and> (opener_ok t \<longrightarrow> opener_ok t'))"

definition reuses :: "'s opener \<Rightarrow> 's H2ConnectionPoolState \<Rightarrow> 's opener \<Rightarrow> 's H2ConnectionPoolState \<Rightarrow> bool" where
  "reuses t st t' st' =
     (\<exists>c. \<not> hp_shutdown st \<and> hp_connection st = Some c \<and> lease_of t = None \<and> lease_of t' = Some (checkout_of c)
        \<and> hp_connection st' = Some (c\<lparr>cc_active_streams := bump_u32 (cc_active_streams c), cc_idle_since := None\<rparr>)
        \<and> hp_active_streams st' = bump_u32 (hp_active_streams st) \<and> hp_next_generation st' = hp_next_generation st
        \<and> hp_shutdown st' = hp_shutdown st \<and> has_gate t' = has_gate t \<and> \<not> makes_connection t' \<and> made t t' = []
        \<and> (opener_ok t \<longrightarrow> opener_ok t'))"

definition installs :: "'s opener \<Rightarrow> 's H2ConnectionPoolState \<Rightarrow> 's opener \<Rightarrow> 's H2ConnectionPoolState \<Rightarrow> bool" where
  "installs t st t' st' =
     (\<exists>co c. \<not> hp_shutdown st \<and> hp_connection st = None \<and> lease_of t = None \<and> lease_of t' = Some co
        \<and> co_generation co = bump (hp_next_generation st) \<and> checkout_of c = co \<and> cc_active_streams c = 1
        \<and> cc_idle_since c = None \<and> hp_connection st' = Some c
        \<and> hp_active_streams st' = bump_u32 (hp_active_streams st)
        \<and> hp_next_generation st' = bump (hp_next_generation st) \<and> hp_shutdown st' = hp_shutdown st
        \<and> has_gate t \<and> has_gate t' \<and> \<not> makes_connection t' \<and> made t t' = [co] \<and> (opener_ok t \<longrightarrow> opener_ok t'))"

definition drops :: "nat \<Rightarrow> 's opener \<Rightarrow> 's H2ConnectionPoolState \<Rightarrow> 's opener \<Rightarrow> 's H2ConnectionPoolState \<Rightarrow> bool" where
  "drops now t st t' st' = (\<exists>co. t = DroppingLease co t' \<and> st' = drop_lease now (co_generation co) st)"

lemma forgets_refl [simp]: "forgets st st"
  by (simp add: forgets_def)

lemma forgets_ops:
  "forgets st (drop_closed st)" "forgets st (invalidate_after_readiness_failure g st)"
  "forgets st (invalidate_after_stream_open_failure g st)" "forgets st (record_connection_setup_duration d st)"
  "forgets st (record_tunnel_open_duration d st)" "forgets st (record_timeout_recovery st)"
  "forgets st (record_runtime_stream_reset st)" "forgets st (record_runtime_send_stall st)"
  "forgets st (retire_inactive_connection now idle st)"
  using drop_closed_view [of st] invalidate_view [of "invalidate_after_readiness_failure g" g st]
    invalidate_view [of "invalidate_after_stream_open_failure g" g st] inactive_view [of now idle st]
    record_view [of "record_connection_setup_duration d" d st] record_view [of "record_tunnel_open_duration d" d st]
    record_view [of record_timeout_recovery d st] record_view [of record_runtime_stream_reset d st]
    record_view [of record_runtime_send_stall d st]
  by (auto simp: forgets_def)

lemma forgets_retire: "retire_after_handshake_timeout_if_unshared g st = (b, st') \<Longrightarrow> forgets st st'"
  using retire_view [of g st b st'] by (simp add: forgets_def)

lemma quietI:
  assumes "forgets st st'" "lease_of t' = lease_of t" "has_gate t' = has_gate t" "\<And>c connection. t \<noteq> Installing c connection"
    and "makes_connection t' \<Longrightarrow> makes_connection t \<or> hp_connection st' = None" "opener_ok t \<Longrightarrow> opener_ok t'"
  shows "quiet t st t' st'"
  using assms by (cases t) (auto simp: quiet_def made_def)

lemma begin_try_kind:
  assumes "begin_try c st = (t', st')"
  shows "quiet (Trying c) st t' st' \<or> reuses (Trying c) st t' st'"
proof (cases "oc_try c < MAX_READY_ATTEMPTS")
  case False
  then have "quiet (Trying c) st t' st'" using assms by (auto simp: begin_try_def intro!: quietI)
  then show ?thesis ..
next
  case True
  obtain r s where r: "checkout_cached st = (r, s)" by fastforce
  from r show ?thesis
  proof (cases rule: checkout_cached_cases)
    case stopped
    then have "t' = Returned (PoolBail ''H2 connection pool is shut down'')" "st' = st"
      using assms r True by (simp_all add: begin_try_def)
    then show ?thesis by (auto intro!: quietI)
  next
    case missing
    then have "t' = WaitingGate c" "st' = drop_closed st" using assms r True by (simp_all add: begin_try_def)
    then show ?thesis using True by (auto intro!: quietI forgets_ops simp: MAX_READY_ATTEMPTS_def)
  next
    case (cached cc)
    then have t: "t' = Readying c (checkout_of cc)" "st' = s" using assms r True by (simp_all add: begin_try_def)
    have "reuses (Trying c) st t' st'"
      unfolding reuses_def t(1) using cached True t(2) by (intro exI [of _ cc]) (simp add: made_def MAX_READY_ATTEMPTS_def)
    then show ?thesis ..
  qed
qed

lemma recheck_kind:
  assumes "recheck now c st = (t', st')"
  shows "quiet (Rechecking c) st t' st' \<or> reuses (Rechecking c) st t' st'"
proof -
  obtain r s where r: "checkout_cached st = (r, s)" by fastforce
  from r show ?thesis
  proof (cases rule: checkout_cached_cases)
    case stopped
    then have "t' = Unlocking (Returned (PoolBail ''H2 connection pool is shut down''))" "st' = st"
      using assms r by (simp_all add: recheck_def)
    then show ?thesis by (auto intro!: quietI)
  next
    case missing
    then have t: "t' = ConnectingH2 c now" "st' = s" using assms r by (simp_all add: recheck_def)
    have "quiet (Rechecking c) st t' st'"
      unfolding t(1) by (rule quietI) (use missing t(2) forgets_ops(1) [of st] in simp_all)
    then show ?thesis ..
  next
    case (cached cc)
    then have t: "t' = Unlocking (Readying c (checkout_of cc))" "st' = s" using assms r by (simp_all add: recheck_def)
    have "reuses (Rechecking c) st t' st'"
      unfolding reuses_def t(1) using cached t(2) by (intro exI [of _ cc]) (simp add: made_def)
    then show ?thesis ..
  qed
qed

lemma install_kind:
  assumes "install c connection st = (t', st')" "hp_connection st = None"
  shows "quiet (Installing c connection) st t' st' \<or> installs (Installing c connection) st t' st'"
proof -
  obtain r s where r: "install_and_checkout connection st = (r, s)" by fastforce
  from r show ?thesis
  proof (cases rule: install_cases)
    case stopped
    then have "t' = Unlocking (Returned (PoolBail ''H2 connection pool is shut down''))" "st' = st"
      using assms r by (simp_all add: install_def)
    then show ?thesis by (simp add: quiet_def made_def)
  next
    case occupied
    then show ?thesis using assms(2) by simp
  next
    case (installed st1)
    let ?g = "bump (hp_next_generation st)"
    let ?co = "\<lparr>co_generation = ?g, co_transport = hc_transport connection\<rparr>"
    have t: "t' = Unlocking (Readying c ?co)" "st' = s" using assms(1) r installed(3) by (simp_all add: install_def)
    have v: "hp_active_streams st1 = hp_active_streams st" "hp_next_generation st1 = ?g" "hp_shutdown st1 = hp_shutdown st"
      unfolding installed(4) record_installed_connection_def Let_def by simp_all
    have "installs (Installing c connection) st t' st'"
      unfolding installs_def t using installed(1,2,5) v
      by (intro exI [of _ ?co] exI [of _ "\<lparr>cc_generation = ?g, cc_transport = hc_transport connection,
           cc_closed = hc_closed connection, cc_active_streams = 1, cc_idle_since = None\<rparr>"])
         (simp add: made_def checkout_of_def)
    then show ?thesis ..
  qed
qed

lemma retire_kind:
  assumes "retire c g err st = (t', st')"
  shows "quiet (Retiring c g err) st t' st'"
proof -
  obtain b s where r: "retire_after_handshake_timeout_if_unshared g st = (b, s)" by fastforce
  have "st' = s" "t' = Returned err \<or> (\<exists>c'. t' = Attempting c' \<and> oc_attempt c' = oc_attempt c + 1 \<and> oc_attempt c + 1 < 2)"
    using assms r by (auto simp: retire_def MAX_READY_ATTEMPTS_def split: if_splits)
  then show ?thesis using forgets_retire [OF r] by (auto intro!: quietI)
qed

lemma opener_next_kind:
  assumes "opener_next now ev t st = Some (t', st')" "makes_connection t \<Longrightarrow> hp_connection st = None"
  shows "quiet t st t' st' \<or> reuses t st t' st' \<or> installs t st t' st' \<or> drops now t st t' st'"
proof (cases t)
  case (Trying c)
  then show ?thesis using assms(1) begin_try_kind [of c st t' st'] by (auto simp: opener_next_def split: pool_event.splits)
next
  case (Rechecking c)
  then show ?thesis using assms(1) recheck_kind [of now c st t' st'] by (auto simp: opener_next_def split: pool_event.splits)
next
  case (Installing c connection)
  then show ?thesis using assms install_kind [of c connection st t' st'] by (auto simp: opener_next_def split: pool_event.splits)
next
  case (Retiring c g err)
  then show ?thesis using assms(1) retire_kind [of c g err st t' st'] by (auto simp: opener_next_def split: pool_event.splits)
next
  case (DroppingLease co k)
  then show ?thesis using assms(1) by (auto simp: opener_next_def drops_def split: pool_event.splits)
next
  case (Attempting c)
  then have "quiet t st t' st'" using assms(1)
    by (auto simp: opener_next_def begin_attempt_def MAX_READY_ATTEMPTS_def split: pool_event.splits if_splits intro!: quietI)
  then show ?thesis ..
qed (use assms(1) in \<open>(auto simp: opener_next_def next_try_def next_attempt_def new_call_def
       split: pool_event.splits if_splits intro!: disjI1 quietI forgets_ops)\<close>)

text \<open>What every counter of the state does in a step of a task.\<close>

lemma opener_next_counters:
  assumes "opener_next now ev t st = Some (t', st')" "counters_ok k st" "k < U64_MAX"
  shows "counters_ok (Suc k) st'"
proof -
  have up: "counters_ok (Suc k) s" if "counters_ok k s" for s :: "'a H2ConnectionPoolState"
    using that by (rule counters_mono) simp
  show ?thesis
  proof (cases t)
    case (Trying c)
    obtain r s where r: "checkout_cached st = (r, s)" by fastforce
    have "st' = s \<or> st' = st"
      using assms(1) Trying r by (auto simp: opener_next_def begin_try_def split: pool_event.splits sum.splits option.splits if_splits)
    then show ?thesis using counters_checkout [OF assms(2,3) r] up [OF assms(2)] by blast
  next
    case (Rechecking c)
    obtain r s where r: "checkout_cached st = (r, s)" by fastforce
    have "st' = s"
      using assms(1) Rechecking r by (auto simp: opener_next_def recheck_def split: pool_event.splits sum.splits option.splits)
    then show ?thesis using counters_checkout [OF assms(2,3) r] by blast
  next
    case (Installing c connection)
    obtain r s where r: "install_and_checkout connection st = (r, s)" by fastforce
    have "st' = s"
      using assms(1) Installing r by (auto simp: opener_next_def install_def split: pool_event.splits sum.splits)
    then show ?thesis using counters_install [OF assms(2,3) r] by blast
  next
    case (Retiring c g err)
    obtain b s where r: "retire_after_handshake_timeout_if_unshared g st = (b, s)" by fastforce
    have "st' = s"
      using assms(1) Retiring r by (auto simp: opener_next_def retire_def split: pool_event.splits if_splits)
    then show ?thesis using counters_retire [OF assms(2,3) r] by blast
  qed (use assms(1) up [OF assms(2)] up [OF counters_records(1) [OF assms(2)]] up [OF counters_records(2) [OF assms(2)]]
       up [OF counters_records(3) [OF assms(2)]] up [OF counters_records(4) [OF assms(2)]]
       up [OF counters_records(5) [OF assms(2)]] counters_forget [OF assms(2,3)] up [OF counters_drop_lease [OF assms(2)]]
     in \<open>(auto simp: opener_next_def split: pool_event.splits)\<close>)
qed

subsection \<open>The invariant\<close>

lemma pool_invD:
  assumes "pool_inv k y"
  shows "streams_ok (hp_connection (sy_state y)) (hp_active_streams (sy_state y)) (sy_tasks y)"
    "generations_ok (hp_connection (sy_state y)) (hp_next_generation (sy_state y)) (sy_made y) (sy_tasks y)"
    "tasks_ok (hp_connection (sy_state y)) (hp_shutdown (sy_state y)) (sy_gate y) (sy_tasks y)"
    "counters_ok k (sy_state y)"
  using assms by (simp_all add: pool_inv_def Let_def)

lemma pool_inv_new: "n \<le> U32_MAX \<Longrightarrow> pool_inv 0 (pool_new n)"
  using connect_gate.owner_start [of n]
  by (simp add: pool_inv_def Let_def pool_new_def H2ConnectionPoolState_default_def streams_ok_def generations_ok_def
      tasks_ok_def counters_ok_def count_replicate holds_lease_def)

text \<open>The streams of the pool and of the connection stay below the limit of their counters.\<close>

lemma active_bound:
  assumes "streams_ok conn a ts" "length ts \<le> U32_MAX" "i < length ts" "lease_of (ts ! i) = None"
  shows "a < U32_MAX" "conn = Some c \<Longrightarrow> cc_active_streams c < U32_MAX"
proof -
  have less: "count_tasks P ts < length ts" if "\<not> P (ts ! i)" for P
    unfolding count_tasks_def using that assms(3) by (intro length_filter_less [of "ts ! i"]) simp_all
  show "a < U32_MAX"
    using assms(1,2) less [of holds_lease] lease_preds(3) [OF assms(4)] by (simp add: streams_ok_def)
  show "cc_active_streams c < U32_MAX" if "conn = Some c"
    using that assms(1,2) less [of "on_generation (cc_generation c)"] lease_preds(3) [OF assms(4)]
    by (simp add: streams_ok_def)
qed

lemma tasks_okD:
  assumes "tasks_ok conn stopped gate ts"
  shows "t \<in> set ts \<Longrightarrow> opener_ok t" "owner_ok has_gate gate ts" "t \<in> set ts \<Longrightarrow> makes_connection t \<Longrightarrow> conn = None"
    "stopped \<Longrightarrow> conn = None" "length ts \<le> U32_MAX"
  using assms by (auto simp: tasks_ok_def)

lemma tasks_settled:
  assumes "tasks_ok conn stopped gate ts" "conn \<noteq> None" "\<not> makes_connection q"
  shows "\<not> stopped \<and> (\<forall>t \<in> set (ts[i := q]). \<not> makes_connection t)"
  using assms not_connecting_update [of ts q i] by (auto simp: tasks_ok_def)

lemma pool_inv_quiet:
  assumes "pool_inv k y" "i < length (sy_tasks y)" "quiet (sy_tasks y ! i) (sy_state y) t st" "counters_ok (Suc k) st"
  shows "pool_inv (Suc k) (y\<lparr>sy_state := st, sy_tasks := (sy_tasks y)[i := t], sy_made := made (sy_tasks y ! i) t @ sy_made y\<rparr>)"
proof -
  note inv = pool_invD [OF assms(1)]
  have at: "sy_tasks y ! i \<in> set (sy_tasks y)" using assms(2) by simp
  have q: "hp_connection st = None \<or> hp_connection st = hp_connection (sy_state y)"
      "hp_active_streams st = hp_active_streams (sy_state y)" "hp_next_generation st = hp_next_generation (sy_state y)"
      "hp_shutdown st = hp_shutdown (sy_state y)" "lease_of t = lease_of (sy_tasks y ! i)"
      "has_gate t = has_gate (sy_tasks y ! i)" "made (sy_tasks y ! i) t = []"
      "makes_connection t \<Longrightarrow> makes_connection (sy_tasks y ! i) \<or> hp_connection st = None" "opener_ok t"
    using assms(3) tasks_okD(1) [OF inv(3) at] by (auto simp: quiet_def forgets_def)
  have "streams_ok (hp_connection st) (hp_active_streams st) ((sy_tasks y)[i := t])"
    using streams_keep [OF inv(1) assms(2) q(5)] streams_clear q(1,2) by metis
  moreover have "generations_ok (hp_connection st) (hp_next_generation st) (sy_made y) ((sy_tasks y)[i := t])"
    unfolding q(3) by (rule generations_move [OF inv(2) assms(2)]) (use inv(2) q(1,5) at in \<open>auto simp: generations_ok_def\<close>)
  moreover have "tasks_ok (hp_connection st) (hp_shutdown st) (sy_gate y) ((sy_tasks y)[i := t])"
  proof (rule tasks_move [OF inv(3) assms(2) q(9)])
    show "owner_ok has_gate (sy_gate y) ((sy_tasks y)[i := t])"
      using connect_gate.owner_stay [OF tasks_okD(2) [OF inv(3)] assms(2)] q(6) by simp
    assume c: "hp_connection st \<noteq> None"
    then have "hp_connection (sy_state y) \<noteq> None" using q(1) by auto
    then have none: "\<forall>t \<in> set (sy_tasks y). \<not> makes_connection t" "\<not> hp_shutdown (sy_state y)"
      using tasks_okD(3,4) [OF inv(3)] by auto
    then show "\<not> hp_shutdown st \<and> (\<forall>t \<in> set ((sy_tasks y)[i := t]). \<not> makes_connection t)"
      using not_connecting_update [OF none(1)] q(4,8) c at by blast
  qed
  ultimately show ?thesis using assms(4) q(7) by (simp add: pool_inv_def Let_def)
qed

lemma pool_inv_reuse:
  assumes "pool_inv k y" "i < length (sy_tasks y)" "reuses (sy_tasks y ! i) (sy_state y) t st" "counters_ok (Suc k) st"
  shows "pool_inv (Suc k) (y\<lparr>sy_state := st, sy_tasks := (sy_tasks y)[i := t], sy_made := made (sy_tasks y ! i) t @ sy_made y\<rparr>)"
proof -
  note inv = pool_invD [OF assms(1)]
  have at: "sy_tasks y ! i \<in> set (sy_tasks y)" using assms(2) by simp
  obtain c where c: "\<not> hp_shutdown (sy_state y)" "hp_connection (sy_state y) = Some c" "lease_of (sy_tasks y ! i) = None"
      "lease_of t = Some (checkout_of c)"
      "hp_connection st = Some (c\<lparr>cc_active_streams := bump_u32 (cc_active_streams c), cc_idle_since := None\<rparr>)"
      "hp_active_streams st = bump_u32 (hp_active_streams (sy_state y))"
      "hp_next_generation st = hp_next_generation (sy_state y)" "hp_shutdown st = hp_shutdown (sy_state y)"
      "has_gate t = has_gate (sy_tasks y ! i)" "\<not> makes_connection t" "made (sy_tasks y ! i) t = []" "opener_ok t"
    using assms(3) tasks_okD(1) [OF inv(3) at] by (auto simp: reuses_def)
  note b = active_bound [OF inv(1) tasks_okD(5) [OF inv(3)] assms(2) c(3)]
  have a: "hp_active_streams st = hp_active_streams (sy_state y) + 1"
      "hp_connection st = Some (c\<lparr>cc_active_streams := cc_active_streams c + 1, cc_idle_since := None\<rparr>)"
    unfolding c(5,6) bump_u32_exact [OF b(1)] bump_u32_exact [OF b(2) [OF c(2)]] by simp_all
  have s: "streams_ok (hp_connection st) (hp_active_streams st) ((sy_tasks y)[i := t])"
    unfolding a by (rule streams_reuse [OF inv(1) [unfolded c(2)] assms(2) c(3,4)])
  have g: "generations_ok (hp_connection st) (hp_next_generation st) (sy_made y) ((sy_tasks y)[i := t])"
    unfolding c(7) by (rule generations_move [OF inv(2) assms(2)])
      (use inv(2) c(2,4) a(2) in \<open>auto simp: generations_ok_def checkout_of_def\<close>)
  have none: "\<forall>t \<in> set (sy_tasks y). \<not> makes_connection t" using tasks_okD(3) [OF inv(3)] c(2) by auto
  have "tasks_ok (hp_connection st) (hp_shutdown st) (sy_gate y) ((sy_tasks y)[i := t])"
    by (rule tasks_move [OF inv(3) assms(2) c(12) connect_gate.owner_stay [OF tasks_okD(2) [OF inv(3)] assms(2) c(9)]])
       (use c(1,8) not_connecting_update [OF none c(10)] in simp)
  with s g show ?thesis using assms(4) c(11) by (simp add: pool_inv_def Let_def)
qed

lemma pool_inv_install:
  assumes "pool_inv k y" "k < U64_MAX" "i < length (sy_tasks y)" "installs (sy_tasks y ! i) (sy_state y) t st"
    and "counters_ok (Suc k) st"
  shows "pool_inv (Suc k) (y\<lparr>sy_state := st, sy_tasks := (sy_tasks y)[i := t], sy_made := made (sy_tasks y ! i) t @ sy_made y\<rparr>)"
proof -
  note inv = pool_invD [OF assms(1)]
  let ?g = "hp_next_generation (sy_state y) + 1"
  have at: "sy_tasks y ! i \<in> set (sy_tasks y)" using assms(3) by simp
  have bg: "bump (hp_next_generation (sy_state y)) = ?g" by (rule bump_simps(2) [OF inv(4) assms(2)])
  obtain co c where c: "\<not> hp_shutdown (sy_state y)" "lease_of (sy_tasks y ! i) = None" "lease_of t = Some co"
      "co_generation co = ?g" "checkout_of c = co" "cc_active_streams c = 1" "cc_idle_since c = None"
      "hp_connection st = Some c" "hp_active_streams st = bump_u32 (hp_active_streams (sy_state y))"
      "hp_next_generation st = ?g" "hp_shutdown st = hp_shutdown (sy_state y)" "has_gate (sy_tasks y ! i)" "has_gate t"
      "\<not> makes_connection t" "made (sy_tasks y ! i) t = [co]" "opener_ok t"
    using assms(4) tasks_okD(1) [OF inv(3) at] unfolding installs_def bg by blast
  have a: "hp_active_streams st = hp_active_streams (sy_state y) + 1"
    unfolding c(9) using active_bound(1) [OF inv(1) tasks_okD(5) [OF inv(3)] assms(3) c(2)] by (rule bump_u32_exact)
  have cg: "cc_generation c = ?g" using c(4) unfolding c(5) [symmetric] by (simp add: checkout_of_def)
  have s: "streams_ok (hp_connection st) (hp_active_streams st) ((sy_tasks y)[i := t])"
    unfolding a c(8) using generation_fresh [OF inv(2)] cg
    by (intro streams_install [OF inv(1) assms(3) c(2) c(3) [folded c(5)] _ c(6,7)]) simp
  have g: "generations_ok (hp_connection st) (hp_next_generation st) (co # sy_made y) ((sy_tasks y)[i := t])"
    unfolding c(8,10) by (rule generations_install [OF inv(2) assms(3) c(3-5)])
  have "tasks_ok (hp_connection st) (hp_shutdown st) (sy_gate y) ((sy_tasks y)[i := t])"
    by (rule tasks_move [OF inv(3) assms(3) c(16) connect_gate.owner_stay [OF tasks_okD(2) [OF inv(3)] assms(3)]])
       (use c(1,11-13) connecting_alone [OF inv(3) assms(3) c(12,14)] in simp_all)
  with s g show ?thesis using assms(5) c(15) by (simp add: pool_inv_def Let_def)
qed

lemma pool_inv_drop:
  assumes "pool_inv k y" "i < length (sy_tasks y)" "drops now (sy_tasks y ! i) (sy_state y) t st" "counters_ok (Suc k) st"
  shows "pool_inv (Suc k) (y\<lparr>sy_state := st, sy_tasks := (sy_tasks y)[i := t], sy_made := made (sy_tasks y ! i) t @ sy_made y\<rparr>)"
proof -
  note inv = pool_invD [OF assms(1)]
  have at: "sy_tasks y ! i \<in> set (sy_tasks y)" using assms(2) by simp
  obtain co where co: "sy_tasks y ! i = DroppingLease co t" "st = drop_lease now (co_generation co) (sy_state y)"
    using assms(3) by (auto simp: drops_def)
  have t: "opener_ok t" "lease_of t = None" "\<not> has_gate t" using tasks_okD(1) [OF inv(3) at] co(1) by simp_all
  have conn: "hp_connection st = None \<longleftrightarrow> hp_connection (sy_state y) = None"
      "\<And>c. hp_connection st = Some c \<Longrightarrow> \<exists>c'. hp_connection (sy_state y) = Some c' \<and> checkout_of c = checkout_of c'"
    unfolding co(2) drop_lease_view by (auto simp: checkout_of_def split: option.splits)
  have s: "streams_ok (hp_connection st) (hp_active_streams st) ((sy_tasks y)[i := t])"
    unfolding co(2) by (rule streams_drop [OF inv(1) assms(2)]) (simp_all add: co(1) t(2))
  have g: "generations_ok (hp_connection st) (hp_next_generation st) (sy_made y) ((sy_tasks y)[i := t])"
    unfolding co(2) drop_lease_view(2) unfolding co(2) [symmetric]
    by (rule generations_move [OF inv(2) assms(2)]) (use inv(2) conn(2) t(2) in \<open>auto simp: generations_ok_def\<close>)
  have "hp_shutdown st = hp_shutdown (sy_state y)" unfolding co(2) by (simp add: drop_lease_view)
  moreover have "\<not> makes_connection t" using t(3) connecting_has_gate by blast
  ultimately have "tasks_ok (hp_connection st) (hp_shutdown st) (sy_gate y) ((sy_tasks y)[i := t])"
    using tasks_settled [OF inv(3), of t i] conn(1)
    by (intro tasks_move [OF inv(3) assms(2) t(1) connect_gate.owner_stay [OF tasks_okD(2) [OF inv(3)] assms(2)]])
       (simp_all add: co(1) t(3))
  with s g show ?thesis using assms(4) co(1) by (simp add: pool_inv_def Let_def made_def)
qed

lemma pool_inv_gate:
  assumes "pool_inv k y" "i < length (sy_tasks y)" "lease_of t = lease_of (sy_tasks y ! i)" "opener_ok t" "\<not> makes_connection t"
    and "owner_ok has_gate gate ((sy_tasks y)[i := t])"
  shows "pool_inv (Suc k) (y\<lparr>sy_gate := gate, sy_tasks := (sy_tasks y)[i := t]\<rparr>)"
proof -
  note inv = pool_invD [OF assms(1)]
  have "tasks_ok (hp_connection (sy_state y)) (hp_shutdown (sy_state y)) gate ((sy_tasks y)[i := t])"
    using tasks_settled [OF inv(3) _ assms(5), of i] by (intro tasks_move [OF inv(3) assms(2,4,6)]) simp
  moreover have "streams_ok (hp_connection (sy_state y)) (hp_active_streams (sy_state y)) ((sy_tasks y)[i := t])"
    by (rule streams_keep [OF inv(1) assms(2,3)])
  moreover have "generations_ok (hp_connection (sy_state y)) (hp_next_generation (sy_state y)) (sy_made y) ((sy_tasks y)[i := t])"
    by (rule generations_move [OF inv(2) assms(2)])
       (use inv(2) nth_mem [OF assms(2)] assms(3) in \<open>auto simp: generations_ok_def\<close>)
  ultimately show ?thesis using counters_mono [OF inv(4), of "Suc k"] by (simp add: pool_inv_def Let_def)
qed

lemma pool_inv_step:
  assumes "pool_step idle_timeout y a y'" "pool_inv k y" "k < U64_MAX"
  shows "pool_inv (Suc k) y'"
  using assms(1)
proof (cases rule: pool_step.cases)
  case (act i ev t st)
  note inv = pool_invD [OF assms(2)]
  have c: "counters_ok (Suc k) st" by (rule opener_next_counters [OF act(4) inv(4) assms(3)])
  have "makes_connection (sy_tasks y ! i) \<Longrightarrow> hp_connection (sy_state y) = None"
    by (rule tasks_okD(3) [OF inv(3) nth_mem [OF act(3)]])
  from opener_next_kind [OF act(4) this] show ?thesis
    unfolding act(2)
    using pool_inv_quiet [OF assms(2) act(3) _ c] pool_inv_reuse [OF assms(2) act(3) _ c]
      pool_inv_install [OF assms(2,3) act(3) _ c] pool_inv_drop [OF assms(2) act(3) _ c] by blast
next
  case (lock i c)
  note t = pool_invD(3) [OF assms(2)]
  have "opener_ok (Rechecking c :: 'a opener)" using tasks_okD(1) [OF t nth_mem [OF lock(3)]] lock(4) by simp
  then show ?thesis
    unfolding lock(2) using connect_gate.owner_take [of "sy_tasks y" i "Rechecking c"] tasks_okD(2) [OF t] lock(5)
    by (intro pool_inv_gate [OF assms(2) lock(3)]) (simp_all add: lock(3,4))
next
  case (unlock i t)
  note ok = pool_invD(3) [OF assms(2)]
  have "opener_ok t" "\<not> has_gate t" using tasks_okD(1) [OF ok nth_mem [OF unlock(3)]] unlock(4) by simp_all
  then show ?thesis
    unfolding unlock(2) using connect_gate.owner_drop [OF tasks_okD(2) [OF ok] unlock(3)] connecting_has_gate [of t]
    by (intro pool_inv_gate [OF assms(2) unlock(3)]) (auto simp: unlock(4))
next
  case (tick d)
  then show ?thesis using pool_invD [OF assms(2)] counters_mono [of k _ "Suc k"] by (simp add: pool_inv_def Let_def)
next
  case (close c)
  note inv = pool_invD [OF assms(2)]
  have "counters_ok (Suc k) ((sy_state y)\<lparr>hp_connection := Some (c\<lparr>cc_closed := True\<rparr>)\<rparr>)"
    using counters_mono [OF counters_clear(4) [OF inv(4) assms(3) close(3)]] by simp
  then show ?thesis
    unfolding close(2) using inv(1-3) close(3)
    by (simp add: pool_inv_def Let_def streams_ok_def generations_ok_def tasks_ok_def checkout_of_def)
next
  case maintain
  note inv = pool_invD [OF assms(2)]
  let ?st = "retire_inactive_connection (sy_clock y) idle_timeout (sy_state y)"
  have "counters_ok (Suc k) ?st" using counters_mono [OF counters_inactive [OF inv(4) assms(3)]] by simp
  then show ?thesis
    unfolding maintain(2) using inv(1-3) inactive_view [of "sy_clock y" idle_timeout "sy_state y"]
    by (auto simp: pool_inv_def Let_def streams_ok_def generations_ok_def tasks_ok_def)
next
  case stop
  note inv = pool_invD [OF assms(2)]
  have "counters_ok (Suc k) (pool_shutdown (sy_state y))"
    using counters_mono [OF counters_shutdown [OF inv(4) assms(3) tasks_okD(4) [OF inv(3)]]] by simp
  then show ?thesis
    unfolding stop(2) using inv(1-3)
    by (auto simp: pool_inv_def Let_def streams_ok_def generations_ok_def tasks_ok_def pool_shutdown_def)
qed

lemma pool_inv_run:
  assumes "pool_run idle_timeout y k y'" "pool_inv 0 y" "k \<le> U64_MAX"
  shows "pool_inv k y'"
  using assms by (induction rule: pool_run.induct) (auto intro: pool_inv_step)

subsection \<open>What holds in every reachable state\<close>

lemma pool_inv_reachable:
  assumes "pool_run idle_timeout (pool_new n) k y" "n \<le> U32_MAX" "k \<le> U64_MAX"
  shows "pool_inv k y"
  by (rule pool_inv_run [OF assms(1) pool_inv_new [OF assms(2)] assms(3)])

lemma generations_unique:
  assumes "generations_ok conn g mk ts" "co \<in> set mk" "co' \<in> set mk" "co_generation co = co_generation co'"
  shows "co = co'"
proof -
  have "map co_generation mk = rev [1..<Suc g]" using assms(1) unfolding generations_ok_def by blast
  then have "distinct (map co_generation mk)" by (simp only: distinct_rev distinct_upt)
  then show ?thesis using assms(2-4) by (auto simp: distinct_map dest: inj_onD)
qed

text \<open>C11. The pool counts its streams exactly, whatever tasks, maintenance and closing connections do in
between: the streams of the pool are the leases alive, those of the cached connection are the leases of its
generation, and it is marked idle exactly when there is none. So the idle maintenance never takes an open
connection from under a stream, and a handshake that timed out takes the cached connection exactly if it is of its
generation and no lease of that generation is alive. A failure of readiness or of opening a stream, in contrast, drops the
cached connection of its generation whatever streams still run on it. A lease carries the request handle and the channel binding of the one
connection that was installed under its generation, so that a handshake is never bound to another
connection than the one it runs on.\<close>

theorem pool_accounts_for_streams:
  assumes "pool_run idle_timeout (pool_new n) k y" "n \<le> U32_MAX" "k \<le> U64_MAX"
  shows "hp_active_streams (sy_state y) = count_tasks holds_lease (sy_tasks y)
     \<and> (\<forall>c. hp_connection (sy_state y) = Some c \<longrightarrow>
          cc_active_streams c = count_tasks (on_generation (cc_generation c)) (sy_tasks y)
          \<and> (cc_idle_since c \<noteq> None \<longleftrightarrow> (\<forall>t \<in> set (sy_tasks y). \<not> on_generation (cc_generation c) t))
          \<and> (hp_connection (retire_inactive_connection now idle_timeout (sy_state y)) = None \<longrightarrow>
               cc_closed c \<or> (\<forall>t \<in> set (sy_tasks y). \<not> on_generation (cc_generation c) t))
          \<and> (\<forall>g. hp_connection (snd (retire_after_handshake_timeout_if_unshared g (sy_state y)))
                 = (if g = cc_generation c \<and> (\<forall>t \<in> set (sy_tasks y). \<not> on_generation (cc_generation c) t) then None else Some c)
               \<and> fst (retire_after_handshake_timeout_if_unshared g (sy_state y))
                 = (g = cc_generation c \<and> (\<forall>t \<in> set (sy_tasks y). \<not> on_generation (cc_generation c) t))
               \<and> hp_connection (invalidate_after_readiness_failure g (sy_state y)) = (if g = cc_generation c then None else Some c)
               \<and> hp_connection (invalidate_after_stream_open_failure g (sy_state y)) = (if g = cc_generation c then None else Some c))
          \<and> (\<forall>t \<in> set (sy_tasks y). \<forall>co. lease_of t = Some co \<longrightarrow> co_generation co = cc_generation c \<longrightarrow>
               co_transport co = cc_transport c))
     \<and> (\<forall>t \<in> set (sy_tasks y). \<forall>co. lease_of t = Some co \<longrightarrow>
          co \<in> set (sy_made y) \<and> (\<forall>co' \<in> set (sy_made y). co_generation co' = co_generation co \<longrightarrow> co' = co))"
proof -
  note inv = pool_invD [OF pool_inv_reachable [OF assms]]
  have lease: "co \<in> set (sy_made y)" if "t \<in> set (sy_tasks y)" "lease_of t = Some co" for t co
    using that inv(2) by (simp add: generations_ok_def)
  have cached: "co_transport co = cc_transport c"
    if "hp_connection (sy_state y) = Some c" "t \<in> set (sy_tasks y)" "lease_of t = Some co" "co_generation co = cc_generation c"
    for c t co
  proof -
    have "checkout_of c \<in> set (sy_made y)" using that(1) inv(2) by (simp add: generations_ok_def)
    then have "co = checkout_of c"
      using generations_unique [OF inv(2) lease [OF that(2,3)]] that(4) by (simp add: checkout_of_def)
    then show ?thesis by (simp add: checkout_of_def)
  qed
  have c: "cc_active_streams c = count_tasks (on_generation (cc_generation c)) (sy_tasks y)"
      "cc_idle_since c \<noteq> None \<longleftrightarrow> (\<forall>t \<in> set (sy_tasks y). \<not> on_generation (cc_generation c) t)"
    if "hp_connection (sy_state y) = Some c" for c
    using that inv(1) by (auto simp: streams_ok_def count_zero [symmetric])
  have idle: "cc_closed c \<or> (\<forall>t \<in> set (sy_tasks y). \<not> on_generation (cc_generation c) t)"
    if "hp_connection (sy_state y) = Some c" "hp_connection (retire_inactive_connection now idle_timeout (sy_state y)) = None" for c
    using that c(1) [OF that(1)]
    by (cases "cc_closed c") (auto simp: retire_inactive_connection_def Let_def count_zero split: if_splits)
  have taken: "hp_connection (snd (retire_after_handshake_timeout_if_unshared g (sy_state y)))
        = (if g = cc_generation c \<and> (\<forall>t \<in> set (sy_tasks y). \<not> on_generation (cc_generation c) t) then None else Some c)"
      "fst (retire_after_handshake_timeout_if_unshared g (sy_state y))
        = (g = cc_generation c \<and> (\<forall>t \<in> set (sy_tasks y). \<not> on_generation (cc_generation c) t))"
      "hp_connection (invalidate_after_readiness_failure g (sy_state y)) = (if g = cc_generation c then None else Some c)"
      "hp_connection (invalidate_after_stream_open_failure g (sy_state y)) = (if g = cc_generation c then None else Some c)"
    if "hp_connection (sy_state y) = Some c" for c g
    unfolding count_zero [symmetric] c(1) [OF that, symmetric]
    using that by (auto simp: retire_after_handshake_timeout_if_unshared_def Let_def invalidate_after_readiness_failure_def
        invalidate_after_stream_open_failure_def forget_generation_def)
  have "hp_active_streams (sy_state y) = count_tasks holds_lease (sy_tasks y)" using inv(1) by (simp add: streams_ok_def)
  then show ?thesis
    apply (intro conjI allI impI)
             apply assumption
            apply (erule c)
           apply (erule c)
          apply (rule idle; assumption)
         apply (erule taken)
        apply (erule taken)
       apply (erule taken)
      apply (erule taken)
     apply (intro ballI allI impI, rule cached; assumption)
    using lease generations_unique [OF inv(2)] by blast
qed

text \<open>C12. One connection at a time: at most one task is setting up a connection, and none is cached while
one does, so the guard against a pool that changed in the meantime is never the reason of a failure.\<close>

theorem one_connection_at_a_time:
  assumes "pool_run idle_timeout (pool_new n) k y" "n \<le> U32_MAX" "k \<le> U64_MAX"
    and "i < length (sy_tasks y)" "makes_connection (sy_tasks y ! i)"
  shows "hp_connection (sy_state y) = None \<and> (\<forall>j < length (sy_tasks y). makes_connection (sy_tasks y ! j) \<longrightarrow> j = i)
     \<and> fst (install_and_checkout connection (sy_state y)) \<noteq> Inl (PoolBail ''H2 connection pool changed while connecting'')"
proof -
  note inv = pool_invD [OF pool_inv_reachable [OF assms(1-3)]]
  have none: "hp_connection (sy_state y) = None" by (rule tasks_okD(3) [OF inv(3) nth_mem [OF assms(4)] assms(5)])
  have "j = i" if "j < length (sy_tasks y)" "makes_connection (sy_tasks y ! j)" for j
    by (rule connect_gate.owner_unique [OF tasks_okD(2) [OF inv(3)] that(1) _ assms(4)])
       (use that(2) assms(5) connecting_has_gate in auto)
  moreover have "fst (install_and_checkout connection (sy_state y))
      \<noteq> Inl (PoolBail ''H2 connection pool changed while connecting'')"
    using none by (simp add: install_and_checkout_def Let_def)
  ultimately show ?thesis using none by simp
qed

subsection \<open>A shut pool\<close>

lemma opener_next_shut:
  assumes "opener_next now ev t st = Some (t', st')" "hp_shutdown st"
  shows "hp_streams_opened st' = hp_streams_opened st"
proof (cases t)
  case (Trying c)
  then show ?thesis using assms
    by (auto simp: opener_next_def begin_try_def checkout_cached_def split: pool_event.splits if_splits)
next
  case (Rechecking c)
  then show ?thesis using assms by (auto simp: opener_next_def recheck_def checkout_cached_def split: pool_event.splits)
next
  case (Installing c connection)
  then show ?thesis using assms by (auto simp: opener_next_def install_def install_and_checkout_def split: pool_event.splits)
next
  case (Retiring c g err)
  then show ?thesis using assms(1)
    by (auto simp: opener_next_def retire_def retire_eq split: pool_event.splits if_splits)
next
  case (DroppingLease co k)
  then show ?thesis using assms(1)
    by (cases "hp_connection st") (auto simp: opener_next_def drop_lease_def Let_def split: pool_event.splits)
next
  case (Unready c co)
  then show ?thesis using assms(1)
    by (cases "hp_connection st")
       (auto simp: opener_next_def invalidate_after_readiness_failure_def forget_generation_def split: pool_event.splits)
next
  case (StreamFailed c g)
  then show ?thesis using assms(1)
    by (cases "hp_connection st")
       (auto simp: opener_next_def invalidate_after_stream_open_failure_def forget_generation_def split: pool_event.splits)
qed (use assms(1) in \<open>(auto simp: opener_next_def record_connection_setup_duration_def record_tunnel_open_duration_def
       record_timeout_recovery_def record_runtime_stream_reset_def record_runtime_send_stall_def
       split: pool_event.splits)\<close>)

text \<open>A pool that was shut down stays so, caches nothing and opens no further stream.\<close>

lemma shut_pool_step:
  assumes "pool_step idle_timeout y a y'" "pool_inv k y" "k < U64_MAX" "hp_shutdown (sy_state y)"
  shows "hp_shutdown (sy_state y') \<and> hp_connection (sy_state y') = None
    \<and> hp_streams_opened (sy_state y') = hp_streams_opened (sy_state y)"
proof -
  have same: "hp_shutdown (sy_state y') \<and> hp_streams_opened (sy_state y') = hp_streams_opened (sy_state y)"
    using assms(1)
  proof (cases rule: pool_step.cases)
    case (act i ev t st)
    have "makes_connection (sy_tasks y ! i) \<Longrightarrow> hp_connection (sy_state y) = None"
      by (rule tasks_okD(3) [OF pool_invD(3) [OF assms(2)] nth_mem [OF act(3)]])
    then have "hp_shutdown st = hp_shutdown (sy_state y)"
      using opener_next_kind [OF act(4)]
      by (auto simp: quiet_def forgets_def reuses_def installs_def drops_def drop_lease_view)
    then show ?thesis using opener_next_shut [OF act(4) assms(4)] assms(4) act(2) by simp
  next
    case maintain
    have "hp_streams_opened (retire_inactive_connection now idle st) = hp_streams_opened st" for now idle
      and st :: "'a H2ConnectionPoolState"
      by (cases "hp_connection st") (simp_all add: retire_inactive_connection_def Let_def)
    then show ?thesis using assms(4) maintain(2) by (simp add: inactive_view)
  qed (use assms(4) in \<open>simp_all add: pool_shutdown_def\<close>)
  moreover have "hp_connection (sy_state y') = None"
    using tasks_okD(4) [OF pool_invD(3) [OF pool_inv_step [OF assms(1-3)]]] same by simp
  ultimately show ?thesis by simp
qed

subsection \<open>Every call ends\<close>

fun opener_rank :: "'s opener \<Rightarrow> nat" where
  "opener_rank (Attempting c) = (2 - oc_attempt c) * 100 + 60"
| "opener_rank (Trying c) = (2 - oc_attempt c) * 100 + (2 - oc_try c) * 20 + 15"
| "opener_rank (WaitingGate c) = (2 - oc_attempt c) * 100 + (2 - oc_try c) * 20 + 14"
| "opener_rank (Rechecking c) = (2 - oc_attempt c) * 100 + (2 - oc_try c) * 20 + 13"
| "opener_rank (ConnectingH2 c started) = (2 - oc_attempt c) * 100 + (2 - oc_try c) * 20 + 12"
| "opener_rank (Recording c started connection) = (2 - oc_attempt c) * 100 + (2 - oc_try c) * 20 + 11"
| "opener_rank (Installing c connection) = (2 - oc_attempt c) * 100 + (2 - oc_try c) * 20 + 10"
| "opener_rank (Readying c co) = (2 - oc_attempt c) * 100 + (2 - oc_try c) * 20 + 8"
| "opener_rank (Unready c co) = (2 - oc_attempt c) * 100 + (2 - oc_try c) * 20 + 7"
| "opener_rank (OpeningTunnel c co) = (2 - oc_attempt c) * 100 + (2 - oc_try c) * 20 + 6"
| "opener_rank (Opened c co) = 5"
| "opener_rank (Recovered co) = 4"
| "opener_rank (Retiring c g err) = (2 - oc_attempt c) * 100 + 1"
| "opener_rank (StreamFailed c g) = (2 - oc_attempt c) * 100 + 1"
| "opener_rank (DroppingLease co k) = opener_rank k + 1"
| "opener_rank (Unlocking k) = opener_rank k + 1"
| "opener_rank _ = 0"

fun in_call :: "'s opener \<Rightarrow> bool" where
  "in_call Resting = False"
| "in_call (Returned e) = False"
| "in_call (TunnelOpen co) = False"
| "in_call t = True"

lemma opener_rank_step:
  assumes "opener_next now ev t st = Some (t', st')" "in_call t" "opener_ok t"
  shows "opener_rank t' < opener_rank t"
proof (cases t)
  case (Attempting c)
  then show ?thesis using assms by (auto simp: opener_next_def begin_attempt_def MAX_READY_ATTEMPTS_def split: pool_event.splits)
next
  case (Trying c)
  then show ?thesis using assms
    by (auto simp: opener_next_def begin_try_def split: pool_event.splits prod.splits sum.splits option.splits if_splits)
next
  case (Rechecking c)
  then show ?thesis using assms
    by (auto simp: opener_next_def recheck_def split: pool_event.splits prod.splits sum.splits option.splits)
next
  case (Installing c connection)
  then show ?thesis using assms
    by (auto simp: opener_next_def install_def split: pool_event.splits prod.splits sum.splits)
next
  case (Retiring c g err)
  then show ?thesis using assms
    by (auto simp: opener_next_def retire_def MAX_READY_ATTEMPTS_def split: pool_event.splits prod.splits if_splits)
next
  case (StreamFailed c g)
  then show ?thesis using assms by (auto simp: opener_next_def next_attempt_def split: pool_event.splits)
next
  case (Unready c co)
  then show ?thesis using assms by (auto simp: opener_next_def next_try_def split: pool_event.splits)
qed (use assms in \<open>(auto simp: opener_next_def split: pool_event.splits)\<close>)

lemma opener_rank_bound: "opener_ok t \<Longrightarrow> opener_rank t \<le> 262"
proof -
  have plain: "opener_rank k \<le> 260" if "opener_ok k" "lease_of k = None" "\<not> has_gate k" for k :: "'a opener"
    using that by (cases k) auto
  have free: "opener_rank k \<le> 261" if "opener_ok k" "\<not> has_gate k" for k :: "'a opener"
    using that plain by (cases k) auto
  show "opener_ok t \<Longrightarrow> opener_rank t \<le> 262" using plain free by (cases t) auto
qed

lemma opener_enabled: "in_call t \<Longrightarrow> (\<exists>ev t' st'. opener_next now ev t st = Some (t', st')) \<or> (\<exists>k. t = Unlocking k)"
proof (cases t)
  case (ConnectingH2 c started)
  then show ?thesis by (intro disjI1 exI [of _ Cancel]) (simp add: opener_next_def)
next
  case (WaitingGate c)
  then show ?thesis by (intro disjI1 exI [of _ Elapsed]) (simp add: opener_next_def)
next
  case (Readying c co)
  then show ?thesis by (intro disjI1 exI [of _ Elapsed]) (simp add: opener_next_def)
next
  case (OpeningTunnel c co)
  then show ?thesis by (intro disjI1 exI [of _ Elapsed]) (simp add: opener_next_def)
qed (auto simp: opener_next_def split: pool_event.splits intro!: exI [of _ Go])

text \<open>C23. Opening a tunnel ends: a call of \<open>open_h2\<close> makes at most 262 steps of its own before it returns an
error or has opened its tunnel, no step of anybody else sends it back, and it is never stuck, since it can
always go on, time out or give the gate back.\<close>

theorem open_calls_end:
  assumes "pool_run idle_timeout (pool_new n) k y" "n \<le> U32_MAX" "k < U64_MAX" "i < length (sy_tasks y)"
  shows "opener_rank (sy_tasks y ! i) \<le> 262
     \<and> (\<forall>y'. pool_step idle_timeout y (Task i) y' \<and> in_call (sy_tasks y ! i) \<longrightarrow>
           opener_rank (sy_tasks y' ! i) < opener_rank (sy_tasks y ! i))
     \<and> (\<forall>a y'. pool_step idle_timeout y a y' \<and> a \<noteq> Task i \<longrightarrow> sy_tasks y' ! i = sy_tasks y ! i)
     \<and> (in_call (sy_tasks y ! i) \<longrightarrow> (\<exists>y'. pool_step idle_timeout y (Task i) y'))"
proof -
  note inv = pool_invD [OF pool_inv_reachable [OF assms(1,2)] ]
  have ok: "opener_ok (sy_tasks y ! i)" using tasks_okD(1) [OF inv(3) nth_mem [OF assms(4)]] assms(3) by simp
  have "opener_rank (sy_tasks y' ! i) < opener_rank (sy_tasks y ! i)"
    if "pool_step idle_timeout y (Task i) y'" "in_call (sy_tasks y ! i)" for y'
    using that(1) by (cases rule: pool_step.cases) (use that(2) ok assms(4) opener_rank_step in auto)
  moreover have "sy_tasks y' ! i = sy_tasks y ! i" if "pool_step idle_timeout y a y'" "a \<noteq> Task i" for a y'
    using that(1) by (cases rule: pool_step.cases) (use that(2) in auto)
  moreover have "\<exists>y'. pool_step idle_timeout y (Task i) y'" if "in_call (sy_tasks y ! i)"
    using opener_enabled [OF that, of "sy_clock y" "sy_state y"] pool_step.act [OF assms(4)] pool_step.unlock [OF assms(4)] by blast
  ultimately show ?thesis using opener_rank_bound [OF ok] by blast
qed

subsection \<open>Witnesses\<close>

text \<open>A task that found no connection, took the gate and is connecting; and the same task with its stream
on the connection it installed.\<close>

definition example_call :: open_call where
  "example_call = new_call"

definition example_connecting :: "unit pool_system" where
  "example_connecting = (pool_new 1)\<lparr>sy_gate := Some 0, sy_tasks := [ConnectingH2 example_call 0]\<rparr>"

lemma run_act:
  assumes "pool_run idle_timeout y k y'" "i < length (sy_tasks y')"
    and "opener_next (sy_clock y') ev (sy_tasks y' ! i) (sy_state y') = Some (t, st)"
    and "y'' = y'\<lparr>sy_state := st, sy_tasks := (sy_tasks y')[i := t], sy_made := made (sy_tasks y' ! i) t @ sy_made y'\<rparr>"
  shows "pool_run idle_timeout y (Suc k) y''"
  unfolding assms(4) by (rule run_step [OF assms(1) pool_step.act [OF assms(2,3)]])

lemma checkout_default: "checkout_cached H2ConnectionPoolState_default = (Inr None, H2ConnectionPoolState_default)"
  by (simp add: checkout_cached_def drop_closed_def H2ConnectionPoolState_default_def)

lemma example_connecting_run: "pool_run idle_timeout (pool_new 1) 5 example_connecting"
proof -
  let ?at = "\<lambda>t. (pool_new 1 :: unit pool_system)\<lparr>sy_tasks := [t]\<rparr>"
  have "pool_run idle_timeout (pool_new 1) (Suc 0) (?at (Attempting new_call))"
    by (rule run_act [OF run_start, of 0 _ Go]) (simp_all add: pool_new_def opener_next_def made_def)
  then have "pool_run idle_timeout (pool_new 1) (Suc (Suc 0)) (?at (Trying new_call))"
    by (rule run_act [of _ _ _ _ 0 Go]) (simp_all add: pool_new_def opener_next_def made_def begin_attempt_def new_call_def
        MAX_READY_ATTEMPTS_def)
  then have r: "pool_run idle_timeout (pool_new 1) (Suc (Suc (Suc 0))) (?at (WaitingGate new_call))"
    by (rule run_act [of _ _ _ _ 0 Go]) (simp_all add: pool_new_def opener_next_def made_def begin_try_def new_call_def
        MAX_READY_ATTEMPTS_def checkout_default)
  have "pool_run idle_timeout (pool_new 1) (Suc (Suc (Suc (Suc 0)))) ((?at (Rechecking new_call))\<lparr>sy_gate := Some 0\<rparr>)"
    using run_step [OF r pool_step.lock [of 0 "?at (WaitingGate new_call)" new_call]] by (simp add: pool_new_def)
  then have "pool_run idle_timeout (pool_new 1) (Suc (Suc (Suc (Suc (Suc 0))))) example_connecting"
    by (rule run_act [of _ _ _ _ 0 Go]) (simp_all add: pool_new_def opener_next_def made_def recheck_def checkout_default
        example_connecting_def example_call_def)
  then show ?thesis by (simp add: eval_nat_numeral)
qed

definition example_connection :: "unit H2Connection" where
  "example_connection = \<lparr>hc_transport = \<lparr>ts_sender = (), ts_channel_binding = Some [1, 2, 3]\<rparr>, hc_closed = False,
     hc_version = Tls13, hc_group = X25519\<rparr>"

definition example_lease :: "unit H2Checkout" where
  "example_lease = \<lparr>co_generation = 1, co_transport = hc_transport example_connection\<rparr>"

definition example_leased :: "unit pool_system" where
  "example_leased = example_connecting\<lparr>
     sy_state := snd (install_and_checkout example_connection (record_connection_setup_duration 0 H2ConnectionPoolState_default)),
     sy_tasks := [Unlocking (Readying example_call example_lease)], sy_made := [example_lease]\<rparr>"

lemma example_install:
  "fst (install_and_checkout example_connection (record_connection_setup_duration 0 H2ConnectionPoolState_default))
     = Inr example_lease"
  by (simp add: install_and_checkout_def record_connection_setup_duration_def H2ConnectionPoolState_default_def Let_def
      example_lease_def saturating_add_def U64_MAX_def)

lemma example_leased_run: "pool_run idle_timeout (pool_new 1) 8 example_leased"
proof -
  let ?c = example_call and ?h = example_connection
  let ?st = "record_connection_setup_duration 0 (H2ConnectionPoolState_default :: unit H2ConnectionPoolState)"
  have "pool_run idle_timeout (pool_new 1) (Suc 5) (example_connecting\<lparr>sy_tasks := [Recording ?c 0 ?h]\<rparr>)"
    by (rule run_act [OF example_connecting_run, of 0 "Connected ?h"])
       (simp_all add: example_connecting_def pool_new_def opener_next_def made_def)
  then have r: "pool_run idle_timeout (pool_new 1) (Suc (Suc 5))
      (example_connecting\<lparr>sy_state := ?st, sy_tasks := [Installing ?c ?h]\<rparr>)"
    by (rule run_act [of _ _ _ _ 0 Go]) (simp_all add: example_connecting_def pool_new_def opener_next_def made_def)
  have "install ?c ?h ?st = (Unlocking (Readying ?c example_lease), snd (install_and_checkout ?h ?st))"
    using example_install by (cases "install_and_checkout ?h ?st") (simp add: install_def)
  then have "pool_run idle_timeout (pool_new 1) (Suc (Suc (Suc 5))) example_leased"
    by (intro run_act [OF r, of 0 Go "Unlocking (Readying ?c example_lease)" "snd (install_and_checkout ?h ?st)"])
       (simp_all add: example_connecting_def example_leased_def pool_new_def opener_next_def made_def)
  then show ?thesis by (simp add: eval_nat_numeral)
qed

lemma example_leased_connection: "\<exists>c. hp_connection (sy_state example_leased) = Some c"
  by (simp add: example_leased_def install_and_checkout_def record_connection_setup_duration_def H2ConnectionPoolState_default_def
      record_installed_connection_def Let_def saturating_add_def U64_MAX_def)

theorem pool_accounts_for_streams_witness:
  "pool_run 7 (pool_new 1) 8 example_leased
   \<and> hp_active_streams (sy_state example_leased) = 1 \<and> lease_of (sy_tasks example_leased ! 0) = Some example_lease
   \<and> (\<exists>c. hp_connection (sy_state example_leased) = Some c
        \<and> cc_active_streams c = count_tasks (on_generation (cc_generation c)) (sy_tasks example_leased))"
proof -
  obtain c where c: "hp_connection (sy_state example_leased) = Some c" using example_leased_connection by blast
  have b: "1 \<le> U32_MAX" "8 \<le> U64_MAX" by (simp_all add: U32_MAX_def U64_MAX_def)
  note p = pool_accounts_for_streams [OF example_leased_run [of 7] b]
  have "cc_active_streams c = count_tasks (on_generation (cc_generation c)) (sy_tasks example_leased)" using p c by blast
  moreover have "hp_active_streams (sy_state example_leased) = 1"
    using p by (simp add: example_leased_def count_tasks_def holds_lease_def)
  ultimately show ?thesis
    using c example_leased_run [of 7] by (simp add: example_leased_def)
qed

theorem one_connection_at_a_time_witness:
  "pool_run 7 (pool_new 1) 5 example_connecting \<and> makes_connection (sy_tasks example_connecting ! 0)
   \<and> hp_connection (sy_state example_connecting) = None"
  using one_connection_at_a_time [OF example_connecting_run [of 7], of 0] example_connecting_run [of 7]
  by (simp add: U32_MAX_def U64_MAX_def example_connecting_def)

theorem open_calls_end_witness:
  "pool_run 7 (pool_new 1) 5 example_connecting \<and> in_call (sy_tasks example_connecting ! 0)
   \<and> opener_rank (sy_tasks example_connecting ! 0) \<le> 262
   \<and> (\<exists>y'. pool_step 7 example_connecting (Task 0) y')"
  using open_calls_end [OF example_connecting_run [of 7], of 0] example_connecting_run [of 7]
  by (simp add: U32_MAX_def U64_MAX_def example_connecting_def)

end
