(* ===== verification/Tun_Packet.thy ===== *)
theory Tun_Packet
  imports Frame_Codec
begin

text \<open>
  Classification of the packets read from a TUN device, the second half of \<open>maverick-core/src/tun.rs\<close>.
  The code reads fields at fixed offsets of the packet; the specification lays a packet out as the
  concatenation of an IP header, a transport header and data. The main theorem says that the two agree:
  the code recognises exactly the packets of that shape, with the ports, addresses and the offset of the
  data, and never reads outside the packet.
\<close>

datatype TunTransportProtocol = Tcp | Udp

record TunPacketFlow =
  tf_protocol :: TunTransportProtocol
  tf_source :: IpAddr
  tf_destination :: IpAddr
  tf_source_port :: u16
  tf_destination_port :: u16
  tf_payload_offset :: nat

definition target_addr :: "TunPacketFlow \<Rightarrow> TargetAddr" where
  "target_addr f = (case tf_destination f of V4 addr \<Rightarrow> Ipv4 addr | V6 addr \<Rightarrow> Ipv6 addr)"

datatype TunPacketClassification =
    Flow TunPacketFlow
  | Unsupported u8 "u8 option" string

text \<open>\<open>u16::from_be_bytes([b[i], b[i + 1]])\<close>.\<close>

definition be16_at :: "bytes \<Rightarrow> nat \<Rightarrow> u16 result" where
  "be16_at b i = and_then (byte_at b i) (\<lambda>x. and_then (byte_at b (i + 1)) (\<lambda>y. Ok (u16_from_be [x, y])))"

definition classify_tcp :: "IpAddr \<Rightarrow> IpAddr \<Rightarrow> bytes \<Rightarrow> nat \<Rightarrow> TunPacketClassification result" where
  "classify_tcp source destination segment base_offset =
     fail_if (length segment < 20) (MalformedFrame ''truncated tcp segment'')
       (and_then (byte_at segment 12) (\<lambda>b.
        let header_len = unat (drop_bit 4 b) * 4 in
        fail_if (header_len < 20 \<or> length segment < header_len) (MalformedFrame ''invalid tcp header length'')
          (and_then (be16_at segment 0) (\<lambda>source_port.
           and_then (be16_at segment 2) (\<lambda>destination_port.
           Ok (Flow \<lparr>tf_protocol = Tcp, tf_source = source, tf_destination = destination, tf_source_port = source_port,
                 tf_destination_port = destination_port, tf_payload_offset = base_offset + header_len\<rparr>))))))"

definition classify_udp :: "IpAddr \<Rightarrow> IpAddr \<Rightarrow> bytes \<Rightarrow> nat \<Rightarrow> TunPacketClassification result" where
  "classify_udp source destination segment base_offset =
     fail_if (length segment < 8) (MalformedFrame ''truncated udp datagram'')
       (and_then (be16_at segment 4) (\<lambda>len.
        let udp_len = unat len in
        fail_if (udp_len < 8 \<or> udp_len > length segment) (MalformedFrame ''invalid udp length'')
          (and_then (be16_at segment 0) (\<lambda>source_port.
           and_then (be16_at segment 2) (\<lambda>destination_port.
           Ok (Flow \<lparr>tf_protocol = Udp, tf_source = source, tf_destination = destination, tf_source_port = source_port,
                 tf_destination_port = destination_port, tf_payload_offset = base_offset + 8\<rparr>))))))"

definition classify_transport ::
  "u8 \<Rightarrow> u8 \<Rightarrow> IpAddr \<Rightarrow> IpAddr \<Rightarrow> bytes \<Rightarrow> nat \<Rightarrow> TunPacketClassification result" where
  "classify_transport ip_version protocol source destination segment base_offset =
     (if protocol = 6 then classify_tcp source destination segment base_offset
      else if protocol = 17 then classify_udp source destination segment base_offset
      else Ok (Unsupported ip_version (Some protocol) ''unsupported transport protocol''))"

definition classify_ipv4_packet :: "bytes \<Rightarrow> TunPacketClassification result" where
  "classify_ipv4_packet packet =
     fail_if (length packet < 20) (MalformedFrame ''truncated ipv4 packet'')
       (and_then (byte_at packet 0) (\<lambda>first.
        let ihl = unat (first AND 0x0f) * 4 in
        fail_if (ihl < 20 \<or> length packet < ihl) (MalformedFrame ''invalid ipv4 header length'')
          (and_then (be16_at packet 2) (\<lambda>len.
           let total_len = unat len in
           fail_if (total_len < ihl \<or> total_len > length packet) (MalformedFrame ''invalid ipv4 total length'')
             (and_then (be16_at packet 6) (\<lambda>fragment.
              and_then (byte_at packet 9) (\<lambda>protocol.
              if fragment AND 0x3fff \<noteq> 0 then Ok (Unsupported 4 (Some protocol) ''fragmented ipv4 packet'')
              else
                and_then (byte_slice 12 4 packet) (\<lambda>source.
                and_then (byte_slice 16 4 packet) (\<lambda>destination.
                and_then (byte_slice ihl (total_len - ihl) packet) (\<lambda>segment.
                classify_transport 4 protocol (V4 (ipv4_from source)) (V4 (ipv4_from destination)) segment ihl))))))))))"

definition classify_ipv6_packet :: "bytes \<Rightarrow> TunPacketClassification result" where
  "classify_ipv6_packet packet =
     fail_if (length packet < 40) (MalformedFrame ''truncated ipv6 packet'')
       (and_then (be16_at packet 4) (\<lambda>len.
        let payload_len = unat len; total_len = 40 + payload_len in
        fail_if (total_len > length packet) (MalformedFrame ''invalid ipv6 payload length'')
          (and_then (byte_slice 8 16 packet) (\<lambda>source.
           and_then (byte_slice 24 16 packet) (\<lambda>destination.
           and_then (byte_at packet 6) (\<lambda>protocol.
           and_then (byte_slice 40 (total_len - 40) packet) (\<lambda>segment.
           classify_transport 6 protocol (V6 (ipv6_from source)) (V6 (ipv6_from destination)) segment 40)))))))"

definition classify_tun_packet :: "bytes \<Rightarrow> TunPacketClassification result" where
  "classify_tun_packet packet =
     (case packet of [] \<Rightarrow> Err (MalformedFrame ''tun packet is empty'')
      | first # _ \<Rightarrow>
        let version = drop_bit 4 first in
        if version = 4 then classify_ipv4_packet packet
        else if version = 6 then classify_ipv6_packet packet
        else Ok (Unsupported version None ''unsupported ip version''))"

subsection \<open>Reading never leaves the packet\<close>

lemma be16_at_simps [simp]: "i + 1 < length b \<Longrightarrow> be16_at b i = Ok (u16_from_be [b ! i, b ! (i + 1)])"
  by (simp add: be16_at_def)

lemma classify_transport_not_Panic: "classify_transport v p s d seg off \<noteq> Panic"
  by (auto simp: classify_transport_def classify_tcp_def classify_udp_def Let_def and_then_Panic_iff be16_at_def byte_at_def
      split: if_splits)

lemma classify_ipv4_not_Panic: "classify_ipv4_packet p \<noteq> Panic"
  by (auto simp: classify_ipv4_packet_def Let_def and_then_Panic_iff classify_transport_not_Panic be16_at_def byte_at_def
      byte_slice_def split: if_splits)

lemma classify_ipv6_not_Panic: "classify_ipv6_packet p \<noteq> Panic"
  by (auto simp: classify_ipv6_packet_def Let_def and_then_Panic_iff classify_transport_not_Panic be16_at_def byte_at_def
      byte_slice_def split: if_splits)

lemma classify_not_Panic: "classify_tun_packet p \<noteq> Panic"
  by (simp add: classify_tun_packet_def Let_def classify_ipv4_not_Panic classify_ipv6_not_Panic split: list.splits)

subsection \<open>The layout of a packet\<close>

text \<open>An IPv4 header of \<open>length hdr\<close> bytes, options included, in front of \<open>seg_len\<close> bytes: the low half of the
first byte counts words of four bytes, and neither the flag for more fragments nor an offset is set.\<close>

definition ipv4_header :: "bytes \<Rightarrow> nat \<Rightarrow> u8 \<Rightarrow> IpAddr \<Rightarrow> IpAddr \<Rightarrow> bool" where
  "ipv4_header hdr seg_len protocol source destination =
     (\<exists>tos ident fragment ttl checksum src dst opts.
        hdr = [of_nat (64 + length hdr div 4), tos] @ put_u16 (of_nat (length hdr + seg_len)) @ ident @ put_u16 fragment
              @ [ttl, protocol] @ checksum @ ipv4_octets src @ ipv4_octets dst @ opts
        \<and> length ident = 2 \<and> length checksum = 2 \<and> 4 dvd length hdr \<and> length hdr \<le> 60
        \<and> length hdr + seg_len \<le> 65535 \<and> fragment AND 0x3fff = 0 \<and> source = V4 src \<and> destination = V4 dst)"

definition ipv6_header :: "bytes \<Rightarrow> nat \<Rightarrow> u8 \<Rightarrow> IpAddr \<Rightarrow> IpAddr \<Rightarrow> bool" where
  "ipv6_header hdr seg_len protocol source destination =
     (\<exists>low label hop src dst.
        hdr = [of_nat (96 + low)] @ label @ put_u16 (of_nat seg_len) @ [protocol, hop] @ ipv6_octets src @ ipv6_octets dst
        \<and> low < 16 \<and> length label = 3 \<and> seg_len \<le> 65535 \<and> source = V6 src \<and> destination = V6 dst)"

definition ip_header :: "bytes \<Rightarrow> nat \<Rightarrow> u8 \<Rightarrow> IpAddr \<Rightarrow> IpAddr \<Rightarrow> bool" where
  "ip_header hdr seg_len protocol source destination =
     (ipv4_header hdr seg_len protocol source destination \<or> ipv6_header hdr seg_len protocol source destination)"

definition tcp_segment :: "bytes \<Rightarrow> u16 \<Rightarrow> u16 \<Rightarrow> nat \<Rightarrow> bool" where
  "tcp_segment seg source_port destination_port header_len =
     (\<exists>numbers low rest.
        seg = put_u16 source_port @ put_u16 destination_port @ numbers @ [of_nat (16 * (header_len div 4) + low)] @ rest
        \<and> length numbers = 8 \<and> low < 16 \<and> 4 dvd header_len \<and> 20 \<le> header_len \<and> header_len \<le> 60
        \<and> header_len \<le> length seg)"

definition udp_segment :: "bytes \<Rightarrow> u16 \<Rightarrow> u16 \<Rightarrow> nat \<Rightarrow> bool" where
  "udp_segment seg source_port destination_port header_len =
     (\<exists>len rest. seg = put_u16 source_port @ put_u16 destination_port @ put_u16 len @ rest
        \<and> header_len = 8 \<and> 8 \<le> unat len \<and> unat len \<le> length seg)"

text \<open>A packet of a flow: a header, the segment it announces, and possibly bytes behind it.\<close>

definition tun_packet_of :: "bytes \<Rightarrow> TunPacketFlow \<Rightarrow> bool" where
  "tun_packet_of packet f =
     (\<exists>hdr seg trailing header_len.
        packet = hdr @ seg @ trailing
        \<and> (case tf_protocol f of
             Tcp \<Rightarrow> ip_header hdr (length seg) 6 (tf_source f) (tf_destination f)
                    \<and> tcp_segment seg (tf_source_port f) (tf_destination_port f) header_len
           | Udp \<Rightarrow> ip_header hdr (length seg) 17 (tf_source f) (tf_destination f)
                    \<and> udp_segment seg (tf_source_port f) (tf_destination_port f) header_len)
        \<and> tf_payload_offset f = length hdr + header_len)"

subsection \<open>Nibbles and fields\<close>

lemma nibbles:
  "unat (drop_bit 4 (b :: u8)) = unat b div 16" "unat ((b :: u8) AND 0x0f) = unat b mod 16"
proof -
  show "unat (drop_bit 4 b) = unat b div 16"
    unfolding unat_drop_bit_eq by (simp add: drop_bit_eq_div)
  have "b AND 0x0f = take_bit 4 b" by (simp add: take_bit_eq_mask mask_numeral)
  then have "unat (b AND 0x0f) = take_bit 4 (unat b)" unfolding unsigned_take_bit_eq [symmetric] by simp
  then show "unat (b AND 0x0f) = unat b mod 16" by (simp add: take_bit_eq_mod)
qed

lemma drop_bit_4_eq: "drop_bit 4 (b :: u8) = of_nat n \<longleftrightarrow> unat b div 16 = n" if "n < 256"
  using nibbles(1) [of b] unat_of_nat_le(3) [OF that] by (metis unsigned_word_eqI)

lemma chunk: "drop i xs = take n (drop i xs) @ drop (i + n) xs"
  by (metis add.commute append_take_drop_id drop_drop)

lemma take2_nth: "i + 1 < length xs \<Longrightarrow> take 2 (drop i xs) = [xs ! i, xs ! (i + 1)]"
  by (simp add: numeral_2_eq_2 take_Suc_conv_app_nth)

lemma take1_nth: "i < length xs \<Longrightarrow> take 1 (drop i xs) = [xs ! i]"
  by (simp add: take_Suc_conv_app_nth)

lemma put_u16_pair: "put_u16 (u16_from_be [x, y]) = [x, y]"
  by (simp add: put_from_be)

lemma put_u16_take: "i + 1 < length xs \<Longrightarrow> put_u16 (u16_from_be [xs ! i, xs ! (i + 1)]) = take 2 (drop i xs)"
  by (simp only: put_u16_pair take2_nth)

subsection \<open>Transport headers\<close>

lemma classify_tcp_iff:
  "classify_tcp s d seg off = Ok (Flow f) \<longleftrightarrow>
     (\<exists>hl. tcp_segment seg (tf_source_port f) (tf_destination_port f) hl \<and> tf_protocol f = Tcp \<and> tf_source f = s
        \<and> tf_destination f = d \<and> tf_payload_offset f = off + hl)"
  (is "?code \<longleftrightarrow> ?spec")
proof
  assume ?code
  then have len: "20 \<le> length seg" by (simp add: classify_tcp_def not_less)
  let ?hl = "unat (drop_bit 4 (seg ! 12)) * 4"
  have h: "20 \<le> ?hl" "?hl \<le> length seg" and f: "f = \<lparr>tf_protocol = Tcp, tf_source = s, tf_destination = d,
       tf_source_port = u16_from_be [seg ! 0, seg ! 1], tf_destination_port = u16_from_be [seg ! 2, seg ! 3],
       tf_payload_offset = off + ?hl\<rparr>"
    using \<open>?code\<close> len by (auto simp: classify_tcp_def Let_def)
  have b: "seg ! 12 = of_nat (16 * (?hl div 4) + unat (seg ! 12) mod 16)" by (simp add: nibbles(1))
  have "seg = take 2 seg @ take 2 (drop 2 seg) @ take 8 (drop 4 seg) @ take 1 (drop 12 seg) @ drop 13 seg"
    using chunk [of 0 seg 2] chunk [of 2 seg 2] chunk [of 4 seg 8] chunk [of 12 seg 1] by simp
  then have "seg = put_u16 (u16_from_be [seg ! 0, seg ! 1]) @ put_u16 (u16_from_be [seg ! 2, seg ! 3]) @ take 8 (drop 4 seg)
       @ [of_nat (16 * (?hl div 4) + unat (seg ! 12) mod 16)] @ drop 13 seg"
    using put_u16_take [of 0 seg] put_u16_take [of 2 seg] take1_nth [of 12 seg] len b by simp
  then have "tcp_segment seg (tf_source_port f) (tf_destination_port f) ?hl"
    unfolding tcp_segment_def f using h len unat_u8_less [of "seg ! 12"]
    by (intro exI [of _ "take 8 (drop 4 seg)"] exI [of _ "unat (seg ! 12) mod 16"] exI [of _ "drop 13 seg"])
       (simp add: nibbles(1))
  then show ?spec using f by (intro exI [of _ ?hl]) simp
next
  assume ?spec
  then obtain hl numbers low rest where f: "tf_protocol f = Tcp" "tf_source f = s" "tf_destination f = d" "tf_payload_offset f = off + hl"
    and seg: "seg = put_u16 (tf_source_port f) @ put_u16 (tf_destination_port f) @ numbers @ [of_nat (16 * (hl div 4) + low)] @ rest"
    and l: "length numbers = 8" "low < 16" "4 dvd hl" "20 \<le> hl" "hl \<le> 60" "hl \<le> length seg"
    unfolding tcp_segment_def by blast
  have at: "seg ! 12 = of_nat (16 * (hl div 4) + low)" unfolding seg using l(1) by (simp add: nth_append)
  have "unat (drop_bit 4 (seg ! 12)) * 4 = hl"
    unfolding nibbles(1) at using l(2-5) by (subst unat_of_nat_le) (auto simp: dvd_def)
  moreover have "u16_from_be [seg ! 0, seg ! Suc 0] = tf_source_port f" "u16_from_be [seg ! 2, seg ! 3] = tf_destination_port f"
    using take2_nth [of 0 seg] take2_nth [of 2 seg] l(4,6) from_be_put(1) [of "tf_source_port f"] from_be_put(1) [of "tf_destination_port f"]
    by (simp_all add: seg)
  ultimately show ?code using l(4,6) f by (cases f) (simp add: classify_tcp_def Let_def)
qed

lemma classify_udp_iff:
  "classify_udp s d seg off = Ok (Flow f) \<longleftrightarrow>
     (\<exists>hl. udp_segment seg (tf_source_port f) (tf_destination_port f) hl \<and> tf_protocol f = Udp \<and> tf_source f = s
        \<and> tf_destination f = d \<and> tf_payload_offset f = off + hl)"
  (is "?code \<longleftrightarrow> ?spec")
proof
  assume ?code
  then have len: "8 \<le> length seg" by (simp add: classify_udp_def not_less)
  let ?n = "u16_from_be [seg ! 4, seg ! 5]"
  have h: "8 \<le> unat ?n" "unat ?n \<le> length seg" and f: "f = \<lparr>tf_protocol = Udp, tf_source = s, tf_destination = d,
       tf_source_port = u16_from_be [seg ! 0, seg ! 1], tf_destination_port = u16_from_be [seg ! 2, seg ! 3],
       tf_payload_offset = off + 8\<rparr>"
    using \<open>?code\<close> len by (auto simp: classify_udp_def Let_def)
  have "seg = take 2 seg @ take 2 (drop 2 seg) @ take 2 (drop 4 seg) @ drop 6 seg"
    using chunk [of 0 seg 2] chunk [of 2 seg 2] chunk [of 4 seg 2] by simp
  then have "seg = put_u16 (u16_from_be [seg ! 0, seg ! 1]) @ put_u16 (u16_from_be [seg ! 2, seg ! 3]) @ put_u16 ?n @ drop 6 seg"
    using put_u16_take [of 0 seg] put_u16_take [of 2 seg] put_u16_take [of 4 seg] len by simp
  then have "udp_segment seg (tf_source_port f) (tf_destination_port f) 8"
    unfolding udp_segment_def f using h by (intro exI [of _ ?n] exI [of _ "drop 6 seg"]) simp
  then show ?spec using f by (intro exI [of _ 8]) simp
next
  assume ?spec
  then obtain len rest where f: "tf_protocol f = Udp" "tf_source f = s" "tf_destination f = d" "tf_payload_offset f = off + 8"
    and seg: "seg = put_u16 (tf_source_port f) @ put_u16 (tf_destination_port f) @ put_u16 len @ rest"
    and l: "8 \<le> unat len" "unat len \<le> length seg"
    unfolding udp_segment_def by blast
  have "u16_from_be [seg ! 0, seg ! Suc 0] = tf_source_port f" "u16_from_be [seg ! 2, seg ! 3] = tf_destination_port f"
      "u16_from_be [seg ! 4, seg ! 5] = len"
    using take2_nth [of 0 seg] take2_nth [of 2 seg] take2_nth [of 4 seg] l from_be_put(1) [of "tf_source_port f"]
      from_be_put(1) [of "tf_destination_port f"] from_be_put(1) [of len] by (simp_all add: seg)
  then show ?code using l f by (cases f) (simp add: classify_udp_def Let_def)
qed

subsection \<open>IP headers\<close>

lemma ipv4_header_of_bytes:
  assumes v: "unat (hdr ! 0) div 16 = 4" and ihl: "length hdr = unat (hdr ! 0) mod 16 * 4" "20 \<le> length hdr"
    and total: "unat (u16_from_be [hdr ! 2, hdr ! 3]) = length hdr + n" and frag: "u16_from_be [hdr ! 6, hdr ! 7] AND 0x3fff = 0"
  shows "ipv4_header hdr n (hdr ! 9) (V4 (ipv4_from (take 4 (drop 12 hdr)))) (V4 (ipv4_from (take 4 (drop 16 hdr))))"
proof -
  have "unat (hdr ! 0) = 64 + length hdr div 4" using v ihl(1) div_mult_mod_eq [of "unat (hdr ! 0)" 16] by simp
  then have b0: "of_nat (64 + length hdr div 4) = hdr ! 0" by (metis unat_of_nat_le(3) unat_u8_less unsigned_word_eqI)
  have lt: "length hdr + n < 65536" using unat_less_pow [of "u16_from_be [hdr ! 2, hdr ! 3]"] unfolding total by simp
  then have len: "of_nat (length hdr + n) = u16_from_be [hdr ! 2, hdr ! 3]"
    using total unat_of_nat_le(1) [OF lt] by (metis unsigned_word_eqI)
  have "hdr = take 2 hdr @ take 2 (drop 2 hdr) @ take 2 (drop 4 hdr) @ take 2 (drop 6 hdr) @ take 2 (drop 8 hdr)
      @ take 2 (drop 10 hdr) @ take 4 (drop 12 hdr) @ take 4 (drop 16 hdr) @ drop 20 hdr"
    using chunk [of 0 hdr 2] chunk [of 2 hdr 2] chunk [of 4 hdr 2] chunk [of 6 hdr 2] chunk [of 8 hdr 2] chunk [of 10 hdr 2]
      chunk [of 12 hdr 4] chunk [of 16 hdr 4] by simp
  then have "hdr = [of_nat (64 + length hdr div 4), hdr ! 1] @ put_u16 (of_nat (length hdr + n)) @ take 2 (drop 4 hdr)
      @ put_u16 (u16_from_be [hdr ! 6, hdr ! 7]) @ [hdr ! 8, hdr ! 9] @ take 2 (drop 10 hdr)
      @ ipv4_octets (ipv4_from (take 4 (drop 12 hdr))) @ ipv4_octets (ipv4_from (take 4 (drop 16 hdr))) @ drop 20 hdr"
    unfolding b0 len using ihl(2) put_u16_take [of 2 hdr] put_u16_take [of 6 hdr] take2_nth [of 0 hdr] take2_nth [of 8 hdr]
    by (simp add: octets_from)
  moreover have "length hdr \<le> 60" "4 dvd length hdr" unfolding ihl(1) by simp_all
  ultimately show ?thesis
    unfolding ipv4_header_def using ihl(2) frag lt
    by (intro exI [of _ "hdr ! 1"] exI [of _ "take 2 (drop 4 hdr)"] exI [of _ "u16_from_be [hdr ! 6, hdr ! 7]"] exI [of _ "hdr ! 8"]
        exI [of _ "take 2 (drop 10 hdr)"] exI [of _ "ipv4_from (take 4 (drop 12 hdr))"] exI [of _ "ipv4_from (take 4 (drop 16 hdr))"]
        exI [of _ "drop 20 hdr"] conjI) simp_all
qed

lemma ipv4_header_bytes:
  assumes "ipv4_header hdr n protocol s d"
  shows "unat (hdr ! 0) div 16 = 4" "length hdr = unat (hdr ! 0) mod 16 * 4" "20 \<le> length hdr"
    "unat (u16_from_be [hdr ! 2, hdr ! 3]) = length hdr + n" "u16_from_be [hdr ! 6, hdr ! 7] AND 0x3fff = 0" "hdr ! 9 = protocol"
    "V4 (ipv4_from (take 4 (drop 12 hdr))) = s" "V4 (ipv4_from (take 4 (drop 16 hdr))) = d"
proof -
  from assms obtain tos ident fragment ttl checksum src dst opts where
    h: "hdr = [of_nat (64 + length hdr div 4), tos] @ put_u16 (of_nat (length hdr + n)) @ ident @ put_u16 fragment
              @ [ttl, protocol] @ checksum @ ipv4_octets src @ ipv4_octets dst @ opts"
    and l: "length ident = 2" "length checksum = 2" "4 dvd length hdr" "length hdr \<le> 60" "length hdr + n \<le> 65535"
      "fragment AND 0x3fff = 0" "s = V4 src" "d = V4 dst"
    unfolding ipv4_header_def by blast
  define L where "L = length hdr"
  have h': "hdr = [of_nat (64 + L div 4), tos] @ put_u16 (of_nat (L + n)) @ ident @ put_u16 fragment
              @ [ttl, protocol] @ checksum @ ipv4_octets src @ ipv4_octets dst @ opts"
    using h unfolding L_def .
  have "length hdr = 20 + length opts" by (subst h') (simp add: l(1,2))
  then show len: "20 \<le> length hdr" by simp
  have "hdr ! 0 = of_nat (64 + L div 4)" by (subst h') simp
  then have u: "unat (hdr ! 0) = 64 + L div 4"
    using unat_of_nat_le(3) [of "64 + L div 4"] l(4) unfolding L_def by (simp only:)
  obtain k where k: "length hdr = 4 * k" "k < 16" using l(3,4) by (auto simp: dvd_def)
  show "unat (hdr ! 0) div 16 = 4" "length hdr = unat (hdr ! 0) mod 16 * 4"
    unfolding u L_def k(1) using k(2) mod_mult_self4 [of 16 4 k] div_mult_self4 [of 16 4 k] by simp_all
  have t: "take 2 (drop 2 hdr) = put_u16 (of_nat (L + n))" "take 2 (drop 6 hdr) = put_u16 fragment"
      "take 4 (drop 12 hdr) = ipv4_octets src" "take 4 (drop 16 hdr) = ipv4_octets dst"
    by (subst h', simp add: l(1,2))+
  show "hdr ! 9 = protocol" by (subst h') (simp add: nth_append l(1,2))
  have "u16_from_be [hdr ! 2, hdr ! 3] = of_nat (L + n)" "u16_from_be [hdr ! 6, hdr ! 7] = fragment"
    using t(1,2) take2_nth [of 2 hdr] take2_nth [of 6 hdr] len from_be_put(1) [of "of_nat (L + n)"] from_be_put(1) [of fragment]
    by simp_all
  then show "unat (u16_from_be [hdr ! 2, hdr ! 3]) = length hdr + n" "u16_from_be [hdr ! 6, hdr ! 7] AND 0x3fff = 0"
    using l(5,6) by (simp_all only: L_def unat_of_nat_le(1))
  show "V4 (ipv4_from (take 4 (drop 12 hdr))) = s" "V4 (ipv4_from (take 4 (drop 16 hdr))) = d"
    unfolding t l by simp_all
qed

lemma classify_ipv4_header:
  assumes h: "ipv4_header hdr (length seg) protocol s d"
  shows "classify_ipv4_packet (hdr @ seg @ trailing) = classify_transport 4 protocol s d seg (length hdr)"
proof -
  let ?p = "hdr @ seg @ trailing"
  note b = ipv4_header_bytes [OF h]
  have at: "?p ! 0 = hdr ! 0" "?p ! 2 = hdr ! 2" "?p ! 3 = hdr ! 3" "?p ! 6 = hdr ! 6" "?p ! 7 = hdr ! 7" "?p ! 9 = hdr ! 9"
      "take 4 (drop 12 ?p) = take 4 (drop 12 hdr)" "take 4 (drop 16 ?p) = take 4 (drop 16 hdr)"
    using b(3) by (auto simp: nth_append)
  have "hdr \<noteq> []" using b(3) by auto
  then have first: "byte_at ?p 0 = Ok (?p ! 0)" by simp
  have ihl: "unat (?p ! 0 AND 0x0f) * 4 = length hdr" unfolding nibbles(2) at(1) by (rule b(2) [symmetric])
  have r: "be16_at ?p 2 = Ok (u16_from_be [hdr ! 2, hdr ! 3])"
      "be16_at ?p 6 = Ok (u16_from_be [hdr ! 6, hdr ! 7])" "byte_at ?p 9 = Ok protocol"
      "byte_slice 12 4 ?p = Ok (take 4 (drop 12 hdr))" "byte_slice 16 4 ?p = Ok (take 4 (drop 16 hdr))"
      "byte_slice (length hdr) (length seg) ?p = Ok seg"
    using b(3,6) at by simp_all
  show ?thesis
    unfolding classify_ipv4_packet_def first r and_then.simps Let_def ihl b(4,5,7,8)
    using b(3) by (simp add: r)
qed

lemma ipv6_header_of_bytes:
  assumes v: "unat (hdr ! 0) div 16 = 6" and l: "length hdr = 40" and n: "unat (u16_from_be [hdr ! 4, hdr ! 5]) = n"
  shows "ipv6_header hdr n (hdr ! 6) (V6 (ipv6_from (take 16 (drop 8 hdr)))) (V6 (ipv6_from (take 16 (drop 24 hdr))))"
proof -
  have "unat (hdr ! 0) = 96 + unat (hdr ! 0) mod 16" using v div_mult_mod_eq [of "unat (hdr ! 0)" 16] by simp
  then have b0: "of_nat (96 + unat (hdr ! 0) mod 16) = hdr ! 0" by (metis unat_of_nat_le(3) unat_u8_less unsigned_word_eqI)
  have lt: "n < 65536" using unat_less_pow [of "u16_from_be [hdr ! 4, hdr ! 5]"] unfolding n by simp
  then have len: "of_nat n = u16_from_be [hdr ! 4, hdr ! 5]"
    using n unat_of_nat_le(1) [OF lt] by (metis unsigned_word_eqI)
  have "hdr = take 1 hdr @ take 3 (drop 1 hdr) @ take 2 (drop 4 hdr) @ take 2 (drop 6 hdr) @ take 16 (drop 8 hdr) @ drop 24 hdr"
    using chunk [of 0 hdr 1] chunk [of 1 hdr 3] chunk [of 4 hdr 2] chunk [of 6 hdr 2] chunk [of 8 hdr 16] by simp
  then have "hdr = [of_nat (96 + unat (hdr ! 0) mod 16)] @ take 3 (drop 1 hdr) @ put_u16 (of_nat n) @ [hdr ! 6, hdr ! 7]
      @ ipv6_octets (ipv6_from (take 16 (drop 8 hdr))) @ ipv6_octets (ipv6_from (take 16 (drop 24 hdr)))"
    unfolding b0 len using l put_u16_take [of 4 hdr] take1_nth [of 0 hdr] take2_nth [of 6 hdr] by (simp add: octets_from)
  then show ?thesis
    unfolding ipv6_header_def using l lt
    by (intro exI [of _ "unat (hdr ! 0) mod 16"] exI [of _ "take 3 (drop 1 hdr)"] exI [of _ "hdr ! 7"]
        exI [of _ "ipv6_from (take 16 (drop 8 hdr))"] exI [of _ "ipv6_from (take 16 (drop 24 hdr))"] conjI) simp_all
qed

lemma ipv6_header_bytes:
  assumes "ipv6_header hdr n protocol s d"
  shows "unat (hdr ! 0) div 16 = 6" "length hdr = 40" "unat (u16_from_be [hdr ! 4, hdr ! 5]) = n" "hdr ! 6 = protocol"
    "V6 (ipv6_from (take 16 (drop 8 hdr))) = s" "V6 (ipv6_from (take 16 (drop 24 hdr))) = d"
proof -
  from assms obtain low label hop src dst where
    h: "hdr = [of_nat (96 + low)] @ label @ put_u16 (of_nat n) @ [protocol, hop] @ ipv6_octets src @ ipv6_octets dst"
    and l: "low < 16" "length label = 3" "n \<le> 65535" "s = V6 src" "d = V6 dst"
    unfolding ipv6_header_def by blast
  show len: "length hdr = 40" unfolding h using l(2) by simp
  have "hdr ! 0 = of_nat (96 + low)" unfolding h by simp
  then have u: "unat (hdr ! 0) = 96 + low" using unat_of_nat_le(3) [of "96 + low"] l(1) by (simp only:)
  show "unat (hdr ! 0) div 16 = 6" unfolding u using l(1) div_mult_self4 [of 16 6 low] by simp
  have t: "take 2 (drop 4 hdr) = put_u16 (of_nat n)" "take 16 (drop 8 hdr) = ipv6_octets src" "take 16 (drop 24 hdr) = ipv6_octets dst"
    unfolding h using l(2) by simp_all
  show "hdr ! 6 = protocol" unfolding h using l(2) by (simp add: nth_append)
  have "u16_from_be [hdr ! 4, hdr ! 5] = of_nat n"
    using t(1) take2_nth [of 4 hdr] len from_be_put(1) [of "of_nat n"] by simp
  then show "unat (u16_from_be [hdr ! 4, hdr ! 5]) = n" using l(3) unat_of_nat_le(1) [of n] by simp
  show "V6 (ipv6_from (take 16 (drop 8 hdr))) = s" "V6 (ipv6_from (take 16 (drop 24 hdr))) = d"
    unfolding t l by simp_all
qed

lemma classify_ipv6_header:
  assumes h: "ipv6_header hdr (length seg) protocol s d"
  shows "classify_ipv6_packet (hdr @ seg @ trailing) = classify_transport 6 protocol s d seg (length hdr)"
proof -
  let ?p = "hdr @ seg @ trailing"
  note b = ipv6_header_bytes [OF h]
  have at: "?p ! 4 = hdr ! 4" "?p ! 5 = hdr ! 5" "?p ! 6 = hdr ! 6"
      "take 16 (drop 8 ?p) = take 16 (drop 8 hdr)" "take 16 (drop 24 ?p) = take 16 (drop 24 hdr)"
    using b(2) by (simp_all add: nth_append)
  have r: "be16_at ?p 4 = Ok (u16_from_be [hdr ! 4, hdr ! 5])" "byte_at ?p 6 = Ok protocol"
      "byte_slice 8 16 ?p = Ok (take 16 (drop 8 hdr))" "byte_slice 24 16 ?p = Ok (take 16 (drop 24 hdr))"
      "byte_slice 40 (length seg) ?p = Ok seg"
    using b(2,4) at by simp_all
  show ?thesis
    unfolding classify_ipv6_packet_def r and_then.simps Let_def b(3,5,6)
    using b(2) r by simp
qed

subsection \<open>The code recognises exactly the packets of a flow\<close>

lemma classify_transport_iff:
  "classify_transport v protocol s d seg off = Ok (Flow f) \<longleftrightarrow>
     (\<exists>hl. tf_source f = s \<and> tf_destination f = d \<and> tf_payload_offset f = off + hl
        \<and> (case tf_protocol f of
             Tcp \<Rightarrow> protocol = 6 \<and> tcp_segment seg (tf_source_port f) (tf_destination_port f) hl
           | Udp \<Rightarrow> protocol = 17 \<and> udp_segment seg (tf_source_port f) (tf_destination_port f) hl))"
  by (cases "tf_protocol f") (auto simp: classify_transport_def classify_tcp_iff classify_udp_iff)

lemma tun_packet_of_iff:
  "tun_packet_of packet f \<longleftrightarrow>
     (\<exists>hdr seg trailing protocol v. packet = hdr @ seg @ trailing
        \<and> ip_header hdr (length seg) protocol (tf_source f) (tf_destination f)
        \<and> classify_transport v protocol (tf_source f) (tf_destination f) seg (length hdr) = Ok (Flow f))"
  unfolding tun_packet_of_def classify_transport_iff by (cases "tf_protocol f") auto

lemma tun_packet_ofI:
  assumes "packet = hdr @ seg @ trailing" "ip_header hdr (length seg) protocol (tf_source f) (tf_destination f)"
    and "classify_transport v protocol (tf_source f) (tf_destination f) seg (length hdr) = Ok (Flow f)"
  shows "tun_packet_of packet f"
  unfolding tun_packet_of_iff using assms by blast

lemma classify_version:
  "p \<noteq> [] \<Longrightarrow> unat (p ! 0) div 16 = 4 \<Longrightarrow> classify_tun_packet p = classify_ipv4_packet p"
  "p \<noteq> [] \<Longrightarrow> unat (p ! 0) div 16 = 6 \<Longrightarrow> classify_tun_packet p = classify_ipv6_packet p"
  using drop_bit_4_eq [of 4 "hd p"] drop_bit_4_eq [of 6 "hd p"] by (cases p; simp add: classify_tun_packet_def Let_def)+

lemma classify_tun_packet_versions:
  assumes "classify_tun_packet p = Ok (Flow f)"
  obtains "p \<noteq> []" "unat (p ! 0) div 16 = 4" "classify_ipv4_packet p = Ok (Flow f)"
  | "p \<noteq> []" "unat (p ! 0) div 16 = 6" "classify_ipv6_packet p = Ok (Flow f)"
proof (cases p)
  case (Cons first rest)
  have "drop_bit 4 first = 4 \<or> drop_bit 4 first = 6"
    using assms Cons by (auto simp: classify_tun_packet_def Let_def split: if_splits)
  then have "unat (p ! 0) div 16 = 4 \<or> unat (p ! 0) div 16 = 6"
    using drop_bit_4_eq [of 4 first] drop_bit_4_eq [of 6 first] Cons by simp
  then show thesis using that assms Cons classify_version [of p] by (metis list.distinct(1))
qed (use assms in \<open>simp add: classify_tun_packet_def\<close>)

lemma classify_ipv4_flow:
  assumes v: "unat (p ! 0) div 16 = 4" and c: "classify_ipv4_packet p = Ok (Flow f)"
  shows "tun_packet_of p f"
proof -
  let ?ihl = "unat (p ! 0 AND 0x0f) * 4" and ?total = "unat (u16_from_be [p ! 2, p ! 3])"
  have l: "20 \<le> length p" using c by (simp add: classify_ipv4_packet_def not_less)
  then have ne: "p \<noteq> []" by auto
  have i: "20 \<le> ?ihl" "?ihl \<le> length p"
    using c l ne by (auto simp: classify_ipv4_packet_def Let_def split: if_splits)
  have t: "?ihl \<le> ?total" "?total \<le> length p"
    using c l ne i by (auto simp: classify_ipv4_packet_def Let_def split: if_splits)
  have fr: "u16_from_be [p ! 6, p ! 7] AND 0x3fff = 0"
    using c l ne i t by (auto simp: classify_ipv4_packet_def Let_def split: if_splits)
  have seg: "classify_transport 4 (p ! 9) (V4 (ipv4_from (take 4 (drop 12 p)))) (V4 (ipv4_from (take 4 (drop 16 p))))
      (take (?total - ?ihl) (drop ?ihl p)) ?ihl = Ok (Flow f)"
    using c l ne i t fr by (simp add: classify_ipv4_packet_def Let_def)
  have h: "ipv4_header (take ?ihl p) (?total - ?ihl) (p ! 9) (V4 (ipv4_from (take 4 (drop 12 p)))) (V4 (ipv4_from (take 4 (drop 16 p))))"
  proof -
    have at: "take k p ! 0 = p ! 0" "take k p ! 2 = p ! 2" "take k p ! 3 = p ! 3" "take k p ! 6 = p ! 6" "take k p ! 7 = p ! 7"
        "take k p ! 9 = p ! 9" "take 4 (drop 12 (take k p)) = take 4 (drop 12 p)" "take 4 (drop 16 (take k p)) = take 4 (drop 16 p)"
      if "20 \<le> k" for k using that by (simp_all add: drop_take min_def)
    have "length (take ?ihl p) = ?ihl" using i by simp
    then show ?thesis
      using ipv4_header_of_bytes [of "take ?ihl p" "?total - ?ihl"] v i(1) t(1) fr unfolding at [OF i(1)]
      by (simp only: nibbles(2) le_add_diff_inverse)
  qed
  have "tf_source f = V4 (ipv4_from (take 4 (drop 12 p)))" "tf_destination f = V4 (ipv4_from (take 4 (drop 16 p)))"
    using seg unfolding classify_transport_iff by blast+
  then show ?thesis
    using seg h i t chunk [of ?ihl p "?total - ?ihl"]
    by (intro tun_packet_ofI [of p "take ?ihl p" "take (?total - ?ihl) (drop ?ihl p)" "drop ?total p" "p ! 9" f 4])
       (simp_all add: ip_header_def)
qed

lemma classify_ipv6_flow:
  assumes v: "unat (p ! 0) div 16 = 6" and c: "classify_ipv6_packet p = Ok (Flow f)"
  shows "tun_packet_of p f"
proof -
  let ?n = "unat (u16_from_be [p ! 4, p ! 5])"
  have l: "40 \<le> length p" using c by (simp add: classify_ipv6_packet_def not_less)
  have t: "40 + ?n \<le> length p"
    using c l by (auto simp: classify_ipv6_packet_def Let_def split: if_splits)
  have seg: "classify_transport 6 (p ! 6) (V6 (ipv6_from (take 16 (drop 8 p)))) (V6 (ipv6_from (take 16 (drop 24 p))))
      (take ?n (drop 40 p)) 40 = Ok (Flow f)"
    using c l t by (simp add: classify_ipv6_packet_def Let_def)
  have h: "ipv6_header (take 40 p) ?n (p ! 6) (V6 (ipv6_from (take 16 (drop 8 p)))) (V6 (ipv6_from (take 16 (drop 24 p))))"
    using ipv6_header_of_bytes [of "take 40 p" ?n] v l t by (simp add: min_def drop_take)
  have sd: "tf_source f = V6 (ipv6_from (take 16 (drop 8 p)))" "tf_destination f = V6 (ipv6_from (take 16 (drop 24 p)))"
    using seg unfolding classify_transport_iff by blast+
  show ?thesis
  proof (intro tun_packet_ofI [of p "take 40 p" "take ?n (drop 40 p)" "drop (40 + ?n) p" "p ! 6" f 6])
    show "p = take 40 p @ take ?n (drop 40 p) @ drop (40 + ?n) p" using chunk [of 40 p ?n] by simp
    have "length (take 40 p) = 40" "length (take ?n (drop 40 p)) = ?n" using l t by simp_all
    then show "ip_header (take 40 p) (length (take ?n (drop 40 p))) (p ! 6) (tf_source f) (tf_destination f)"
      "classify_transport 6 (p ! 6) (tf_source f) (tf_destination f) (take ?n (drop 40 p)) (length (take 40 p)) = Ok (Flow f)"
      using seg h sd by (simp_all only: ip_header_def simp_thms)
  qed
qed

text \<open>C29. A packet read from the TUN device is classified as a flow exactly if it is an unfragmented IPv4 or an IPv6
header, a TCP or a UDP segment of the length the header announces, and possibly bytes behind it; the protocol, the
addresses, the ports and the offset of the data are those of the headers.\<close>

theorem classify_tun_packet_iff: "classify_tun_packet p = Ok (Flow f) \<longleftrightarrow> tun_packet_of p f"
proof
  assume "classify_tun_packet p = Ok (Flow f)"
  then show "tun_packet_of p f"
    by (rule classify_tun_packet_versions) (simp_all add: classify_ipv4_flow classify_ipv6_flow)
next
  assume "tun_packet_of p f"
  then obtain hdr seg trailing protocol v where p: "p = hdr @ seg @ trailing"
    and h: "ip_header hdr (length seg) protocol (tf_source f) (tf_destination f)"
    and t: "classify_transport v protocol (tf_source f) (tf_destination f) seg (length hdr) = Ok (Flow f)"
    unfolding tun_packet_of_iff by blast
  have t': "classify_transport w protocol (tf_source f) (tf_destination f) seg (length hdr) = Ok (Flow f)" for w
    using t unfolding classify_transport_iff .
  from h show "classify_tun_packet p = Ok (Flow f)"
    unfolding ip_header_def
  proof
    assume h: "ipv4_header hdr (length seg) protocol (tf_source f) (tf_destination f)"
    have "hdr \<noteq> []" using ipv4_header_bytes(3) [OF h] by auto
    then show ?thesis
      using classify_version(1) [of p] ipv4_header_bytes(1) [OF h] classify_ipv4_header [OF h, of trailing] t' p by (simp add: nth_append)
  next
    assume h: "ipv6_header hdr (length seg) protocol (tf_source f) (tf_destination f)"
    have "hdr \<noteq> []" using ipv6_header_bytes(2) [OF h] by auto
    then show ?thesis
      using classify_version(2) [of p] ipv6_header_bytes(1) [OF h] classify_ipv6_header [OF h, of trailing] t' p by (simp add: nth_append)
  qed
qed


subsection \<open>What a classification is\<close>

definition ip_version_of :: "IpAddr \<Rightarrow> u8" where
  "ip_version_of a = (case a of V4 _ \<Rightarrow> 4 | V6 _ \<Rightarrow> 6)"

text \<open>The byte of the header that names the transport protocol.\<close>

definition protocol_field :: "bytes \<Rightarrow> u8 option" where
  "protocol_field p =
     (if drop_bit 4 (hd p) = 4 then Some (p ! 9) else if drop_bit 4 (hd p) = 6 then Some (p ! 6) else None)"

text \<open>The values the code promises for a packet: the protocol of a flow is the one its header names, both addresses belong
to the version in the packet's first byte, and the offset of the data lies behind the smallest headers and inside the
packet; a packet that is not a flow is reported with its version, with the protocol its header names unless the version is
unknown, and with the reason that applies.\<close>

fun classification_ok :: "bytes \<Rightarrow> TunPacketClassification result \<Rightarrow> bool" where
  "classification_ok p (Ok (Flow f)) =
     (protocol_field p = Some (case tf_protocol f of Tcp \<Rightarrow> 6 | Udp \<Rightarrow> 17)
      \<and> ip_version_of (tf_source f) = drop_bit 4 (hd p) \<and> ip_version_of (tf_destination f) = drop_bit 4 (hd p)
      \<and> 28 \<le> tf_payload_offset f \<and> tf_payload_offset f \<le> length p)"
| "classification_ok p (Ok (Unsupported v protocol reason)) =
     (v = drop_bit 4 (hd p) \<and> protocol = protocol_field p
      \<and> (if protocol = None then reason = ''unsupported ip version''
         else if v = 4 \<and> u16_from_be [p ! 6, p ! 7] AND 0x3fff \<noteq> 0 then reason = ''fragmented ipv4 packet''
         else protocol \<noteq> Some 6 \<and> protocol \<noteq> Some 17 \<and> reason = ''unsupported transport protocol''))"
| "classification_ok p (Err e) = (\<exists>m. e = MalformedFrame m)"
| "classification_ok p Panic = False"

lemma transport_ok:
  assumes "ip_version_of s = v" "ip_version_of d = v" "v = drop_bit 4 (hd p)" "20 \<le> off" "off + length seg \<le> length p"
    and "protocol_field p = Some protocol" "v = 4 \<Longrightarrow> u16_from_be [p ! 6, p ! 7] AND 0x3fff = 0"
  shows "classification_ok p (classify_transport v protocol s d seg off)"
  using assms by (auto simp: classify_transport_def classify_tcp_def classify_udp_def Let_def fail_if_def)

text \<open>C30. Whatever the packet, its classification is one of the promised values: an error that names the malformed
part; an unsupported packet with its version, the protocol byte of its header, and the reason that applies (an unknown
version, a fragment, or another transport protocol than TCP and UDP); or a flow whose protocol is the one its header names,
whose addresses have the packet's version and whose data begins inside the packet. No packet makes the code read out of
bounds.\<close>

theorem classify_tun_packet_typed: "classification_ok p (classify_tun_packet p)"
proof (cases p)
  case (Cons first rest)
  have v4: "classification_ok p (classify_ipv4_packet p)" if "drop_bit 4 first = 4"
    using that Cons
    by (auto simp: classify_ipv4_packet_def Let_def fail_if_def ip_version_of_def protocol_field_def intro!: transport_ok)
  have v6: "classification_ok p (classify_ipv6_packet p)" if "drop_bit 4 first = 6"
    using that Cons
    by (auto simp: classify_ipv6_packet_def Let_def fail_if_def ip_version_of_def protocol_field_def intro!: transport_ok)
  show ?thesis using v4 v6 Cons by (auto simp: classify_tun_packet_def protocol_field_def Let_def)
qed (simp add: classify_tun_packet_def)

end
