(* ===== verification/Mav_Parse.thy ===== *)
theory Mav_Parse
  imports Mav_Net
begin

text \<open>
  The parsing functions of the standard library the program uses on text: splitting a string, lines and words,
  unsigned integers (\<open>u8::from_str\<close> and its siblings) and addresses (\<open>IpAddr::from_str\<close>). A parser of a part of an
  address takes the remaining text and returns what it read and what is left, or nothing, in which case nothing is
  consumed.
\<close>

subsection \<open>Splitting\<close>

definition split_once :: "u8 \<Rightarrow> bytes \<Rightarrow> (bytes \<times> bytes) option" where
  "split_once c s = (if c \<in> set s then Some (takeWhile (\<lambda>b. b \<noteq> c) s, tl (dropWhile (\<lambda>b. b \<noteq> c) s)) else None)"

definition rsplit_once :: "u8 \<Rightarrow> bytes \<Rightarrow> (bytes \<times> bytes) option" where
  "rsplit_once c s = map_option (\<lambda>(a, b). (rev b, rev a)) (split_once c (rev s))"

text \<open>The first position where a pattern occurs: \<open>windows(n).position(..)\<close>, \<open>str::find\<close>.\<close>

fun find_sub :: "bytes \<Rightarrow> bytes \<Rightarrow> nat option" where
  "find_sub pat [] = (if pat = [] then Some 0 else None)"
| "find_sub pat (b # s) = (if take (length pat) (b # s) = pat then Some 0 else map_option Suc (find_sub pat s))"

definition split_once_str :: "bytes \<Rightarrow> bytes \<Rightarrow> (bytes \<times> bytes) option" where
  "split_once_str pat s = map_option (\<lambda>i. (take i s, drop (i + length pat) s)) (find_sub pat s)"

text \<open>The length of the white space character a text begins with, 0 if there is none: the characters with the
property \<open>White_Space\<close>, in UTF-8.\<close>

definition white_space_len :: "bytes \<Rightarrow> nat" where
  "white_space_len s =
     (if s \<noteq> [] \<and> (9 \<le> s ! 0 \<and> s ! 0 \<le> 13 \<or> s ! 0 = 32) then 1
      else if take 2 s \<in> {[0xC2, 0x85], [0xC2, 0xA0]} then 2
      else if take 3 s \<in> {[0xE1, 0x9A, 0x80], [0xE2, 0x80, 0xA8], [0xE2, 0x80, 0xA9], [0xE2, 0x80, 0xAF], [0xE2, 0x81, 0x9F],
                             [0xE3, 0x80, 0x80]}
              \<or> 3 \<le> length s \<and> take 2 s = [0xE2, 0x80] \<and> 0x80 \<le> s ! 2 \<and> s ! 2 \<le> 0x8A then 3
      else 0)"

text \<open>\<open>split_whitespace\<close>: \<open>word\<close> is the word being read.\<close>

function split_words :: "bytes \<Rightarrow> bytes \<Rightarrow> bytes list" where
  "split_words word s =
     (if s = [] then (if word = [] then [] else [word])
      else if white_space_len s = 0 then split_words (word @ [hd s]) (tl s)
      else (if word = [] then [] else [word]) @ split_words [] (drop (white_space_len s) s))"
  by pat_completeness auto
termination by (relation "measure (\<lambda>(w, s). length s)") auto

declare split_words.simps [simp del]

definition split_whitespace :: "bytes \<Rightarrow> bytes list" where
  "split_whitespace s = split_words [] s"

text \<open>\<open>str::lines().next()\<close>: the text up to the first line feed, without a carriage return before it.\<close>

definition first_line :: "bytes \<Rightarrow> bytes option" where
  "first_line s =
     (if s = [] then None
      else let l = takeWhile (\<lambda>b. b \<noteq> 10) s in
        Some (if 10 \<in> set s \<and> l \<noteq> [] \<and> last l = 13 then butlast l else l))"

subsection \<open>Numbers\<close>

definition is_digit :: "u8 \<Rightarrow> bool" where
  "is_digit b = (48 \<le> b \<and> b \<le> 57)"

definition parse_uint :: "nat \<Rightarrow> bytes \<Rightarrow> nat option" where
  "parse_uint m s =
     (let ds = (case s of [] \<Rightarrow> [] | b # r \<Rightarrow> if b = 43 then r else s) in
      if ds \<noteq> [] \<and> (\<forall>b \<in> set ds. is_digit b) \<and> undec ds \<le> m then Some (undec ds) else None)"

definition parse_u8 :: "bytes \<Rightarrow> u8 option" where
  "parse_u8 s = map_option of_nat (parse_uint 255 s)"

definition parse_u16 :: "bytes \<Rightarrow> u16 option" where
  "parse_u16 s = map_option of_nat (parse_uint 65535 s)"

subsection \<open>Addresses\<close>

definition hex_value :: "u8 \<Rightarrow> nat option" where
  "hex_value b =
     (if 48 \<le> b \<and> b \<le> 57 then Some (unat b - 48)
      else if 97 \<le> b \<and> b \<le> 102 then Some (unat b - 87)
      else if 65 \<le> b \<and> b \<le> 70 then Some (unat b - 55)
      else None)"

definition read_char :: "u8 \<Rightarrow> bytes \<Rightarrow> (unit \<times> bytes) option" where
  "read_char c s = (case s of [] \<Rightarrow> None | b # r \<Rightarrow> if b = c then Some ((), r) else None)"

text \<open>\<open>read_number(10, Some(3), false)\<close> of a byte, and \<open>read_number(16, Some(4), true)\<close> of a 16-bit group.\<close>

definition read_octet :: "bytes \<Rightarrow> (u8 \<times> bytes) option" where
  "read_octet s =
     (let ds = takeWhile is_digit s in
      if ds = [] \<or> 3 < length ds \<or> hd ds = 48 \<and> 1 < length ds \<or> 255 < undec ds then None
      else Some (of_nat (undec ds), drop (length ds) s))"

definition read_hex_group :: "bytes \<Rightarrow> (u16 \<times> bytes) option" where
  "read_hex_group s =
     (let ds = takeWhile (\<lambda>b. hex_value b \<noteq> None) s in
      if ds = [] \<or> 4 < length ds then None
      else Some (of_nat (foldl (\<lambda>n b. n * 16 + the (hex_value b)) 0 ds), drop (length ds) s))"

definition read_separator :: "u8 \<Rightarrow> nat \<Rightarrow> (bytes \<Rightarrow> ('a \<times> bytes) option) \<Rightarrow> bytes \<Rightarrow> ('a \<times> bytes) option" where
  "read_separator sep index inner s =
     (if index = 0 then inner s else Option.bind (read_char sep s) (\<lambda>(_, r). inner r))"

definition read_ipv4_addr :: "bytes \<Rightarrow> (Ipv4Addr \<times> bytes) option" where
  "read_ipv4_addr s =
     Option.bind (read_separator 46 0 read_octet s) (\<lambda>(a, s).
     Option.bind (read_separator 46 1 read_octet s) (\<lambda>(b, s).
     Option.bind (read_separator 46 2 read_octet s) (\<lambda>(c, s).
     Option.bind (read_separator 46 3 read_octet s) (\<lambda>(d, s).
     Some (ipv4_from [a, b, c, d], s)))))"

text \<open>The groups of an IPv6 address: \<open>k\<close> slots are left, \<open>i\<close> groups have been read. An IPv4 address may take the
last two slots.\<close>

fun read_groups :: "nat \<Rightarrow> nat \<Rightarrow> bytes \<Rightarrow> u16 list \<times> bool \<times> bytes" where
  "read_groups 0 i s = ([], False, s)"
| "read_groups (Suc k) i s =
     (case (if 0 < k then read_separator 58 i read_ipv4_addr s else None) of
        Some (a, r) \<Rightarrow> ([u16_from_be (take 2 (ipv4_octets a)), u16_from_be (drop 2 (ipv4_octets a))], True, r)
      | None \<Rightarrow>
          (case read_separator 58 i read_hex_group s of
             None \<Rightarrow> ([], False, s)
           | Some (g, r) \<Rightarrow> (let (gs, v4, r') = read_groups k (i + 1) r in (g # gs, v4, r'))))"

definition ipv6_of_segments :: "u16 list \<Rightarrow> Ipv6Addr" where
  "ipv6_of_segments gs = ipv6_from (concat (map put_u16 gs))"

definition read_ipv6_addr :: "bytes \<Rightarrow> (Ipv6Addr \<times> bytes) option" where
  "read_ipv6_addr s =
     (case read_groups 8 0 s of (front, v4, s) \<Rightarrow>
        if length front = 8 then Some (ipv6_of_segments front, s)
        else if v4 then None
        else
          Option.bind (read_char 58 s) (\<lambda>(_, s).
          Option.bind (read_char 58 s) (\<lambda>(_, s).
          case read_groups (8 - (length front + 1)) 0 s of (back, _, s) \<Rightarrow>
            Some (ipv6_of_segments (front @ replicate (8 - length front - length back) 0 @ back), s))))"

definition parse_with :: "(bytes \<Rightarrow> ('a \<times> bytes) option) \<Rightarrow> bytes \<Rightarrow> 'a option" where
  "parse_with inner s = (case inner s of Some (x, []) \<Rightarrow> Some x | _ \<Rightarrow> None)"

definition parse_ipv4 :: "bytes \<Rightarrow> Ipv4Addr option" where
  "parse_ipv4 s = (if 15 < length s then None else parse_with read_ipv4_addr s)"

definition parse_ipv6 :: "bytes \<Rightarrow> Ipv6Addr option" where
  "parse_ipv6 s = parse_with read_ipv6_addr s"

definition parse_ip :: "bytes \<Rightarrow> IpAddr option" where
  "parse_ip s =
     parse_with (\<lambda>s. case read_ipv4_addr s of
         Some (a, r) \<Rightarrow> Some (V4 a, r)
       | None \<Rightarrow> map_option (\<lambda>(a, r). (V6 a, r)) (read_ipv6_addr s)) s"

subsection \<open>Splitting finds the separator\<close>

lemma split_once_append [simp]: "c \<notin> set a \<Longrightarrow> split_once c (a @ c # b) = Some (a, b)"
  by (simp add: split_once_def takeWhile_tail)
     (metis (mono_tags, lifting) append_Cons append_Nil append_self_conv2 dropWhile.simps(2) dropWhile_append2 list.sel(3) takeWhile_eq_all_conv takeWhile_dropWhile_id)

lemma rsplit_once_append [simp]: "c \<notin> set b \<Longrightarrow> rsplit_once c (a @ c # b) = Some (a, b)"
  by (simp add: rsplit_once_def)

lemma split_once_SomeD: "split_once c s = Some (a, b) \<Longrightarrow> s = a @ c # b \<and> c \<notin> set a"
proof -
  assume s: "split_once c s = Some (a, b)"
  then have "c \<in> set s" by (auto simp: split_once_def split: if_splits)
  then obtain u v where "s = u @ c # v" "c \<notin> set u" by (meson split_list_first)
  then show ?thesis using s by simp
qed

lemma rsplit_once_SomeD: "rsplit_once c s = Some (a, b) \<Longrightarrow> s = a @ c # b \<and> c \<notin> set b"
  by (auto simp: rsplit_once_def dest!: split_once_SomeD) (metis append.assoc append_Cons append_Nil rev.simps(2) rev_append rev_rev_ident)

lemma find_sub_SomeD: "find_sub pat s = Some i \<Longrightarrow> take (length pat) (drop i s) = pat \<and> i + length pat \<le> length s"
proof (induction s arbitrary: i)
  case (Cons b s)
  then show ?case by (auto split: if_splits) (metis length_Cons length_take min.cobounded1 min.commute)+
qed (auto split: if_splits)

lemma find_sub_first: "find_sub pat s = Some i \<Longrightarrow> j < i \<Longrightarrow> take (length pat) (drop j s) \<noteq> pat"
proof (induction s arbitrary: i j)
  case (Cons b s)
  then show ?case by (cases j) (auto split: if_splits)
qed (auto split: if_splits)

lemma find_sub_NoneD: "find_sub pat s = None \<Longrightarrow> take (length pat) (drop j s) \<noteq> pat"
proof (induction s arbitrary: j)
  case (Cons b s)
  then show ?case by (cases j) (auto split: if_splits)
qed (auto split: if_splits)

lemma find_sub_append: "find_sub pat s = Some i \<Longrightarrow> find_sub pat (s @ t) = Some i"
proof (induction s arbitrary: i)
  case Nil
  then have "pat = []" by (simp split: if_splits)
  then show ?case using Nil by (cases t) (auto split: if_splits)
next
  case (Cons b s)
  have "length pat \<le> length (b # s)" using find_sub_SomeD [OF Cons.prems] by simp
  then have "take (length pat) (b # s @ t) = take (length pat) (b # s)" using take_append [of "length pat" "b # s" t] by simp
  then show ?case using Cons by (auto split: if_splits)
qed

subsection \<open>Numbers and IPv4 addresses read back\<close>

lemma is_digit_dec: "b \<in> set (dec n) \<Longrightarrow> is_digit b"
  using dec_digits by (simp add: is_digit_def)

lemma dec_no_plus: "dec n = b # r \<Longrightarrow> b \<noteq> 43"
  using is_digit_dec [of b n] by (auto simp: is_digit_def)

lemma parse_uint_dec [simp]: "n \<le> m \<Longrightarrow> parse_uint m (dec n) = Some n"
proof -
  assume "n \<le> m"
  obtain b r where d: "dec n = b # r" using dec_nonempty [of n] by (cases "dec n") auto
  have "b \<noteq> 43" by (rule dec_no_plus [OF d])
  then show ?thesis
    using \<open>n \<le> m\<close> is_digit_dec [of _ n] undec_dec [of n] unfolding d parse_uint_def Let_def by auto
qed

lemma parse_uint_SomeD: "parse_uint m s = Some n \<Longrightarrow> n \<le> m"
  by (auto simp: parse_uint_def Let_def split: if_splits)

lemma parse_u16_dec [simp]: "parse_u16 (dec (unat p)) = Some p"
  using unat_less_pow [of p] by (simp add: parse_u16_def)

lemma parse_u8_dec [simp]: "parse_u8 (dec (unat p)) = Some p"
  using unat_u8_less [of p] by (simp add: parse_u8_def)

lemma dec_small:
  "n < 10 \<Longrightarrow> dec n = [of_nat (48 + n)]"
  "10 \<le> n \<Longrightarrow> dec n = dec (n div 10) @ [of_nat (48 + n mod 10)]"
  by (subst dec.simps, simp)+

lemma length_dec_octet: "n < 256 \<Longrightarrow> length (dec n) \<le> 3"
proof -
  assume "n < 256"
  then have "length (dec n) \<le> 1" if "n < 10" using that by (simp add: dec_small)
  moreover have "length (dec n) \<le> 2" if "n < 100" for n
    using that by (cases "n < 10") (simp_all add: dec_small)
  ultimately show ?thesis
    using \<open>n < 256\<close> by (cases "n < 100") (force, simp add: dec_small)
qed

lemma dec_no_leading_zero: "hd (dec n) = 48 \<Longrightarrow> n = 0"
proof (induction n rule: less_induct)
  case (less n)
  show ?case
  proof (cases "n < 10")
    case True
    then have "(of_nat (48 + n) :: u8) = of_nat 48" using less.prems by (simp add: dec_small)
    then have "unat (of_nat (48 + n) :: u8) = unat (of_nat 48 :: u8)" by (rule arg_cong)
    then show ?thesis using True by (simp only: unat_of_nat_le(3))
  next
    case False
    then have "hd (dec (n div 10)) = 48" using less.prems by (simp add: dec_small)
    then have "n div 10 = 0" using False by (intro less.IH) simp_all
    then show ?thesis using False by simp
  qed
qed

lemma read_octet_dec:
  assumes "s = [] \<or> \<not> is_digit (hd s)"
  shows "read_octet (dec (unat b) @ s) = Some (b, s)"
proof -
  have t: "takeWhile is_digit (dec (unat b) @ s) = dec (unat b)"
    using assms is_digit_dec by (cases s) (auto simp: takeWhile_append takeWhile_eq_all_conv)
  have "hd (dec (unat b)) = 48 \<Longrightarrow> length (dec (unat b)) = 1"
    using dec_no_leading_zero [of "unat b"] by (simp add: dec_small)
  then show ?thesis
    using length_dec_octet [OF unat_u8_less, of b] unat_u8_less [of b] by (auto simp: read_octet_def t Let_def)
qed

lemma read_octet_dot: "read_octet (dec (unat b) @ 46 # s) = Some (b, 46 # s)"
  by (rule read_octet_dec) (simp add: is_digit_def)

lemma length_4: "length xs = 4 \<Longrightarrow> \<exists>w x y z. xs = [w, x, y, z]"
  by (auto simp: numeral_eq_Suc length_Suc_conv)

lemma read_display_ipv4:
  assumes "s = [] \<or> \<not> is_digit (hd s)"
  shows "read_ipv4_addr (display_ipv4 a @ s) = Some (a, s)"
proof -
  obtain w x y z where o: "ipv4_octets a = [w, x, y, z]" using length_4 [OF length_octets(1)] by blast
  have d: "display_ipv4 a @ s = dec (unat w) @ 46 # dec (unat x) @ 46 # dec (unat y) @ 46 # dec (unat z) @ s"
    by (simp add: display_ipv4_def o ascii_def)
  show ?thesis
    unfolding d read_ipv4_addr_def
    using from_octets(1) [of a] by (simp add: read_separator_def read_char_def read_octet_dot read_octet_dec [OF assms] o)
qed

lemma length_display_ipv4: "length (display_ipv4 a) \<le> 15"
proof -
  obtain w x y z where o: "ipv4_octets a = [w, x, y, z]" using length_4 [OF length_octets(1)] by blast
  show ?thesis
    using length_dec_octet [OF unat_u8_less, of w] length_dec_octet [OF unat_u8_less, of x]
      length_dec_octet [OF unat_u8_less, of y] length_dec_octet [OF unat_u8_less, of z]
    by (simp add: display_ipv4_def o)
qed

lemma parse_display_ipv4 [simp]: "parse_ipv4 (display_ipv4 a) = Some a" "parse_ip (display_ipv4 a) = Some (V4 a)"
  using read_display_ipv4 [of "[]" a] length_display_ipv4 [of a]
  by (simp_all add: parse_ipv4_def parse_ip_def parse_with_def)

end
