(* ===== verification/Tun_Plan.thy ===== *)
theory Tun_Plan
  imports Mav_Error Mav_Parse
begin

text \<open>
  Plans for a TUN device, the first half of \<open>maverick-core/src/tun.rs\<close>, and the report about them
  (\<open>tun_plan_report\<close> of \<open>maverick-cli/src/main.rs\<close>): routes and their validation, the two gates a plan has to pass,
  the actions that apply it and the actions that undo them. The
  main theorems say which plans pass the gates and that the rollback of a plan undoes each of its actions. Nothing in
  the repository executes these actions, so they have no meaning beyond their names here.
\<close>

subsection \<open>Routes and plans\<close>

record TunRoute =
  tr_network :: IpAddr
  tr_prefix_len :: u8

definition max_prefix :: "IpAddr \<Rightarrow> nat" where
  "max_prefix a = (case a of V4 _ \<Rightarrow> 32 | V6 _ \<Rightarrow> 128)"

definition validate_route :: "string \<Rightarrow> TunRoute \<Rightarrow> unit result" where
  "validate_route field r =
     fail_if (unat (tr_prefix_len r) > max_prefix (tr_network r))
       (Config (field @ ''.prefix_len must be no greater than '' @ (case tr_network r of V4 _ \<Rightarrow> ''32'' | V6 _ \<Rightarrow> ''128'')))
       (Ok ())"

definition display_cidr :: "TunRoute \<Rightarrow> bytes" where
  "display_cidr r = display_ip (tr_network r) @ ascii ''/'' @ dec (unat (tr_prefix_len r))"

definition is_default_route :: "TunRoute \<Rightarrow> bool" where
  "is_default_route r = (case tr_network r of V4 a \<Rightarrow> a = 0 \<and> tr_prefix_len r = 0 | V6 a \<Rightarrow> a = 0 \<and> tr_prefix_len r = 0)"

record TunRoutePlan =
  tp_enabled :: bool
  tp_device_name :: bytes
  tp_include_routes :: "TunRoute list"
  tp_exclude_routes :: "TunRoute list"
  tp_dns_servers :: "IpAddr list"

definition disabled_plan :: TunRoutePlan where
  "disabled_plan = \<lparr>tp_enabled = False, tp_device_name = ascii ''maverick0'', tp_include_routes = [], tp_exclude_routes = [],
     tp_dns_servers = []\<rparr>"

definition device_name_byte :: "u8 \<Rightarrow> bool" where
  "device_name_byte b = (48 \<le> b \<and> b \<le> 57 \<or> 65 \<le> b \<and> b \<le> 90 \<or> 97 \<le> b \<and> b \<le> 122 \<or> b = 45 \<or> b = 95)"

definition validate_device_name :: "bytes \<Rightarrow> unit result" where
  "validate_device_name name =
     fail_if (name = [] \<or> length name > 32) (Config ''tun device_name must be 1 to 32 characters'')
       (fail_if (\<not> list_all device_name_byte name)
          (Config (''tun device_name must contain only ASCII letters, digits, '-' or '_'' @ [CHR 0x27]))
          (Ok ()))"

fun for_each :: "('a \<Rightarrow> (unit, 'e) outcome) \<Rightarrow> 'a list \<Rightarrow> (unit, 'e) outcome" where
  "for_each f [] = Ok ()"
| "for_each f (x # xs) = and_then (f x) (\<lambda>_. for_each f xs)"

definition validate_plan :: "TunRoutePlan \<Rightarrow> unit result" where
  "validate_plan p =
     and_then (validate_device_name (tp_device_name p)) (\<lambda>_.
     and_then (for_each (validate_route ''include_routes'') (tp_include_routes p)) (\<lambda>_.
     and_then (for_each (validate_route ''exclude_routes'') (tp_exclude_routes p)) (\<lambda>_.
     fail_if (tp_enabled p \<and> tp_include_routes p = []) (Config ''tun include_routes must not be empty when enabled'')
       (Ok ()))))"

definition dry_run_steps :: "TunRoutePlan \<Rightarrow> bytes list result" where
  "dry_run_steps p =
     and_then (validate_plan p) (\<lambda>_.
       if \<not> tp_enabled p then Ok [ascii ''tun disabled: no system changes planned'']
       else Ok ([ascii ''create tun device '' @ tp_device_name p]
                @ map (\<lambda>r. ascii ''add route '' @ display_cidr r) (tp_include_routes p)
                @ map (\<lambda>r. ascii ''exclude route '' @ display_cidr r) (tp_exclude_routes p)
                @ map (\<lambda>a. ascii ''set dns server '' @ display_ip a) (tp_dns_servers p)
                @ [ascii ''record rollback plan'']))"

subsection \<open>The apply safety gate\<close>

datatype TunApplyBlocker =
    TunDisabled | DryRunRequired | OperatorApprovalRequired | ApprovedHostRequired | UnsupportedPlatform
  | PrivilegesRequired | ProxyVpnConflictCheckRequired | RollbackPlanRequired

record TunApplySafetyContext =
  dry_run_completed :: bool
  operator_approved :: bool
  approved_host :: bool
  platform_supported :: bool
  privileges_confirmed :: bool
  proxy_vpn_conflict_checked :: bool
  rollback_plan_writable :: bool

text \<open>A decision of a gate, with the blockers of that gate.\<close>

record 'b gate_decision =
  gd_allowed :: bool
  gd_blockers :: "'b list"

type_synonym TunApplySafetyDecision = "TunApplyBlocker gate_decision"

definition is_allowed :: "'b gate_decision \<Rightarrow> bool" where
  "is_allowed d = (gd_allowed d \<and> gd_blockers d = [])"

text \<open>\<open>if !ready { blockers.push(b) }\<close> for a list of checks.\<close>

definition missing :: "(bool \<times> 'b) list \<Rightarrow> 'b list" where
  "missing cs = map snd (filter (\<lambda>c. \<not> fst c) cs)"

definition apply_checks :: "TunApplySafetyContext \<Rightarrow> (bool \<times> TunApplyBlocker) list" where
  "apply_checks c =
     [(dry_run_completed c, DryRunRequired), (operator_approved c, OperatorApprovalRequired),
      (approved_host c, ApprovedHostRequired), (platform_supported c, UnsupportedPlatform),
      (privileges_confirmed c, PrivilegesRequired), (proxy_vpn_conflict_checked c, ProxyVpnConflictCheckRequired),
      (rollback_plan_writable c, RollbackPlanRequired)]"

definition evaluate_tun_apply_safety :: "TunRoutePlan \<Rightarrow> TunApplySafetyContext \<Rightarrow> TunApplySafetyDecision result" where
  "evaluate_tun_apply_safety p c =
     and_then (validate_plan p) (\<lambda>_.
       if \<not> tp_enabled p then Ok \<lparr>gd_allowed = False, gd_blockers = [TunDisabled]\<rparr>
       else let blockers = missing (apply_checks c) in Ok \<lparr>gd_allowed = (blockers = []), gd_blockers = blockers\<rparr>)"

subsection \<open>The production policy gate\<close>

record TunProductionPolicy =
  route_exclusions_ready :: bool
  default_route_ready :: bool
  global_dns_ready :: bool
  control_plane_bypass_ready :: bool
  leak_sentry_ready :: bool

definition default_policy :: TunProductionPolicy where
  "default_policy = \<lparr>route_exclusions_ready = False, default_route_ready = False, global_dns_ready = False,
     control_plane_bypass_ready = False, leak_sentry_ready = False\<rparr>"

datatype TunProductionPolicyBlocker =
    RouteExclusionPolicyMissing | DefaultRoutePolicyMissing | GlobalDnsPolicyMissing | ControlPlaneBypassMissing
  | LeakSentryMissing

definition policy_checks :: "TunRoutePlan \<Rightarrow> TunProductionPolicy \<Rightarrow> (bool \<times> TunProductionPolicyBlocker) list" where
  "policy_checks p policy =
     (let default_route_requested = list_ex is_default_route (tp_include_routes p);
          route_exclusions_requested = (tp_exclude_routes p \<noteq> []);
          dns_requested = (tp_dns_servers p \<noteq> [])
      in [(\<not> (route_exclusions_requested \<and> \<not> route_exclusions_ready policy), RouteExclusionPolicyMissing),
          (\<not> (default_route_requested \<and> \<not> default_route_ready policy), DefaultRoutePolicyMissing),
          (\<not> (dns_requested \<and> \<not> global_dns_ready policy), GlobalDnsPolicyMissing),
          (\<not> (default_route_requested \<and> \<not> control_plane_bypass_ready policy), ControlPlaneBypassMissing),
          (\<not> ((default_route_requested \<or> dns_requested) \<and> \<not> leak_sentry_ready policy), LeakSentryMissing)])"

definition evaluate_tun_production_policy ::
  "TunRoutePlan \<Rightarrow> TunProductionPolicy \<Rightarrow> TunProductionPolicyBlocker gate_decision result" where
  "evaluate_tun_production_policy p policy =
     and_then (validate_plan p) (\<lambda>_.
       let blockers = missing (policy_checks p policy) in Ok \<lparr>gd_allowed = (blockers = []), gd_blockers = blockers\<rparr>)"

text \<open>The names \<open>{:?}\<close> prints for the blockers.\<close>

fun debug_apply_blocker :: "TunApplyBlocker \<Rightarrow> string" where
  "debug_apply_blocker TunDisabled = ''TunDisabled''"
| "debug_apply_blocker DryRunRequired = ''DryRunRequired''"
| "debug_apply_blocker OperatorApprovalRequired = ''OperatorApprovalRequired''"
| "debug_apply_blocker ApprovedHostRequired = ''ApprovedHostRequired''"
| "debug_apply_blocker UnsupportedPlatform = ''UnsupportedPlatform''"
| "debug_apply_blocker PrivilegesRequired = ''PrivilegesRequired''"
| "debug_apply_blocker ProxyVpnConflictCheckRequired = ''ProxyVpnConflictCheckRequired''"
| "debug_apply_blocker RollbackPlanRequired = ''RollbackPlanRequired''"

fun debug_policy_blocker :: "TunProductionPolicyBlocker \<Rightarrow> string" where
  "debug_policy_blocker RouteExclusionPolicyMissing = ''RouteExclusionPolicyMissing''"
| "debug_policy_blocker DefaultRoutePolicyMissing = ''DefaultRoutePolicyMissing''"
| "debug_policy_blocker GlobalDnsPolicyMissing = ''GlobalDnsPolicyMissing''"
| "debug_policy_blocker ControlPlaneBypassMissing = ''ControlPlaneBypassMissing''"
| "debug_policy_blocker LeakSentryMissing = ''LeakSentryMissing''"

fun comma_separated :: "string list \<Rightarrow> string" where
  "comma_separated [] = ''''"
| "comma_separated [x] = x"
| "comma_separated (x # y # zs) = x @ '', '' @ comma_separated (y # zs)"

definition debug_list :: "string list \<Rightarrow> string" where
  "debug_list xs = ''['' @ comma_separated xs @ '']''"

subsection \<open>The runtime plan\<close>

datatype TunRuntimeAction =
    RecordRollbackPlan nat
  | CreateTunDevice bytes
  | BringDeviceUp bytes
  | PreserveRoute bytes
  | AddRoute bytes bytes
  | SetDnsServers "bytes list"

datatype TunRuntimeRollbackAction =
    RestoreDnsServers
  | RestoreRoute bytes
  | DeleteRoute bytes bytes
  | DeleteTunDevice bytes

record TunRuntimePlan =
  rp_device_name :: bytes
  rp_apply_actions :: "TunRuntimeAction list"
  rp_rollback_actions :: "TunRuntimeRollbackAction list"

definition rollback_actions :: "TunRoutePlan \<Rightarrow> TunRuntimeRollbackAction list" where
  "rollback_actions p =
     (if tp_dns_servers p \<noteq> [] then [RestoreDnsServers] else [])
     @ map (\<lambda>r. RestoreRoute (display_cidr r)) (rev (tp_exclude_routes p))
     @ map (\<lambda>r. DeleteRoute (display_cidr r) (tp_device_name p)) (rev (tp_include_routes p))
     @ [DeleteTunDevice (tp_device_name p)]"

definition apply_actions :: "TunRoutePlan \<Rightarrow> TunRuntimeAction list" where
  "apply_actions p =
     [RecordRollbackPlan (length (rollback_actions p)), CreateTunDevice (tp_device_name p), BringDeviceUp (tp_device_name p)]
     @ map (\<lambda>r. PreserveRoute (display_cidr r)) (tp_exclude_routes p)
     @ map (\<lambda>r. AddRoute (display_cidr r) (tp_device_name p)) (tp_include_routes p)
     @ (if tp_dns_servers p \<noteq> [] then [SetDnsServers (map display_ip (tp_dns_servers p))] else [])"

definition build_tun_runtime_plan_with_policy ::
  "TunRoutePlan \<Rightarrow> TunApplySafetyContext \<Rightarrow> TunProductionPolicy \<Rightarrow> TunRuntimePlan result" where
  "build_tun_runtime_plan_with_policy p c policy =
     and_then (evaluate_tun_apply_safety p c) (\<lambda>decision.
     fail_if (\<not> is_allowed decision)
       (Config (''tun runtime helper blocked by safety gate: '' @ debug_list (map debug_apply_blocker (gd_blockers decision))))
     (and_then (evaluate_tun_production_policy p policy) (\<lambda>policy_decision.
     fail_if (\<not> is_allowed policy_decision)
       (Config (''tun runtime helper blocked by production policy gate: ''
                @ debug_list (map debug_policy_blocker (gd_blockers policy_decision))))
     (Ok \<lparr>rp_device_name = tp_device_name p, rp_apply_actions = apply_actions p, rp_rollback_actions = rollback_actions p\<rparr>))))"

definition build_tun_runtime_plan :: "TunRoutePlan \<Rightarrow> TunApplySafetyContext \<Rightarrow> TunRuntimePlan result" where
  "build_tun_runtime_plan p c = build_tun_runtime_plan_with_policy p c default_policy"

subsection \<open>Readiness\<close>

datatype TunRuntimeReadinessBlocker =
    RoutePlanModelMissing | ApplySafetyModelMissing | ApprovedVmApplySmokeMissing | ProductionRoutePolicyMissing
  | ReadyDefaultRoutePolicyMissing | PlatformAdapterMissing | ServiceManagerIntegrationMissing
  | ReadyGlobalDnsPolicyMissing | LeakTestsMissing | CoexistenceTestsMissing | RuntimeHelperPlanModelMissing
  | RuntimeHelperPreflightMissing | RuntimeHelperRollbackJournalMissing | RuntimeHelperRecoveryMissing
  | RuntimeHelperNetworkBaselineChecksMissing | RuntimeHelperNamespaceSmokeMissing
  | RuntimeHelperDefaultRouteDnsSmokeMissing | RuntimeHelperMissing

record TunRuntimeReadinessInputs =
  route_plan_model_ready :: bool
  apply_safety_model_ready :: bool
  approved_vm_apply_smoke_ready :: bool
  production_route_policy_ready :: bool
  default_route_policy_ready :: bool
  platform_adapter_ready :: bool
  service_manager_integration_ready :: bool
  global_dns_policy_ready :: bool
  leak_tests_ready :: bool
  coexistence_tests_ready :: bool
  runtime_helper_plan_model_ready :: bool
  runtime_helper_preflight_ready :: bool
  runtime_helper_rollback_journal_ready :: bool
  runtime_helper_recovery_ready :: bool
  runtime_helper_network_baseline_checks_ready :: bool
  runtime_helper_namespace_smoke_ready :: bool
  runtime_helper_default_route_dns_smoke_ready :: bool
  runtime_helper_ready :: bool

text \<open>The snapshot repeats the inputs and adds the verdict.\<close>

record TunRuntimeReadinessSnapshot = TunRuntimeReadinessInputs +
  runtime_ready :: bool
  readiness_blockers :: "TunRuntimeReadinessBlocker list"

definition readiness_checks :: "('a) TunRuntimeReadinessInputs_scheme \<Rightarrow> (bool \<times> TunRuntimeReadinessBlocker) list" where
  "readiness_checks i =
     [(route_plan_model_ready i, RoutePlanModelMissing), (apply_safety_model_ready i, ApplySafetyModelMissing),
      (approved_vm_apply_smoke_ready i, ApprovedVmApplySmokeMissing),
      (production_route_policy_ready i, ProductionRoutePolicyMissing),
      (default_route_policy_ready i, ReadyDefaultRoutePolicyMissing), (platform_adapter_ready i, PlatformAdapterMissing),
      (service_manager_integration_ready i, ServiceManagerIntegrationMissing),
      (global_dns_policy_ready i, ReadyGlobalDnsPolicyMissing), (leak_tests_ready i, LeakTestsMissing),
      (coexistence_tests_ready i, CoexistenceTestsMissing),
      (runtime_helper_plan_model_ready i, RuntimeHelperPlanModelMissing),
      (runtime_helper_preflight_ready i, RuntimeHelperPreflightMissing),
      (runtime_helper_rollback_journal_ready i, RuntimeHelperRollbackJournalMissing),
      (runtime_helper_recovery_ready i, RuntimeHelperRecoveryMissing),
      (runtime_helper_network_baseline_checks_ready i, RuntimeHelperNetworkBaselineChecksMissing),
      (runtime_helper_namespace_smoke_ready i, RuntimeHelperNamespaceSmokeMissing),
      (runtime_helper_default_route_dns_smoke_ready i, RuntimeHelperDefaultRouteDnsSmokeMissing),
      (runtime_helper_ready i, RuntimeHelperMissing)]"

definition snapshot_from_inputs :: "TunRuntimeReadinessInputs \<Rightarrow> TunRuntimeReadinessSnapshot" where
  "snapshot_from_inputs i =
     (let blockers = missing (readiness_checks i) in
      TunRuntimeReadinessInputs.extend i (TunRuntimeReadinessSnapshot.fields (blockers = []) blockers))"

definition current_inputs :: TunRuntimeReadinessInputs where
  "current_inputs = \<lparr>route_plan_model_ready = True, apply_safety_model_ready = True, approved_vm_apply_smoke_ready = True,
     production_route_policy_ready = True, default_route_policy_ready = True, platform_adapter_ready = False,
     service_manager_integration_ready = True, global_dns_policy_ready = True, leak_tests_ready = True,
     coexistence_tests_ready = True, runtime_helper_plan_model_ready = True, runtime_helper_preflight_ready = True,
     runtime_helper_rollback_journal_ready = True, runtime_helper_recovery_ready = True,
     runtime_helper_network_baseline_checks_ready = True, runtime_helper_namespace_smoke_ready = True,
     runtime_helper_default_route_dns_smoke_ready = True, runtime_helper_ready = True\<rparr>"

definition current_snapshot :: TunRuntimeReadinessSnapshot where
  "current_snapshot = snapshot_from_inputs current_inputs"

subsection \<open>What the gates let through\<close>

definition route_ok :: "TunRoute \<Rightarrow> bool" where
  "route_ok r = (unat (tr_prefix_len r) \<le> max_prefix (tr_network r))"

definition plan_ok :: "TunRoutePlan \<Rightarrow> bool" where
  "plan_ok p =
     (tp_device_name p \<noteq> [] \<and> length (tp_device_name p) \<le> 32 \<and> list_all device_name_byte (tp_device_name p)
      \<and> list_all route_ok (tp_include_routes p) \<and> list_all route_ok (tp_exclude_routes p)
      \<and> (tp_enabled p \<longrightarrow> tp_include_routes p \<noteq> []))"

definition context_ok :: "TunApplySafetyContext \<Rightarrow> bool" where
  "context_ok c =
     (dry_run_completed c \<and> operator_approved c \<and> approved_host c \<and> platform_supported c \<and> privileges_confirmed c
      \<and> proxy_vpn_conflict_checked c \<and> rollback_plan_writable c)"

text \<open>What the policy must have ready for a plan: exclusions for excluded routes, a default route policy and a bypass
for the control connection for default routes, a resolver policy for resolvers, and the leak sentry for both.\<close>

definition tun_policy_ok :: "TunRoutePlan \<Rightarrow> TunProductionPolicy \<Rightarrow> bool" where
  "tun_policy_ok p policy =
     ((tp_exclude_routes p \<noteq> [] \<longrightarrow> route_exclusions_ready policy)
      \<and> (list_ex is_default_route (tp_include_routes p) \<longrightarrow> default_route_ready policy \<and> control_plane_bypass_ready policy
          \<and> leak_sentry_ready policy)
      \<and> (tp_dns_servers p \<noteq> [] \<longrightarrow> global_dns_ready policy \<and> leak_sentry_ready policy))"

lemma for_each_Ok: "for_each f xs = Ok () \<longleftrightarrow> list_all (\<lambda>x. f x = Ok ()) xs"
  by (induction xs) (auto simp: and_then_Ok_iff)

lemma validate_route_Ok [simp]: "validate_route field r = Ok () \<longleftrightarrow> route_ok r"
  by (auto simp: validate_route_def route_ok_def)

lemma validate_plan_Ok: "validate_plan p = Ok u \<longleftrightarrow> plan_ok p"
  by (auto simp: validate_plan_def plan_ok_def validate_device_name_def for_each_Ok and_then_Ok_iff)

lemma missing_Nil: "missing cs = [] \<longleftrightarrow> list_all fst cs"
  by (induction cs) (auto simp: missing_def)

lemma apply_checks_ok: "missing (apply_checks c) = [] \<longleftrightarrow> context_ok c"
  by (simp add: missing_Nil apply_checks_def context_ok_def)

lemma policy_checks_ok: "missing (policy_checks p policy) = [] \<longleftrightarrow> tun_policy_ok p policy"
  by (auto simp: missing_Nil policy_checks_def tun_policy_ok_def Let_def)

lemma is_allowed_simp [simp]: "is_allowed \<lparr>gd_allowed = (bs = []), gd_blockers = bs\<rparr> \<longleftrightarrow> bs = []"
  by (simp add: is_allowed_def)

lemma apply_safety_allowed:
  "(\<exists>d. evaluate_tun_apply_safety p c = Ok d \<and> is_allowed d) \<longleftrightarrow> plan_ok p \<and> tp_enabled p \<and> context_ok c"
proof (cases "plan_ok p")
  case True
  then have "validate_plan p = Ok ()" by (simp add: validate_plan_Ok)
  then show ?thesis using True by (auto simp: evaluate_tun_apply_safety_def Let_def is_allowed_def apply_checks_ok)
next
  case False
  then show ?thesis by (auto simp: evaluate_tun_apply_safety_def and_then_Ok_iff validate_plan_Ok)
qed

lemma runtime_plan_Ok_iff:
  "build_tun_runtime_plan_with_policy p c policy = Ok rp \<longleftrightarrow>
     plan_ok p \<and> tp_enabled p \<and> context_ok c \<and> tun_policy_ok p policy
     \<and> rp = \<lparr>rp_device_name = tp_device_name p, rp_apply_actions = apply_actions p, rp_rollback_actions = rollback_actions p\<rparr>"
proof (cases "plan_ok p")
  case True
  then have v: "validate_plan p = Ok ()" by (simp add: validate_plan_Ok)
  show ?thesis
  proof (cases "tp_enabled p")
    case True
    then show ?thesis
      using \<open>plan_ok p\<close>
      by (auto simp: build_tun_runtime_plan_with_policy_def evaluate_tun_apply_safety_def evaluate_tun_production_policy_def v
          Let_def is_allowed_def apply_checks_ok policy_checks_ok)
  next
    case False
    then show ?thesis
      by (simp add: build_tun_runtime_plan_with_policy_def evaluate_tun_apply_safety_def v is_allowed_def)
  qed
next
  case False
  then show ?thesis
    by (auto simp: build_tun_runtime_plan_with_policy_def evaluate_tun_apply_safety_def and_then_Ok_iff validate_plan_Ok)
qed

text \<open>C34. A runtime plan is produced exactly for a valid, enabled plan in a context where every precondition has been
confirmed and with a policy that is ready for all the plan asks for; it is then the plan's actions and their rollback.\<close>

theorem runtime_plan_iff:
  "build_tun_runtime_plan_with_policy p c policy = Ok rp \<longleftrightarrow>
     plan_ok p \<and> tp_enabled p \<and> context_ok c \<and> tun_policy_ok p policy
     \<and> rp = \<lparr>rp_device_name = tp_device_name p, rp_apply_actions = apply_actions p, rp_rollback_actions = rollback_actions p\<rparr>"
  by (rule runtime_plan_Ok_iff)

lemma snapshot_ready_iff: "runtime_ready (snapshot_from_inputs i) \<longleftrightarrow> list_all fst (readiness_checks i)"
  by (simp add: snapshot_from_inputs_def Let_def TunRuntimeReadinessInputs.extend_def TunRuntimeReadinessSnapshot.fields_def missing_Nil)

lemma current_snapshot_blocked:
  "\<not> runtime_ready current_snapshot" "readiness_blockers current_snapshot = [PlatformAdapterMissing]"
  by (simp_all add: current_snapshot_def current_inputs_def snapshot_from_inputs_def Let_def readiness_checks_def missing_def
      TunRuntimeReadinessInputs.extend_def TunRuntimeReadinessSnapshot.fields_def)

subsection \<open>Rolling back\<close>

text \<open>What undoes an action, and the stage of the rollback it belongs to: the resolvers first, then the excluded
prefixes, then the routes into the tunnel, and the device last.\<close>

fun undoes :: "TunRuntimeAction \<Rightarrow> TunRuntimeRollbackAction option" where
  "undoes (RecordRollbackPlan n) = None"
| "undoes (CreateTunDevice d) = Some (DeleteTunDevice d)"
| "undoes (BringDeviceUp d) = None"
| "undoes (PreserveRoute c) = Some (RestoreRoute c)"
| "undoes (AddRoute c d) = Some (DeleteRoute c d)"
| "undoes (SetDnsServers s) = Some RestoreDnsServers"

fun rollback_stage :: "TunRuntimeRollbackAction \<Rightarrow> nat" where
  "rollback_stage RestoreDnsServers = 0"
| "rollback_stage (RestoreRoute c) = 1"
| "rollback_stage (DeleteRoute c d) = 2"
| "rollback_stage (DeleteTunDevice d) = 3"

lemma map_filter_append: "List.map_filter f (xs @ ys) = List.map_filter f xs @ List.map_filter f ys"
  by (simp add: List.map_filter_def)

lemma undoes_apply_actions:
  "rev (List.map_filter undoes (apply_actions p)) =
     (if tp_dns_servers p \<noteq> [] then [RestoreDnsServers] else [])
     @ map (\<lambda>r. DeleteRoute (display_cidr r) (tp_device_name p)) (rev (tp_include_routes p))
     @ map (\<lambda>r. RestoreRoute (display_cidr r)) (rev (tp_exclude_routes p))
     @ [DeleteTunDevice (tp_device_name p)]"
proof -
  have "List.map_filter undoes (map (\<lambda>r. PreserveRoute (display_cidr r)) rs) = map (\<lambda>r. RestoreRoute (display_cidr r)) rs"
    "List.map_filter undoes (map (\<lambda>r. AddRoute (display_cidr r) d) rs) = map (\<lambda>r. DeleteRoute (display_cidr r) d) rs" for rs d
    by (induction rs) (simp_all add: map_filter_simps)
  then show ?thesis by (simp add: apply_actions_def map_filter_append map_filter_simps rev_map)
qed

lemma rollback_actions_staged: "sort_key rollback_stage (rev (List.map_filter undoes (apply_actions p))) = rollback_actions p"
proof (rule properties_for_sort_key)
  show "mset (rollback_actions p) = mset (rev (List.map_filter undoes (apply_actions p)))"
    unfolding undoes_apply_actions rollback_actions_def by simp
  show "sorted (map rollback_stage (rollback_actions p))"
    by (auto simp: rollback_actions_def sorted_append comp_def map_replicate_const sorted_map)
  show "filter (\<lambda>x. rollback_stage a = rollback_stage x) (rollback_actions p)
      = filter (\<lambda>x. rollback_stage a = rollback_stage x) (rev (List.map_filter undoes (apply_actions p)))" for a
    unfolding undoes_apply_actions rollback_actions_def
    by (cases a) (simp_all add: filter_map comp_def)
qed

text \<open>C31. The rollback mirrors the plan: it undoes each action of the plan that has something to undo exactly once and
nothing else, stage by stage (resolvers, excluded prefixes, routes into the tunnel, device) and within a stage in the
reverse of the order in which the plan applies them. The first action records how many there are, and it is the device of
the plan that every action names.\<close>

theorem rollback_mirrors_apply:
  assumes "build_tun_runtime_plan_with_policy p c policy = Ok rp"
  shows "rp_rollback_actions rp = sort_key rollback_stage (rev (List.map_filter undoes (rp_apply_actions rp)))
     \<and> (\<exists>as. rp_apply_actions rp = [RecordRollbackPlan (length (rp_rollback_actions rp)),
            CreateTunDevice (rp_device_name rp), BringDeviceUp (rp_device_name rp)] @ as
          \<and> (\<forall>a \<in> set as. \<forall>cidr d. a \<noteq> CreateTunDevice d \<and> (a = AddRoute cidr d \<longrightarrow> d = rp_device_name rp)))
     \<and> last (rp_rollback_actions rp) = DeleteTunDevice (rp_device_name rp)"
proof -
  have rp: "rp_device_name rp = tp_device_name p" "rp_apply_actions rp = apply_actions p" "rp_rollback_actions rp = rollback_actions p"
    using assms by (simp_all add: runtime_plan_Ok_iff)
  have "\<exists>as. apply_actions p = [RecordRollbackPlan (length (rollback_actions p)), CreateTunDevice (tp_device_name p),
        BringDeviceUp (tp_device_name p)] @ as
      \<and> (\<forall>a \<in> set as. \<forall>cidr d. a \<noteq> CreateTunDevice d \<and> (a = AddRoute cidr d \<longrightarrow> d = tp_device_name p))"
    by (auto simp: apply_actions_def)
  then show ?thesis unfolding rp by (simp add: rollback_actions_staged) (simp add: rollback_actions_def)
qed

definition sample_route :: TunRoute where
  "sample_route = \<lparr>tr_network = V4 0xC0000200, tr_prefix_len = 24\<rparr>"

definition sample_plan :: TunRoutePlan where
  "sample_plan = \<lparr>tp_enabled = True, tp_device_name = ascii ''tun0'', tp_include_routes = [sample_route],
     tp_exclude_routes = [\<lparr>tr_network = V4 0x0A000000, tr_prefix_len = 8\<rparr>], tp_dns_servers = [V4 0x01010101]\<rparr>"

definition sample_context :: TunApplySafetyContext where
  "sample_context = \<lparr>dry_run_completed = True, operator_approved = True, approved_host = True, platform_supported = True,
     privileges_confirmed = True, proxy_vpn_conflict_checked = True, rollback_plan_writable = True\<rparr>"

definition sample_policy :: TunProductionPolicy where
  "sample_policy = \<lparr>route_exclusions_ready = True, default_route_ready = True, global_dns_ready = True,
     control_plane_bypass_ready = True, leak_sentry_ready = True\<rparr>"

definition sample_runtime_plan :: TunRuntimePlan where
  "sample_runtime_plan = \<lparr>rp_device_name = tp_device_name sample_plan, rp_apply_actions = apply_actions sample_plan,
     rp_rollback_actions = rollback_actions sample_plan\<rparr>"

lemma sample_plan_ok: "plan_ok sample_plan"
  by code_simp

lemma sample_runtime_plan_built:
  "build_tun_runtime_plan_with_policy sample_plan sample_context sample_policy = Ok sample_runtime_plan"
  using sample_plan_ok
  by (simp add: runtime_plan_Ok_iff sample_runtime_plan_def)
     (simp add: sample_plan_def sample_context_def sample_policy_def context_ok_def tun_policy_ok_def)

theorem rollback_mirrors_apply_witness:
  "rp_rollback_actions sample_runtime_plan
     = sort_key rollback_stage (rev (List.map_filter undoes (rp_apply_actions sample_runtime_plan)))
   \<and> rp_rollback_actions sample_runtime_plan
     = [RestoreDnsServers, RestoreRoute (display_cidr \<lparr>tr_network = V4 0x0A000000, tr_prefix_len = 8\<rparr>),
        DeleteRoute (display_cidr sample_route) (ascii ''tun0''), DeleteTunDevice (ascii ''tun0'')]"
  using rollback_mirrors_apply [OF sample_runtime_plan_built]
  by (simp add: sample_runtime_plan_def rollback_actions_def sample_plan_def)

subsection \<open>A route that covers everything and is not a default route\<close>

definition ipv4_covers :: "Ipv4Addr \<Rightarrow> u8 \<Rightarrow> Ipv4Addr \<Rightarrow> bool" where
  "ipv4_covers network prefix_len a = (drop_bit (32 - unat prefix_len) network = drop_bit (32 - unat prefix_len) a)"

text \<open>The policy for default routes, the bypass of the control connection and the leak sentry are demanded only for
the prefixes \<open>0.0.0.0/0\<close> and \<open>::/0\<close>. A prefix of length 0 with any other address, such as \<open>10.0.0.0/0\<close>, is a valid route that
covers every IPv4 address, and a plan with it passes the gate under the default policy, where nothing is ready.\<close>

theorem default_route_policy_evaded:
  assumes "validate_device_name d = Ok ()" "n \<noteq> 0" "context_ok c"
  shows "let r = \<lparr>tr_network = V4 n, tr_prefix_len = 0\<rparr>;
             p = \<lparr>tp_enabled = True, tp_device_name = d, tp_include_routes = [r], tp_exclude_routes = [], tp_dns_servers = []\<rparr>
         in (\<forall>a. ipv4_covers n (tr_prefix_len r) a)
            \<and> build_tun_runtime_plan p c = Ok \<lparr>rp_device_name = d, rp_apply_actions = apply_actions p,
                 rp_rollback_actions = rollback_actions p\<rparr>"
  using assms
  by (auto simp: Let_def ipv4_covers_def build_tun_runtime_plan_def runtime_plan_Ok_iff plan_ok_def tun_policy_ok_def route_ok_def
      is_default_route_def validate_device_name_def)

theorem default_route_policy_evaded_witness:
  "let r = \<lparr>tr_network = V4 0x0A000000, tr_prefix_len = 0\<rparr>;
       p = \<lparr>tp_enabled = True, tp_device_name = ascii ''tun0'', tp_include_routes = [r], tp_exclude_routes = [],
             tp_dns_servers = []\<rparr>
   in (\<forall>a. ipv4_covers 0x0A000000 (tr_prefix_len r) a)
      \<and> build_tun_runtime_plan p sample_context = Ok \<lparr>rp_device_name = ascii ''tun0'', rp_apply_actions = apply_actions p,
           rp_rollback_actions = rollback_actions p\<rparr>"
proof (rule default_route_policy_evaded)
  show "validate_device_name (ascii ''tun0'') = Ok ()" by code_simp
qed (simp_all add: sample_context_def context_ok_def)

end
