(* ===== verification/Mav_Syscalls.thy ===== *)
theory Mav_Syscalls
  imports Mav_Error Mav_Parse
begin

text \<open>
  Programs that run other programs and touch files. A program is a function of the log of its system calls so far; an
  environment answers each call, and may answer anything, depending on all that happened before. What a program did is
  what it adds to the log, so that a statement about every environment is a statement about every behaviour of the
  machine. Errors are those of the \<open>anyhow\<close> crate: a message, an error of the core crate, or a context around another.
\<close>

datatype syscall =
    Run bytes "bytes list"
  | ReadFile bytes
  | CreateNew bytes
  | WriteFile bytes bytes
  | RemoveFile bytes
  | ParentIsDir bytes
  | Exists bytes
  | IsFile bytes
  | SymlinkMetadata bytes

text \<open>The text a finished command printed, its exit with an error and what it printed there, or that it could not be
started; the content of a file; success and failure of other calls; the facts asked for. A path may have no parent.\<close>

datatype answer =
    Stdout bytes
  | Exit bytes
  | SpawnError
  | Content bytes
  | Done
  | IoError
  | Flag bool
  | Parent "bool option"
  | Meta bool bool nat nat

type_synonym log = "(syscall \<times> answer) list"
type_synonym environment = "log \<Rightarrow> syscall \<Rightarrow> answer"

datatype anyhow = Bail bytes | Core error | IoFailure | Context bytes anyhow

type_synonym 'a any = "('a, anyhow) outcome"
type_synonym 'a prog = "log \<Rightarrow> 'a any \<times> log"

definition call :: "environment \<Rightarrow> syscall \<Rightarrow> log \<Rightarrow> answer \<times> log" where
  "call env c l = (let a = env l c in (a, l @ [(c, a)]))"

definition pure :: "'a any \<Rightarrow> 'a prog" where
  "pure r l = (r, l)"

definition bind_prog :: "'a prog \<Rightarrow> ('a \<Rightarrow> 'b prog) \<Rightarrow> 'b prog" where
  "bind_prog p f l =
     (case p l of (Ok x, l') \<Rightarrow> f x l' | (Err e, l') \<Rightarrow> (Err e, l') | (Panic, l') \<Rightarrow> (Panic, l'))"

definition with_context :: "bytes \<Rightarrow> 'a prog \<Rightarrow> 'a prog" where
  "with_context c p l = (case p l of (r, l') \<Rightarrow> (map_err (Context c) r, l'))"

definition ensure :: "bool \<Rightarrow> bytes \<Rightarrow> unit any" where
  "ensure b m = (if b then Ok () else Err (Bail m))"

definition from_core :: "'a result \<Rightarrow> 'a any" where
  "from_core r = map_err Core r"

text \<open>\<open>anyhow\<close> displays the outermost message. What other libraries add to the texts of \<open>Yaml\<close> and \<open>Io\<close> is left out.\<close>

fun display_core :: "error \<Rightarrow> bytes" where
  "display_core (Config m) = ascii ''configuration error: '' @ ascii m"
| "display_core InvalidSecret = ascii ''invalid high-entropy secret''"
| "display_core (FrameTooLarge len m) = ascii ''frame length '' @ dec len @ ascii '' exceeds maximum '' @ dec m"
| "display_core (UnknownFrameType b) = ascii ''unknown frame type: 0x'' @ [hex_digit (unat b div 16), hex_digit (unat b mod 16)]"
| "display_core (MalformedFrame m) = ascii ''malformed frame: '' @ ascii m"
| "display_core Auth = ascii ''authentication failed''"
| "display_core (Noise m) = ascii ''noise runtime error: '' @ ascii m"
| "display_core (Replay m) = ascii ''replay rejected: '' @ ascii m"
| "display_core (Random m) = ascii ''random generator failed: '' @ ascii m"
| "display_core Yaml = ascii ''yaml parse error: ''"
| "display_core Io = ascii ''io error: ''"

fun display_anyhow :: "anyhow \<Rightarrow> bytes" where
  "display_anyhow (Bail m) = m"
| "display_anyhow (Core e) = display_core e"
| "display_anyhow IoFailure = ascii ''io error''"
| "display_anyhow (Context c e) = c"

subsection \<open>Text\<close>

function trim_end :: "bytes \<Rightarrow> bytes" where
  "trim_end s =
     (if s = [] then []
      else if white_space_len (drop (length s - 1) s) = 1 then trim_end (take (length s - 1) s)
      else if 2 \<le> length s \<and> white_space_len (drop (length s - 2) s) = 2 then trim_end (take (length s - 2) s)
      else if 3 \<le> length s \<and> white_space_len (drop (length s - 3) s) = 3 then trim_end (take (length s - 3) s)
      else s)"
  by pat_completeness auto
termination by (relation "measure length") auto

declare trim_end.simps [simp del]

function trim_start :: "bytes \<Rightarrow> bytes" where
  "trim_start s = (if s = [] \<or> white_space_len s = 0 then s else trim_start (drop (white_space_len s) s))"
  by pat_completeness auto
termination by (relation "measure length") auto

declare trim_start.simps [simp del]

definition trim :: "bytes \<Rightarrow> bytes" where
  "trim s = trim_end (trim_start s)"

definition contains :: "bytes \<Rightarrow> bytes \<Rightarrow> bool" where
  "contains s pat = (find_sub pat s \<noteq> None)"

subsection \<open>Commands and files\<close>

definition command_success :: "environment \<Rightarrow> bytes \<Rightarrow> bytes list \<Rightarrow> log \<Rightarrow> bool \<times> log" where
  "command_success env program args l =
     (case call env (Run program args) l of (a, l') \<Rightarrow> ((case a of Stdout _ \<Rightarrow> True | _ \<Rightarrow> False), l'))"

definition command_stdout :: "environment \<Rightarrow> bytes \<Rightarrow> bytes list \<Rightarrow> bytes prog" where
  "command_stdout env program args l =
     (case call env (Run program args) l of (a, l') \<Rightarrow>
       (case a of
          Stdout t \<Rightarrow> Ok (trim t)
        | Exit t \<Rightarrow> Err (Bail (program @ ascii '' failed: '' @ trim t))
        | _ \<Rightarrow> Err (Context (ascii ''run '' @ program) IoFailure), l'))"

definition run_checked :: "environment \<Rightarrow> bytes \<Rightarrow> bytes list \<Rightarrow> unit prog" where
  "run_checked env program args = bind_prog (command_stdout env program args) (\<lambda>_. pure (Ok ()))"

definition read_bytes :: "environment \<Rightarrow> bytes \<Rightarrow> bytes prog" where
  "read_bytes env path l =
     (case call env (ReadFile path) l of (a, l') \<Rightarrow> ((case a of Content t \<Rightarrow> Ok t | _ \<Rightarrow> Err IoFailure), l'))"

definition read_to_string :: "environment \<Rightarrow> bytes \<Rightarrow> bytes prog" where
  "read_to_string env path =
     bind_prog (read_bytes env path) (\<lambda>t. pure (if utf8_valid t then Ok t else Err IoFailure))"

definition unit_call :: "environment \<Rightarrow> syscall \<Rightarrow> unit prog" where
  "unit_call env c l = (case call env c l of (a, l') \<Rightarrow> ((case a of Done \<Rightarrow> Ok () | _ \<Rightarrow> Err IoFailure), l'))"

definition ask :: "environment \<Rightarrow> syscall \<Rightarrow> log \<Rightarrow> bool \<times> log" where
  "ask env c l = (case call env c l of (a, l') \<Rightarrow> ((case a of Flag b \<Rightarrow> b | _ \<Rightarrow> False), l'))"

definition parent_dir :: "environment \<Rightarrow> bytes \<Rightarrow> log \<Rightarrow> bool option \<times> log" where
  "parent_dir env path l = (case call env (ParentIsDir path) l of (a, l') \<Rightarrow> ((case a of Parent p \<Rightarrow> p | _ \<Rightarrow> None), l'))"

subsection \<open>Monitors\<close>

text \<open>A monitor watches the log and rejects a call that must not happen. \<open>watched m s p Q\<close> says that the monitor, in state
\<open>s\<close> when \<open>p\<close> starts, accepts all that \<open>p\<close> does, in every environment, and that the result and the monitor's state then
satisfy \<open>Q\<close>. The rules below follow the shape of a program.\<close>

type_synonym 's monitor = "'s \<Rightarrow> syscall \<times> answer \<Rightarrow> 's option"

fun watch :: "'s monitor \<Rightarrow> 's \<Rightarrow> log \<Rightarrow> 's option" where
  "watch m s [] = Some s"
| "watch m s (x # xs) = Option.bind (m s x) (\<lambda>s'. watch m s' xs)"

definition watched :: "'s monitor \<Rightarrow> 's \<Rightarrow> (log \<Rightarrow> 'r \<times> log) \<Rightarrow> ('r \<Rightarrow> 's \<Rightarrow> bool) \<Rightarrow> bool" where
  "watched m s p Q = (\<forall>l. \<exists>new s'. snd (p l) = l @ new \<and> watch m s new = Some s' \<and> Q (fst (p l)) s')"

lemma watch_append [simp]: "watch m s (xs @ ys) = Option.bind (watch m s xs) (\<lambda>s'. watch m s' ys)"
  by (induction xs arbitrary: s) (auto split: option.splits bind_split)

lemma watchedD:
  assumes "watched m s p Q"
  obtains r s' new where "p l = (r, l @ new)" "watch m s new = Some s'" "Q r s'"
  using assms unfolding watched_def by (metis prod.collapse)

lemma watchedI:
  assumes "\<And>l. \<exists>r new s'. p l = (r, l @ new) \<and> watch m s new = Some s' \<and> Q r s'"
  shows "watched m s p Q"
  unfolding watched_def using assms by (metis fst_conv snd_conv)

lemma watched_mono: "watched m s p Q \<Longrightarrow> (\<And>r s'. Q r s' \<Longrightarrow> R r s') \<Longrightarrow> watched m s p R"
  unfolding watched_def by blast

lemma watched_pure [simp]: "watched m s (pure r) Q \<longleftrightarrow> Q r s"
  by (simp add: watched_def pure_def)

lemma watched_call:
  assumes "\<And>a. \<exists>s'. m s (c, a) = Some s' \<and> Q a s'"
  shows "watched m s (call env c) Q"
  unfolding watched_def call_def Let_def
proof
  fix l
  from assms obtain s' where "m s (c, env l c) = Some s'" "Q (env l c) s'" by blast
  then show "\<exists>new s'. snd (env l c, l @ [(c, env l c)]) = l @ new \<and> watch m s new = Some s' \<and> Q (fst (env l c, l @ [(c, env l c)])) s'"
    by (intro exI [of _ "[(c, env l c)]"] exI [of _ s']) simp
qed

lemma watched_seq:
  assumes "watched m s p Q" "\<And>x s'. Q x s' \<Longrightarrow> watched m s' (f x) R"
  shows "watched m s (\<lambda>l. case p l of (x, l') \<Rightarrow> f x l') R"
proof (rule watchedI)
  fix l
  obtain x s' new where p: "p l = (x, l @ new)" "watch m s new = Some s'" "Q x s'" using watchedD [OF assms(1)] .
  obtain y s'' new' where f: "f x (l @ new) = (y, (l @ new) @ new')" "watch m s' new' = Some s''" "R y s''"
    using watchedD [OF assms(2) [OF p(3)]] .
  show "\<exists>r n t. (case p l of (x, l') \<Rightarrow> f x l') = (r, l @ n) \<and> watch m s n = Some t \<and> R r t"
    using p f by (intro exI [of _ y] exI [of _ "new @ new'"] exI [of _ s'']) simp
qed

lemma watched_map:
  assumes "watched m s p (\<lambda>r. Q (f r))"
  shows "watched m s (\<lambda>l. case p l of (x, l') \<Rightarrow> (f x, l')) Q"
  by (rule watched_seq [OF assms, where f = "\<lambda>x l. (f x, l)"]) (simp add: watched_def)

lemma watched_bind:
  assumes "watched m s p (\<lambda>r s'. case r of Ok x \<Rightarrow> watched m s' (f x) Q | Err e \<Rightarrow> Q (Err e) s' | Panic \<Rightarrow> Q Panic s')"
  shows "watched m s (bind_prog p f) Q"
proof -
  have b: "bind_prog p f = (\<lambda>l. case p l of (r, l') \<Rightarrow> (case r of Ok x \<Rightarrow> f x | Err e \<Rightarrow> pure (Err e) | Panic \<Rightarrow> pure Panic) l')"
    by (simp add: bind_prog_def pure_def fun_eq_iff split: prod.splits outcome.splits)
  show ?thesis
    unfolding b by (rule watched_seq [OF assms]) (auto split: outcome.splits)
qed

lemma watched_bindI:
  assumes "watched m s p Q" "\<And>x s'. Q (Ok x) s' \<Longrightarrow> watched m s' (f x) R" "\<And>e s'. Q (Err e) s' \<Longrightarrow> R (Err e) s'"
    "\<And>s'. Q Panic s' \<Longrightarrow> R Panic s'"
  shows "watched m s (bind_prog p f) R"
  by (rule watched_bind, rule watched_mono [OF assms(1)]) (use assms(2-4) in \<open>auto split: outcome.splits\<close>)

lemma watched_pure_bind:
  assumes "\<And>x. r = Ok x \<Longrightarrow> watched m s (f x) R" "\<And>e. r = Err e \<Longrightarrow> R (Err e) s" "r = Panic \<Longrightarrow> R Panic s"
  shows "watched m s (bind_prog (pure r) f) R"
  by (rule watched_bind) (use assms in \<open>cases r; simp\<close>)

lemma ensure_simps [simp]:
  "ensure b m = Ok u \<longleftrightarrow> b" "ensure b m = Err e \<longleftrightarrow> \<not> b \<and> e = Bail m" "ensure b m \<noteq> Panic"
  by (auto simp: ensure_def)

lemma map_err_iff [simp]:
  "map_err f r = Ok x \<longleftrightarrow> r = Ok x" "map_err f r = Err e \<longleftrightarrow> (\<exists>d. r = Err d \<and> e = f d)" "map_err f r = Panic \<longleftrightarrow> r = Panic"
  by (cases r; auto)+

lemma watched_context: "watched m s p (\<lambda>r. Q (map_err (Context c) r)) \<Longrightarrow> watched m s (with_context c p) Q"
  using watched_map [of m s p Q "map_err (Context c)"] by (simp add: with_context_def [abs_def])

text \<open>A command, a file that is read, a call without a result.\<close>

lemma watched_command_success:
  assumes "\<And>a. \<exists>s'. m s (Run program args, a) = Some s' \<and> Q (case a of Stdout _ \<Rightarrow> True | _ \<Rightarrow> False) s'"
  shows "watched m s (command_success env program args) Q"
  using watched_map [OF watched_call, of m s "Run program args" Q _ env] assms by (simp add: command_success_def [abs_def])

lemma watched_command_stdout:
  assumes "\<And>t. \<exists>s'. m s (Run program args, Stdout t) = Some s' \<and> Q (Ok (trim t)) s'"
    and "\<And>a. (\<And>t. a \<noteq> Stdout t) \<Longrightarrow> \<exists>s'. m s (Run program args, a) = Some s' \<and> (\<forall>e. Q (Err e) s')"
  shows "watched m s (command_stdout env program args) Q"
proof -
  define g where "g = (\<lambda>a. case a of Stdout t \<Rightarrow> Ok (trim t) | Exit t \<Rightarrow> Err (Bail (program @ ascii '' failed: '' @ trim t))
        | _ \<Rightarrow> Err (Context (ascii ''run '' @ program) IoFailure))"
  have "\<exists>s'. m s (Run program args, a) = Some s' \<and> Q (g a) s'" for a
    using assms(1) assms(2) [of a] by (cases a) (auto simp: g_def)
  then show ?thesis
    using watched_map [OF watched_call, of m s "Run program args" Q g env] by (simp add: command_stdout_def [abs_def] g_def)
qed

lemma watched_run_checked:
  assumes "\<And>t. \<exists>s'. m s (Run program args, Stdout t) = Some s' \<and> Q (Ok ()) s'"
    and "\<And>a. (\<And>t. a \<noteq> Stdout t) \<Longrightarrow> \<exists>s'. m s (Run program args, a) = Some s' \<and> (\<forall>e. Q (Err e) s')"
  shows "watched m s (run_checked env program args) Q"
  unfolding run_checked_def
  by (rule watched_bind, rule watched_command_stdout) (use assms in auto)

lemma watched_read_bytes:
  assumes "\<And>t. \<exists>s'. m s (ReadFile path, Content t) = Some s' \<and> Q (Ok t) s'"
    and "\<And>a. (\<And>t. a \<noteq> Content t) \<Longrightarrow> \<exists>s'. m s (ReadFile path, a) = Some s' \<and> (\<forall>e. Q (Err e) s')"
  shows "watched m s (read_bytes env path) Q"
proof -
  define g where "g = (\<lambda>a. case a of Content t \<Rightarrow> Ok t | _ \<Rightarrow> Err IoFailure)"
  have "\<exists>s'. m s (ReadFile path, a) = Some s' \<and> Q (g a) s'" for a
    using assms(1) assms(2) [of a] by (cases a) (auto simp: g_def)
  then show ?thesis
    using watched_map [OF watched_call, of m s "ReadFile path" Q g env] by (simp add: read_bytes_def [abs_def] g_def)
qed

lemma watched_read_to_string:
  assumes "\<And>t. utf8_valid t \<Longrightarrow> \<exists>s'. m s (ReadFile path, Content t) = Some s' \<and> Q (Ok t) s'"
    and "\<And>t. \<not> utf8_valid t \<Longrightarrow> \<exists>s'. m s (ReadFile path, Content t) = Some s' \<and> (\<forall>e. Q (Err e) s')"
    and "\<And>a. (\<And>t. a \<noteq> Content t) \<Longrightarrow> \<exists>s'. m s (ReadFile path, a) = Some s' \<and> (\<forall>e. Q (Err e) s')"
  shows "watched m s (read_to_string env path) Q"
  unfolding read_to_string_def
proof (rule watched_bind, rule watched_read_bytes)
  fix t
  show "\<exists>s'. m s (ReadFile path, Content t) = Some s' \<and>
      (case Ok t of Ok x \<Rightarrow> watched m s' (pure (if utf8_valid x then Ok x else Err IoFailure)) Q | Err e \<Rightarrow> Q (Err e) s' | Panic \<Rightarrow> Q Panic s')"
    using assms(1,2) [of t] by (cases "utf8_valid t") auto
qed (use assms(3) in auto)

lemma watched_unit_call:
  assumes "\<exists>s'. m s (c, Done) = Some s' \<and> Q (Ok ()) s'"
    and "\<And>a. a \<noteq> Done \<Longrightarrow> \<exists>s'. m s (c, a) = Some s' \<and> (\<forall>e. Q (Err e) s')"
  shows "watched m s (unit_call env c) Q"
proof -
  define g where "g = (\<lambda>a. case a of Done \<Rightarrow> Ok () | _ \<Rightarrow> Err IoFailure)"
  have "\<exists>s'. m s (c, a) = Some s' \<and> Q (g a) s'" for a
    using assms(1) assms(2) [of a] by (cases a) (auto simp: g_def)
  then show ?thesis
    using watched_map [OF watched_call, of m s c Q g env] by (simp add: unit_call_def [abs_def] g_def)
qed

end
