(* ===== verification/Tun_Helper.thy ===== *)
theory Tun_Helper
  imports Tun_Plan Mav_Syscalls
begin

text \<open>
  The TUN helper of the command line tool (\<open>maverick-cli/src/main.rs\<close>): the report about a plan, the smoke test that
  creates a temporary device with a documentation route and removes both, and the rollback from the journal the smoke
  test leaves behind. The commands it runs and the files it touches are system calls of \<open>Mav_Syscalls\<close>; the platform,
  the approval variable, the temporary directory, the random identity and the digest are a parameter, and so is the
  JSON library. \<open>Tun_Helper_Safety\<close> holds the theorems.
\<close>

record machine =
  se_linux :: bool
  se_approval :: "bytes option"
  se_temp_dir :: bytes
  se_random_id :: bytes
  se_digest :: "bytes \<Rightarrow> bytes"

definition TUN_HELPER_DEFAULT_ADDR :: bytes where "TUN_HELPER_DEFAULT_ADDR = ascii ''10.255.0.1/30''"
definition TUN_HELPER_ROUTE_METRIC :: bytes where "TUN_HELPER_ROUTE_METRIC = ascii ''4271''"
definition APPROVED_TUN_HELPER_HOST_LABEL :: bytes where "APPROVED_TUN_HELPER_HOST_LABEL = ascii ''approved-linux-vm''"

subsection \<open>Parsing and checking the arguments\<close>

definition parse_tun_route :: "bytes \<Rightarrow> TunRoute any" where
  "parse_tun_route raw =
     (case split_once 47 raw of
        None \<Rightarrow> Err (Bail (ascii ''tun route must be CIDR formatted: '' @ raw))
      | Some (addr, len) \<Rightarrow>
          and_then (ok_or (Context (ascii ''parse TUN route address: '' @ raw) IoFailure) (parse_ip addr)) (\<lambda>network.
          and_then (ok_or (Context (ascii ''parse TUN route prefix length: '' @ raw) IoFailure) (parse_u8 len)) (\<lambda>prefix_len.
          Ok \<lparr>tr_network = network, tr_prefix_len = prefix_len\<rparr>)))"

fun parse_tun_routes :: "bytes list \<Rightarrow> TunRoute list any" where
  "parse_tun_routes [] = Ok []"
| "parse_tun_routes (r # rs) =
     and_then (parse_tun_route r) (\<lambda>x. and_then (parse_tun_routes rs) (\<lambda>xs. Ok (x # xs)))"

definition helper_plan :: "bytes \<Rightarrow> TunRoute \<Rightarrow> TunRoutePlan" where
  "helper_plan device route = \<lparr>tp_enabled = True, tp_device_name = device, tp_include_routes = [route], tp_exclude_routes = [],
     tp_dns_servers = []\<rparr>"

definition validate_linux_phase_a_device :: "bytes \<Rightarrow> unit any" where
  "validate_linux_phase_a_device device =
     and_then (from_core (validate_plan (helper_plan device \<lparr>tr_network = V4 0xC0000200, tr_prefix_len = 24\<rparr>))) (\<lambda>_.
     ensure (length device \<le> 15) (ascii ''Linux TUN helper smoke device name must be at most 15 characters''))"

definition validate_phase_a_documentation_route :: "TunRoute \<Rightarrow> unit any" where
  "validate_phase_a_documentation_route route =
     ensure ((case tr_network route of
                V4 addr \<Rightarrow> tr_prefix_len route = 24 \<and> (addr = 0xC0000200 \<or> addr = 0xC6336400 \<or> addr = 0xCB007100)
              | V6 _ \<Rightarrow> False))
       (ascii ''TUN helper smoke is limited to RFC 5737 documentation /24 routes'')"

definition validate_phase_a_tun_addr :: "bytes \<Rightarrow> unit any" where
  "validate_phase_a_tun_addr raw =
     and_then (ensure (raw = TUN_HELPER_DEFAULT_ADDR)
         (ascii ''TUN helper smoke currently allows only '' @ TUN_HELPER_DEFAULT_ADDR)) (\<lambda>_.
     and_then (ok_or (Bail (ascii ''TUN helper smoke address must be CIDR formatted'')) (split_once 47 raw)) (\<lambda>(addr, len).
     and_then (ok_or (Context (ascii ''parse TUN helper smoke address: '' @ raw) IoFailure) (parse_ip addr)) (\<lambda>parsed.
     and_then (ok_or (Context (ascii ''parse TUN helper smoke address prefix: '' @ raw) IoFailure) (parse_u8 len)) (\<lambda>prefix_len.
     ensure ((case parsed of V4 _ \<Rightarrow> True | V6 _ \<Rightarrow> False) \<and> prefix_len = 30)
       (ascii ''TUN helper smoke address must be IPv4 /30'')))))"

definition is_approved_host_label :: "bytes \<Rightarrow> bool" where
  "is_approved_host_label v = (v = APPROVED_TUN_HELPER_HOST_LABEL)"

definition phase_a_route_probe :: "bytes \<Rightarrow> bytes any" where
  "phase_a_route_probe route =
     (if route = ascii ''192.0.2.0/24'' then Ok (ascii ''192.0.2.1'')
      else if route = ascii ''198.51.100.0/24'' then Ok (ascii ''198.51.100.1'')
      else if route = ascii ''203.0.113.0/24'' then Ok (ascii ''203.0.113.1'')
      else Err (Bail (ascii ''TUN helper smoke route probe requires documentation /24 route'')))"

subsection \<open>The report about a plan\<close>

definition abstract_tun_apply_context :: TunApplySafetyContext where
  "abstract_tun_apply_context = \<lparr>dry_run_completed = True, operator_approved = True, approved_host = True,
     platform_supported = True, privileges_confirmed = True, proxy_vpn_conflict_checked = True, rollback_plan_writable = True\<rparr>"

fun describe_tun_runtime_action :: "TunRuntimeAction \<Rightarrow> bytes" where
  "describe_tun_runtime_action (RecordRollbackPlan n) = ascii ''record rollback plan with '' @ dec n @ ascii '' actions''"
| "describe_tun_runtime_action (CreateTunDevice d) = ascii ''create tun device '' @ d"
| "describe_tun_runtime_action (BringDeviceUp d) = ascii ''bring tun device up '' @ d"
| "describe_tun_runtime_action (PreserveRoute c) = ascii ''preserve route '' @ c"
| "describe_tun_runtime_action (AddRoute c d) = ascii ''add route '' @ c @ ascii '' via '' @ d"
| "describe_tun_runtime_action (SetDnsServers s) = ascii ''set dns servers '' @ join (ascii '','') s"

fun describe_tun_runtime_rollback_action :: "TunRuntimeRollbackAction \<Rightarrow> bytes" where
  "describe_tun_runtime_rollback_action RestoreDnsServers = ascii ''restore dns servers''"
| "describe_tun_runtime_rollback_action (RestoreRoute c) = ascii ''restore route '' @ c"
| "describe_tun_runtime_rollback_action (DeleteRoute c d) = ascii ''delete route '' @ c @ ascii '' via '' @ d"
| "describe_tun_runtime_rollback_action (DeleteTunDevice d) = ascii ''delete tun device '' @ d"

definition display_bool :: "bool \<Rightarrow> bytes" where
  "display_bool b = (if b then ascii ''true'' else ascii ''false'')"

definition tun_plan_report :: "bytes \<Rightarrow> bytes list \<Rightarrow> bytes list \<Rightarrow> IpAddr list \<Rightarrow> bool \<Rightarrow> bytes list any" where
  "tun_plan_report device include_routes exclude_routes dns_servers abstract_runtime_plan =
     and_then (parse_tun_routes include_routes) (\<lambda>incl.
     and_then (parse_tun_routes exclude_routes) (\<lambda>excl.
     let plan = \<lparr>tp_enabled = True, tp_device_name = device, tp_include_routes = incl, tp_exclude_routes = excl,
                  tp_dns_servers = dns_servers\<rparr> in
     and_then (from_core (dry_run_steps plan)) (\<lambda>steps.
     and_then (from_core (evaluate_tun_apply_safety plan \<lparr>dry_run_completed = True, operator_approved = False,
         approved_host = False, platform_supported = False, privileges_confirmed = False, proxy_vpn_conflict_checked = False,
         rollback_plan_writable = False\<rparr>)) (\<lambda>safety.
     let report =
       [ascii ''tun-plan'', ascii ''system_apply: false'', ascii ''device: '' @ device,
        ascii ''include_routes: '' @ dec (length incl), ascii ''exclude_routes: '' @ dec (length excl),
        ascii ''dns_servers: '' @ dec (length dns_servers)]
       @ map (\<lambda>s. ascii ''dry_run_step: '' @ s) steps
       @ [ascii ''apply_allowed: '' @ display_bool (is_allowed safety)]
       @ map (\<lambda>b. ascii ''apply_blocker: '' @ ascii (debug_apply_blocker b)) (gd_blockers safety) in
     if \<not> abstract_runtime_plan then Ok (report @ [ascii ''abstract_runtime_plan: not_requested''])
     else
       and_then (from_core (build_tun_runtime_plan plan abstract_tun_apply_context)) (\<lambda>rp.
       Ok (report
           @ [ascii ''abstract_runtime_plan: available'', ascii ''abstract_runtime_plan_system_apply: false'',
              ascii ''abstract_runtime_plan_context: planning_only_all_gates_assumed'']
           @ map (\<lambda>a. ascii ''abstract_apply_action: '' @ describe_tun_runtime_action a) (rp_apply_actions rp)
           @ map (\<lambda>a. ascii ''abstract_rollback_action: '' @ describe_tun_runtime_rollback_action a)
               (rp_rollback_actions rp)))))))"

subsection \<open>Options, environment and journal\<close>

record TunHelperSmokeOptions =
  so_apply :: bool
  so_device :: bytes
  so_include_route :: bytes
  so_tun_addr :: bytes
  so_approved_host_label :: "bytes option"
  so_proxy_vpn_conflict_checked :: bool
  so_rollback_journal :: "bytes option"

record TunHelperSmokeEnvironment =
  en_operator_approved :: bool
  en_platform_supported :: bool
  en_privileges_confirmed :: bool

record TunHelperSmokeReport =
  sr_lines :: "bytes list"
  sr_decision :: TunApplySafetyDecision
  sr_runtime_plan :: "TunRuntimePlan option"

record TunHelperRollbackOptions =
  ro_apply :: bool
  ro_rollback_journal :: bytes
  ro_approved_host_label :: "bytes option"
  ro_proxy_vpn_conflict_checked :: bool

record TunHelperRollbackJournal =
  jo_device :: bytes
  jo_device_identity :: bytes
  jo_include_route :: bytes
  jo_tun_addr :: bytes
  jo_route_probe :: bytes
  jo_approved_host_label :: bytes

definition sudo_available :: "environment \<Rightarrow> log \<Rightarrow> bool \<times> log" where
  "sudo_available env = command_success env (ascii ''sudo'') [ascii ''-n'', ascii ''true'']"

text \<open>The two detection functions differ only in the type of their options.\<close>

definition detect_tun_helper_environment :: "machine \<Rightarrow> environment \<Rightarrow> bool \<Rightarrow> log \<Rightarrow> TunHelperSmokeEnvironment \<times> log" where
  "detect_tun_helper_environment se env apply_requested l =
     (let approved = (se_approval se = Some (ascii ''1'')) in
      case (if apply_requested \<and> approved \<and> se_linux se then sudo_available env l else (False, l)) of
        (privileges, l') \<Rightarrow>
          (\<lparr>en_operator_approved = approved, en_platform_supported = se_linux se, en_privileges_confirmed = privileges\<rparr>, l'))"

definition tun_helper_rollback_journal_path :: "machine \<Rightarrow> bytes option \<Rightarrow> bytes \<Rightarrow> bytes" where
  "tun_helper_rollback_journal_path se journal device =
     (case journal of
        Some p \<Rightarrow> p
      | None \<Rightarrow> se_temp_dir se @ ascii ''/'' @ ascii ''maverick-tun-helper-'' @ device @ ascii ''-rollback.json'')"

definition rollback_journal_path_available :: "environment \<Rightarrow> bytes \<Rightarrow> log \<Rightarrow> bool \<times> log" where
  "rollback_journal_path_available env path l =
     (case parent_dir env path l of (p, l') \<Rightarrow>
        if p = Some True then (case ask env (Exists path) l' of (b, l'') \<Rightarrow> (\<not> b, l'')) else (False, l'))"

definition TUN_HELPER_APPROVAL_ENV :: bytes where "TUN_HELPER_APPROVAL_ENV = ascii ''MAVERICK_TUN_HELPER_APPROVED''"

definition smoke_report_lines ::
  "TunHelperSmokeOptions \<Rightarrow> bytes \<Rightarrow> TunApplySafetyDecision \<Rightarrow> TunRuntimePlan option \<Rightarrow> bytes list" where
  "smoke_report_lines opts path decision rp =
     [ascii ''tun-helper-smoke'', ascii ''system_apply: '' @ display_bool (so_apply opts),
      ascii ''scope: phase_a_temporary_tun_documentation_route'', ascii ''approval_env: '' @ TUN_HELPER_APPROVAL_ENV,
      ascii ''approved_host_label: '' @ (case so_approved_host_label opts of None \<Rightarrow> ascii ''absent'' | Some v \<Rightarrow> v),
      ascii ''device: '' @ so_device opts, ascii ''include_route: '' @ so_include_route opts,
      ascii ''tun_addr: '' @ so_tun_addr opts, ascii ''rollback_journal: '' @ path,
      ascii ''proxy_vpn_conflict_checked: '' @ display_bool (so_proxy_vpn_conflict_checked opts),
      ascii ''default_route: not_touched'', ascii ''global_dns: not_touched'', ascii ''firewall: not_touched'',
      ascii ''rollback: required'', ascii ''apply_allowed: '' @ display_bool (is_allowed decision)]
     @ map (\<lambda>b. ascii ''apply_blocker: '' @ ascii (debug_apply_blocker b)) (gd_blockers decision)
     @ (if rp \<noteq> None then [ascii ''runtime_plan: available'', ascii ''runtime_plan_scope: helper_phase_a_only'']
        else [ascii ''runtime_plan: blocked''])"

definition tun_helper_smoke_report ::
  "machine \<Rightarrow> environment \<Rightarrow> TunHelperSmokeOptions \<Rightarrow> TunHelperSmokeEnvironment \<Rightarrow> TunHelperSmokeReport prog" where
  "tun_helper_smoke_report se env opts environment =
     bind_prog (pure (validate_linux_phase_a_device (so_device opts))) (\<lambda>_.
     bind_prog (pure (parse_tun_route (so_include_route opts))) (\<lambda>route.
     bind_prog (pure (validate_phase_a_documentation_route route)) (\<lambda>_.
     bind_prog (pure (validate_phase_a_tun_addr (so_tun_addr opts))) (\<lambda>_ l.
     let path = tun_helper_rollback_journal_path se (so_rollback_journal opts) (so_device opts) in
     case (if \<not> so_apply opts then (True, l) else rollback_journal_path_available env path l) of (writable, l') \<Rightarrow>
     let plan = helper_plan (so_device opts) route;
         context =
           \<lparr>dry_run_completed = True, operator_approved = so_apply opts \<and> en_operator_approved environment,
            approved_host = (case so_approved_host_label opts of None \<Rightarrow> False | Some v \<Rightarrow> is_approved_host_label v),
            platform_supported = en_platform_supported environment,
            privileges_confirmed = en_privileges_confirmed environment,
            proxy_vpn_conflict_checked = so_proxy_vpn_conflict_checked opts, rollback_plan_writable = writable\<rparr>
     in pure (and_then (from_core (evaluate_tun_apply_safety plan context)) (\<lambda>decision.
              and_then (if is_allowed decision then map_ok Some (from_core (build_tun_runtime_plan plan context)) else Ok None)
                (\<lambda>rp. Ok \<lparr>sr_lines = smoke_report_lines opts path decision rp, sr_decision = decision, sr_runtime_plan = rp\<rparr>))) l'))))"

subsection \<open>Checks on the machine\<close>

record TunHelperGlobalBaseline =
  default_route_digest :: bytes
  resolv_conf_digest :: bytes

definition capture_linux_tun_helper_global_baseline :: "machine \<Rightarrow> environment \<Rightarrow> TunHelperGlobalBaseline prog" where
  "capture_linux_tun_helper_global_baseline se env =
     bind_prog (with_context (ascii ''capture default route baseline'')
         (command_stdout env (ascii ''ip'') [ascii ''route'', ascii ''show'', ascii ''default''])) (\<lambda>default_route.
     bind_prog (with_context (ascii ''capture DNS resolver baseline'') (read_bytes env (ascii ''/etc/resolv.conf''))) (\<lambda>resolv_conf.
     pure (Ok \<lparr>default_route_digest = se_digest se default_route, resolv_conf_digest = se_digest se resolv_conf\<rparr>)))"

definition verify_linux_tun_helper_global_baseline :: "machine \<Rightarrow> environment \<Rightarrow> TunHelperGlobalBaseline \<Rightarrow> unit prog" where
  "verify_linux_tun_helper_global_baseline se env before =
     bind_prog (capture_linux_tun_helper_global_baseline se env) (\<lambda>after.
     bind_prog (pure (ensure (default_route_digest before = default_route_digest after)
       (ascii ''TUN helper changed the default route baseline''))) (\<lambda>_.
     pure (ensure (resolv_conf_digest before = resolv_conf_digest after)
       (ascii ''TUN helper changed the global DNS resolver baseline''))))"

text \<open>\<open>u32::from_str_radix(s, 16)\<close>, and \<open>trim_start_matches("0x")\<close>.\<close>

definition parse_hex_u32 :: "bytes \<Rightarrow> nat option" where
  "parse_hex_u32 s =
     (let ds = (case s of [] \<Rightarrow> [] | b # r \<Rightarrow> if b = 43 then r else s);
          n = foldl (\<lambda>n b. n * 16 + the (hex_value b)) 0 ds
      in if ds \<noteq> [] \<and> list_all (\<lambda>b. hex_value b \<noteq> None) ds \<and> n \<le> 4294967295 then Some n else None)"

fun strip_0x :: "bytes \<Rightarrow> bytes" where
  "strip_0x (a # b # s) = (if a = 48 \<and> b = 120 then strip_0x s else a # b # s)"
| "strip_0x s = s"

definition sysfs_file :: "bytes \<Rightarrow> bytes \<Rightarrow> bytes" where
  "sysfs_file device name = ascii ''/sys/class/net/'' @ device @ ascii ''/'' @ name"

definition identity_prefix :: bytes where "identity_prefix = ascii ''maverick-tun-helper:''"

text \<open>Flag 1 is \<open>IFF_TUN\<close>, flag 2 \<open>IFF_TAP\<close>.\<close>

definition is_tun :: "nat \<Rightarrow> bool" where
  "is_tun flags = (odd flags \<and> even (flags div 2))"

definition verify_linux_tun_device_identity :: "environment \<Rightarrow> bytes \<Rightarrow> bytes \<Rightarrow> unit prog" where
  "verify_linux_tun_device_identity env device expected_identity =
     bind_prog (pure (validate_linux_phase_a_device device)) (\<lambda>_.
     bind_prog (pure (ensure (take (length identity_prefix) expected_identity = identity_prefix
                              \<and> length expected_identity > length identity_prefix)
         (ascii ''TUN helper device identity is invalid''))) (\<lambda>_.
     bind_prog (with_context (ascii ''read TUN device identity for '' @ device)
         (read_to_string env (sysfs_file device (ascii ''ifalias'')))) (\<lambda>alias.
     bind_prog (pure (ensure (trim alias = expected_identity)
         (ascii ''TUN device identity does not match rollback journal''))) (\<lambda>_.
     bind_prog (with_context (ascii ''verify '' @ device @ ascii '' is a TUN device'')
         (read_to_string env (sysfs_file device (ascii ''tun_flags'')))) (\<lambda>flags.
     bind_prog (pure (ok_or (Context (ascii ''parse TUN flags for '' @ device) IoFailure) (parse_hex_u32 (strip_0x (trim flags)))))
       (\<lambda>flags. pure (ensure (is_tun flags) (ascii ''rollback target is not a TUN device''))))))))"

definition device_present :: "environment \<Rightarrow> bytes \<Rightarrow> log \<Rightarrow> bool \<times> log" where
  "device_present env device = command_success env (ascii ''ip'') [ascii ''link'', ascii ''show'', ascii ''dev'', device]"

definition show_route :: "environment \<Rightarrow> bytes \<Rightarrow> bytes prog" where
  "show_route env route = command_stdout env (ascii ''ip'') [ascii ''route'', ascii ''show'', route]"

definition verify_linux_tun_helper_residue :: "environment \<Rightarrow> bytes \<Rightarrow> bytes \<Rightarrow> unit prog" where
  "verify_linux_tun_helper_residue env device route l =
     (case device_present env device l of (present, l') \<Rightarrow>
        bind_prog (pure (ensure (\<not> present) (ascii ''TUN helper smoke residue remains for device '' @ device))) (\<lambda>_.
        bind_prog (with_context (ascii ''check route residue'') (show_route env route)) (\<lambda>out.
        pure (ensure (\<not> contains out device) (ascii ''TUN helper smoke route residue remains for '' @ route)))) l')"

subsection \<open>The smoke test\<close>

definition sudo :: "environment \<Rightarrow> bytes list \<Rightarrow> unit prog" where
  "sudo env args = run_checked env (ascii ''sudo'') (ascii ''-n'' # ascii ''ip'' # args)"

definition create_device_args :: "bytes \<Rightarrow> bytes \<Rightarrow> bytes list" where
  "create_device_args device user =
     [ascii ''tuntap'', ascii ''add'', ascii ''dev'', device, ascii ''mode'', ascii ''tun'', ascii ''user'', user]"

definition bind_identity_args :: "bytes \<Rightarrow> bytes \<Rightarrow> bytes list" where
  "bind_identity_args device device_identity =
     [ascii ''link'', ascii ''set'', ascii ''dev'', device, ascii ''alias'', device_identity]"

definition assign_addr_args :: "bytes \<Rightarrow> bytes \<Rightarrow> bytes list" where
  "assign_addr_args device tun_addr = [ascii ''addr'', ascii ''add'', tun_addr, ascii ''dev'', device]"

definition device_up_args :: "bytes \<Rightarrow> bytes list" where
  "device_up_args device = [ascii ''link'', ascii ''set'', device, ascii ''up'']"

definition add_route_args :: "bytes \<Rightarrow> bytes \<Rightarrow> bytes list" where
  "add_route_args device route =
     [ascii ''route'', ascii ''add'', route, ascii ''dev'', device, ascii ''metric'', TUN_HELPER_ROUTE_METRIC]"

definition del_route_args :: "bytes \<Rightarrow> bytes \<Rightarrow> bytes list" where
  "del_route_args device route = [ascii ''route'', ascii ''del'', route, ascii ''dev'', device]"

definition del_device_args :: "bytes \<Rightarrow> bytes list" where
  "del_device_args device = [ascii ''link'', ascii ''del'', device]"

text \<open>The closure of the smoke test: its result, and the flags \<open>created_device\<close> and \<open>added_route\<close> as it leaves them.
The device exists once the first command has succeeded, the route once the last but one has.\<close>

definition smoke_configure :: "environment \<Rightarrow> TunHelperSmokeOptions \<Rightarrow> bytes \<Rightarrow> unit prog" where
  "smoke_configure env opts device_identity =
     bind_prog (with_context (ascii ''bind temporary TUN device identity'')
         (sudo env (bind_identity_args (so_device opts) device_identity))) (\<lambda>_.
     bind_prog (verify_linux_tun_device_identity env (so_device opts) device_identity) (\<lambda>_.
     bind_prog (with_context (ascii ''assign temporary TUN address'')
         (sudo env (assign_addr_args (so_device opts) (so_tun_addr opts)))) (\<lambda>_.
     bind_prog (with_context (ascii ''bring temporary TUN device up'') (sudo env (device_up_args (so_device opts)))) (\<lambda>_.
     with_context (ascii ''add documentation-prefix route'')
       (sudo env (add_route_args (so_device opts) (so_include_route opts)))))))"

definition smoke_lines :: "TunHelperSmokeOptions \<Rightarrow> bytes \<Rightarrow> bytes \<Rightarrow> bytes list" where
  "smoke_lines opts path route_probe =
     [ascii ''rollback_journal: wrote '' @ path, ascii ''global_baseline: captured'',
      ascii ''apply: created_tun_device '' @ so_device opts, ascii ''apply: bound_tun_device_identity'',
      ascii ''apply: assigned_tun_addr '' @ so_tun_addr opts, ascii ''apply: brought_tun_device_up '' @ so_device opts,
      ascii ''apply: added_documentation_route '' @ so_include_route opts,
      ascii ''verify: route_probe '' @ route_probe @ ascii '' via '' @ so_device opts]"

definition smoke_probe :: "environment \<Rightarrow> TunHelperSmokeOptions \<Rightarrow> bytes \<Rightarrow> bytes \<Rightarrow> bytes list prog" where
  "smoke_probe env opts path route_probe =
     bind_prog (with_context (ascii ''probe documentation-prefix route'')
         (command_stdout env (ascii ''ip'') [ascii ''route'', ascii ''get'', route_probe])) (\<lambda>probe.
     bind_prog (pure (ensure (contains probe (ascii ''dev '' @ so_device opts))
         (ascii ''documentation route probe did not use '' @ so_device opts @ ascii '': '' @ trim probe))) (\<lambda>_.
     pure (Ok (smoke_lines opts path route_probe))))"

definition smoke_apply ::
  "environment \<Rightarrow> TunHelperSmokeOptions \<Rightarrow> bytes \<Rightarrow> bytes \<Rightarrow> bytes \<Rightarrow> bytes \<Rightarrow> log \<Rightarrow> (bytes list any \<times> bool \<times> bool) \<times> log" where
  "smoke_apply env opts user device_identity path route_probe l =
     (case with_context (ascii ''create temporary TUN device'') (sudo env (create_device_args (so_device opts) user)) l of
        (Ok _, l) \<Rightarrow>
          (case smoke_configure env opts device_identity l of
             (Ok _, l) \<Rightarrow> (case smoke_probe env opts path route_probe l of (r, l) \<Rightarrow> ((r, True, True), l))
           | (Err e, l) \<Rightarrow> ((Err e, True, False), l)
           | (Panic, l) \<Rightarrow> ((Panic, True, False), l))
      | (Err e, l) \<Rightarrow> ((Err e, False, False), l)
      | (Panic, l) \<Rightarrow> ((Panic, False, False), l))"

text \<open>\<open>if let Err(err) = step { errors.push(label: err) }\<close>.\<close>

definition collect :: "bytes \<Rightarrow> bool \<Rightarrow> unit prog \<Rightarrow> bytes list \<Rightarrow> log \<Rightarrow> bytes list \<times> log" where
  "collect label cond p errors l =
     (if \<not> cond then (errors, l)
      else case p l of (Err e, l') \<Rightarrow> (errors @ [label @ display_anyhow e], l') | (_, l') \<Rightarrow> (errors, l'))"

definition cleanup_linux_tun_helper_smoke ::
  "environment \<Rightarrow> bytes \<Rightarrow> bytes \<Rightarrow> bool \<Rightarrow> bool \<Rightarrow> bytes \<Rightarrow> log \<Rightarrow> bytes list \<times> log" where
  "cleanup_linux_tun_helper_smoke env device route added_route created_device device_identity l =
     (case collect (ascii ''verify temporary TUN device identity: '') created_device
        (verify_linux_tun_device_identity env device device_identity) [] l of (errors, l) \<Rightarrow>
      let identity_verified = (created_device \<and> errors = []) in
      case collect (ascii ''delete documentation route: '') (added_route \<and> identity_verified)
        (sudo env (del_route_args device route)) errors l of (errors, l) \<Rightarrow>
      collect (ascii ''delete TUN device: '') (created_device \<and> identity_verified) (sudo env (del_device_args device)) errors l)"

subsection \<open>The journal\<close>

datatype json = JNum nat | JStr bytes | JArray "json list" | JObject "(bytes \<times> json) list" | JOther

record json_library =
  to_string_pretty :: "json \<Rightarrow> bytes"
  from_str :: "bytes \<Rightarrow> json option"

fun action_json :: "TunRuntimeAction \<Rightarrow> json" where
  "action_json (RecordRollbackPlan n) =
     JObject [(ascii ''kind'', JStr (ascii ''record_rollback_plan'')), (ascii ''rollback_action_count'', JNum n)]"
| "action_json (CreateTunDevice d) = JObject [(ascii ''kind'', JStr (ascii ''create_tun_device'')), (ascii ''device_name'', JStr d)]"
| "action_json (BringDeviceUp d) = JObject [(ascii ''kind'', JStr (ascii ''bring_device_up'')), (ascii ''device_name'', JStr d)]"
| "action_json (PreserveRoute c) = JObject [(ascii ''kind'', JStr (ascii ''preserve_route'')), (ascii ''cidr'', JStr c)]"
| "action_json (AddRoute c d) =
     JObject [(ascii ''kind'', JStr (ascii ''add_route'')), (ascii ''cidr'', JStr c), (ascii ''device_name'', JStr d)]"
| "action_json (SetDnsServers s) =
     JObject [(ascii ''kind'', JStr (ascii ''set_dns_servers'')), (ascii ''servers'', JArray (map JStr s))]"

fun rollback_action_json :: "TunRuntimeRollbackAction \<Rightarrow> json" where
  "rollback_action_json RestoreDnsServers = JObject [(ascii ''kind'', JStr (ascii ''restore_dns_servers''))]"
| "rollback_action_json (RestoreRoute c) = JObject [(ascii ''kind'', JStr (ascii ''restore_route'')), (ascii ''cidr'', JStr c)]"
| "rollback_action_json (DeleteRoute c d) =
     JObject [(ascii ''kind'', JStr (ascii ''delete_route'')), (ascii ''cidr'', JStr c), (ascii ''device_name'', JStr d)]"
| "rollback_action_json (DeleteTunDevice d) =
     JObject [(ascii ''kind'', JStr (ascii ''delete_tun_device'')), (ascii ''device_name'', JStr d)]"

definition plan_json :: "TunRuntimePlan \<Rightarrow> json" where
  "plan_json rp =
     JObject [(ascii ''device_name'', JStr (rp_device_name rp)),
              (ascii ''apply_actions'', JArray (map action_json (rp_apply_actions rp))),
              (ascii ''rollback_actions'', JArray (map rollback_action_json (rp_rollback_actions rp)))]"

definition journal_json :: "TunHelperSmokeOptions \<Rightarrow> TunRuntimePlan \<Rightarrow> bytes \<Rightarrow> bytes \<Rightarrow> json" where
  "journal_json opts rp route_probe device_identity =
     JObject
       [(ascii ''version'', JNum 2),
        (ascii ''scope'', JStr (ascii ''phase_a_temporary_tun_documentation_route'')),
        (ascii ''status'', JStr (ascii ''pending_rollback'')),
        (ascii ''device'', JStr (so_device opts)),
        (ascii ''device_identity'', JStr device_identity),
        (ascii ''include_route'', JStr (so_include_route opts)),
        (ascii ''tun_addr'', JStr (so_tun_addr opts)),
        (ascii ''route_probe'', JStr route_probe),
        (ascii ''route_metric'', JStr TUN_HELPER_ROUTE_METRIC),
        (ascii ''approved_host_label'', JStr (case so_approved_host_label opts of None \<Rightarrow> ascii ''absent'' | Some v \<Rightarrow> v)),
        (ascii ''default_route'', JStr (ascii ''not_touched'')),
        (ascii ''global_dns'', JStr (ascii ''not_touched'')),
        (ascii ''firewall'', JStr (ascii ''not_touched'')),
        (ascii ''runtime_plan'', plan_json rp),
        (ascii ''cleanup_policy'', JStr (ascii ''remove_on_success_retain_on_failed_cleanup''))]"

definition write_tun_helper_rollback_journal ::
  "json_library \<Rightarrow> environment \<Rightarrow> TunHelperSmokeOptions \<Rightarrow> TunRuntimePlan \<Rightarrow> bytes \<Rightarrow> bytes \<Rightarrow> bytes \<Rightarrow> unit prog" where
  "write_tun_helper_rollback_journal jl env opts rp path route_probe device_identity l =
     (case parent_dir env path l of (parent, l) \<Rightarrow>
       bind_prog (pure (ok_or (Bail (ascii ''TUN helper rollback journal path must have a parent directory'')) parent)) (\<lambda>is_dir.
       bind_prog (pure (ensure is_dir (ascii ''TUN helper rollback journal parent directory does not exist''))) (\<lambda>_.
       bind_prog (with_context (ascii ''create '' @ path) (unit_call env (CreateNew path))) (\<lambda>_.
       bind_prog (with_context (ascii ''serialize '' @ path)
         (unit_call env (WriteFile path (to_string_pretty jl (journal_json opts rp route_probe device_identity))))) (\<lambda>_.
       with_context (ascii ''finish '' @ path) (unit_call env (WriteFile path [10])))))) l)"

definition json_get :: "json \<Rightarrow> bytes \<Rightarrow> json option" where
  "json_get v field = (case v of JObject fs \<Rightarrow> map_of fs field | _ \<Rightarrow> None)"

definition require_json_u64 :: "json \<Rightarrow> bytes \<Rightarrow> bytes \<Rightarrow> nat \<Rightarrow> unit any" where
  "require_json_u64 v field path expected =
     and_then (ok_or (Bail (path @ ascii '' missing numeric '' @ field))
         (case json_get v field of Some (JNum n) \<Rightarrow> Some n | _ \<Rightarrow> None)) (\<lambda>actual.
     ensure (actual = expected)
       (path @ ascii '' field '' @ field @ ascii '' must be '' @ dec expected @ ascii '', got '' @ dec actual))"

text \<open>The message for a field with another value also quotes both values; they are left out here, and so is the name of
a missing parent directory above.\<close>

definition require_json_string :: "json \<Rightarrow> bytes \<Rightarrow> bytes \<Rightarrow> bytes option \<Rightarrow> bytes any" where
  "require_json_string v field path expected =
     and_then (ok_or (Bail (path @ ascii '' missing string '' @ field))
         (case json_get v field of Some (JStr s) \<Rightarrow> Some s | _ \<Rightarrow> None)) (\<lambda>actual.
     and_then (case expected of None \<Rightarrow> Ok ()
               | Some e \<Rightarrow> ensure (actual = e) (path @ ascii '' field '' @ field @ ascii '' must be'')) (\<lambda>_.
     Ok actual))"

definition journal_of_json :: "json \<Rightarrow> bytes \<Rightarrow> TunHelperRollbackJournal any" where
  "journal_of_json v path =
     and_then (require_json_u64 v (ascii ''version'') path 2) (\<lambda>_.
     and_then (require_json_string v (ascii ''scope'') path (Some (ascii ''phase_a_temporary_tun_documentation_route''))) (\<lambda>_.
     and_then (require_json_string v (ascii ''status'') path (Some (ascii ''pending_rollback''))) (\<lambda>_.
     and_then (require_json_string v (ascii ''route_metric'') path (Some TUN_HELPER_ROUTE_METRIC)) (\<lambda>_.
     and_then (require_json_string v (ascii ''default_route'') path (Some (ascii ''not_touched''))) (\<lambda>_.
     and_then (require_json_string v (ascii ''global_dns'') path (Some (ascii ''not_touched''))) (\<lambda>_.
     and_then (require_json_string v (ascii ''firewall'') path (Some (ascii ''not_touched''))) (\<lambda>_.
     and_then (require_json_string v (ascii ''device'') path None) (\<lambda>device.
     and_then (require_json_string v (ascii ''device_identity'') path None) (\<lambda>device_identity.
     and_then (require_json_string v (ascii ''include_route'') path None) (\<lambda>include_route.
     and_then (require_json_string v (ascii ''tun_addr'') path None) (\<lambda>tun_addr.
     and_then (require_json_string v (ascii ''route_probe'') path None) (\<lambda>route_probe.
     and_then (require_json_string v (ascii ''approved_host_label'') path None) (\<lambda>approved_host_label.
     Ok \<lparr>jo_device = device, jo_device_identity = device_identity, jo_include_route = include_route, jo_tun_addr = tun_addr,
         jo_route_probe = route_probe, jo_approved_host_label = approved_host_label\<rparr>)))))))))))))"

text \<open>\<open>str::parse::<u32>\<close> of the user id; group and other must have no access: the last six bits of the mode.\<close>

definition validate_tun_helper_rollback_journal_metadata :: "environment \<Rightarrow> bytes \<Rightarrow> unit prog" where
  "validate_tun_helper_rollback_journal_metadata env path l =
     (case call env (SymlinkMetadata path) l of (a, l) \<Rightarrow>
       (case a of
          Meta is_file is_symlink mode uid \<Rightarrow>
            bind_prog (pure (ensure (is_file \<and> \<not> is_symlink) (ascii ''TUN helper rollback journal must be a regular file''))) (\<lambda>_.
            bind_prog (pure (ensure (mode mod 64 = 0)
              (ascii ''TUN helper rollback journal must not be accessible by group or other users''))) (\<lambda>_.
            bind_prog (with_context (ascii ''read current user id'') (command_stdout env (ascii ''id'') [ascii ''-u''])) (\<lambda>out.
            bind_prog (pure (ok_or (Context (ascii ''parse current user id'') IoFailure) (parse_uint 4294967295 (trim out)))) (\<lambda>current.
            pure (ensure (uid = current) (ascii ''TUN helper rollback journal must be owned by the current user''))))))
            l
        | _ \<Rightarrow> (Err (Context (ascii ''inspect TUN helper rollback journal '' @ path) IoFailure), l)))"

definition read_tun_helper_rollback_journal :: "json_library \<Rightarrow> environment \<Rightarrow> bytes \<Rightarrow> TunHelperRollbackJournal prog" where
  "read_tun_helper_rollback_journal jl env path =
     bind_prog (validate_tun_helper_rollback_journal_metadata env path) (\<lambda>_.
     bind_prog (with_context (ascii ''read '' @ path) (read_to_string env path)) (\<lambda>raw.
     bind_prog (pure (ok_or (Context (ascii ''parse '' @ path) IoFailure) (from_str jl raw))) (\<lambda>v.
     pure (journal_of_json v path))))"

subsection \<open>Running the smoke test\<close>

definition ends_ok :: "bytes list \<Rightarrow> bytes list" where
  "ends_ok name = [ascii ''residue_check: ok'', ascii ''default_route_unchanged: true'', ascii ''global_dns_unchanged: true''] @ name"

definition smoke_failed ::
  "environment \<Rightarrow> TunHelperSmokeOptions \<Rightarrow> bytes \<Rightarrow> bytes \<Rightarrow> bool \<Rightarrow> bool \<Rightarrow> anyhow \<Rightarrow> bytes list prog" where
  "smoke_failed env opts device_identity path created_device added_route err l =
     (case cleanup_linux_tun_helper_smoke env (so_device opts) (so_include_route opts) added_route created_device device_identity l of
        (errors, l) \<Rightarrow>
          if errors = [] then (case call env (RemoveFile path) l of (_, l) \<Rightarrow> (Err err, l))
          else (Err (Bail (display_anyhow err @ ascii ''; cleanup also reported: '' @ join (ascii ''; '') errors
                           @ ascii ''; rollback journal retained at '' @ path)), l))"

definition smoke_succeeded ::
  "machine \<Rightarrow> environment \<Rightarrow> TunHelperSmokeOptions \<Rightarrow> bytes \<Rightarrow> bytes \<Rightarrow> TunHelperGlobalBaseline \<Rightarrow> bool \<Rightarrow> bool
     \<Rightarrow> bytes list \<Rightarrow> bytes list prog" where
  "smoke_succeeded se env opts device_identity path baseline created_device added_route lines l =
     (case cleanup_linux_tun_helper_smoke env (so_device opts) (so_include_route opts) added_route created_device device_identity l of
        (errors, l) \<Rightarrow>
          bind_prog (pure (ensure (errors = []) (ascii ''TUN helper smoke rollback failed: '' @ join (ascii ''; '') errors
              @ ascii ''; rollback journal retained at '' @ path))) (\<lambda>_.
          bind_prog (with_context (ascii ''remove TUN helper rollback journal '' @ path) (unit_call env (RemoveFile path))) (\<lambda>_.
          bind_prog (verify_linux_tun_helper_residue env (so_device opts) (so_include_route opts)) (\<lambda>_.
          bind_prog (verify_linux_tun_helper_global_baseline se env baseline) (\<lambda>_.
          pure (Ok (lines
            @ (if added_route then [ascii ''rollback: deleted_documentation_route '' @ so_include_route opts] else [])
            @ (if created_device then [ascii ''rollback: deleted_tun_device '' @ so_device opts] else [])
            @ [ascii ''rollback_journal: removed '' @ path] @ ends_ok [ascii ''tun_helper_smoke=ok''])))))) l)"

definition run_linux_tun_helper_smoke ::
  "machine \<Rightarrow> json_library \<Rightarrow> environment \<Rightarrow> TunHelperSmokeOptions \<Rightarrow> TunRuntimePlan \<Rightarrow> bytes list prog" where
  "run_linux_tun_helper_smoke se jl env opts rp =
     bind_prog (pure (ensure (se_linux se) (ascii ''TUN helper smoke apply requires Linux''))) (\<lambda>_.
     bind_prog (pure (phase_a_route_probe (so_include_route opts))) (\<lambda>route_probe.
     bind_prog (with_context (ascii ''read current user'') (command_stdout env (ascii ''id'') [ascii ''-un''])) (\<lambda>user.
     let device_identity = identity_prefix @ se_random_id se;
         path = tun_helper_rollback_journal_path se (so_rollback_journal opts) (so_device opts) in
     bind_prog (capture_linux_tun_helper_global_baseline se env) (\<lambda>baseline l.
     case device_present env (so_device opts) l of (present, l) \<Rightarrow>
     bind_prog (pure (ensure (\<not> present) (ascii ''TUN helper smoke refusing to touch existing device '' @ so_device opts))) (\<lambda>_.
     bind_prog (with_context (ascii ''check existing documentation route'') (show_route env (so_include_route opts))) (\<lambda>existing.
     bind_prog (pure (ensure (trim existing = [])
         (ascii ''TUN helper smoke refusing to touch existing route '' @ so_include_route opts))) (\<lambda>_.
     bind_prog (with_context (ascii ''write TUN helper rollback journal '' @ path)
         (write_tun_helper_rollback_journal jl env opts rp path route_probe device_identity)) (\<lambda>_ l.
     case smoke_apply env opts user device_identity path route_probe l of ((result, created_device, added_route), l) \<Rightarrow>
       (case result of
          Ok lines \<Rightarrow> smoke_succeeded se env opts device_identity path baseline created_device added_route lines l
        | Err err \<Rightarrow> smoke_failed env opts device_identity path created_device added_route err l
        | Panic \<Rightarrow> (Panic, l)))))) l))))"

definition tun_helper_smoke :: "machine \<Rightarrow> json_library \<Rightarrow> environment \<Rightarrow> TunHelperSmokeOptions \<Rightarrow> bytes list prog" where
  "tun_helper_smoke se jl env opts l =
     (case detect_tun_helper_environment se env (so_apply opts) l of (environment, l) \<Rightarrow>
       bind_prog (tun_helper_smoke_report se env opts environment) (\<lambda>report.
         if \<not> so_apply opts then pure (Ok (sr_lines report))
         else
           bind_prog (pure (ensure (is_allowed (sr_decision report)) (ascii ''tun helper smoke blocked by safety gate''))) (\<lambda>_.
           bind_prog (pure (ok_or (Bail (ascii ''tun helper smoke runtime plan missing after safety gate'')) (sr_runtime_plan report))) (\<lambda>rp.
           bind_prog (run_linux_tun_helper_smoke se jl env opts rp) (\<lambda>lines. pure (Ok (sr_lines report @ lines)))))) l)"

subsection \<open>Rolling back from the journal\<close>

record TunHelperRollbackReport =
  rr_lines :: "bytes list"
  rr_decision :: TunApplySafetyDecision
  rr_journal :: TunHelperRollbackJournal

definition rollback_report_lines ::
  "TunHelperRollbackOptions \<Rightarrow> TunHelperRollbackJournal \<Rightarrow> TunApplySafetyDecision \<Rightarrow> bytes list" where
  "rollback_report_lines opts journal decision =
     [ascii ''tun-helper-rollback'', ascii ''system_apply: '' @ display_bool (ro_apply opts),
      ascii ''scope: phase_a_temporary_tun_documentation_route'', ascii ''approval_env: '' @ TUN_HELPER_APPROVAL_ENV,
      ascii ''approved_host_label: '' @ (case ro_approved_host_label opts of None \<Rightarrow> ascii ''absent'' | Some v \<Rightarrow> v),
      ascii ''rollback_journal: '' @ ro_rollback_journal opts, ascii ''device: '' @ jo_device journal,
      ascii ''include_route: '' @ jo_include_route journal, ascii ''tun_addr: '' @ jo_tun_addr journal,
      ascii ''route_probe: '' @ jo_route_probe journal,
      ascii ''proxy_vpn_conflict_checked: '' @ display_bool (ro_proxy_vpn_conflict_checked opts),
      ascii ''default_route: not_touched'', ascii ''global_dns: not_touched'', ascii ''firewall: not_touched'',
      ascii ''rollback: idempotent_cleanup'', ascii ''apply_allowed: '' @ display_bool (is_allowed decision)]
     @ map (\<lambda>b. ascii ''apply_blocker: '' @ ascii (debug_apply_blocker b)) (gd_blockers decision)"

definition tun_helper_rollback_report ::
  "json_library \<Rightarrow> environment \<Rightarrow> TunHelperRollbackOptions \<Rightarrow> TunHelperSmokeEnvironment \<Rightarrow> TunHelperRollbackReport prog" where
  "tun_helper_rollback_report jl env opts environment =
     bind_prog (read_tun_helper_rollback_journal jl env (ro_rollback_journal opts)) (\<lambda>journal.
     bind_prog (pure (parse_tun_route (jo_include_route journal))) (\<lambda>route.
     bind_prog (pure (validate_phase_a_documentation_route route)) (\<lambda>_.
     bind_prog (pure (validate_phase_a_tun_addr (jo_tun_addr journal))) (\<lambda>_.
     bind_prog (pure (validate_linux_phase_a_device (jo_device journal))) (\<lambda>_.
     bind_prog (pure (ensure (is_approved_host_label (jo_approved_host_label journal)
                              \<and> ro_approved_host_label opts = Some (jo_approved_host_label journal))
         (ascii ''TUN helper rollback journal approved_host_label does not match the approved request''))) (\<lambda>_.
     bind_prog (pure (phase_a_route_probe (jo_include_route journal))) (\<lambda>probe.
     bind_prog (pure (ensure (probe = jo_route_probe journal)
         (ascii ''TUN helper rollback journal route_probe does not match include_route''))) (\<lambda>_ l.
     case ask env (IsFile (ro_rollback_journal opts)) l of (is_file, l) \<Rightarrow>
     let plan = helper_plan (jo_device journal) route;
         context =
           \<lparr>dry_run_completed = True, operator_approved = ro_apply opts \<and> en_operator_approved environment,
            approved_host = (case ro_approved_host_label opts of None \<Rightarrow> False | Some v \<Rightarrow> is_approved_host_label v),
            platform_supported = en_platform_supported environment,
            privileges_confirmed = en_privileges_confirmed environment,
            proxy_vpn_conflict_checked = ro_proxy_vpn_conflict_checked opts, rollback_plan_writable = is_file\<rparr>
     in pure (and_then (from_core (evaluate_tun_apply_safety plan context)) (\<lambda>decision.
              Ok \<lparr>rr_lines = rollback_report_lines opts journal decision, rr_decision = decision, rr_journal = journal\<rparr>)) l))))))))"

definition run_linux_tun_helper_rollback ::
  "machine \<Rightarrow> environment \<Rightarrow> bytes \<Rightarrow> TunHelperRollbackJournal \<Rightarrow> bytes list prog" where
  "run_linux_tun_helper_rollback se env path journal =
     (let device = jo_device journal; route = jo_include_route journal in
      bind_prog (pure (ensure (se_linux se) (ascii ''TUN helper rollback apply requires Linux''))) (\<lambda>_.
      bind_prog (capture_linux_tun_helper_global_baseline se env) (\<lambda>baseline l.
      case device_present env device l of (present, l) \<Rightarrow>
      bind_prog (if present then verify_linux_tun_device_identity env device (jo_device_identity journal) else pure (Ok ())) (\<lambda>_.
      bind_prog (with_context (ascii ''check retained documentation route'') (show_route env route)) (\<lambda>route_output.
      bind_prog
        (if contains route_output device then
           bind_prog (pure (ensure present (ascii ''rollback route references a TUN device whose identity cannot be verified''))) (\<lambda>_.
           with_context (ascii ''rollback retained documentation route'') (sudo env (del_route_args device route)))
         else pure (Ok ())) (\<lambda>_.
      bind_prog (if present then with_context (ascii ''rollback retained TUN device'') (sudo env (del_device_args device))
                 else pure (Ok ())) (\<lambda>_.
      bind_prog (verify_linux_tun_helper_residue env device route) (\<lambda>_.
      bind_prog (verify_linux_tun_helper_global_baseline se env baseline) (\<lambda>_.
      bind_prog (with_context (ascii ''remove TUN helper rollback journal '' @ path) (unit_call env (RemoveFile path))) (\<lambda>_.
      pure (Ok ([ascii ''global_baseline: captured'']
        @ (if present then [ascii ''rollback: verified_tun_device_identity''] else [])
        @ [(if contains route_output device then ascii ''rollback: deleted_documentation_route ''
            else ascii ''rollback: documentation_route_absent '') @ route]
        @ [(if present then ascii ''rollback: deleted_tun_device '' else ascii ''rollback: tun_device_absent '') @ device]
        @ [ascii ''rollback_journal: removed '' @ path] @ ends_ok [ascii ''tun_helper_rollback=ok'']))))))))) l)))"

definition tun_helper_rollback :: "machine \<Rightarrow> json_library \<Rightarrow> environment \<Rightarrow> TunHelperRollbackOptions \<Rightarrow> bytes list prog" where
  "tun_helper_rollback se jl env opts l =
     (case detect_tun_helper_environment se env (ro_apply opts) l of (environment, l) \<Rightarrow>
       bind_prog (tun_helper_rollback_report jl env opts environment) (\<lambda>report.
         if \<not> ro_apply opts then pure (Ok (rr_lines report))
         else
           bind_prog (pure (ensure (is_allowed (rr_decision report)) (ascii ''tun helper rollback blocked by safety gate''))) (\<lambda>_.
           bind_prog (run_linux_tun_helper_rollback se env (ro_rollback_journal opts) (rr_journal report)) (\<lambda>lines.
           pure (Ok (rr_lines report @ lines))))) l)"

end
