(* ===== verification/Tun_Helper_Safety.thy ===== *)
theory Tun_Helper_Safety
  imports Tun_Helper
begin

text \<open>
  What the TUN helper may do to a machine. Monitors watch the system calls of the smoke test and of the rollback and
  reject every call that must not happen; the theorems say that they accept all that the programs do, whatever the
  machine answers, and what is left behind when a program ends.
\<close>

subsection \<open>What the smoke test may do\<close>

text \<open>What has been seen of a run: what has been written to the journal; whether the run has created its device and added
its route; whether they still exist as far as the answers tell (a deletion that reports success ends them, a later look
that finds them brings them back); whether the machine has shown, since they were made, that they are gone; and whether
the alias and the kind of the device were the expected ones when they were last read.\<close>

record smoke_watch =
  w_journal :: bytes
  w_created :: bool
  w_added :: bool
  w_device :: bool
  w_route :: bool
  w_device_gone :: bool
  w_route_gone :: bool
  w_alias :: bool
  w_tun :: bool

definition smoke_start :: smoke_watch where
  "smoke_start = \<lparr>w_journal = [], w_created = False, w_added = False, w_device = False, w_route = False,
     w_device_gone = False, w_route_gone = False, w_alias = False, w_tun = False\<rparr>"

definition succeeded :: "answer \<Rightarrow> bool" where
  "succeeded a = (case a of Stdout _ \<Rightarrow> True | _ \<Rightarrow> False)"

definition shows_no_route :: "bytes \<Rightarrow> answer \<Rightarrow> bool" where
  "shows_no_route device a = (case a of Stdout t \<Rightarrow> \<not> contains (trim t) device | _ \<Rightarrow> False)"

definition shows_route :: "bytes \<Rightarrow> answer \<Rightarrow> bool" where
  "shows_route device a = (case a of Stdout t \<Rightarrow> contains (trim t) device | _ \<Rightarrow> False)"

definition alias_matches :: "bytes \<Rightarrow> answer \<Rightarrow> bool" where
  "alias_matches device_identity a = (case a of Content t \<Rightarrow> trim t = device_identity | _ \<Rightarrow> False)"

definition says_tun :: "answer \<Rightarrow> bool" where
  "says_tun a =
     (case a of Content t \<Rightarrow> (case parse_hex_u32 (strip_0x (trim t)) of None \<Rightarrow> False | Some n \<Rightarrow> is_tun n) | _ \<Rightarrow> False)"

text \<open>The parameters of a run: whether it may touch the machine, its journal with its text, its device, route, address
and identity.\<close>

record smoke_run =
  r_allowed :: bool
  r_path :: bytes
  r_text :: bytes
  r_device :: bytes
  r_route :: bytes
  r_addr :: bytes
  r_identity :: bytes

text \<open>A privileged command runs only if the run is allowed to, with the whole journal on disk, and is one of the seven of
the smoke test (create the device, set its alias, give it an address, bring it up, add the route, delete the route, delete
the device), for its own device and route; what is deleted has just been identified; the journal is removed only when, as far as the
answers tell, nothing is left. The only other privileged command is the probe \<open>sudo -n true\<close>; the others only look. No
other file is written or removed.\<close>

definition smoke_privileged :: "smoke_run \<Rightarrow> smoke_watch \<Rightarrow> bytes list \<Rightarrow> answer \<Rightarrow> smoke_watch option" where
  "smoke_privileged r w args a =
     (if args = bind_identity_args (r_device r) (r_identity r) \<or> args = assign_addr_args (r_device r) (r_addr r)
         \<or> args = device_up_args (r_device r)
      then (if w_device w then Some w else None)
      else if args = create_device_args (r_device r) (last args) 
      then Some (w\<lparr>w_created := w_created w \<or> succeeded a, w_device := succeeded a, w_device_gone := False\<rparr>)
      else if args = add_route_args (r_device r) (r_route r)
      then (if w_device w then Some (w\<lparr>w_added := w_added w \<or> succeeded a, w_route := succeeded a, w_route_gone := False\<rparr>) else None)
      else if args = del_route_args (r_device r) (r_route r)
      then (if w_alias w \<and> w_tun w then Some (w\<lparr>w_route := w_route w \<and> \<not> succeeded a\<rparr>) else None)
      else if args = del_device_args (r_device r)
      then (if w_alias w \<and> w_tun w then Some (w\<lparr>w_device := w_device w \<and> \<not> succeeded a\<rparr>) else None)
      else None)"

definition smoke_monitor :: "smoke_run \<Rightarrow> smoke_watch monitor" where
  "smoke_monitor r w x =
     (case x of
        (Run program args, a) \<Rightarrow>
          if program = ascii ''sudo'' then
            (if args = [ascii ''-n'', ascii ''true''] then Some w
             else if r_allowed r \<and> w_journal w = r_text r \<and> take 2 args = [ascii ''-n'', ascii ''ip'']
             then smoke_privileged r w (drop 2 args) a else None)
          else if program = ascii ''id'' then Some w
          else if program \<noteq> ascii ''ip'' then None
          else if args = [ascii ''route'', ascii ''show'', ascii ''default''] \<or> take 2 args = [ascii ''route'', ascii ''get''] then Some w
          else if args = [ascii ''link'', ascii ''show'', ascii ''dev'', r_device r]
          then Some (w\<lparr>w_device := w_device w \<or> w_created w \<and> succeeded a, w_device_gone := \<not> succeeded a\<rparr>)
          else if args = [ascii ''route'', ascii ''show'', r_route r]
          then Some (w\<lparr>w_route := w_route w \<or> w_added w \<and> shows_route (r_device r) a, w_route_gone := shows_no_route (r_device r) a\<rparr>)
          else None
      | (ReadFile file, a) \<Rightarrow>
          if file = sysfs_file (r_device r) (ascii ''ifalias'')
          then Some (w\<lparr>w_alias := alias_matches (r_identity r) a, w_tun := False\<rparr>)
          else if file = sysfs_file (r_device r) (ascii ''tun_flags'') then Some (w\<lparr>w_tun := says_tun a\<rparr>)
          else Some w
      | (CreateNew file, a) \<Rightarrow> if file = r_path r then Some w else None
      | (WriteFile file text, a) \<Rightarrow>
          if file = r_path r then Some (if a = Done then w\<lparr>w_journal := w_journal w @ text\<rparr> else w) else None
      | (RemoveFile file, a) \<Rightarrow>
          if file = r_path r \<and> \<not> w_device w \<and> \<not> w_route w then Some (if a = Done then w\<lparr>w_journal := []\<rparr> else w) else None
      | (_, a) \<Rightarrow> Some w)"

lemmas args_defs = create_device_args_def bind_identity_args_def assign_addr_args_def device_up_args_def add_route_args_def
  del_route_args_def del_device_args_def

lemma sysfs_distinct [simp]:
  "sysfs_file d (ascii ''ifalias'') \<noteq> sysfs_file d (ascii ''tun_flags'')"
  "sysfs_file d (ascii ''tun_flags'') \<noteq> sysfs_file d (ascii ''ifalias'')"
  "ascii ''/etc/resolv.conf'' \<noteq> sysfs_file d n"
  by (simp_all add: sysfs_file_def ascii_def)

lemma smoke_quiet:
  "smoke_monitor r w (Run (ascii ''id'') args, a) = Some w"
  "smoke_monitor r w (Run (ascii ''ip'') [ascii ''route'', ascii ''show'', ascii ''default''], a) = Some w"
  "smoke_monitor r w (Run (ascii ''ip'') [ascii ''route'', ascii ''get'', probe], a) = Some w"
  "smoke_monitor r w (ReadFile (ascii ''/etc/resolv.conf''), a) = Some w"
  "smoke_monitor r w (ParentIsDir f, a) = Some w" "smoke_monitor r w (Exists f, a) = Some w"
  "smoke_monitor r w (Run (ascii ''sudo'') [ascii ''-n'', ascii ''true''], a) = Some w"
  by (auto simp: smoke_monitor_def)

lemma smoke_baseline: "watched (smoke_monitor r) w (capture_linux_tun_helper_global_baseline se env) (\<lambda>_ w'. w' = w)"
  unfolding capture_linux_tun_helper_global_baseline_def
  by (intro watched_bindI [where Q = "\<lambda>_ w'. w' = w"] watched_context watched_command_stdout watched_read_bytes)
     (simp_all add: smoke_quiet)

lemma smoke_verify_baseline: "watched (smoke_monitor r) w (verify_linux_tun_helper_global_baseline se env b) (\<lambda>_ w'. w' = w)"
  unfolding verify_linux_tun_helper_global_baseline_def
  by (rule watched_bindI [OF smoke_baseline]) (auto intro!: watched_pure_bind)

text \<open>The two looks, and what a look tells.\<close>

lemma smoke_device_present:
  "watched (smoke_monitor r) w (device_present env (r_device r))
     (\<lambda>p w'. w' = w\<lparr>w_device := w_device w \<or> w_created w \<and> p, w_device_gone := \<not> p\<rparr>)"
  unfolding device_present_def
  by (rule watched_command_success) (auto simp: smoke_monitor_def succeeded_def numeral_2_eq_2 split: answer.splits)

lemma smoke_show_route:
  assumes "r_route r \<noteq> ascii ''default''"
  shows "watched (smoke_monitor r) w (with_context c (show_route env (r_route r)))
     (\<lambda>res w'. w_journal w' = w_journal w \<and> w_created w' = w_created w \<and> w_added w' = w_added w
        \<and> w_device w' = w_device w \<and> w_device_gone w' = w_device_gone w
        \<and> (\<forall>t. res = Ok t \<longrightarrow> w_route w' = (w_route w \<or> w_added w \<and> contains t (r_device r))
                          \<and> w_route_gone w' = (\<not> contains t (r_device r)))
        \<and> ((\<forall>t. res \<noteq> Ok t) \<longrightarrow> w_route w' = w_route w))"
  unfolding show_route_def
  by (rule watched_context, rule watched_command_stdout)
     (use assms in \<open>auto simp: smoke_monitor_def shows_no_route_def shows_route_def numeral_2_eq_2 split: answer.splits\<close>)

definition residue_error :: "smoke_run \<Rightarrow> 'a any \<Rightarrow> bool" where
  "residue_error r res =
     (res = Err (Bail (ascii ''TUN helper smoke residue remains for device '' @ r_device r))
      \<or> res = Err (Bail (ascii ''TUN helper smoke route residue remains for '' @ r_route r)))"

lemma smoke_residue:
  assumes "r_route r \<noteq> ascii ''default''" "\<not> w_device w" "\<not> w_route w"
  shows "watched (smoke_monitor r) w (verify_linux_tun_helper_residue env (r_device r) (r_route r))
     (\<lambda>res w'. w_journal w' = w_journal w \<and> (w_device w' \<or> w_route w' \<longrightarrow> residue_error r res)
        \<and> (res = Ok () \<longrightarrow> w_device_gone w' \<and> w_route_gone w'))"
  unfolding verify_linux_tun_helper_residue_def [abs_def]
  by (rule watched_seq [OF smoke_device_present], rule watched_pure_bind,
      rule watched_bindI [OF smoke_show_route [OF assms(1)]])
     (use assms in \<open>auto simp: residue_error_def\<close>)

text \<open>Reading the identity changes only what is known of it; if it is the expected one, that is known.\<close>

definition same_but_seen :: "smoke_watch \<Rightarrow> smoke_watch \<Rightarrow> bool" where
  "same_but_seen w w' = (w_journal w' = w_journal w \<and> w_device w' = w_device w \<and> w_route w' = w_route w)"

lemma smoke_read_alias:
  "smoke_monitor r w (ReadFile (sysfs_file (r_device r) (ascii ''ifalias'')), a)
     = Some (w\<lparr>w_alias := alias_matches (r_identity r) a, w_tun := False\<rparr>)"
  "smoke_monitor r w (ReadFile (sysfs_file (r_device r) (ascii ''tun_flags'')), a) = Some (w\<lparr>w_tun := says_tun a\<rparr>)"
  by (simp_all add: smoke_monitor_def)

lemma validate_device_not_Panic [simp]: "validate_linux_phase_a_device d \<noteq> Panic"
proof -
  have "for_each (validate_route f) rs \<noteq> Panic" for f rs
    by (induction rs) (auto simp: and_then_Panic_iff validate_route_def)
  then show ?thesis
    by (auto simp: validate_linux_phase_a_device_def and_then_Panic_iff from_core_def validate_plan_def validate_device_name_def)
qed

lemma smoke_identity:
  "watched (smoke_monitor r) w (verify_linux_tun_device_identity env (r_device r) (r_identity r))
     (\<lambda>res w'. res \<noteq> Panic \<and> same_but_seen w w' \<and> (res = Ok () \<longrightarrow> w_alias w' \<and> w_tun w'))"
  (is "watched ?m w _ ?Q")
proof -
  have flags: "watched ?m w' (bind_prog (with_context c (read_to_string env (sysfs_file (r_device r) (ascii ''tun_flags''))))
       (\<lambda>flags. bind_prog (pure (ok_or e (parse_hex_u32 (strip_0x (trim flags)))))
         (\<lambda>flags. pure (ensure (is_tun flags) d)))) ?Q"
    if "w_alias w'" "same_but_seen w w'" for w' c e d
  proof (rule watched_bindI [where Q = "\<lambda>res w''. res \<noteq> Panic \<and> w_alias w'' \<and> same_but_seen w w''
      \<and> (\<forall>t. res = Ok t \<longrightarrow> w_tun w'' = says_tun (Content t))"])
    show "watched ?m w' (with_context c (read_to_string env (sysfs_file (r_device r) (ascii ''tun_flags''))))
        (\<lambda>res w''. res \<noteq> Panic \<and> w_alias w'' \<and> same_but_seen w w'' \<and> (\<forall>t. res = Ok t \<longrightarrow> w_tun w'' = says_tun (Content t)))"
      by (intro watched_context watched_read_to_string) (use that in \<open>auto simp: smoke_read_alias same_but_seen_def\<close>)
  qed (auto intro!: watched_pure_bind simp: says_tun_def)
  have ifalias: "watched ?m w (bind_prog (with_context c (read_to_string env (sysfs_file (r_device r) (ascii ''ifalias''))))
      (\<lambda>alias. bind_prog (pure (ensure (trim alias = r_identity r) d)) (\<lambda>_. k))) ?Q"
    if "\<And>w'. w_alias w' \<Longrightarrow> same_but_seen w w' \<Longrightarrow> watched ?m w' k ?Q" for c d k
  proof (rule watched_bindI [where Q = "\<lambda>res w'. res \<noteq> Panic \<and> same_but_seen w w'
      \<and> (\<forall>t. res = Ok t \<longrightarrow> w_alias w' = alias_matches (r_identity r) (Content t))"])
    show "watched ?m w (with_context c (read_to_string env (sysfs_file (r_device r) (ascii ''ifalias''))))
        (\<lambda>res w'. res \<noteq> Panic \<and> same_but_seen w w' \<and> (\<forall>t. res = Ok t \<longrightarrow> w_alias w' = alias_matches (r_identity r) (Content t)))"
      by (intro watched_context watched_read_to_string) (auto simp: smoke_read_alias same_but_seen_def)
  qed (auto intro!: watched_pure_bind that simp: alias_matches_def)
  show ?thesis
    unfolding verify_linux_tun_device_identity_def
    by (rule watched_pure_bind, rule watched_pure_bind, rule ifalias, rule flags) (auto simp: same_but_seen_def)
qed

definition run_for :: "smoke_run \<Rightarrow> TunHelperSmokeOptions \<Rightarrow> bool" where
  "run_for r opts = (so_device opts = r_device r \<and> so_include_route opts = r_route r \<and> so_tun_addr opts = r_addr r
     \<and> r_route r \<noteq> ascii ''default'')"

lemma smoke_sudo:
  assumes "r_allowed r \<and> w_journal w = r_text r" "\<And>a. succeeded a \<Longrightarrow> \<exists>w'. smoke_privileged r w args a = Some w' \<and> Q (Ok ()) w'"
    "\<And>a. \<not> succeeded a \<Longrightarrow> \<exists>w'. smoke_privileged r w args a = Some w' \<and> (\<forall>e. Q (Err e) w')"
  shows "watched (smoke_monitor r) w (sudo env args) Q"
proof -
  have m: "smoke_monitor r w (Run (ascii ''sudo'') (ascii ''-n'' # ascii ''ip'' # args), a) = smoke_privileged r w args a" for a
    using assms(1) by (simp add: smoke_monitor_def numeral_2_eq_2)
  show ?thesis
    unfolding sudo_def
    by (rule watched_run_checked) (use assms(2,3) in \<open>auto simp: m succeeded_def split: answer.splits\<close>)
qed

lemma privileged:
  "w_device w \<Longrightarrow> smoke_privileged r w (bind_identity_args (r_device r) (r_identity r)) a = Some w"
  "w_device w \<Longrightarrow> smoke_privileged r w (assign_addr_args (r_device r) (r_addr r)) a = Some w"
  "w_device w \<Longrightarrow> smoke_privileged r w (device_up_args (r_device r)) a = Some w"
  "smoke_privileged r w (create_device_args (r_device r) user) a
     = Some (w\<lparr>w_created := w_created w \<or> succeeded a, w_device := succeeded a, w_device_gone := False\<rparr>)"
  "w_device w \<Longrightarrow> smoke_privileged r w (add_route_args (r_device r) (r_route r)) a
     = Some (w\<lparr>w_added := w_added w \<or> succeeded a, w_route := succeeded a, w_route_gone := False\<rparr>)"
  "w_alias w \<Longrightarrow> w_tun w \<Longrightarrow>
     smoke_privileged r w (del_route_args (r_device r) (r_route r)) a = Some (w\<lparr>w_route := w_route w \<and> \<not> succeeded a\<rparr>)"
  "w_alias w \<Longrightarrow> w_tun w \<Longrightarrow>
     smoke_privileged r w (del_device_args (r_device r)) a = Some (w\<lparr>w_device := w_device w \<and> \<not> succeeded a\<rparr>)"
  by (simp_all add: smoke_privileged_def args_defs)

text \<open>Where the run stands between the steps: the journal is on disk, and the flags of the code say what exists.\<close>

definition stands :: "smoke_run \<Rightarrow> bool \<Rightarrow> bool \<Rightarrow> smoke_watch \<Rightarrow> bool" where
  "stands r created added w = (r_allowed r \<and> w_journal w = r_text r \<and> w_device w = created \<and> w_route w = added)"

lemma stands_seen: "stands r c a w \<Longrightarrow> same_but_seen w w' \<Longrightarrow> stands r c a w'"
  by (simp add: stands_def same_but_seen_def)

lemma smoke_sudo_keeps:
  assumes "stands r True False w" "\<And>a. smoke_privileged r w args a = Some w"
  shows "watched (smoke_monitor r) w (with_context c (sudo env args)) (\<lambda>res w'. res \<noteq> Panic \<and> stands r True False w')"
  by (rule watched_context, rule smoke_sudo) (use assms in \<open>auto simp: stands_def\<close>)

lemma smoke_configure_watched:
  assumes "run_for r opts" "stands r True False w"
  shows "watched (smoke_monitor r) w (smoke_configure env opts (r_identity r)) (\<lambda>res w'. res \<noteq> Panic \<and> stands r True (res = Ok ()) w')"
proof -
  have opts: "so_device opts = r_device r" "so_include_route opts = r_route r" "so_tun_addr opts = r_addr r"
    using assms(1) by (simp_all add: run_for_def)
  have d: "w_device w'" if "stands r True False w'" for w' using that by (simp add: stands_def)
  have add: "watched (smoke_monitor r) w' (with_context c (sudo env (add_route_args (r_device r) (r_route r))))
      (\<lambda>res w'. res \<noteq> Panic \<and> stands r True (res = Ok ()) w')" if "stands r True False w'" for w' c
    by (rule watched_context, rule smoke_sudo) (use that d [OF that] in \<open>auto simp: stands_def privileged\<close>)
  show ?thesis
    unfolding smoke_configure_def opts
    by (rule watched_bindI [OF smoke_sudo_keeps], fact, rule privileged, rule d, fact,
        rule watched_bindI [OF watched_mono [OF smoke_identity, where R = "\<lambda>res w'. res \<noteq> Panic \<and> stands r True False w'"]],
        auto intro: stands_seen,
        rule watched_bindI [OF smoke_sudo_keeps], auto intro: privileged d,
        rule watched_bindI [OF smoke_sudo_keeps], auto intro: privileged d add)
qed

lemma smoke_probe_watched:
  "watched (smoke_monitor r) w (smoke_probe env opts path probe) (\<lambda>res w'. res \<noteq> Panic \<and> w' = w)"
  unfolding smoke_probe_def
  by (rule watched_bindI [where Q = "\<lambda>res w'. res \<noteq> Panic \<and> w' = w"], rule watched_context, rule watched_command_stdout)
     (auto simp: smoke_quiet intro!: watched_pure_bind)

lemma smoke_apply_watched:
  assumes "run_for r opts" "stands r False False w"
  shows "watched (smoke_monitor r) w (smoke_apply env opts user (r_identity r) path probe)
     (\<lambda>(res, created, added) w'. res \<noteq> Panic \<and> stands r created added w' \<and> (added \<longrightarrow> created))"
  (is "watched ?m w _ ?Q")
proof -
  let ?create = "with_context (ascii ''create temporary TUN device'') (sudo env (create_device_args (so_device opts) user))"
  define third where "third = (\<lambda>x :: unit any. case x of
      Ok _ \<Rightarrow> (\<lambda>l. case smoke_probe env opts path probe l of (res, l) \<Rightarrow> ((res, True, True), l))
    | Err e \<Rightarrow> (\<lambda>l. ((Err e, True, False), l)) | Panic \<Rightarrow> (\<lambda>l. ((Panic, True, False), l)))"
  define second where "second = (\<lambda>x :: unit any. case x of
      Ok _ \<Rightarrow> (\<lambda>l. case smoke_configure env opts (r_identity r) l of (x, l) \<Rightarrow> third x l)
    | Err e \<Rightarrow> (\<lambda>l. ((Err e, False, False), l)) | Panic \<Rightarrow> (\<lambda>l. ((Panic, False, False), l)))"
  have b: "smoke_apply env opts user (r_identity r) path probe = (\<lambda>l. case ?create l of (x, l) \<Rightarrow> second x l)"
    by (auto simp: smoke_apply_def second_def third_def fun_eq_iff split: prod.splits outcome.splits)
  have create: "watched ?m w ?create (\<lambda>x w'. x \<noteq> Panic \<and> stands r (x = Ok ()) False w')"
    by (rule watched_context, rule smoke_sudo) (use assms in \<open>auto simp: stands_def run_for_def privileged\<close>)
  have const: "watched ?m w' (\<lambda>l. (y, l)) ?Q" if "?Q y w'" for w' y
    using that by (simp add: watched_def split: prod.splits)
  have t: "watched ?m w' (third x) ?Q" if "x \<noteq> Panic \<and> stands r True (x = Ok ()) w'" for x w'
    using that by (cases x) (auto simp: third_def intro!: const watched_map [OF watched_mono [OF smoke_probe_watched]])
  show ?thesis
    unfolding b
  proof (rule watched_seq [OF create])
    fix x :: "unit any" and w'
    assume x: "x \<noteq> Panic \<and> stands r (x = Ok ()) False w'"
    show "watched ?m w' (second x) ?Q"
    proof (cases x)
      case (Ok u)
      then have "stands r True False w'" using x by simp
      then have "watched ?m w' (\<lambda>l. case smoke_configure env opts (r_identity r) l of (x, l) \<Rightarrow> third x l) ?Q"
        by (rule watched_seq [OF smoke_configure_watched [OF assms(1)] t])
      then show ?thesis using Ok by (simp add: second_def)
    qed (use x in \<open>auto simp: second_def intro!: const\<close>)
  qed
qed

lemma watched_collect:
  assumes "cond \<Longrightarrow> watched m w p (\<lambda>res w'. (\<forall>e. res = Err e \<longrightarrow> Q (errors @ [label @ display_anyhow e]) w')
      \<and> ((\<forall>e. res \<noteq> Err e) \<longrightarrow> Q errors w'))" "\<not> cond \<Longrightarrow> Q errors w"
  shows "watched m w (collect label cond p errors) Q"
proof (cases cond)
  case True
  have c: "collect label cond p errors
      = (\<lambda>l. case p l of (x, l') \<Rightarrow> ((case x of Err e \<Rightarrow> errors @ [label @ display_anyhow e] | _ \<Rightarrow> errors), l'))"
    using True by (auto simp: collect_def fun_eq_iff split: prod.splits outcome.splits)
  show ?thesis
    unfolding c by (rule watched_map, rule watched_mono [OF assms(1) [OF True]]) (auto split: outcome.splits)
qed (use assms(2) in \<open>simp add: collect_def [abs_def] watched_def\<close>)

lemma smoke_cleanup_watched:
  assumes "stands r created added w" "added \<longrightarrow> created"
  shows "watched (smoke_monitor r) w (cleanup_linux_tun_helper_smoke env (r_device r) (r_route r) added created (r_identity r))
     (\<lambda>errors w'. w_journal w' = r_text r \<and> (errors = [] \<longrightarrow> stands r False False w'))"
  (is "watched ?m w _ ?Q")
proof -
  have allowed: "r_allowed r" using assms(1) by (simp add: stands_def)
  have ok: "res = Ok ()" if "res \<noteq> Panic" "\<forall>e. res \<noteq> Err e" for res :: "unit any" using that by (cases res) auto
  have verify: "watched ?m w (collect t created (verify_linux_tun_device_identity env (r_device r) (r_identity r)) [])
      (\<lambda>es w'. stands r created added w' \<and> (created \<and> es = [] \<longrightarrow> w_alias w' \<and> w_tun w'))" for t
    by (rule watched_collect, rule watched_mono [OF smoke_identity])
       (use assms ok in \<open>auto intro: stands_seen\<close>)
  have route: "watched ?m w' (collect t (added \<and> created \<and> es = []) (sudo env (del_route_args (r_device r) (r_route r))) es)
      (\<lambda>es' w''. w_journal w'' = r_text r \<and> w_device w'' = created \<and> (es' = [] \<longrightarrow> es = [] \<and> \<not> w_route w'')
         \<and> w_alias w'' = w_alias w' \<and> w_tun w'' = w_tun w')"
    if "stands r created added w'" "created \<and> es = [] \<longrightarrow> w_alias w' \<and> w_tun w'" for t es w'
    by (rule watched_collect, rule smoke_sudo) (use that assms(2) allowed in \<open>auto simp: stands_def privileged\<close>)
  have device: "watched ?m w'' (collect t (created \<and> created \<and> es = []) (sudo env (del_device_args (r_device r))) es') ?Q"
    if "w_journal w'' = r_text r" "w_device w'' = created" "es' = [] \<longrightarrow> es = [] \<and> \<not> w_route w''"
      "created \<and> es = [] \<longrightarrow> w_alias w'' \<and> w_tun w''" for t es es' w''
    by (rule watched_collect, rule smoke_sudo) (use that allowed in \<open>auto simp: stands_def privileged\<close>)
  show ?thesis
    unfolding cleanup_linux_tun_helper_smoke_def [abs_def] Let_def
    by (rule watched_seq [OF verify], rule watched_seq [OF route], simp_all, rule device [simplified], auto)
qed

text \<open>At the end of a run, what still exists is recorded in a journal that is still there.\<close>

definition accounted :: "smoke_run \<Rightarrow> smoke_watch \<Rightarrow> bool" where
  "accounted r w = (w_device w \<or> w_route w \<longrightarrow> w_journal w = r_text r)"

lemma remove_watched:
  "stands r False False w \<Longrightarrow> smoke_monitor r w (RemoveFile (r_path r), a) = Some (if a = Done then w\<lparr>w_journal := []\<rparr> else w)"
  by (simp add: smoke_monitor_def stands_def)

lemma smoke_failed_watched:
  assumes "run_for r opts" "stands r created added w" "added \<longrightarrow> created"
  shows "watched (smoke_monitor r) w (smoke_failed env opts (r_identity r) (r_path r) created added err)
     (\<lambda>res w'. (\<exists>e. res = Err e) \<and> accounted r w')"
proof -
  have opts: "so_device opts = r_device r" "so_include_route opts = r_route r" using assms(1) by (simp_all add: run_for_def)
  have remove: "watched (smoke_monitor r) w' (\<lambda>l. case call env (RemoveFile (r_path r)) l of (_, l) \<Rightarrow> (Err err, l))
      (\<lambda>(res :: bytes list any) w'. (\<exists>e. res = Err e) \<and> accounted r w')" if "stands r False False w'" for w'
    by (rule watched_map, rule watched_call) (use that in \<open>simp add: remove_watched [OF that] accounted_def stands_def\<close>)
  have keep: "watched (smoke_monitor r) w' (\<lambda>l. (Err e, l)) (\<lambda>(res :: bytes list any) w'. (\<exists>e. res = Err e) \<and> accounted r w')"
    if "w_journal w' = r_text r" for e w' using that by (simp add: watched_def accounted_def)
  show ?thesis
    unfolding smoke_failed_def [abs_def] opts
  proof (rule watched_seq [OF smoke_cleanup_watched [OF assms(2,3)]])
    fix errors :: "bytes list" and w'
    assume "w_journal w' = r_text r \<and> (errors = [] \<longrightarrow> stands r False False w')"
    then show "watched (smoke_monitor r) w' (\<lambda>l. if errors = [] then (case call env (RemoveFile (r_path r)) l of (_, l) \<Rightarrow> (Err err, l))
        else (Err (Bail (display_anyhow err @ ascii ''; cleanup also reported: '' @ join (ascii ''; '') errors
            @ ascii ''; rollback journal retained at '' @ r_path r)), l)) (\<lambda>(res :: bytes list any) w'. (\<exists>e. res = Err e) \<and> accounted r w')"
      using remove keep by (cases "errors = []") simp_all
  qed
qed

text \<open>How every run ends: what exists is recorded in the journal, unless the last look found what the deletions reported as
deleted; a success leaves nothing behind, and the machine has shown it.\<close>

definition ends_well :: "smoke_run \<Rightarrow> 'a any \<Rightarrow> smoke_watch \<Rightarrow> bool" where
  "ends_well r res w =
     ((accounted r w \<or> residue_error r res)
      \<and> ((\<exists>x. res = Ok x) \<longrightarrow>
           \<not> w_device w \<and> \<not> w_route w \<and> w_journal w = [] \<and> (w_created w \<longrightarrow> w_device_gone w \<and> w_route_gone w)))"

lemma smoke_succeeded_watched:
  assumes "run_for r opts" "stands r created added w" "added \<longrightarrow> created"
  shows "watched (smoke_monitor r) w (smoke_succeeded se env opts (r_identity r) (r_path r) baseline created added lines) (ends_well r)"
  (is "watched ?m w _ ?Q")
proof -
  have opts: "so_device opts = r_device r" "so_include_route opts = r_route r" and route: "r_route r \<noteq> ascii ''default''"
    using assms(1) by (simp_all add: run_for_def)
  have finish: "watched ?m w' (bind_prog (verify_linux_tun_helper_residue env (r_device r) (r_route r)) (\<lambda>_.
      bind_prog (verify_linux_tun_helper_global_baseline se env baseline) (\<lambda>_. pure (Ok ls)))) ?Q"
    if "\<not> w_device w'" "\<not> w_route w'" "w_journal w' = []" for w' ls
    by (rule watched_bindI [OF smoke_residue [OF route that(1,2)]], rule watched_bindI [OF smoke_verify_baseline])
       (use that in \<open>auto simp: ends_well_def accounted_def residue_error_def\<close>)
  have remove: "watched ?m w' (bind_prog (with_context c (unit_call env (RemoveFile (r_path r)))) (\<lambda>_. k)) ?Q"
    if "stands r False False w'" "\<And>w''. \<not> w_device w'' \<Longrightarrow> \<not> w_route w'' \<Longrightarrow> w_journal w'' = [] \<Longrightarrow> watched ?m w'' k ?Q" for w' c k
  proof (rule watched_bindI [where Q = "\<lambda>res w''. \<not> w_device w'' \<and> \<not> w_route w'' \<and> (res = Ok () \<longrightarrow> w_journal w'' = [])"])
    show "watched ?m w' (with_context c (unit_call env (RemoveFile (r_path r))))
        (\<lambda>res w''. \<not> w_device w'' \<and> \<not> w_route w'' \<and> (res = Ok () \<longrightarrow> w_journal w'' = []))"
      by (rule watched_context, rule watched_unit_call) (use that(1) in \<open>auto simp: remove_watched [OF that(1)] stands_def\<close>)
  qed (use that(2) in \<open>auto simp: ends_well_def accounted_def\<close>)
  show ?thesis
    unfolding smoke_succeeded_def [abs_def] opts
    by (rule watched_seq [OF smoke_cleanup_watched [OF assms(2,3)]], rule watched_pure_bind, rule remove, simp, rule finish)
       (auto simp: ends_well_def accounted_def)
qed

lemma smoke_write_journal:
  assumes "w_journal w = []" "\<not> w_device w" "\<not> w_route w"
    and "r_text r = to_string_pretty jl (journal_json opts rp probe (r_identity r)) @ [10]"
  shows "watched (smoke_monitor r) w (write_tun_helper_rollback_journal jl env opts rp (r_path r) probe (r_identity r))
     (\<lambda>res w'. res \<noteq> Panic \<and> \<not> w_device w' \<and> \<not> w_route w' \<and> (res = Ok () \<longrightarrow> w_journal w' = r_text r))"
  (is "watched ?m w _ ?Q")
proof -
  let ?doc = "to_string_pretty jl (journal_json opts rp probe (r_identity r))"
  have parent: "watched ?m w (parent_dir env (r_path r)) (\<lambda>_ w'. w' = w)"
    unfolding parent_dir_def [abs_def] by (rule watched_map, rule watched_call) (simp add: smoke_quiet)
  have create: "watched ?m w (with_context c (unit_call env (CreateNew (r_path r)))) (\<lambda>res w'. res \<noteq> Panic \<and> w' = w)" for c
    by (rule watched_context, rule watched_unit_call) (auto simp: smoke_monitor_def)
  have doc: "watched ?m w (with_context c (unit_call env (WriteFile (r_path r) ?doc)))
      (\<lambda>res w'. res \<noteq> Panic \<and> \<not> w_device w' \<and> \<not> w_route w' \<and> (res = Ok () \<longrightarrow> w_journal w' = ?doc))" for c
    by (rule watched_context, rule watched_unit_call) (use assms in \<open>auto simp: smoke_monitor_def\<close>)
  have newline: "watched ?m w' (with_context c (unit_call env (WriteFile (r_path r) [10]))) ?Q"
    if "\<not> w_device w'" "\<not> w_route w'" "w_journal w' = ?doc" for c w'
    by (rule watched_context, rule watched_unit_call) (use assms that in \<open>auto simp: smoke_monitor_def\<close>)
  show ?thesis
    unfolding write_tun_helper_rollback_journal_def [abs_def]
    by (rule watched_seq [OF parent], rule watched_pure_bind, rule watched_pure_bind, simp only: ,
        rule watched_bindI [OF create], simp only: , rule watched_bindI [OF doc], rule newline) (use assms in auto)
qed

definition smoke_allowed :: "machine \<Rightarrow> TunHelperSmokeOptions \<Rightarrow> bool" where
  "smoke_allowed se opts =
     (so_apply opts \<and> se_approval se = Some (ascii ''1'') \<and> se_linux se
      \<and> so_approved_host_label opts = Some APPROVED_TUN_HELPER_HOST_LABEL \<and> so_proxy_vpn_conflict_checked opts)"

definition smoke_plan :: "TunHelperSmokeOptions \<Rightarrow> TunRoute \<Rightarrow> TunRuntimePlan" where
  "smoke_plan opts route =
     (let p = helper_plan (so_device opts) route in
      \<lparr>rp_device_name = tp_device_name p, rp_apply_actions = apply_actions p, rp_rollback_actions = rollback_actions p\<rparr>)"

definition smoke_run_of ::
  "machine \<Rightarrow> json_library \<Rightarrow> TunHelperSmokeOptions \<Rightarrow> TunRuntimePlan \<Rightarrow> bytes \<Rightarrow> smoke_run" where
  "smoke_run_of se jl opts rp probe =
     \<lparr>r_allowed = smoke_allowed se opts,
      r_path = tun_helper_rollback_journal_path se (so_rollback_journal opts) (so_device opts),
      r_text = to_string_pretty jl (journal_json opts rp probe (identity_prefix @ se_random_id se)) @ [10],
      r_device = so_device opts, r_route = so_include_route opts, r_addr = so_tun_addr opts,
      r_identity = identity_prefix @ se_random_id se\<rparr>"

definition untouched :: "smoke_watch \<Rightarrow> bool" where
  "untouched w = (w_journal w = [] \<and> \<not> w_created w \<and> \<not> w_added w \<and> \<not> w_device w \<and> \<not> w_route w)"

lemma untouched_ends_well: "untouched w \<Longrightarrow> ends_well r res w"
  by (simp add: untouched_def ends_well_def accounted_def)

lemma smoke_body_watched:
  assumes "run_for r opts" "stands r False False w"
  shows "watched (smoke_monitor r) w (\<lambda>l. case smoke_apply env opts user (r_identity r) (r_path r) probe l of
       ((result, created_device, added_route), l) \<Rightarrow>
       (case result of
          Ok lines \<Rightarrow> smoke_succeeded se env opts (r_identity r) (r_path r) baseline created_device added_route lines l
        | Err err \<Rightarrow> smoke_failed env opts (r_identity r) (r_path r) created_device added_route err l
        | Panic \<Rightarrow> (Panic, l))) (ends_well r)"
proof -
  define k where "k = (\<lambda>(result, created_device, added_route). case result of
      Ok lines \<Rightarrow> smoke_succeeded se env opts (r_identity r) (r_path r) baseline created_device added_route lines
    | Err err \<Rightarrow> smoke_failed env opts (r_identity r) (r_path r) created_device added_route err
    | Panic \<Rightarrow> (\<lambda>l. (Panic, l)))"
  have step: "watched (smoke_monitor r) w' (k (res, created, added)) (ends_well r)"
    if "res \<noteq> Panic" "stands r created added w'" "added \<longrightarrow> created" for res created added w'
  proof (cases res)
    case (Ok lines)
    then show ?thesis
      using smoke_succeeded_watched [OF assms(1) that(2,3)] by (simp add: k_def)
  next
    case (Err e)
    then show ?thesis
      using watched_mono [OF smoke_failed_watched [OF assms(1) that(2,3)], of "ends_well r"] by (auto simp: k_def ends_well_def)
  qed (use that in simp)
  have "watched (smoke_monitor r) w (\<lambda>l. case smoke_apply env opts user (r_identity r) (r_path r) probe l of (x, l) \<Rightarrow> k x l) (ends_well r)"
    by (rule watched_seq [OF smoke_apply_watched [OF assms]]) (auto intro: step)
  moreover have "(case y of (x, l) \<Rightarrow> k x l) = (case y of ((result, created_device, added_route), l) \<Rightarrow>
       (case result of
          Ok lines \<Rightarrow> smoke_succeeded se env opts (r_identity r) (r_path r) baseline created_device added_route lines l
        | Err err \<Rightarrow> smoke_failed env opts (r_identity r) (r_path r) created_device added_route err l
        | Panic \<Rightarrow> (Panic, l)))" for y
    by (auto simp: k_def split: prod.splits outcome.splits)
  ultimately show ?thesis by simp
qed

lemma run_smoke_watched:
  assumes "phase_a_route_probe (so_include_route opts) = Ok probe" "r = smoke_run_of se jl opts rp probe" "r_allowed r" "untouched w"
  shows "watched (smoke_monitor r) w (run_linux_tun_helper_smoke se jl env opts rp) (ends_well r)"
proof -
  let ?m = "smoke_monitor r" and ?E = "ends_well r"
  have f: "run_for r opts" "identity_prefix @ se_random_id se = r_identity r"
      "tun_helper_rollback_journal_path se (so_rollback_journal opts) (so_device opts) = r_path r"
      "r_text r = to_string_pretty jl (journal_json opts rp probe (r_identity r)) @ [10]"
    using assms(1,2) by (auto simp: smoke_run_of_def run_for_def phase_a_route_probe_def split: if_splits)
  have route: "r_route r \<noteq> ascii ''default''" and opts: "so_device opts = r_device r" "so_include_route opts = r_route r"
    using f(1) by (simp_all add: run_for_def)
  have quiet: "watched ?m w (with_context c (command_stdout env (ascii ''id'') args)) (\<lambda>_ w'. w' = w)" for c args
    by (rule watched_context, rule watched_command_stdout) (simp_all add: smoke_quiet)
  have journal: "watched ?m w' (with_context c (write_tun_helper_rollback_journal jl env opts rp (r_path r) probe (r_identity r)))
      (\<lambda>res w'. res \<noteq> Panic \<and> \<not> w_device w' \<and> \<not> w_route w' \<and> (res = Ok () \<longrightarrow> w_journal w' = r_text r))"
    if "untouched w'" for c w'
    by (rule watched_context, rule watched_mono [OF smoke_write_journal [OF _ _ _ f(4)]]) (use that in \<open>auto simp: untouched_def\<close>)
  have body: "watched ?m w' (bind_prog (with_context c (write_tun_helper_rollback_journal jl env opts rp (r_path r) probe (r_identity r))) (\<lambda>_ l.
      case smoke_apply env opts user (r_identity r) (r_path r) probe l of ((result, created_device, added_route), l) \<Rightarrow>
       (case result of
          Ok lines \<Rightarrow> smoke_succeeded se env opts (r_identity r) (r_path r) baseline created_device added_route lines l
        | Err err \<Rightarrow> smoke_failed env opts (r_identity r) (r_path r) created_device added_route err l
        | Panic \<Rightarrow> (Panic, l)))) ?E"
    if "untouched w'" for c user baseline w'
    by (rule watched_bindI [OF journal [OF that]], rule smoke_body_watched [OF f(1)])
       (use assms(3) in \<open>auto simp: stands_def ends_well_def accounted_def\<close>)
  have look: "watched ?m w (\<lambda>l. case device_present env (so_device opts) l of (present, l) \<Rightarrow>
      bind_prog (pure (ensure (\<not> present) m1)) (\<lambda>_. bind_prog (with_context c (show_route env (so_include_route opts))) (\<lambda>existing.
      bind_prog (pure (ensure (trim existing = []) m2)) (\<lambda>_. k))) l) ?E"
    if "\<And>w'. untouched w' \<Longrightarrow> watched ?m w' k ?E" for m1 m2 c k
    unfolding opts
  proof (rule watched_seq [OF watched_mono [OF smoke_device_present, where R = "\<lambda>_ w'. untouched w'"]])
    fix present w'
    assume u: "untouched w'"
    have show_route: "watched ?m w' (with_context c (show_route env (r_route r))) (\<lambda>_ w'. untouched w')"
      by (rule watched_mono [OF smoke_show_route [OF route]]) (use u in \<open>auto simp: untouched_def\<close>)
    show "watched ?m w' (bind_prog (pure (ensure (\<not> present) m1)) (\<lambda>_. bind_prog (with_context c (show_route env (r_route r))) (\<lambda>existing.
      bind_prog (pure (ensure (trim existing = []) m2)) (\<lambda>_. k)))) ?E"
      by (rule watched_pure_bind, rule watched_bindI [OF show_route], rule watched_pure_bind)
         (use that u untouched_ends_well in auto)
  qed (use assms(4) in \<open>auto simp: untouched_def\<close>)
  show ?thesis
    unfolding run_linux_tun_helper_smoke_def Let_def f(2,3) assms(1)
    apply (rule watched_pure_bind)
      apply (rule watched_pure_bind)
        apply (rule watched_bindI [OF quiet])
          apply (simp only: outcome.inject, hypsubst)
          apply (rule watched_bindI [OF smoke_baseline])
            apply (hypsubst, rule look)
            apply (erule body)
           apply (use untouched_ends_well [OF assms(4)] in auto)
    done
qed

subsection \<open>The smoke test as a command\<close>

lemma from_core_Ok [simp]: "from_core x = Ok y \<longleftrightarrow> x = Ok y"
  by (simp add: from_core_def)

lemma detect_watched:
  "watched (smoke_monitor r) w (detect_tun_helper_environment se env b)
     (\<lambda>e w'. w' = w \<and> (en_operator_approved e \<longrightarrow> se_approval se = Some (ascii ''1'')) \<and> en_platform_supported e = se_linux se)"
proof -
  have sudo: "watched (smoke_monitor r) w (\<lambda>l. if c then sudo_available env l else (False, l)) (\<lambda>_ w'. w' = w)" for c
  proof (cases c)
    case True
    have "watched (smoke_monitor r) w (sudo_available env) (\<lambda>_ w'. w' = w)"
      unfolding sudo_available_def by (rule watched_command_success) (simp add: smoke_quiet)
    then show ?thesis using True by simp
  qed (simp add: watched_def)
  show ?thesis
    unfolding detect_tun_helper_environment_def [abs_def] Let_def
    by (rule watched_map, rule watched_mono [OF sudo]) simp
qed

lemma available_watched:
  "watched (smoke_monitor r) w (\<lambda>l. if c then (True, l) else rollback_journal_path_available env path l) (\<lambda>_ w'. w' = w)"
proof (cases c)
  case False
  have parent: "watched (smoke_monitor r) w (parent_dir env path) (\<lambda>_ w'. w' = w)"
    unfolding parent_dir_def [abs_def] by (rule watched_map, rule watched_call) (simp add: smoke_quiet)
  have ask: "watched (smoke_monitor r) w (ask env (Exists path)) (\<lambda>_ w'. w' = w)"
    unfolding ask_def [abs_def] by (rule watched_map, rule watched_call) (simp add: smoke_quiet)
  have "watched (smoke_monitor r) w (rollback_journal_path_available env path) (\<lambda>_ w'. w' = w)"
    unfolding rollback_journal_path_available_def [abs_def]
  proof (rule watched_seq [OF parent])
    fix p w'
    assume "w' = w"
    then show "watched (smoke_monitor r) w' (\<lambda>l'. if p = Some True then (case ask env (Exists path) l' of (b, l'') \<Rightarrow> (\<not> b, l'')) else (False, l'))
        (\<lambda>_ w'. w' = w)"
      using watched_map [where f = Not and Q = "\<lambda>_ w'. w' = w", OF ask] by (cases "p = Some True") (simp_all add: watched_def)
  qed
  then show ?thesis using False by simp
qed (simp add: watched_def)

lemma decided:
  assumes "and_then (from_core (evaluate_tun_apply_safety plan context)) (\<lambda>decision.
      and_then (if is_allowed decision then map_ok Some (from_core (build_tun_runtime_plan plan context)) else Ok None)
        (\<lambda>rp. Ok \<lparr>sr_lines = f decision rp, sr_decision = decision, sr_runtime_plan = rp\<rparr>)) = Ok rep"
    and "is_allowed (sr_decision rep)"
  shows "context_ok context" "sr_runtime_plan rep = Some \<lparr>rp_device_name = tp_device_name plan,
       rp_apply_actions = apply_actions plan, rp_rollback_actions = rollback_actions plan\<rparr>"
proof -
  from assms obtain d where d: "evaluate_tun_apply_safety plan context = Ok d" "sr_decision rep = d"
    by (auto simp: and_then_Ok_iff)
  then show "context_ok context" using apply_safety_allowed [of plan "context"] assms(2) by blast
  from assms d obtain rp where rp: "build_tun_runtime_plan plan context = Ok rp"
      "\<lparr>sr_lines = f d (Some rp), sr_decision = d, sr_runtime_plan = Some rp\<rparr> = rep"
    by (auto simp: and_then_Ok_iff)
  then have "sr_runtime_plan rep = Some rp" by (metis TunHelperSmokeReport.select_convs(3))
  then show "sr_runtime_plan rep = Some \<lparr>rp_device_name = tp_device_name plan,
       rp_apply_actions = apply_actions plan, rp_rollback_actions = rollback_actions plan\<rparr>"
    using rp(1) by (simp add: build_tun_runtime_plan_def runtime_plan_Ok_iff)
qed

lemma smoke_report_watched:
  assumes "parse_tun_route (so_include_route opts) = Ok route"
    and "en_operator_approved e \<longrightarrow> se_approval se = Some (ascii ''1'')" "en_platform_supported e = se_linux se"
  shows "watched (smoke_monitor r) w (tun_helper_smoke_report se env opts e)
     (\<lambda>res w'. w' = w \<and> (\<forall>rep. res = Ok rep \<longrightarrow> is_allowed (sr_decision rep) \<longrightarrow>
        smoke_allowed se opts \<and> sr_runtime_plan rep = Some (smoke_plan opts route)))"
  unfolding tun_helper_smoke_report_def
  apply (rule watched_pure_bind)
    apply (rule watched_pure_bind)
      apply (rule watched_pure_bind)
        apply (rule watched_pure_bind)
          apply (unfold Let_def)
          apply (rule watched_seq [OF available_watched])
          apply (simp only: watched_pure)
          apply (intro conjI allI impI refl)
           apply (frule (1) decided(1))
           apply (drule (1) decided(2))
           apply (use assms in \<open>simp add: smoke_allowed_def context_ok_def is_approved_host_label_def split: option.splits\<close>)
          apply (drule (1) decided(2))
          apply (use assms(1) in \<open>simp add: smoke_plan_def Let_def\<close>)
         apply simp_all
  done

lemma tun_helper_smoke_watched:
  assumes "parse_tun_route (so_include_route opts) = Ok route" "phase_a_route_probe (so_include_route opts) = Ok probe"
    and "r = smoke_run_of se jl opts (smoke_plan opts route) probe" "untouched w"
  shows "watched (smoke_monitor r) w (tun_helper_smoke se jl env opts) (ends_well r)"
proof -
  have body: "watched (smoke_monitor r) w (bind_prog (tun_helper_smoke_report se env opts e) (\<lambda>report.
      if \<not> so_apply opts then pure (Ok (sr_lines report))
      else bind_prog (pure (ensure (is_allowed (sr_decision report)) m1)) (\<lambda>_.
           bind_prog (pure (ok_or m2 (sr_runtime_plan report))) (\<lambda>rp.
           bind_prog (run_linux_tun_helper_smoke se jl env opts rp) (\<lambda>lines. pure (Ok (sr_lines report @ lines)))))))
      (ends_well r)"
    if "en_operator_approved e \<longrightarrow> se_approval se = Some (ascii ''1'')" "en_platform_supported e = se_linux se" for e m1 m2
    apply (rule watched_bindI [OF smoke_report_watched [OF assms(1) that]])
      apply (cases "so_apply opts")
       apply (simp only: simp_thms if_False)
       apply (rule watched_pure_bind)
         apply (rule watched_pure_bind)
           apply (rule watched_bindI [OF run_smoke_watched [OF assms(2)]])
              apply (use assms(3,4) in \<open>auto simp: ends_well_def smoke_run_of_def untouched_def accounted_def\<close>)
    done
  show ?thesis
    unfolding tun_helper_smoke_def [abs_def]
    by (rule watched_seq [OF detect_watched], elim conjE, hypsubst, rule body) simp_all
qed

subsection \<open>What the rollback may do\<close>

record rollback_watch =
  b_alias :: bool
  b_tun :: bool
  b_device_gone :: bool
  b_route_gone :: bool

definition rollback_start :: rollback_watch where
  "rollback_start = \<lparr>b_alias = False, b_tun = False, b_device_gone = False, b_route_gone = False\<rparr>"

text \<open>The rollback runs only the two deletions of its journal, and only for a device that has just been identified; it
removes the journal only after the machine has shown, with no command in between, that device and route are gone. It
writes no file.\<close>

definition rollback_monitor :: "bytes \<Rightarrow> TunHelperRollbackJournal \<Rightarrow> rollback_watch monitor" where
  "rollback_monitor path j b x =
     (case x of
        (Run program args, a) \<Rightarrow>
          if program = ascii ''sudo'' then
            (if b_alias b \<and> b_tun b
                \<and> (args = ascii ''-n'' # ascii ''ip'' # del_route_args (jo_device j) (jo_include_route j)
                   \<or> args = ascii ''-n'' # ascii ''ip'' # del_device_args (jo_device j))
             then Some (b\<lparr>b_device_gone := False, b_route_gone := False\<rparr>) else None)
          else if program \<noteq> ascii ''ip'' then None
          else if args = [ascii ''link'', ascii ''show'', ascii ''dev'', jo_device j] then Some (b\<lparr>b_device_gone := \<not> succeeded a\<rparr>)
          else if args = [ascii ''route'', ascii ''show'', jo_include_route j] then Some (b\<lparr>b_route_gone := shows_no_route (jo_device j) a\<rparr>)
          else if args = [ascii ''route'', ascii ''show'', ascii ''default''] then Some b
          else None
      | (ReadFile file, a) \<Rightarrow>
          if file = sysfs_file (jo_device j) (ascii ''ifalias'')
          then Some (b\<lparr>b_alias := alias_matches (jo_device_identity j) a, b_tun := False\<rparr>)
          else if file = sysfs_file (jo_device j) (ascii ''tun_flags'') then Some (b\<lparr>b_tun := says_tun a\<rparr>)
          else if file = ascii ''/etc/resolv.conf'' then Some b
          else None
      | (RemoveFile file, a) \<Rightarrow> if file = path \<and> b_device_gone b \<and> b_route_gone b then Some b else None
      | _ \<Rightarrow> None)"

lemma rollback_steps:
  "rollback_monitor path j b (ReadFile (sysfs_file (jo_device j) (ascii ''ifalias'')), a)
     = Some (b\<lparr>b_alias := alias_matches (jo_device_identity j) a, b_tun := False\<rparr>)"
  "rollback_monitor path j b (ReadFile (sysfs_file (jo_device j) (ascii ''tun_flags'')), a) = Some (b\<lparr>b_tun := says_tun a\<rparr>)"
  "rollback_monitor path j b (ReadFile (ascii ''/etc/resolv.conf''), a) = Some b"
  "rollback_monitor path j b (Run (ascii ''ip'') [ascii ''link'', ascii ''show'', ascii ''dev'', jo_device j], a)
     = Some (b\<lparr>b_device_gone := \<not> succeeded a\<rparr>)"
  "rollback_monitor path j b (Run (ascii ''ip'') [ascii ''route'', ascii ''show'', jo_include_route j], a)
     = Some (b\<lparr>b_route_gone := shows_no_route (jo_device j) a\<rparr>)"
  "jo_include_route j \<noteq> ascii ''default'' \<Longrightarrow>
     rollback_monitor path j b (Run (ascii ''ip'') [ascii ''route'', ascii ''show'', ascii ''default''], a) = Some b"
  by (auto simp: rollback_monitor_def)

lemma rollback_identity:
  "watched (rollback_monitor path j) b (verify_linux_tun_device_identity env (jo_device j) (jo_device_identity j))
     (\<lambda>res b'. res = Ok () \<longrightarrow> b_alias b' \<and> b_tun b')"
  (is "watched ?m b _ ?Q")
proof -
  have flags: "watched ?m b' (bind_prog (with_context c (read_to_string env (sysfs_file (jo_device j) (ascii ''tun_flags''))))
       (\<lambda>flags. bind_prog (pure (ok_or e (parse_hex_u32 (strip_0x (trim flags)))))
         (\<lambda>flags. pure (ensure (is_tun flags) d)))) ?Q"
    if "b_alias b'" for b' c e d
  proof (rule watched_bindI [where Q = "\<lambda>res b''. b_alias b'' \<and> (\<forall>t. res = Ok t \<longrightarrow> b_tun b'' = says_tun (Content t))"])
    show "watched ?m b' (with_context c (read_to_string env (sysfs_file (jo_device j) (ascii ''tun_flags''))))
        (\<lambda>res b''. b_alias b'' \<and> (\<forall>t. res = Ok t \<longrightarrow> b_tun b'' = says_tun (Content t)))"
      by (intro watched_context watched_read_to_string) (use that in \<open>auto simp: rollback_steps\<close>)
  qed (auto intro!: watched_pure_bind simp: says_tun_def)
  have ifalias: "watched ?m b (bind_prog (with_context c (read_to_string env (sysfs_file (jo_device j) (ascii ''ifalias''))))
      (\<lambda>alias. bind_prog (pure (ensure (trim alias = jo_device_identity j) d)) (\<lambda>_. k))) ?Q"
    if "\<And>b'. b_alias b' \<Longrightarrow> watched ?m b' k ?Q" for c d k
  proof (rule watched_bindI [where Q = "\<lambda>res b'. \<forall>t. res = Ok t \<longrightarrow> b_alias b' = alias_matches (jo_device_identity j) (Content t)"])
    show "watched ?m b (with_context c (read_to_string env (sysfs_file (jo_device j) (ascii ''ifalias''))))
        (\<lambda>res b'. \<forall>t. res = Ok t \<longrightarrow> b_alias b' = alias_matches (jo_device_identity j) (Content t))"
      by (intro watched_context watched_read_to_string) (auto simp: rollback_steps)
  qed (auto intro!: watched_pure_bind that simp: alias_matches_def)
  show ?thesis
    unfolding verify_linux_tun_device_identity_def
    by (rule watched_pure_bind, rule watched_pure_bind, rule ifalias, rule flags) auto
qed

lemma rollback_sudo:
  assumes "b_alias b" "b_tun b" "args = del_route_args (jo_device j) (jo_include_route j) \<or> args = del_device_args (jo_device j)"
  shows "watched (rollback_monitor path j) b (with_context c (sudo env args)) (\<lambda>_ b'. b_alias b' \<and> b_tun b')"
  unfolding sudo_def
  by (rule watched_context, rule watched_run_checked) (use assms in \<open>auto simp: rollback_monitor_def\<close>)

lemma rollback_baseline:
  assumes "jo_include_route j \<noteq> ascii ''default''"
  shows "watched (rollback_monitor path j) b (capture_linux_tun_helper_global_baseline se env) (\<lambda>_ b'. b' = b)"
  unfolding capture_linux_tun_helper_global_baseline_def
  by (intro watched_bindI [where Q = "\<lambda>_ b'. b' = b"] watched_context watched_command_stdout watched_read_bytes)
     (simp_all add: rollback_steps assms)

lemma rollback_verify_baseline:
  assumes "jo_include_route j \<noteq> ascii ''default''"
  shows "watched (rollback_monitor path j) b (verify_linux_tun_helper_global_baseline se env x) (\<lambda>_ b'. b' = b)"
  unfolding verify_linux_tun_helper_global_baseline_def
  by (rule watched_bindI [OF rollback_baseline [OF assms]]) (auto intro!: watched_pure_bind)

lemma rollback_device_present:
  "watched (rollback_monitor path j) b (device_present env (jo_device j)) (\<lambda>p b'. b' = b\<lparr>b_device_gone := \<not> p\<rparr>)"
  unfolding device_present_def by (rule watched_command_success) (auto simp: rollback_steps succeeded_def split: answer.splits)

lemma rollback_show_route:
  "watched (rollback_monitor path j) b (with_context c (show_route env (jo_include_route j)))
     (\<lambda>res b'. b_alias b' = b_alias b \<and> b_tun b' = b_tun b \<and> b_device_gone b' = b_device_gone b
        \<and> (\<forall>t. res = Ok t \<longrightarrow> b_route_gone b' = (\<not> contains t (jo_device j))))"
  unfolding show_route_def
  by (rule watched_context, rule watched_command_stdout) (auto simp: rollback_steps shows_no_route_def)

lemma rollback_residue:
  "watched (rollback_monitor path j) b (verify_linux_tun_helper_residue env (jo_device j) (jo_include_route j))
     (\<lambda>res b'. res = Ok () \<longrightarrow> b_device_gone b' \<and> b_route_gone b')"
  unfolding verify_linux_tun_helper_residue_def [abs_def]
  by (rule watched_seq [OF rollback_device_present], rule watched_pure_bind, rule watched_bindI [OF rollback_show_route]) auto

lemma run_rollback_watched:
  assumes route: "jo_include_route j \<noteq> ascii ''default''"
  shows "watched (rollback_monitor path j) b (run_linux_tun_helper_rollback se env path j)
     (\<lambda>res b'. (\<exists>ls. res = Ok ls) \<longrightarrow> b_device_gone b' \<and> b_route_gone b')"
  (is "watched ?m b _ ?Q")
proof -
  let ?seen = "\<lambda>p b. p \<longrightarrow> b_alias b \<and> b_tun b"
  have remove: "watched ?m b' (bind_prog (with_context c (unit_call env (RemoveFile path))) (\<lambda>_. pure (Ok ls))) ?Q"
    if "b_device_gone b'" "b_route_gone b'" for b' c ls
  proof (rule watched_bindI [where Q = "\<lambda>_ b''. b'' = b'"])
    show "watched ?m b' (with_context c (unit_call env (RemoveFile path))) (\<lambda>_ b''. b'' = b')"
      by (rule watched_context, rule watched_unit_call) (use that in \<open>auto simp: rollback_monitor_def\<close>)
  qed (use that in auto)
  have finish: "watched ?m b' (bind_prog (verify_linux_tun_helper_residue env (jo_device j) (jo_include_route j)) (\<lambda>_.
      bind_prog (verify_linux_tun_helper_global_baseline se env x) (\<lambda>_.
      bind_prog (with_context c (unit_call env (RemoveFile path))) (\<lambda>_. pure (Ok ls))))) ?Q" for b' x c ls
    by (rule watched_bindI [OF rollback_residue], rule watched_bindI [OF rollback_verify_baseline [OF route]], rule remove) auto
  have delete: "watched ?m b' (bind_prog (if cond then bind_prog (pure (ensure present m1)) (\<lambda>_.
        with_context c1 (sudo env (del_route_args (jo_device j) (jo_include_route j)))) else pure (Ok ())) (\<lambda>_.
      bind_prog (if present then with_context c2 (sudo env (del_device_args (jo_device j))) else pure (Ok ())) (\<lambda>_. k))) ?Q"
    if "?seen present b'" "\<And>b''. watched ?m b'' k ?Q" for b' cond present m1 c1 c2 k
  proof -
    have dev: "watched ?m b'' (bind_prog (if present then with_context c2 (sudo env (del_device_args (jo_device j))) else pure (Ok ()))
        (\<lambda>_. k)) ?Q" if "?seen present b''" for b''
    proof (cases present)
      case True
      then show ?thesis using \<open>?seen present b''\<close> that(1) \<open>\<And>b''. watched ?m b'' k ?Q\<close>
        by (simp, intro watched_bindI [OF rollback_sudo]) auto
    qed (auto intro!: watched_pure_bind \<open>\<And>b''. watched ?m b'' k ?Q\<close>)
    show ?thesis
    proof (cases cond)
      case True
      have r: "watched ?m b' (bind_prog (pure (ensure present m1)) (\<lambda>_.
          with_context c1 (sudo env (del_route_args (jo_device j) (jo_include_route j))))) (\<lambda>res b''. (\<exists>u. res = Ok u) \<longrightarrow> ?seen present b'')"
        by (rule watched_pure_bind, rule watched_mono [OF rollback_sudo]) (use that(1) in auto)
      show ?thesis unfolding if_P [OF True] by (rule watched_bindI [OF r], rule dev) auto
    next
      case False
      show ?thesis unfolding if_not_P [OF False] by (rule watched_pure_bind, rule dev) (use that(1) in auto)
    qed
  qed
  have verify: "watched ?m b' (if present then verify_linux_tun_device_identity env (jo_device j) (jo_device_identity j) else pure (Ok ()))
      (\<lambda>res b''. res = Ok () \<longrightarrow> ?seen present b'')" for b' present
    using rollback_identity [of path j b' env] by (cases present) (auto intro: watched_mono)
  show ?thesis
    unfolding run_linux_tun_helper_rollback_def Let_def
    apply (rule watched_pure_bind)
      apply (rule watched_bindI [OF rollback_baseline [OF route]])
        apply (rule watched_seq [OF rollback_device_present])
        apply (rule watched_bindI [OF verify])
          apply (rule watched_bindI [OF rollback_show_route])
            apply (rule delete [OF _ finish])
            apply auto
    done
qed

subsection \<open>The theorems\<close>

lemma journal_reads_back:
  "journal_of_json (journal_json opts rp probe device_identity) path
     = Ok \<lparr>jo_device = so_device opts, jo_device_identity = device_identity, jo_include_route = so_include_route opts,
           jo_tun_addr = so_tun_addr opts, jo_route_probe = probe,
           jo_approved_host_label = (case so_approved_host_label opts of None \<Rightarrow> ascii ''absent'' | Some v \<Rightarrow> v)\<rparr>"
  by (simp add: journal_of_json_def journal_json_def require_json_string_def require_json_u64_def json_get_def ensure_def)

text \<open>C32. Whatever the machine answers, and wherever the smoke test stops: it runs privileged commands only if the operator
approved them, on an approved Linux host with the conflict check done; only the seven commands for its own device and
route, and only while its complete journal is on disk; it deletes only a device it has just identified as its own; and
it removes the journal only when its deletions have reported success for all it made. So at the end the device and the
route, if they exist as far as the exit statuses and the last look tell, are recorded in the journal, with one exception:
the journal is removed before the last look, and when that look finds what was reported deleted, the run ends with the
error that a residue remains. A success leaves neither device nor route nor journal, and the machine has shown that device
and route are gone.\<close>

theorem smoke_test_accounted:
  assumes "parse_tun_route (so_include_route opts) = Ok route" "phase_a_route_probe (so_include_route opts) = Ok probe"
    and "r = smoke_run_of se jl opts (smoke_plan opts route) probe"
  shows "\<exists>res l w. tun_helper_smoke se jl env opts [] = (res, l) \<and> watch (smoke_monitor r) smoke_start l = Some w \<and> ends_well r res w"
proof -
  have "untouched smoke_start" by (simp add: untouched_def smoke_start_def)
  then obtain res w l where "tun_helper_smoke se jl env opts [] = (res, [] @ l)" "watch (smoke_monitor r) smoke_start l = Some w"
    "ends_well r res w" by (rule watchedD [OF tun_helper_smoke_watched [OF assms]])
  then show ?thesis by auto
qed

text \<open>The exception is reachable: where every command reports success and the device stays, the run has removed its journal
when it finds the device again. The rollback looks first and removes the journal last.\<close>

lemma residue_left_unrecorded:
  assumes "verify_linux_tun_device_identity env (so_device opts) device_identity l = (Ok (), l1)"
    and "\<And>l program args. env l (Run program args) = Stdout []" "\<And>l. env l (RemoveFile path) = Done"
  shows "\<exists>l2. smoke_succeeded se env opts device_identity path baseline True True lines l
     = (Err (Bail (ascii ''TUN helper smoke residue remains for device '' @ so_device opts)), l1 @ l2) \<and> (RemoveFile path, Done) \<in> set l2"
proof -
  have r: "sudo env args l = (Ok (), l @ [(Run (ascii ''sudo'') (ascii ''-n'' # ascii ''ip'' # args), Stdout [])])" for args l
    by (simp add: sudo_def run_checked_def command_stdout_def call_def assms(2) Let_def bind_prog_def pure_def)
  have d: "device_present env d l = (True, l @ [(Run (ascii ''ip'') [ascii ''link'', ascii ''show'', ascii ''dev'', d], Stdout [])])" for d l
    by (simp add: device_present_def command_success_def call_def assms(2) Let_def)
  show ?thesis
    by (simp add: smoke_succeeded_def cleanup_linux_tun_helper_smoke_def collect_def assms r d Let_def bind_prog_def pure_def
        ensure_def with_context_def unit_call_def call_def verify_linux_tun_helper_residue_def)
qed
text \<open>C33. Whatever the machine answers, the rollback runs only the two deletions named in its journal, each after the
device has been identified by its alias and its kind, and removes the journal only after the machine has shown that
neither the device nor the route is left.\<close>

theorem rollback_removes_journal_last:
  assumes "phase_a_route_probe (jo_include_route j) = Ok probe"
  shows "\<exists>res l b. run_linux_tun_helper_rollback se env path j [] = (res, l)
     \<and> watch (rollback_monitor path j) rollback_start l = Some b
     \<and> ((\<exists>ls. res = Ok ls) \<longrightarrow> b_device_gone b \<and> b_route_gone b)"
proof -
  have "jo_include_route j \<noteq> ascii ''default''" using assms by (auto simp: phase_a_route_probe_def split: if_splits)
  then obtain res b l where "run_linux_tun_helper_rollback se env path j [] = (res, [] @ l)"
    "watch (rollback_monitor path j) rollback_start l = Some b" "(\<exists>ls. res = Ok ls) \<longrightarrow> b_device_gone b \<and> b_route_gone b"
    by (rule watchedD [OF run_rollback_watched])
  then show ?thesis by auto
qed

definition sample_machine :: machine where
  "sample_machine = \<lparr>se_linux = True, se_approval = Some (ascii ''1''), se_temp_dir = ascii ''/tmp'', se_random_id = ascii ''x'',
     se_digest = (\<lambda>b. b)\<rparr>"

definition sample_json :: json_library where
  "sample_json = \<lparr>to_string_pretty = (\<lambda>_. ascii ''{}''), from_str = (\<lambda>_. None)\<rparr>"

definition sample_options :: TunHelperSmokeOptions where
  "sample_options = \<lparr>so_apply = True, so_device = ascii ''tun0'', so_include_route = ascii ''192.0.2.0/24'',
     so_tun_addr = TUN_HELPER_DEFAULT_ADDR, so_approved_host_label = Some APPROVED_TUN_HELPER_HOST_LABEL,
     so_proxy_vpn_conflict_checked = True, so_rollback_journal = Some (ascii ''/tmp/j'')\<rparr>"

definition sample_journal :: TunHelperRollbackJournal where
  "sample_journal = \<lparr>jo_device = ascii ''tun0'', jo_device_identity = ascii ''maverick-tun-helper:x'',
     jo_include_route = ascii ''192.0.2.0/24'', jo_tun_addr = TUN_HELPER_DEFAULT_ADDR, jo_route_probe = ascii ''192.0.2.1'',
     jo_approved_host_label = APPROVED_TUN_HELPER_HOST_LABEL\<rparr>"

text \<open>A machine without the device, on which every command succeeds.\<close>

definition sample_environment :: environment where
  "sample_environment l c =
     (case c of
        Run _ args \<Rightarrow>
          if args = [ascii ''link'', ascii ''show'', ascii ''dev'', ascii ''tun0''] then Exit []
          else if args = [ascii ''route'', ascii ''get'', ascii ''192.0.2.1''] then Stdout (ascii ''192.0.2.1 dev tun0'')
          else Stdout []
      | ReadFile f \<Rightarrow>
          Content (if f = sysfs_file (ascii ''tun0'') (ascii ''ifalias'') then ascii ''maverick-tun-helper:x'' else ascii ''0x1'')
      | ParentIsDir _ \<Rightarrow> Parent (Some True)
      | Exists _ \<Rightarrow> Flag False
      | _ \<Rightarrow> Done)"

definition sample_documentation_route :: TunRoute where
  "sample_documentation_route = \<lparr>tr_network = V4 (ipv4_from [192, 0, 2, 0]), tr_prefix_len = 24\<rparr>"

lemma sample_route_parsed: "parse_tun_route (ascii ''192.0.2.0/24'') = Ok sample_documentation_route"
proof -
  have "display_ipv4 (ipv4_from [192, 0, 2, 0]) = ascii ''192.0.2.0''"
    by (simp add: display_ipv4_def dec.simps ascii_def)
  then have ip: "parse_ip (ascii ''192.0.2.0'') = Some (V4 (ipv4_from [192, 0, 2, 0]))"
    using parse_display_ipv4(2) [of "ipv4_from [192, 0, 2, 0]"] by simp
  have "dec (unat (24 :: u8)) = ascii ''24''" by (simp add: dec.simps ascii_def)
  then have len: "parse_u8 (ascii ''24'') = Some 24" using parse_u8_dec [of 24] by simp
  have "ascii ''192.0.2.0/24'' = ascii ''192.0.2.0'' @ 47 # ascii ''24''" "47 \<notin> set (ascii ''192.0.2.0'')"
    by (simp_all add: ascii_def)
  then have "split_once 47 (ascii ''192.0.2.0/24'') = Some (ascii ''192.0.2.0'', ascii ''24'')" by simp
  then show ?thesis using ip len by (simp add: parse_tun_route_def sample_documentation_route_def)
qed

theorem smoke_test_accounted_witness:
  "\<exists>res l w. tun_helper_smoke sample_machine sample_json sample_environment sample_options [] = (res, l)
     \<and> watch (smoke_monitor (smoke_run_of sample_machine sample_json sample_options
           (smoke_plan sample_options sample_documentation_route) (ascii ''192.0.2.1''))) smoke_start l = Some w
     \<and> ends_well (smoke_run_of sample_machine sample_json sample_options
           (smoke_plan sample_options sample_documentation_route) (ascii ''192.0.2.1'')) res w"
  by (rule smoke_test_accounted) (simp_all add: sample_options_def sample_route_parsed phase_a_route_probe_def)

theorem rollback_removes_journal_last_witness:
  "\<exists>res l b. run_linux_tun_helper_rollback sample_machine sample_environment (ascii ''/tmp/j'') sample_journal [] = (res, l)
     \<and> watch (rollback_monitor (ascii ''/tmp/j'') sample_journal) rollback_start l = Some b"
proof -
  have "phase_a_route_probe (jo_include_route sample_journal) = Ok (ascii ''192.0.2.1'')"
    by (simp add: sample_journal_def phase_a_route_probe_def)
  from rollback_removes_journal_last [OF this] show ?thesis by blast
qed

end
