(* ===== verification/Spec2Isabelle.thy ===== *)
theory Spec2Isabelle
  imports Client_Handshake Config_Document Tunnel_Session Connection_Limit Pool_Tasks Tun_Packet Tun_Helper_Safety
begin

text \<open>
  Verification of maverick, an authenticated tunnel over HTTP/2.

  \<^bold>\<open>The program.\<close> A client offers local listeners and carries their connections through a tunnel: one
  HTTP/2 request per flow whose body is a sequence of gRPC messages, each holding one frame. The
  server authenticates the first frame, a client hello, against its users and replay caches, answers
  with a server hello, opens the target the client asks for under its egress policy, and relays bytes
  both ways. Whoever does not authenticate is shown an ordinary web site. Both sides read a
  configuration document, validate it, and may shape their traffic with padding.

  \<^bold>\<open>How it is modelled.\<close> Bytes are \<open>8 word\<close>, the integers of the source keep their width where it matters
  (\<open>u16\<close>, \<open>u32\<close>, \<open>u64\<close>, and \<open>i64\<close> read with \<open>sint\<close>), \<open>usize\<close> is \<open>nat\<close> with its bound written out where the
  code checks it or where an addition could pass it (\<open>add_usize\<close> panics then), durations and instants are nanoseconds. Strings are their UTF-8 bytes. A fallible
  function returns an \<open>outcome\<close>: a value, an error, or a panic. Libraries are arguments: the MAC and the
  key derivation (\<open>Crypto\<close> with \<open>crypto_ok\<close>), random generators (\<open>rng_ok\<close>, \<open>fill_ok\<close>), base64, RFC 3339
  dates, hash functions, clocks, the YAML and JSON libraries. The network is a script of answers: what the HTTP/2
  library delivers and how each send ends, what the resolver says, how connection attempts end.

  \<^bold>\<open>The theories\<close>, with the sources they follow under \<open>src/crates\<close>:

  \<^item> \<open>Mav_Prelude\<close>, \<open>Mav_Text\<close>, \<open>Mav_Error\<close>, \<open>Mav_Net\<close>, \<open>Mav_Parse\<close>, \<open>F64\<close>: outcomes, words and big-endian cursors,
    UTF-8 and decimal text, the error type (\<open>maverick-core/src/error.rs\<close>), addresses, the parsing functions of the
    standard library, and the floating point arithmetic the shaping budget uses.
  \<^item> \<open>Mav_Tasks\<close>: counting tasks, and the contract of a lock held by tasks as a locale; used by the two task systems.
  \<^item> \<open>Mav_Syscalls\<close>: programs that run commands and touch files, as functions of the log of their system calls, and
    rules to show that a monitor accepts all they do in every environment.
  \<^item> \<open>Stream_Codec\<close>: the contract of an incremental decoder as a locale, interpreted by the next two.
  \<^item> \<open>Frame_Codec\<close>, \<open>Grpc_Codec\<close> (\<open>frame.rs\<close>, \<open>grpc.rs\<close>): frames, payloads, gRPC messages. Decoders accept
    exactly the encodings, wait within bounds, and never panic.
  \<^item> \<open>Replay_Cache\<close>, \<open>Sharded_Replay\<close> (\<open>replay.rs\<close>, \<open>server.rs\<close>): the replay cache refines a set; nothing is accepted
    twice; its size is bounded; the shards behave like one cache.
  \<^item> \<open>Mode_Secret\<close>, \<open>Auth_Hello\<close>, \<open>Auth_Hello_V2\<close> (\<open>config.rs\<close>, \<open>auth.rs\<close>): secrets and hellos of both versions; the
    authenticated bytes determine every field, and roles and versions are separated.
  \<^item> \<open>Crypto_Policy\<close> (\<open>crypto.rs\<close>): the suites, the policy, the Noise prologue.
  \<^item> \<open>Auth_Config\<close>, \<open>User_Store\<close> (\<open>config.rs\<close>, \<open>maverick-server/src/users.rs\<close>): credentials, rotation, lookup.
  \<^item> \<open>Egress_Policy\<close> (\<open>config.rs\<close>): the policy is a table of prefixes, and the embeddings of an IPv4 address the
    code reads do not evade it; the local-use NAT64 prefix is not among them and counts as private.
  \<^item> \<open>Advanced_Config\<close>, \<open>Node_Config\<close>, \<open>Config_Document\<close> (\<open>config.rs\<close>): the configuration with its validation, and
    the reading of a versioned document that refuses unknown keys.
  \<^item> \<open>Server_Auth\<close> (\<open>server.rs\<close>), \<open>Client_Handshake\<close> (\<open>maverick-client/src/tunnel.rs\<close>): the handshake on both sides. A
    hello is accepted exactly when it is authentic, never twice, and honest peers succeed.
  \<^item> \<open>Auth_Gate\<close>, \<open>Connection_Limit\<close> (\<open>auth_gate.rs\<close>): the limiter of failed authentications, and the connection
    limits under every interleaving of tasks, as a step relation.
  \<^item> \<open>Padding_Policy\<close> (\<open>padding.rs\<close>, \<open>tunnel.rs\<close>): padding, cover traffic and batching stay within their budgets.
  \<^item> \<open>Frame_IO\<close> (\<open>relay.rs\<close>, \<open>tunnel.rs\<close>): frames on HTTP/2 bodies; what one side writes the other reads, in any
    chunking and with any padding.
  \<^item> \<open>Relay\<close>, \<open>Target_Open\<close> (\<open>relay.rs\<close>): the relay loop as a step relation over its branches, and the race of
    connection attempts under the egress policy.
  \<^item> \<open>Tunnel_Session\<close> (\<open>server.rs\<close>, \<open>relay.rs\<close>): one request at the server with all its handlers, refined to an automaton
    of phases; what a probe sees.
  \<^item> \<open>Client_Pool\<close>, \<open>Pool_Tasks\<close> (\<open>maverick-client/src/connection_manager.rs\<close>): the pool of HTTP/2 connections, its counters
    and histograms, and the callers as interleaved tasks. Streams are counted exactly, one connection is made at a time,
    and every call to open a tunnel ends.
  \<^item> \<open>Tun_Packet\<close>, \<open>Tun_Plan\<close> (\<open>maverick-core/src/tun.rs\<close>): the classification of packets equals a layout of headers, byte
    by byte; a plan passes its gates under exact conditions, and its rollback undoes each of its actions, stage by stage.
    Nothing in the repository executes these actions, so they are data. The gate for default routes can be evaded by a prefix of length 0 with another address.
  \<^item> \<open>Tun_Helper\<close>, \<open>Tun_Helper_Safety\<close> (\<open>maverick-cli/src/main.rs\<close>): the TUN smoke test and its rollback with every command
    they run; whatever the machine answers, what they leave behind is recorded in a journal, unless the smoke test finds
    in its last look, after it removed the journal, what its deletions had reported as deleted.
  \<^item> This theory: a tunnelled connection from end to end, and where the parts do not fit together.

  \<^bold>\<open>Bounds and termination.\<close> No definition uses fuel. The reading loops end because every pass shortens the buffer
  or the remaining body; the loop of a UDP flow runs over the frames its body holds. Loops that wait for
  the outside, the relay and the connection race, are step relations and event scripts: their theorems
  hold at every moment of every run, and the race is shown to end after two events per address.

  \<^bold>\<open>Not modelled.\<close> Pure I/O and glue: the accept loops, TLS, HTTP/2, WebSocket and QUIC libraries and the code
  that only wires them up, the metrics listener, logging, signal handling, and the file access of configuration
  loading. The rate limiter, pacing and stall timers only delay; their effect appears as answers. The WebSocket and
  HTTP/3 variants of the tunnel, the static file site, the local SOCKS, HTTP CONNECT and DNS listeners, the TUN
  runtime with its TCP/IP stack, version 2 of the configuration document, the SDK and the other commands of the
  command line tool are not modelled; neither are the test tools.
\<close>

section \<open>A tunnelled connection from end to end\<close>

definition tcp_frames :: "u64 \<Rightarrow> bytes list \<Rightarrow> Frame list" where
  "tcp_frames fid datas = map (Frame_new TcpData 0 fid) datas @ [Frame_new TcpFin 0 fid []]"

lemma tcp_frames_carried:
  "carried fid (tcp_frames fid datas) = concat datas"
  "carried fid (takeWhile (\<lambda>f. \<not> of_flow fid {TcpFin, CloseFlow} f) (tcp_frames fid datas)) = concat datas"
proof -
  have d: "\<not> of_flow fid {TcpFin, CloseFlow} (Frame_new TcpData 0 fid d)" "of_flow fid {TcpData} (Frame_new TcpData 0 fid d)"
      "payload (Frame_new TcpData 0 fid d) = d" "of_flow fid {TcpFin, CloseFlow} (Frame_new TcpFin 0 fid [])"
      "\<not> of_flow fid {TcpData} (Frame_new TcpFin 0 fid [])" for d
    by (simp_all add: of_flow_def Frame_new_def)
  have "takeWhile (\<lambda>f. \<not> of_flow fid {TcpFin, CloseFlow} f) (tcp_frames fid datas) = map (Frame_new TcpData 0 fid) datas"
    unfolding tcp_frames_def by (subst takeWhile_append2) (auto simp: d)
  moreover have "carried fid (map (Frame_new TcpData 0 fid) datas) = concat datas"
    by (induction datas) (simp_all add: carried_def d)
  ultimately show "carried fid (tcp_frames fid datas) = concat datas"
    "carried fid (takeWhile (\<lambda>f. \<not> of_flow fid {TcpFin, CloseFlow} f) (tcp_frames fid datas)) = concat datas"
    by (simp_all add: tcp_frames_def carried_snoc d)
qed

lemma client_wire_read:
  assumes "fill_ok fill" "m \<le> MAX_NEGOTIATED_FRAME_SIZE" "\<forall>f \<in> set fs. length (payload f) \<le> m \<and> frame_type f \<noteq> Padding"
    and "client_wire fill r m (RuntimeBatcher_from_config mode cfg) p c fs = Ok wire" "concat chunks = wire"
  shows "read_all_h2 m (data_events chunks) [] = (fs, Ok None)"
proof -
  have ok: "\<forall>f \<in> set fs. grpc_ok m f"
    using assms(2,3) by (auto simp: grpc_ok_def FRAME_HEADER_LEN_def MAX_NEGOTIATED_FRAME_SIZE_def USIZE_MAX_def)
  from client_wire_padded [OF assms(1,2) ok batcher_new_inv(2), of r mode cfg p c] obtain bss
    where "wire = concat (concat bss)" "list_all2 (padded m) fs bss" using assms(4) by auto
  then show ?thesis using read_all_padded [of m fs bss "[]" chunks] ok assms(3,5) by simp
qed

text \<open>C6. A tunnelled connection is a faithful pair of byte streams, from the frames the client builds to the bytes the
target takes and back, under a validated server configuration. The client's data frames go through its batching, padding
and cover traffic onto the wire and arrive in any chunking; the relay at the server may interleave its branches in any
way. Then the target gets a beginning of the client's bytes, and all of them once the client's end was seen; and what the
relay has sent is a beginning of a stream the client reads as exactly what the target delivered, in full when the
response is closed.\<close>

theorem tunnel_end_to_end:
  assumes "ServerConfig_validate b rfc b64dec config = Ok ()"
  defines "m \<equiv> unat (sad_max_frame_size (scf_advanced config))"
  assumes "fill_ok cfill" "fill_ok sfill" "\<forall>d \<in> set datas. length d \<le> m"
    and "client_wire cfill r m (RuntimeBatcher_from_config mode shaping) cp cc (tcp_frames fid datas) = Ok wire"
    and "concat chunks = wire"
    and "relay_returns \<lparr>ry_fill = sfill, ry_padding = sp, ry_cover_traffic = sc, ry_max_frame_size = m, ry_flow_id = fid\<rparr>
           (relay_start r' (data_events chunks) []) res s"
  shows "res \<noteq> Panic \<and> prefix (rl_written s) (concat datas) \<and> (rl_client_eof s \<longrightarrow> rl_written s = concat datas)
     \<and> (\<exists>answers wire. concat answers = rl_from_target s \<and> prefix (rl_sent s) wire
          \<and> (\<forall>chunks. concat chunks = wire \<longrightarrow>
                read_all_h2 m (data_events chunks) [] = (target_frames fid answers (rl_target_eof s), Ok None))
          \<and> (rl_trailers s \<longrightarrow> rl_target_eof s \<and> rl_sent s = wire))"
proof -
  let ?y = "\<lparr>ry_fill = sfill, ry_padding = sp, ry_cover_traffic = sc, ry_max_frame_size = m, ry_flow_id = fid\<rparr>"
  have m: "65536 \<le> m" "m \<le> MAX_NEGOTIATED_FRAME_SIZE"
    using ServerConfig_validate_OkD(10,11) [OF assms(1)] by (simp_all add: m_def MAX_NEGOTIATED_FRAME_SIZE_def)
  have y: "policy_ok ?y" using assms(4) m by (simp add: policy_ok_def)
  have "\<forall>f \<in> set (tcp_frames fid datas). length (payload f) \<le> m \<and> frame_type f \<noteq> Padding"
    using assms(5) by (auto simp: tcp_frames_def Frame_new_def)
  from client_wire_read [OF assms(3) m(2) this assms(6,7)]
  have read: "fst (read_all_h2 m (data_events chunks) []) = tcp_frames fid datas" by simp
  note ret = relay_returns_ok [OF assms(8) y, simplified, unfolded read]
  then have "in_final ?y (tcp_frames fid datas) s" by simp
  then have "prefix (rl_written s) (concat datas)" "rl_client_eof s \<longrightarrow> rl_written s = concat datas"
    unfolding in_final_def RelayPolicy.select_convs tcp_frames_carried by blast+
  with ret out_final_read [OF _ y] show ?thesis by simp
qed

theorem tunnel_end_to_end_witness:
  "let c = RuntimeCoverTraffic_from_config Private example_shaping; frames = tcp_frames 1 [[1, 2, 3], [4]] in
   \<exists>wire s. client_wire zero_fill () 65536 (RuntimeBatcher_from_config Private example_shaping) RuntimePadding_disabled c frames = Ok wire
     \<and> relay_returns \<lparr>ry_fill = zero_fill, ry_padding = RuntimePadding_disabled, ry_cover_traffic = c,
           ry_max_frame_size = 65536, ry_flow_id = 1\<rparr> (relay_start () (data_events [wire]) []) (Ok ()) s
     \<and> prefix (rl_written s) [1, 2, 3, 4]"
proof -
  let ?c = "RuntimeCoverTraffic_from_config Private example_shaping" and ?fs = "tcp_frames 1 [[1, 2, 3], [4]]"
  let ?y = "\<lparr>ry_fill = zero_fill, ry_padding = RuntimePadding_disabled, ry_cover_traffic = ?c, ry_max_frame_size = 65536, ry_flow_id = 1\<rparr>"
  have size: "unat (sad_max_frame_size (scf_advanced (example_server_config v2_off))) = 65536"
    by (simp add: example_server_config_def ServerAdvancedConfig_default_def default_max_frame_size_def DEFAULT_MAX_FRAME_SIZE_def)
  have ok: "\<forall>f \<in> set ?fs. grpc_ok 65536 f" by (simp add: tcp_frames_def Frame_new_def grpc_ok_def FRAME_HEADER_LEN_def USIZE_MAX_def)
  obtain wire where w: "client_wire zero_fill () 65536 (RuntimeBatcher_from_config Private example_shaping) RuntimePadding_disabled ?c ?fs
      = Ok wire"
    using client_wire_padded [OF zero_fill_ok _ ok batcher_new_inv(2), of "()" Private example_shaping RuntimePadding_disabled ?c]
    by (auto simp: MAX_NEGOTIATED_FRAME_SIZE_def)
  let ?s = "relay_start () (data_events [wire]) []"
  have r: "relay_returns ?y ?s (Ok ()) ?s"
    by (rule branch [OF start, where ev = IdleTimeout]) (simp add: relay_step_def relay_start_def relay_done_def)
  have "prefix (rl_written ?s) (concat [[1, 2, 3], [4]])"
    using tunnel_end_to_end [OF example_server_config_ok zero_fill_ok zero_fill_ok, where datas = "[[1, 2, 3], [4]]" and chunks = "[wire]",
        unfolded size, OF _ w _ r] by simp
  with w r show ?thesis unfolding Let_def by auto
qed

section \<open>Where the parts do not fit together\<close>

text \<open>The validation of a configuration admits credential identifiers the version 1 decoder refuses: such a client can
never be understood.\<close>

lemma long_credential_id_refused:
  assumes "length (ch_client_nonce h) = 32" "512 < length (ch_credential_id h)" "length (ch_credential_id h) \<le> 65535"
  shows "validate_auth_v1_string_len field (ch_credential_id h) = Ok ()"
    and "ClientHello_decode (ClientHello_encode h) \<noteq> Ok h'"
proof -
  show "validate_auth_v1_string_len field (ch_credential_id h) = Ok ()"
    using assms(3) by (simp add: validate_len_iff)
  show "ClientHello_decode (ClientHello_encode h) \<noteq> Ok h'"
  proof
    assume "ClientHello_decode (ClientHello_encode h) = Ok h'"
    then have e: "ClientHello_encode h = ClientHello_encode h'" and ok: "client_hello_ok h'" by (simp_all add: ClientHello_decode_iff)
    have prefix: "take 2 (drop 42 (ClientHello_encode x)) = put_u16 (of_nat (length (ch_credential_id x)))"
      if "length (ch_client_nonce x) = 32" for x
      using that by (simp add: ClientHello_encode_def put_string_def)
    have "put_u16 (of_nat (length (ch_credential_id h))) = put_u16 (of_nat (length (ch_credential_id h')))"
      using prefix [OF assms(1)] prefix [of h'] ok unfolding e by (simp add: client_hello_ok_def)
    then show False
      using assms(2,3) ok of_nat_u16_inject [of "length (ch_credential_id h)" "length (ch_credential_id h')"]
      by (simp add: put_inject client_hello_ok_def)
  qed
qed

text \<open>Validation looks at the users one by one: a configuration with the same user twice passes, and the server then fails
to start on it.\<close>

lemma duplicate_users_validated:
  defines "config \<equiv> (example_server_config v2_off)\<lparr>scf_users := [peer_user, peer_user]\<rparr>"
  shows "ServerConfig_validate example_build rfc example_b64 config = Ok ()"
    and "server_state rfc dummy config = Err ''duplicate active user credential id''"
proof -
  show "server_state rfc dummy config = Err ''duplicate active user credential id''"
    by (simp add: config_def server_state_def example_server_config_def UserStore_new_def peer_user_def)
  have "validate_users rfc example_b64 (scf_auth (example_server_config v2_off)) [peer_user] = Ok ()"
    using ServerConfig_validate_OkD(2) [OF example_server_config_ok] validate_users_Ok_iff by (simp add: example_server_config_def)
  then have "validate_users rfc example_b64 (scf_auth (example_server_config v2_off)) [peer_user, peer_user] = Ok ()"
    by (simp add: validate_users_Ok_iff)
  then show "ServerConfig_validate example_build rfc example_b64 config = Ok ()"
    using example_server_config_ok [of rfc] by (simp add: config_def ServerConfig_validate_def Let_def and_then_Ok_iff example_server_config_def)
qed

text \<open>An opening frame for an empty host name can be built and is refused by the decoder.\<close>

lemma empty_domain_not_understood:
  "is_ok (OpenTcpPayload_encode (OpenTcpPayload_new (Domain []) p))"
  "and_then (OpenTcpPayload_encode (OpenTcpPayload_new (Domain []) p)) OpenTcpPayload_decode = Err (MalformedFrame ''truncated domain'')"
  by (simp_all add: OpenTcpPayload_encode_def OpenTcpPayload_new_def OpenTcpPayload_decode_def decode_target_def put_u8_def)

text \<open>A reply that fits a datagram need not fit a frame together with the name of its target: then the whole UDP flow ends
with an error, without a frame that says so.\<close>

lemma no_padding:
  assumes "\<not> shp_enabled (sad_shaping (scf_advanced c))"
  shows "server_padding c = Ok RuntimePadding_disabled"
    and "padding_frame fill r RuntimePadding_disabled t n m = (None, r)"
    and "padding_frames fill r (server_cover_traffic c) t n m = ([], r)"
  using assms
  by (simp_all add: server_padding_def RuntimePadding_from_config_def padding_frame_def RuntimePadding_disabled_def
      padding_frames_def server_cover_traffic_def RuntimeCoverTraffic_from_config_def RuntimeCoverTraffic_disabled_def
      cover_traffic_decision_def decision_rejected_def ShapingConfig_default_def)

lemma large_udp_reply_ends_flow:
  assumes "UdpPacketPayload_decode (payload frame) = Ok packet" "up_target packet = Domain host" "20 < length host" "length host \<le> 255"
    and "ss_lookups s = (\<lambda>_. LookupOk [addr]) # ls" "allows_ip (sad_egress (scf_advanced c)) (sa_ip addr)"
    and "ss_datagrams s = Some reply # ds" "length reply = 65507"
    and "\<not> shp_enabled (sad_shaping (scf_advanced c))" "sad_max_frame_size (scf_advanced c) = 65536"
  shows "\<exists>e. fst (send_udp_packet_response w c frame s) = Err (IoCore e)
     \<and> ss_trace (snd (send_udp_packet_response w c frame s))
         = ss_trace s @ [Resolved (to_authority (Domain host) (up_port packet)), Reached addr]"
proof -
  define out where "out = put_u8 0x03 @ put_u16 (of_nat (length host)) @ host @ put_u16 (up_port packet)
     @ put_u32 (of_nat (length reply)) @ reply"
  have enc: "UdpPacketPayload_encode (UdpPacketPayload_new (Domain host) (up_port packet) reply) = Ok out"
    using assms(4) by (simp add: UdpPacketPayload_encode_def OpenTcpPayload_encode_def UdpPacketPayload_new_def out_def)
  have "length out > 65536" using assms(3,8) by (simp add: out_def)
  then obtain e where e: "encode_grpc_frame (Frame_new UdpPacket 0 (flow_id frame) out) 65536 = Err e"
    by (auto simp: encode_grpc_frame_def Frame_encode_def Frame_new_def)
  show ?thesis
    using assms enc e
    by (simp add: send_udp_packet_response_def answer_udp_packet_def exchange_udp_def lookup_host_def next_datagram_def
        relay_udp_packet_def first_allowed_addr_def resolve_allowed_addresses_def bind_step_def Let_def ret_def emit_def
        send_h2_server_frame_def of_result_def send_frame_with_padding_def no_padding send_frame_def)
qed

end
